(* ===== verification/Prelude.thy ===== *)
theory Prelude
  imports Main
    "HOL-Library.List_Lexorder" "HOL-Library.Char_ord"
    "HOL-Library.Product_Lexorder" "HOL-Library.Option_ord"
begin

text \<open>
  Shared vocabulary of the development: the error monad in which every fallible
  operation of the durable-workload kernel is written, the relational table
  operations its SQL statements use (select, update, delete, order and limit),
  the evolution of a table under updates, and two interfaces stated as locales:
  preorders that describe how one row may change, and transition systems with an
  inductive invariant.
\<close>

section \<open>Names, collections\<close>

type_synonym instant = int
type_synonym ident = string

named_theorems tx_simps \<open>inversion of successful transactions\<close>
named_theorems frame_simps \<open>tables an operation leaves alone\<close>
named_theorems evolve_intros \<open>introduction rules for row evolution\<close>

section \<open>The error monad\<close>

text \<open>
  A Python function that may raise returns \<open>'e + 'a\<close>: \<open>Inl\<close> is the exception,
  \<open>Inr\<close> the value. An operation inside \<open>with self._transaction()\<close> threads the
  database explicitly; an exception discards the new database, as the rollback does.
\<close>

definition bindE :: "'e + 'a \<Rightarrow> ('a \<Rightarrow> 'e + 'b) \<Rightarrow> 'e + 'b" where
  "bindE m f = (case m of Inl e \<Rightarrow> Inl e | Inr x \<Rightarrow> f x)"

definition requireE :: "bool \<Rightarrow> 'e \<Rightarrow> 'e + unit" where
  "requireE b e = (if b then Inr () else Inl e)"

definition optE :: "'a option \<Rightarrow> 'e \<Rightarrow> 'e + 'a" where
  "optE x e = (case x of None \<Rightarrow> Inl e | Some v \<Rightarrow> Inr v)"

lemma bindE_simps [simp]:
  "bindE (Inl e) f = Inl e"
  "bindE (Inr x) f = f x"
  by (simp_all add: bindE_def)

lemma bindE_assoc: "bindE (bindE m f) g = bindE m (\<lambda>x. bindE (f x) g)"
  by (cases m) simp_all

lemma bindE_Inr_iff [tx_simps]:
  "bindE m f = Inr y \<longleftrightarrow> (\<exists>x. m = Inr x \<and> f x = Inr y)"
  by (cases m) auto

lemma requireE_Inr_iff [tx_simps]: "requireE b e = Inr u \<longleftrightarrow> b"
  by (simp add: requireE_def)

lemma requireE_simps [simp]:
  "requireE True e = Inr ()"
  "requireE False e = Inl e"
  by (simp_all add: requireE_def)

lemma optE_Inr_iff [tx_simps]: "optE x e = Inr v \<longleftrightarrow> x = Some v"
  by (cases x) (simp_all add: optE_def)

lemma optE_simps [simp]: "optE None e = Inl e" "optE (Some v) e = Inr v"
  by (simp_all add: optE_def)

lemma if_Inl_Inr_iff [tx_simps]: "(if b then Inl e else m) = Inr y \<longleftrightarrow> \<not> b \<and> m = Inr y"
  by simp

lemma bindE_cong [fundef_cong]:
  assumes "m = m'" and "\<And>x. m' = Inr x \<Longrightarrow> f x = f' x"
  shows "bindE m f = bindE m' f'"
  using assms by (cases m') auto

text \<open>A run that returns a value with a property, in the form that evaluates.\<close>

definition succeeds_with :: "'e + 'a \<Rightarrow> ('a \<Rightarrow> bool) \<Rightarrow> bool" where
  "succeeds_with m Q = (case m of Inl _ \<Rightarrow> False | Inr x \<Rightarrow> Q x)"

lemma succeeds_withE:
  assumes "succeeds_with m Q"
  obtains x where "m = Inr x" and "Q x"
  using assms by (auto simp: succeeds_with_def split: sum.splits)

text \<open>A \<open>for\<close> loop over rows in which an iteration may raise.\<close>

fun foldE :: "('a \<Rightarrow> 's \<Rightarrow> 'e + 's) \<Rightarrow> 'a list \<Rightarrow> 's \<Rightarrow> 'e + 's" where
  "foldE f [] s = Inr s"
| "foldE f (x # xs) s = bindE (f x s) (foldE f xs)"

lemma foldE_invariant:
  assumes "foldE f xs s = Inr s'" and "Q s"
    and "\<And>x s t. x \<in> set xs \<Longrightarrow> Q s \<Longrightarrow> f x s = Inr t \<Longrightarrow> Q t"
  shows "Q s'"
  using assms by (induction xs arbitrary: s) (auto simp: bindE_Inr_iff)

lemma foldE_append: "foldE f (xs @ ys) s = bindE (foldE f xs s) (foldE f ys)"
proof (induction xs arbitrary: s)
  case Nil
  show ?case by simp
next
  case (Cons x xs)
  then have "foldE f (xs @ ys) = (\<lambda>t. bindE (foldE f xs t) (foldE f ys))"
    by (simp add: fun_eq_iff)
  then show ?case by (simp add: bindE_assoc)
qed

section \<open>Tables\<close>

text \<open>
  A table is the list of its rows. \<open>update_where\<close> is \<open>UPDATE ... SET ... WHERE\<close>,
  \<open>count_where\<close> its \<open>rowcount\<close> (and \<open>SELECT COUNT(*)\<close>), \<open>delete_where\<close> is
  \<open>DELETE ... WHERE\<close>, \<open>order_limit\<close> is \<open>ORDER BY ... LIMIT\<close> (a stable sort; SQLite
  orders NULL first, as \<open>None < Some x\<close> does).
\<close>

definition update_where :: "('r \<Rightarrow> bool) \<Rightarrow> ('r \<Rightarrow> 'r) \<Rightarrow> 'r list \<Rightarrow> 'r list" where
  "update_where P f rows = map (\<lambda>r. if P r then f r else r) rows"

definition count_where :: "('r \<Rightarrow> bool) \<Rightarrow> 'r list \<Rightarrow> nat" where
  "count_where P rows = length (filter P rows)"

definition delete_where :: "('r \<Rightarrow> bool) \<Rightarrow> 'r list \<Rightarrow> 'r list" where
  "delete_where P rows = filter (\<lambda>r. \<not> P r) rows"

definition exists_where :: "('r \<Rightarrow> bool) \<Rightarrow> 'r list \<Rightarrow> bool" where
  "exists_where P rows = list_ex P rows"

definition order_limit :: "('r \<Rightarrow> 'k::linorder) \<Rightarrow> nat \<Rightarrow> 'r list \<Rightarrow> 'r list" where
  "order_limit k n rows = take n (sort_key k rows)"

lemma update_where_simps [simp]:
  "update_where P f [] = []"
  "update_where P f (r # rs) = (if P r then f r else r) # update_where P f rs"
  by (simp_all add: update_where_def)

lemma length_update_where [simp]: "length (update_where P f rows) = length rows"
  by (simp add: update_where_def)

lemma nth_update_where [simp]:
  "i < length rows \<Longrightarrow>
     update_where P f rows ! i = (if P (rows ! i) then f (rows ! i) else rows ! i)"
  by (simp add: update_where_def)

lemma set_update_where:
  "set (update_where P f rows) = (\<lambda>r. if P r then f r else r) ` set rows"
  by (simp add: update_where_def)

lemma ball_update_where:
  "(\<forall>r \<in> set (update_where P f rows). Q r) \<longleftrightarrow> (\<forall>r \<in> set rows. Q (if P r then f r else r))"
  by (induction rows) auto

lemma bex_update_where:
  "(\<exists>r \<in> set (update_where P f rows). Q r) \<longleftrightarrow> (\<exists>r \<in> set rows. Q (if P r then f r else r))"
  by (induction rows) auto

lemma update_where_append:
  "update_where P f (xs @ ys) = update_where P f xs @ update_where P f ys"
  by (simp add: update_where_def)

lemma update_where_id: "(\<And>r. r \<in> set rows \<Longrightarrow> \<not> P r) \<Longrightarrow> update_where P f rows = rows"
  by (induction rows) auto

lemma map_update_where:
  assumes "\<And>r. r \<in> set rows \<Longrightarrow> P r \<Longrightarrow> key (f r) = key r"
  shows "map key (update_where P f rows) = map key rows"
  using assms by (induction rows) auto

lemma update_where_fieldwise:
  assumes "\<And>r. key (f r) = key r"
  shows "map key (update_where P f rows) = map key rows"
  using assms by (simp add: map_update_where)

lemma count_where_pos: "0 < count_where P rows \<longleftrightarrow> (\<exists>r \<in> set rows. P r)"
  by (induction rows) (auto simp: count_where_def)

lemma count_where_zero: "count_where P rows = 0 \<longleftrightarrow> (\<forall>r \<in> set rows. \<not> P r)"
  by (auto simp: count_where_def filter_empty_conv)

lemma count_where_one_ex: "count_where P rows = 1 \<Longrightarrow> \<exists>r \<in> set rows. P r"
  using count_where_pos [of P rows] by simp

lemma exists_where_iff [simp]: "exists_where P rows \<longleftrightarrow> (\<exists>r \<in> set rows. P r)"
  by (simp add: exists_where_def list_ex_iff)

lemma set_delete_where [simp]: "set (delete_where P rows) = {r \<in> set rows. \<not> P r}"
  by (simp add: delete_where_def)

lemma set_order_limit: "set (order_limit k n rows) \<subseteq> set rows"
  unfolding order_limit_def by (metis set_sort set_take_subset)

lemma length_order_limit: "length (order_limit k n rows) \<le> n"
  by (simp add: order_limit_def)

lemma order_limit_Nil_iff: "0 < n \<Longrightarrow> order_limit k n rows = [] \<longleftrightarrow> rows = []"
  by (metis length_0_conv length_greater_0_conv length_sort order_limit_def take_eq_Nil)

lemma find_SomeD: "find P xs = Some x \<Longrightarrow> x \<in> set xs \<and> P x"
  by (auto simp: find_Some_iff in_set_conv_nth)

lemma find_distinct_key:
  assumes "distinct (map key xs)" and "x \<in> set xs"
  shows "find (\<lambda>r. key r = key x) xs = Some x"
  using assms by (induction xs) (auto simp: rev_image_eqI)

lemma find_cong_set: "(\<And>x. x \<in> set xs \<Longrightarrow> P x = Q x) \<Longrightarrow> find P xs = find Q xs"
  by (induction xs) auto

lemma find_update_where:
  assumes "\<And>r. P r \<Longrightarrow> key (f r) = key r"
  shows "find (\<lambda>r. key r = k) (update_where P f rows) =
    map_option (\<lambda>r. if P r then f r else r) (find (\<lambda>r. key r = k) rows)"
  using assms by (induction rows) auto

section \<open>Evolution of a table\<close>

text \<open>
  \<open>rows_evolve R xs ys\<close>: every row of \<open>xs\<close> is still in the table, at the same place,
  changed only as \<open>R\<close> allows; new rows come after the old ones.
\<close>

definition rows_evolve :: "('r \<Rightarrow> 'r \<Rightarrow> bool) \<Rightarrow> 'r list \<Rightarrow> 'r list \<Rightarrow> bool" where
  "rows_evolve R xs ys \<longleftrightarrow>
     length xs \<le> length ys \<and> (\<forall>i < length xs. R (xs ! i) (ys ! i))"

lemma rows_evolveD: "rows_evolve R xs ys \<Longrightarrow> x \<in> set xs \<Longrightarrow> \<exists>y \<in> set ys. R x y"
  by (metis in_set_conv_nth order_less_le_trans rows_evolve_def)

lemma rows_evolve_mono:
  "rows_evolve R xs ys \<Longrightarrow> (\<And>x y. R x y \<Longrightarrow> S x y) \<Longrightarrow> rows_evolve S xs ys"
  by (auto simp: rows_evolve_def)

locale row_preorder =
  fixes R :: "'r \<Rightarrow> 'r \<Rightarrow> bool"
  assumes row_refl: "R r r"
    and row_trans: "R r s \<Longrightarrow> R s t \<Longrightarrow> R r t"
begin

lemma refl_rows: "rows_evolve R xs xs"
  by (simp add: rows_evolve_def row_refl)

lemma trans_rows:
  assumes "rows_evolve R xs ys" and "rows_evolve R ys zs"
  shows "rows_evolve R xs zs"
  using assms by (auto simp: rows_evolve_def intro: row_trans)

lemma update_rows:
  assumes "\<And>r. r \<in> set xs \<Longrightarrow> P r \<Longrightarrow> R r (f r)"
  shows "rows_evolve R xs (update_where P f xs)"
  using assms by (auto simp: rows_evolve_def row_refl)

lemma append_rows: "rows_evolve R xs (xs @ ys)"
  by (auto simp: rows_evolve_def row_refl nth_append)

lemma update_append_rows:
  assumes "\<And>r. r \<in> set xs \<Longrightarrow> P r \<Longrightarrow> R r (f r)"
  shows "rows_evolve R xs (update_where P f (xs @ ys))"
proof -
  have "rows_evolve R xs (update_where P f xs)"
    using assms by (rule update_rows)
  moreover have "rows_evolve R (update_where P f xs) (update_where P f xs @ update_where P f ys)"
    by (rule append_rows)
  ultimately show ?thesis
    by (simp add: update_where_append trans_rows)
qed

lemma fold_rows:
  assumes "foldE g ks s = Inr s'"
    and "\<And>k s t. k \<in> set ks \<Longrightarrow> g k s = Inr t \<Longrightarrow> rows_evolve R (tab s) (tab t)"
  shows "rows_evolve R (tab s) (tab s')"
  using foldE_invariant [where Q = "\<lambda>t. rows_evolve R (tab s) (tab t)", OF assms(1)]
    assms(2) refl_rows trans_rows by blast

end

section \<open>Fenced leases\<close>

text \<open>
  A row that workers lease under a fence: while it is live, the pair of its holder and its
  fence is the token of the lease. \<open>fence_evolves\<close> is what the store promises of such a
  row: the fence never falls, and a row that is live under an unchanged fence was live for
  the same holder before. \<open>fenced_lease\<close> is the interface for a row relation that keeps
  the promise; the outbox rows and the work units provide it.
\<close>

definition fence_evolves ::
  "('r \<Rightarrow> bool) \<Rightarrow> ('r \<Rightarrow> int) \<Rightarrow> ('r \<Rightarrow> 'h) \<Rightarrow> 'r \<Rightarrow> 'r \<Rightarrow> bool" where
  "fence_evolves live fence holder r s \<longleftrightarrow> fence r \<le> fence s \<and>
     (live s \<and> fence s = fence r \<longrightarrow> live r \<and> holder s = holder r)"

lemma fence_evolves_refl: "fence_evolves live fence holder r r"
  by (simp add: fence_evolves_def)

lemma fence_evolves_trans:
  "fence_evolves live fence holder r s \<Longrightarrow> fence_evolves live fence holder s t
     \<Longrightarrow> fence_evolves live fence holder r t"
  by (auto simp: fence_evolves_def)

definition holds_lease ::
  "('r \<Rightarrow> bool) \<Rightarrow> ('r \<Rightarrow> int) \<Rightarrow> ('r \<Rightarrow> 'h) \<Rightarrow> 'h \<Rightarrow> int \<Rightarrow> 'r \<Rightarrow> bool" where
  "holds_lease live fence holder h f r \<longleftrightarrow> live r \<and> holder r = h \<and> fence r = f"

locale fenced_lease = row_preorder R
  for R :: "'r \<Rightarrow> 'r \<Rightarrow> bool" +
  fixes live :: "'r \<Rightarrow> bool" and fence :: "'r \<Rightarrow> int" and holder :: "'r \<Rightarrow> 'h"
  assumes row_fence: "R r s \<Longrightarrow> fence_evolves live fence holder r s"
begin

lemma lost_lease_row:
  assumes "R r s" and "f \<le> fence r" and "\<not> holds_lease live fence holder h f r"
  shows "\<not> holds_lease live fence holder h f s"
  using row_fence [OF assms(1)] assms(2,3)
  by (auto simp: fence_evolves_def holds_lease_def)

lemma lost_lease_rows:
  assumes "rows_evolve R xs ys" and "i < length xs" and "f \<le> fence (xs ! i)"
    and "\<not> holds_lease live fence holder h f (xs ! i)"
  shows "\<not> holds_lease live fence holder h f (ys ! i)"
  using assms lost_lease_row by (auto simp: rows_evolve_def)

lemma fence_rows:
  assumes "rows_evolve R xs ys" and "i < length xs"
  shows "fence (xs ! i) \<le> fence (ys ! i)"
  using assms row_fence by (auto simp: rows_evolve_def fence_evolves_def)

end

section \<open>Transition systems with an inductive invariant\<close>

locale invariant_system =
  fixes init :: "'s \<Rightarrow> bool"
    and step :: "'s \<Rightarrow> 's \<Rightarrow> bool"
    and inv :: "'s \<Rightarrow> bool"
  assumes init_inv: "init s \<Longrightarrow> inv s"
    and step_inv: "inv s \<Longrightarrow> step s t \<Longrightarrow> inv t"
begin

lemma steps_inv: "step\<^sup>*\<^sup>* s t \<Longrightarrow> inv s \<Longrightarrow> inv t"
  by (induction rule: rtranclp_induct) (auto intro: step_inv)

lemma reachable_inv: "init s \<Longrightarrow> step\<^sup>*\<^sup>* s t \<Longrightarrow> inv t"
  by (blast intro: steps_inv init_inv)

lemma steps_relation:
  assumes "step\<^sup>*\<^sup>* s t" and "inv s"
    and "\<And>s. Q s s" and "\<And>r s t. Q r s \<Longrightarrow> Q s t \<Longrightarrow> Q r t"
    and "\<And>s t. inv s \<Longrightarrow> step s t \<Longrightarrow> Q s t"
  shows "Q s t"
  using assms(1,2)
proof (induction rule: rtranclp_induct)
  case base
  show ?case by (rule assms(3))
next
  case (step t u)
  then have "inv t" by (blast intro: steps_inv)
  with step show ?case by (blast intro: assms(4,5))
qed

end

end
