(* ===== verification/Schema.thy ===== *)
theory Schema
  imports Prelude
begin

text \<open>
  The canonical JSON layer (\<open>durable_workloads/schema.py\<close>) and the closed text
  classes the kernel validates with regular expressions. A Python string is a list of
  \<open>char\<close>, read as its code points (the model covers the code points below 256);
  \<open>utf8_size\<close> is \<open>len(s.encode("utf-8"))\<close>. SHA-256 is a parameter \<open>sha\<close>: the
  function from the hashed text to its hexadecimal digest.
\<close>

section \<open>Exceptions\<close>

text \<open>
  JSON values, with one more constructor: \<open>JInstant t\<close> is the JSON string that holds the
  text of the instant \<open>t\<close>. One datatype for the exceptions that leave the kernel: the hierarchy under
  \<open>DurableStoreError\<close>, \<open>SchemaValidationError\<close>, the built-in \<open>ValueError\<close> and
  \<open>TypeError\<close>, SQLite's \<open>IntegrityError\<close>, the \<open>OverflowError\<close> of an integer beyond 64 bits, and the
  \<open>KeyError\<close> of a missing key. \<open>BudgetExceededError\<close> carries its reason.
\<close>

datatype jval =
    JNull
  | JBool bool
  | JInt int
  | JStr string
  | JArr "jval list"
  | JObj "(string \<times> jval) list"
  | JInstant instant

type_synonym jobj = "(string \<times> jval) list"

datatype durable_error =
    DurableStoreError string
  | StoreNotReadyError
  | OwnerRequiredError
  | WorkloadNotFoundError
  | RevisionNotFoundError
  | VersionConflictError
  | IdempotencyConflictError
  | IdentifierConflictError
  | InvalidTransitionError
  | ReservedCompletionTransitionError
  | ResultContractError
  | ModelUsageContractError
  | RetryDecisionConflictError
  | BudgetExceededError jobj
  | SchemaValidationError
  | ValueError
  | TypeError
  | IntegrityError
  | OverflowError
  | KeyError

type_synonym 'a result = "durable_error + 'a"

section \<open>JSON objects\<close>

definition jget :: "jobj \<Rightarrow> string \<Rightarrow> jval option" where
  "jget obj k = map_of obj k"

text \<open>\<open>d[k] = v\<close> on a Python dict: in place when the key is there, else at the end.\<close>

fun jset :: "string \<Rightarrow> jval \<Rightarrow> jobj \<Rightarrow> jobj" where
  "jset k v [] = [(k, v)]"
| "jset k v ((k', v') # obj) = (if k = k' then (k, v) # obj else (k', v') # jset k v obj)"

text \<open>\<open>d.update(e)\<close>.\<close>

definition jupdate :: "jobj \<Rightarrow> jobj \<Rightarrow> jobj" where
  "jupdate obj upd = fold (\<lambda>(k, v). jset k v) upd obj"

lemma jget_jset [simp]: "jget (jset k v obj) k' = (if k' = k then Some v else jget obj k')"
  by (induction obj) (auto simp: jget_def)

lemma jget_jupdate:
  "distinct (map fst upd) \<Longrightarrow>
     jget (jupdate obj upd) k = (case jget upd k of Some v \<Rightarrow> Some v | None \<Rightarrow> jget obj k)"
proof (induction upd arbitrary: obj)
  case Nil
  then show ?case by (simp add: jupdate_def jget_def)
next
  case (Cons kv upd)
  obtain k' v' where kv: "kv = (k', v')" by (cases kv)
  have "jupdate obj (kv # upd) = jupdate (jset k' v' obj) upd"
    by (simp add: jupdate_def kv)
  moreover have "jget upd k' = None"
    using Cons.prems kv by (auto simp: jget_def map_of_eq_None_iff)
  ultimately show ?case
    using Cons jget_jset [of k' v' obj k] by (auto simp: kv jget_def split: option.splits)
qed

section \<open>Canonical encoding\<close>

definition code_of :: "char \<Rightarrow> int" where
  "code_of c = of_char c"

function dec_digits :: "int \<Rightarrow> string" where
  "dec_digits n =
     (if n < 10 then [char_of (48 + n)] else dec_digits (n div 10) @ [char_of (48 + n mod 10)])"
  by pat_completeness auto
termination
  by (relation "measure nat") auto

declare dec_digits.simps [simp del]

definition show_int :: "int \<Rightarrow> string" where
  "show_int i = (if i < 0 then CHR ''-'' # dec_digits (- i) else dec_digits i)"

definition hex_digit :: "int \<Rightarrow> char" where
  "hex_digit n = (if n < 10 then char_of (48 + n) else char_of (87 + n))"

definition escape_char :: "char \<Rightarrow> string" where
  "escape_char c =
     (let n = code_of c; bs = CHR 0x5C in
      if n = 34 then [bs, c]
      else if n = 92 then [bs, bs]
      else if n = 10 then [bs, CHR ''n'']
      else if n = 13 then [bs, CHR ''r'']
      else if n = 9 then [bs, CHR ''t'']
      else if n = 12 then [bs, CHR ''f'']
      else if n = 8 then [bs, CHR ''b'']
      else if n < 32 then [bs, CHR ''u'', CHR ''0'', CHR ''0'', hex_digit (n div 16), hex_digit (n mod 16)]
      else [c])"

definition quote_string :: "string \<Rightarrow> string" where
  "quote_string s = CHR 0x22 # concat (map escape_char s) @ [CHR 0x22]"

fun join_with :: "string \<Rightarrow> string list \<Rightarrow> string" where
  "join_with sep [] = []"
| "join_with sep [x] = x"
| "join_with sep (x # y # xs) = x @ sep @ join_with sep (y # xs)"

text \<open>
  \<open>instant_text\<close>: the ISO form with six digits of microseconds and a final \<open>Z\<close>. The
  civil date of a day number counts 400-year eras from 1 March of the year 0.
\<close>

definition pad_digits :: "nat \<Rightarrow> int \<Rightarrow> string" where
  "pad_digits w i = (let d = dec_digits i in replicate (w - length d) (CHR ''0'') @ d)"

definition civil_of_days :: "int \<Rightarrow> int \<times> int \<times> int" where
  "civil_of_days days =
     (let z = days + 719468;
          era = z div 146097;
          doe = z mod 146097;
          yoe = (doe - doe div 1460 + doe div 36524 - doe div 146096) div 365;
          doy = doe - (365 * yoe + yoe div 4 - yoe div 100);
          mp = (5 * doy + 2) div 153;
          d = doy - (153 * mp + 2) div 5 + 1;
          m = (if mp < 10 then mp + 3 else mp - 9);
          y = yoe + era * 400 + (if m \<le> 2 then 1 else 0)
      in (y, m, d))"

definition instant_text :: "instant \<Rightarrow> string" where
  "instant_text t =
     (let days = t div 86400000000; us = t mod 86400000000; (y, m, d) = civil_of_days days in
      pad_digits 4 y @ ''-'' @ pad_digits 2 m @ ''-'' @ pad_digits 2 d @ ''T'' @
      pad_digits 2 (us div 3600000000) @ '':'' @
      pad_digits 2 (us div 60000000 mod 60) @ '':'' @
      pad_digits 2 (us div 1000000 mod 60) @ ''.'' @
      pad_digits 6 (us mod 1000000) @ ''Z'')"

fun encode_json :: "jval \<Rightarrow> string" where
  "encode_json JNull = ''null''"
| "encode_json (JBool b) = (if b then ''true'' else ''false'')"
| "encode_json (JInt i) = show_int i"
| "encode_json (JStr s) = quote_string s"
| "encode_json (JArr vs) = ''['' @ join_with '','' (map encode_json vs) @ '']''"
| "encode_json (JObj kvs) =
     CHR 0x7B # join_with '',''
       (map (\<lambda>(k, e). quote_string k @ '':'' @ e)
         (sort_key fst (map (\<lambda>(k, v). (k, encode_json v)) kvs))) @ [CHR 0x7D]"
| "encode_json (JInstant t) = quote_string (instant_text t)"

definition utf8_size :: "string \<Rightarrow> int" where
  "utf8_size s = sum_list (map (\<lambda>c. if code_of c < 128 then 1 else 2) s)"

definition canonical_json :: "jval \<Rightarrow> int \<Rightarrow> string result" where
  "canonical_json v max_bytes =
     (let encoded = encode_json v in
      if utf8_size encoded > max_bytes then Inl SchemaValidationError else Inr encoded)"

definition digest_json :: "(string \<Rightarrow> string) \<Rightarrow> string \<Rightarrow> jval \<Rightarrow> int \<Rightarrow> string result" where
  "digest_json sha domain v max_bytes =
     (if domain = [] \<or> CHR 0x00 \<in> set domain then Inl SchemaValidationError
      else bindE (canonical_json v max_bytes) (\<lambda>canonical.
        Inr (''sha256:'' @ sha (''metnos:'' @ domain @ '':1'' @ [CHR 0x00] @ canonical))))"

definition max_plan_json_bytes :: int where "max_plan_json_bytes = 1048576"
definition max_event_json_bytes :: int where "max_event_json_bytes = 65536"
definition max_snapshot_json_bytes :: int where "max_snapshot_json_bytes = 4194304"
definition max_result_json_bytes :: int where "max_result_json_bytes = 8388608"

definition validate_event_payload :: "jobj \<Rightarrow> string result" where
  "validate_event_payload payload =
     (if length payload > 64 then Inl SchemaValidationError
      else canonical_json (JObj payload) max_event_json_bytes)"

lemma instant_text_epoch: "instant_text 1785458096123456 = ''2026-07-31T00:34:56.123456Z''"
  by code_simp

section \<open>Sizes of texts\<close>

lemma utf8_size_Nil [simp]: "utf8_size [] = 0"
  by (simp add: utf8_size_def)

lemma utf8_size_Cons: "utf8_size (c # cs) = (if code_of c < 128 then 1 else 2) + utf8_size cs"
  by (simp add: utf8_size_def)

lemma utf8_size_append [simp]: "utf8_size (s @ t) = utf8_size s + utf8_size t"
  by (simp add: utf8_size_def)

lemma utf8_size_nonneg: "0 \<le> utf8_size s"
  unfolding utf8_size_def by (rule sum_list_nonneg) auto

lemma utf8_size_join:
  "utf8_size (join_with '','' xs) = sum_list (map utf8_size xs) + max 0 (int (length xs) - 1)"
  by (induction "'',''" xs rule: join_with.induct) (auto simp: utf8_size_def code_of_def)

lemma utf8_size_le_length: "utf8_size s \<le> 2 * int (length s)"
  by (induction s) (auto simp: utf8_size_Cons)

section \<open>Text classes\<close>

definition is_digit :: "char \<Rightarrow> bool" where
  "is_digit c = (48 \<le> code_of c \<and> code_of c \<le> 57)"

definition is_lower :: "char \<Rightarrow> bool" where
  "is_lower c = (97 \<le> code_of c \<and> code_of c \<le> 122)"

definition is_upper :: "char \<Rightarrow> bool" where
  "is_upper c = (65 \<le> code_of c \<and> code_of c \<le> 90)"

definition is_alnum :: "char \<Rightarrow> bool" where
  "is_alnum c = (is_digit c \<or> is_lower c \<or> is_upper c)"

text \<open>\<open>str.strip\<close> removes these code points at both ends.\<close>

definition is_space :: "char \<Rightarrow> bool" where
  "is_space c = (let n = code_of c in
     (9 \<le> n \<and> n \<le> 13) \<or> (28 \<le> n \<and> n \<le> 32) \<or> n = 133 \<or> n = 160)"

definition strip :: "string \<Rightarrow> string" where
  "strip s = rev (dropWhile is_space (rev (dropWhile is_space s)))"

text \<open>\<open>^<head><tail>{lo,hi}$\<close> under \<open>fullmatch\<close>.\<close>

definition matches_class :: "(char \<Rightarrow> bool) \<Rightarrow> (char \<Rightarrow> bool) \<Rightarrow> nat \<Rightarrow> nat \<Rightarrow> string \<Rightarrow> bool" where
  "matches_class first rest lo hi s =
     (case s of [] \<Rightarrow> False
      | c # cs \<Rightarrow> first c \<and> list_all rest cs \<and> lo \<le> length cs \<and> length cs \<le> hi)"

definition id_re :: "string \<Rightarrow> bool" where
  "id_re = matches_class (\<lambda>c. is_alnum c \<or> c \<in> {CHR ''_'', CHR ''-''})
     (\<lambda>c. is_alnum c \<or> c \<in> {CHR ''_'', CHR ''-''}) 7 127"

definition closed_char :: "char \<Rightarrow> bool" where
  "closed_char c = (is_lower c \<or> is_digit c \<or> c \<in> {CHR ''_'', CHR ''.'', CHR ''-''})"

definition error_class_re :: "string \<Rightarrow> bool" where
  "error_class_re = matches_class is_lower closed_char 1 63"

definition error_code_re :: "string \<Rightarrow> bool" where
  "error_code_re = matches_class is_lower closed_char 2 95"

definition message_key_re :: "string \<Rightarrow> bool" where
  "message_key_re = matches_class is_upper
     (\<lambda>c. is_upper c \<or> is_digit c \<or> c = CHR ''_'') 2 95"

definition runner_re :: "string \<Rightarrow> bool" where
  "runner_re = matches_class (\<lambda>c. is_lower c \<or> c = CHR ''_'') closed_char 1 95"

definition worker_char :: "char \<Rightarrow> bool" where
  "worker_char c = (is_alnum c \<or> c \<in> {CHR ''_'', CHR ''.'', CHR '':'', CHR ''-''})"

definition worker_re :: "string \<Rightarrow> bool" where
  "worker_re = matches_class is_alnum worker_char 0 127"

definition sha256_re :: "string \<Rightarrow> bool" where
  "sha256_re s = (take 7 s = ''sha256:'' \<and> length s = 71 \<and>
     list_all (\<lambda>c. is_digit c \<or> (97 \<le> code_of c \<and> code_of c \<le> 102)) (drop 7 s))"

text \<open>\<open>^[a-z][a-z0-9_.-]{2,127}/[1-9][0-9]*$\<close>: the name up to the last slash, then a version.\<close>

definition schema_re :: "string \<Rightarrow> bool" where
  "schema_re s =
     (let name = takeWhile (\<lambda>c. c \<noteq> CHR ''/'') s; rest = dropWhile (\<lambda>c. c \<noteq> CHR ''/'') s in
      matches_class is_lower closed_char 2 127 name \<and>
      (case rest of _ # d # ds \<Rightarrow> is_digit d \<and> d \<noteq> CHR ''0'' \<and> list_all is_digit ds | _ \<Rightarrow> False))"

lemma id_re_length: "id_re s \<Longrightarrow> 8 \<le> length s \<and> length s \<le> 128"
  by (auto simp: id_re_def matches_class_def split: list.splits)

lemma digest_json_shape:
  "digest_json sha domain v m = Inr d \<Longrightarrow> \<exists>t. d = ''sha256:'' @ sha t"
  by (auto simp: digest_json_def tx_simps split: if_splits)

lemma digest_json_cong:
  "encode_json v = encode_json w \<Longrightarrow> digest_json sha domain v m = digest_json sha domain w m"
  by (simp add: digest_json_def canonical_json_def)

end
