(* ===== verification/Models.thy ===== *)
theory Models
  imports Schema
begin

text \<open>
  The closed state vocabularies of \<open>durable_workloads/models.py\<close>: workload, unit and
  attempt states, the two transition graphs, the control matrix of the owner commands,
  and the immutable records other components exchange. Enumeration members keep their
  names with a prefix for the enumeration they belong to; \<open>*_value\<close> is the stored text.
\<close>

section \<open>Enumerations\<close>

datatype workload_state =
    W_DRAFT | W_ADMITTED | W_QUEUED | W_RUNNING | W_PAUSE_REQUESTED | W_PAUSED
  | W_CANCEL_REQUESTED | W_CANCELLED | W_NEEDS_ATTENTION | W_FAILED
  | W_COMPLETED_WITH_ERRORS | W_COMPLETED

datatype unit_state =
    U_PENDING | U_LEASED | U_RUNNING | U_RETRY_WAIT | U_COMMITTED | U_FAILED_PERMANENT
  | U_NEEDS_ATTENTION | U_CANCELLED | U_SKIPPED

datatype attempt_state =
    A_LEASED | A_RUNNING | A_SUCCEEDED | A_FAILED | A_TIMED_OUT | A_LATE_REJECTED | A_ABANDONED

datatype stage_type = S_INVENTORY | S_MAP | S_REDUCE | S_VALIDATE | S_PUBLISH

datatype runner_kind = R_INTERNAL | R_EXECUTOR | R_WORKLOAD

datatype durable_effect = E_PURE | E_IDEMPOTENT | E_RECONCILABLE | E_MANUAL_ONLY

datatype source_state = Src_READY | Src_UNSTABLE | Src_MISSING | Src_SKIPPED

datatype artifact_state =
  Art_PREPARED | Art_COMMITTED | Art_PUBLISHED | Art_NEEDS_ATTENTION | Art_EXPIRED

datatype publication_state = Pub_PREPARED | Pub_PUBLISHED | Pub_NEEDS_ATTENTION | Pub_CANCELLED

datatype outbox_state = O_PENDING | O_LEASED | O_SENT | O_FAILED | O_CANCELLED

datatype event_type =
    Ev_DRAFT_CREATED | Ev_REVISION_ADMITTED | Ev_QUEUED | Ev_RUNNING | Ev_PAUSE_REQUESTED
  | Ev_PAUSED | Ev_RESUMED | Ev_CANCEL_REQUESTED | Ev_CANCELLED | Ev_NEEDS_ATTENTION
  | Ev_ATTENTION_RESOLVED | Ev_FAILED | Ev_COMPLETED_WITH_ERRORS | Ev_COMPLETED

fun workload_state_value :: "workload_state \<Rightarrow> string" where
  "workload_state_value W_DRAFT = ''draft''"
| "workload_state_value W_ADMITTED = ''admitted''"
| "workload_state_value W_QUEUED = ''queued''"
| "workload_state_value W_RUNNING = ''running''"
| "workload_state_value W_PAUSE_REQUESTED = ''pause_requested''"
| "workload_state_value W_PAUSED = ''paused''"
| "workload_state_value W_CANCEL_REQUESTED = ''cancel_requested''"
| "workload_state_value W_CANCELLED = ''cancelled''"
| "workload_state_value W_NEEDS_ATTENTION = ''needs_attention''"
| "workload_state_value W_FAILED = ''failed''"
| "workload_state_value W_COMPLETED_WITH_ERRORS = ''completed_with_errors''"
| "workload_state_value W_COMPLETED = ''completed''"

fun unit_state_value :: "unit_state \<Rightarrow> string" where
  "unit_state_value U_PENDING = ''pending''"
| "unit_state_value U_LEASED = ''leased''"
| "unit_state_value U_RUNNING = ''running''"
| "unit_state_value U_RETRY_WAIT = ''retry_wait''"
| "unit_state_value U_COMMITTED = ''committed''"
| "unit_state_value U_FAILED_PERMANENT = ''failed_permanent''"
| "unit_state_value U_NEEDS_ATTENTION = ''needs_attention''"
| "unit_state_value U_CANCELLED = ''cancelled''"
| "unit_state_value U_SKIPPED = ''skipped''"

fun runner_kind_value :: "runner_kind \<Rightarrow> string" where
  "runner_kind_value R_INTERNAL = ''internal''"
| "runner_kind_value R_EXECUTOR = ''executor''"
| "runner_kind_value R_WORKLOAD = ''workload''"

fun durable_effect_value :: "durable_effect \<Rightarrow> string" where
  "durable_effect_value E_PURE = ''pure''"
| "durable_effect_value E_IDEMPOTENT = ''idempotent''"
| "durable_effect_value E_RECONCILABLE = ''reconcilable''"
| "durable_effect_value E_MANUAL_ONLY = ''manual_only''"

text \<open>\<open>WorkloadState(value)\<close> and \<open>UnitState(value)\<close>: the member with that stored text, or \<open>ValueError\<close>.\<close>

definition all_workload_states :: "workload_state list" where
  "all_workload_states =
     [W_DRAFT, W_ADMITTED, W_QUEUED, W_RUNNING, W_PAUSE_REQUESTED, W_PAUSED, W_CANCEL_REQUESTED,
      W_CANCELLED, W_NEEDS_ATTENTION, W_FAILED, W_COMPLETED_WITH_ERRORS, W_COMPLETED]"

definition all_unit_states :: "unit_state list" where
  "all_unit_states =
     [U_PENDING, U_LEASED, U_RUNNING, U_RETRY_WAIT, U_COMMITTED, U_FAILED_PERMANENT,
      U_NEEDS_ATTENTION, U_CANCELLED, U_SKIPPED]"

definition workload_state_of :: "string \<Rightarrow> workload_state result" where
  "workload_state_of v = optE (find (\<lambda>s. workload_state_value s = v) all_workload_states) ValueError"

definition unit_state_of :: "string \<Rightarrow> unit_state result" where
  "unit_state_of v = optE (find (\<lambda>s. unit_state_value s = v) all_unit_states) ValueError"

section \<open>Transition graphs\<close>

fun WORKLOAD_TRANSITIONS :: "workload_state \<Rightarrow> workload_state list" where
  "WORKLOAD_TRANSITIONS W_DRAFT = [W_ADMITTED, W_CANCELLED, W_FAILED]"
| "WORKLOAD_TRANSITIONS W_ADMITTED =
     [W_QUEUED, W_CANCEL_REQUESTED, W_CANCELLED, W_NEEDS_ATTENTION, W_FAILED]"
| "WORKLOAD_TRANSITIONS W_QUEUED =
     [W_RUNNING, W_PAUSED, W_CANCEL_REQUESTED, W_CANCELLED, W_NEEDS_ATTENTION, W_FAILED]"
| "WORKLOAD_TRANSITIONS W_RUNNING =
     [W_PAUSE_REQUESTED, W_CANCEL_REQUESTED, W_NEEDS_ATTENTION, W_FAILED,
      W_COMPLETED_WITH_ERRORS, W_COMPLETED]"
| "WORKLOAD_TRANSITIONS W_PAUSE_REQUESTED =
     [W_PAUSED, W_CANCEL_REQUESTED, W_NEEDS_ATTENTION, W_FAILED]"
| "WORKLOAD_TRANSITIONS W_PAUSED =
     [W_QUEUED, W_CANCEL_REQUESTED, W_CANCELLED, W_NEEDS_ATTENTION, W_FAILED]"
| "WORKLOAD_TRANSITIONS W_CANCEL_REQUESTED = [W_CANCELLED, W_NEEDS_ATTENTION, W_FAILED]"
| "WORKLOAD_TRANSITIONS W_NEEDS_ATTENTION =
     [W_QUEUED, W_RUNNING, W_CANCEL_REQUESTED, W_CANCELLED, W_FAILED]"
| "WORKLOAD_TRANSITIONS W_CANCELLED = []"
| "WORKLOAD_TRANSITIONS W_FAILED = []"
| "WORKLOAD_TRANSITIONS W_COMPLETED_WITH_ERRORS = []"
| "WORKLOAD_TRANSITIONS W_COMPLETED = []"

text \<open>
  The control matrix: \<open>None\<close> outside the matrix (illegal), \<open>Some None\<close> an explicit
  idempotent no-op, \<open>Some (Some t)\<close> the target of the command.
\<close>

definition CONTROL_STATE_MATRIX :: "string \<Rightarrow> (workload_state \<times> workload_state option) list option" where
  "CONTROL_STATE_MATRIX command =
     (if command = ''pause'' then Some
        [(W_QUEUED, Some W_PAUSED), (W_RUNNING, Some W_PAUSE_REQUESTED),
         (W_PAUSE_REQUESTED, None), (W_PAUSED, None)]
      else if command = ''resume'' then Some
        [(W_QUEUED, None), (W_PAUSED, Some W_QUEUED)]
      else if command = ''cancel'' then Some
        [(W_DRAFT, Some W_CANCELLED), (W_ADMITTED, Some W_CANCEL_REQUESTED),
         (W_QUEUED, Some W_CANCEL_REQUESTED), (W_RUNNING, Some W_CANCEL_REQUESTED),
         (W_PAUSE_REQUESTED, Some W_CANCEL_REQUESTED), (W_PAUSED, Some W_CANCEL_REQUESTED),
         (W_CANCEL_REQUESTED, None), (W_CANCELLED, None),
         (W_NEEDS_ATTENTION, Some W_CANCEL_REQUESTED)]
      else None)"

fun UNIT_TRANSITIONS :: "unit_state \<Rightarrow> unit_state list" where
  "UNIT_TRANSITIONS U_PENDING = [U_LEASED, U_CANCELLED, U_SKIPPED]"
| "UNIT_TRANSITIONS U_LEASED = [U_RUNNING, U_PENDING, U_NEEDS_ATTENTION, U_CANCELLED]"
| "UNIT_TRANSITIONS U_RUNNING =
     [U_COMMITTED, U_RETRY_WAIT, U_FAILED_PERMANENT, U_NEEDS_ATTENTION, U_CANCELLED]"
| "UNIT_TRANSITIONS U_RETRY_WAIT = [U_PENDING, U_CANCELLED]"
| "UNIT_TRANSITIONS U_NEEDS_ATTENTION = [U_PENDING, U_CANCELLED]"
| "UNIT_TRANSITIONS U_COMMITTED = []"
| "UNIT_TRANSITIONS U_FAILED_PERMANENT = []"
| "UNIT_TRANSITIONS U_CANCELLED = []"
| "UNIT_TRANSITIONS U_SKIPPED = []"

definition TERMINAL_WORKLOAD_STATES :: "workload_state list" where
  "TERMINAL_WORKLOAD_STATES = [W_CANCELLED, W_FAILED, W_COMPLETED_WITH_ERRORS, W_COMPLETED]"

definition TERMINAL_UNIT_STATES :: "unit_state list" where
  "TERMINAL_UNIT_STATES = [U_COMMITTED, U_FAILED_PERMANENT, U_CANCELLED, U_SKIPPED]"

abbreviation terminal_workload :: "workload_state \<Rightarrow> bool" where
  "terminal_workload s \<equiv> s \<in> set TERMINAL_WORKLOAD_STATES"

abbreviation terminal_unit :: "unit_state \<Rightarrow> bool" where
  "terminal_unit s \<equiv> s \<in> set TERMINAL_UNIT_STATES"

text \<open>The functions take stored text and answer False on text outside the vocabulary.\<close>

definition can_transition_workload :: "string \<Rightarrow> string \<Rightarrow> bool" where
  "can_transition_workload source destination =
     (case (workload_state_of source, workload_state_of destination) of
        (Inr current, Inr target) \<Rightarrow> target \<in> set (WORKLOAD_TRANSITIONS current)
      | _ \<Rightarrow> False)"

definition control_transition :: "string \<Rightarrow> workload_state \<Rightarrow> workload_state option result" where
  "control_transition command current =
     (case CONTROL_STATE_MATRIX command of
        None \<Rightarrow> Inl ValueError
      | Some matrix \<Rightarrow> optE (map_of matrix current) ValueError)"

definition can_transition_unit :: "string \<Rightarrow> string \<Rightarrow> bool" where
  "can_transition_unit source destination =
     (case (unit_state_of source, unit_state_of destination) of
        (Inr current, Inr target) \<Rightarrow> target \<in> set (UNIT_TRANSITIONS current)
      | _ \<Rightarrow> False)"

section \<open>Records\<close>

record workload_record =
  wr_owner_user_id :: string
  wr_workload_id :: ident
  wr_request_key :: string
  wr_state :: workload_state
  wr_priority :: string
  wr_active_revision_id :: "ident option"
  wr_version :: int
  wr_created_at :: instant
  wr_updated_at :: instant
  wr_terminal_reason :: "jobj option"

record unit_counters =
  uc_discovered :: nat
  uc_committed :: nat
  uc_failed :: nat
  uc_skipped :: nat
  uc_attention :: nat
  uc_pending :: nat

definition uc_total :: "unit_counters \<Rightarrow> nat" where
  "uc_total c = uc_committed c + uc_failed c + uc_skipped c + uc_attention c + uc_pending c"

section \<open>Facts about the vocabularies\<close>

lemma workload_state_of_value [simp]: "workload_state_of (workload_state_value s) = Inr s"
  by (cases s) (simp_all add: workload_state_of_def all_workload_states_def)

lemma unit_state_of_value [simp]: "unit_state_of (unit_state_value s) = Inr s"
  by (cases s) (simp_all add: unit_state_of_def all_unit_states_def)

lemma workload_state_of_Inr: "workload_state_of v = Inr s \<Longrightarrow> v = workload_state_value s"
  by (auto simp: workload_state_of_def tx_simps dest: find_SomeD)

lemma unit_state_of_Inr: "unit_state_of v = Inr s \<Longrightarrow> v = unit_state_value s"
  by (auto simp: unit_state_of_def tx_simps dest: find_SomeD)

lemma can_transition_workload_value [simp]:
  "can_transition_workload (workload_state_value s) (workload_state_value t)
     \<longleftrightarrow> t \<in> set (WORKLOAD_TRANSITIONS s)"
  by (simp add: can_transition_workload_def)

lemma can_transition_unit_value [simp]:
  "can_transition_unit (unit_state_value s) (unit_state_value t)
     \<longleftrightarrow> t \<in> set (UNIT_TRANSITIONS s)"
  by (simp add: can_transition_unit_def)

text \<open>One legal step of a workload, and the states it can get to.\<close>

definition workload_edge :: "workload_state \<Rightarrow> workload_state \<Rightarrow> bool" where
  "workload_edge s t \<longleftrightarrow> t \<in> set (WORKLOAD_TRANSITIONS s)"

abbreviation workload_path :: "workload_state \<Rightarrow> workload_state \<Rightarrow> bool" where
  "workload_path \<equiv> workload_edge\<^sup>*\<^sup>*"

lemma terminal_no_edge: "terminal_workload s \<Longrightarrow> \<not> workload_edge s t"
  by (auto simp: workload_edge_def TERMINAL_WORKLOAD_STATES_def)

lemma terminal_path: "workload_path s t \<Longrightarrow> terminal_workload s \<Longrightarrow> t = s"
  by (induction rule: rtranclp_induct) (auto dest: terminal_no_edge)

lemma nonterminal_edge: "\<not> terminal_workload s \<Longrightarrow> workload_edge s W_CANCELLED \<or>
    workload_edge s W_FAILED"
  by (cases s) (auto simp: workload_edge_def TERMINAL_WORKLOAD_STATES_def)

lemma control_transition_legal:
  "control_transition command s = Inr (Some t) \<Longrightarrow> workload_edge s t"
  by (cases s)
    (auto simp: control_transition_def CONTROL_STATE_MATRIX_def workload_edge_def
      split: if_splits)

text \<open>
  Control commands follow the state graph: whenever the control matrix names a target
  for a command, the workload graph has that edge; no command ever moves a workload out of
  a terminal state or to a completed state.
\<close>

theorem control_transition_sound:
  assumes "control_transition command s = Inr outcome"
  shows "case outcome of
      Some t \<Rightarrow> can_transition_workload (workload_state_value s) (workload_state_value t)
        \<and> \<not> terminal_workload s \<and> t \<noteq> W_COMPLETED \<and> t \<noteq> W_COMPLETED_WITH_ERRORS
    | None \<Rightarrow> s \<in> {W_QUEUED, W_PAUSE_REQUESTED, W_PAUSED, W_CANCEL_REQUESTED, W_CANCELLED}"
proof (cases outcome)
  case None
  with assms show ?thesis
    by (cases s)
      (auto simp: control_transition_def CONTROL_STATE_MATRIX_def split: if_splits)
next
  case (Some t)
  with assms have edge: "workload_edge s t"
    by (simp add: control_transition_legal)
  then have "\<not> terminal_workload s"
    using terminal_no_edge by blast
  moreover have "t \<noteq> W_COMPLETED \<and> t \<noteq> W_COMPLETED_WITH_ERRORS"
    using assms Some
    by (cases s)
      (auto simp: control_transition_def CONTROL_STATE_MATRIX_def split: if_splits)
  ultimately show ?thesis
    using Some edge by (simp add: workload_edge_def)
qed

theorem control_transition_sound_witness:
  "control_transition ''cancel'' W_RUNNING = Inr (Some W_CANCEL_REQUESTED)
   \<and> can_transition_workload (workload_state_value W_RUNNING) (workload_state_value W_CANCEL_REQUESTED)"
proof -
  have h: "control_transition ''cancel'' W_RUNNING = Inr (Some W_CANCEL_REQUESTED)"
    by (simp add: control_transition_def CONTROL_STATE_MATRIX_def)
  show ?thesis using h control_transition_sound [OF h] by simp
qed

end
