(* ===== verification/Coordinator.thy ===== *)
theory Coordinator
  imports Models
begin

text \<open>
  The coordination contracts of \<open>durable_workloads/coordinator.py\<close>: outcome
  vocabularies, the frozen retry policy, worker capabilities, the fenced lease, the
  deterministic retry delay and the retry decision. Instants are microseconds since the
  epoch: \<open>instant_text\<close> writes them in one fixed-width UTC form, so comparing the
  texts and comparing the numbers agree.
\<close>

section \<open>Outcome vocabularies\<close>

datatype lease_mutation_status =
  LM_APPLIED | LM_ALREADY_APPLIED | LM_STALE_FENCE | LM_LEASE_EXPIRED | LM_INVALID_STATE
  | LM_STOP_REQUESTED

datatype commit_status =
  CS_COMMITTED | CS_IDEMPOTENT_REPLAY | CS_STALE_FENCE | CS_LEASE_EXPIRED
  | CS_DEADLINE_EXPIRED | CS_DIGEST_CONFLICT | CS_INVALID_STATE

datatype retry_decision = RD_RETRY | RD_FAIL_PERMANENT | RD_NEEDS_ATTENTION

datatype failure_status =
  FS_RETRY_SCHEDULED | FS_FAILED_PERMANENT | FS_NEEDS_ATTENTION | FS_STALE_FENCE
  | FS_LEASE_EXPIRED | FS_INVALID_STATE

fun retry_decision_value :: "retry_decision \<Rightarrow> string" where
  "retry_decision_value RD_RETRY = ''retry''"
| "retry_decision_value RD_FAIL_PERMANENT = ''fail_permanent''"
| "retry_decision_value RD_NEEDS_ATTENTION = ''needs_attention''"

definition ERROR_CLASSES :: "string list" where
  "ERROR_CLASSES =
     [''invalid_plan'', ''inventory_unstable'', ''source_missing'', ''executor_transient'',
      ''executor_permanent'', ''executor_unknown'', ''contract_violation'', ''budget_exhausted'',
      ''lease_lost'', ''publication_ambiguous'', ''capability_unavailable'', ''cancelled'']"

definition ERROR_RETRY_MODES :: "string list" where
  "ERROR_RETRY_MODES = [''automatic'', ''reconcile'', ''manual'', ''never'']"

definition RESOURCE_KEYS :: "string list" where
  "RESOURCE_KEYS = [''cpu'', ''device'', ''llm'', ''local_io'', ''network_io'', ''vlm'']"

section \<open>Argument checks\<close>

definition micros_per_second :: int where "micros_per_second = 1000000"
definition micros_per_ms :: int where "micros_per_ms = 1000"

text \<open>\<open>timedelta(days=1)\<close> in microseconds.\<close>

definition MAX_LEASE_DURATION :: int where "MAX_LEASE_DURATION = 86400000000"

definition require_worker_id :: "string \<Rightarrow> string result" where
  "require_worker_id worker_id = (if worker_re worker_id then Inr worker_id else Inl ValueError)"

definition require_lease_duration :: "int \<Rightarrow> int result" where
  "require_lease_duration value =
     (if value \<le> 0 \<or> value > MAX_LEASE_DURATION then Inl ValueError else Inr value)"

section \<open>The retry policy\<close>

record retry_policy =
  rp_max_attempts :: int
  rp_base_delay_ms :: int
  rp_max_delay_ms :: int
  rp_retryable_error_classes :: "string list"

definition jints :: "jval option \<Rightarrow> int result" where
  "jints v = (case v of Some (JInt i) \<Rightarrow> Inr i | _ \<Rightarrow> Inl ValueError)"

fun jstrings :: "jval list \<Rightarrow> string list result" where
  "jstrings [] = Inr []"
| "jstrings (JStr s # vs) = bindE (jstrings vs) (\<lambda>rest. Inr (s # rest))"
| "jstrings (v # vs) = Inl ValueError"

definition retry_policy_fields :: "string list" where
  "retry_policy_fields =
     [''max_attempts'', ''base_delay_ms'', ''max_delay_ms'', ''retryable_error_classes'']"

definition retry_policy_from_mapping :: "jval \<Rightarrow> retry_policy result" where
  "retry_policy_from_mapping value =
     (case value of
        JObj obj \<Rightarrow>
          (if set (map fst obj) \<noteq> set retry_policy_fields then Inl ValueError else
           bindE (jints (jget obj ''max_attempts'')) (\<lambda>attempts.
           if \<not> (1 \<le> attempts \<and> attempts \<le> 32) then Inl ValueError else
           bindE (jints (jget obj ''base_delay_ms'')) (\<lambda>base.
           bindE (jints (jget obj ''max_delay_ms'')) (\<lambda>maximum.
           if \<not> (0 \<le> base \<and> base \<le> 86400000) \<or> \<not> (base \<le> maximum \<and> maximum \<le> 86400000)
           then Inl ValueError else
           (case jget obj ''retryable_error_classes'' of
              Some (JArr errors) \<Rightarrow>
                if length errors > 32 then Inl ValueError else
                bindE (jstrings errors) (\<lambda>normalized.
                if list_ex (\<lambda>item. \<not> error_class_re item) normalized then Inl ValueError
                else if \<not> distinct normalized then Inl ValueError
                else Inr \<lparr>rp_max_attempts = attempts, rp_base_delay_ms = base,
                          rp_max_delay_ms = maximum, rp_retryable_error_classes = normalized\<rparr>)
            | _ \<Rightarrow> Inl ValueError)))))
      | _ \<Rightarrow> Inl ValueError)"

definition retry_policy_ok :: "retry_policy \<Rightarrow> bool" where
  "retry_policy_ok p \<longleftrightarrow>
     1 \<le> rp_max_attempts p \<and> rp_max_attempts p \<le> 32 \<and>
     0 \<le> rp_base_delay_ms p \<and> rp_base_delay_ms p \<le> rp_max_delay_ms p \<and>
     rp_max_delay_ms p \<le> 86400000 \<and>
     length (rp_retryable_error_classes p) \<le> 32 \<and> distinct (rp_retryable_error_classes p) \<and>
     list_all error_class_re (rp_retryable_error_classes p)"

section \<open>Worker capabilities\<close>

record worker_capabilities =
  wc_runner_bindings :: "(runner_kind \<times> string) list"
  wc_resource_limits :: "(string \<times> int) list"
  wc_effect_profiles :: "durable_effect list"

definition binding_key :: "runner_kind \<times> string \<Rightarrow> string \<times> string" where
  "binding_key b = (runner_kind_value (fst b), snd b)"

definition resource_ceiling :: "string \<Rightarrow> int" where
  "resource_ceiling key = (if key \<in> {''llm'', ''vlm''} then 32 else 64)"

definition worker_capabilities_post_init :: "worker_capabilities \<Rightarrow> worker_capabilities result" where
  "worker_capabilities_post_init c =
     (let bindings = wc_runner_bindings c; effects = wc_effect_profiles c in
      if \<not> (1 \<le> length bindings \<and> length bindings \<le> 256) then Inl ValueError
      else if sort_key binding_key bindings \<noteq> bindings then Inl ValueError
      else if \<not> distinct bindings then Inl ValueError
      else if list_ex (\<lambda>(kind, name). \<not> runner_re name) bindings then Inl ValueError
      else if sort_key durable_effect_value effects \<noteq> effects \<or> effects = [] then Inl ValueError
      else if \<not> distinct effects then Inl ValueError
      else if map fst (wc_resource_limits c) \<noteq> RESOURCE_KEYS then Inl ValueError
      else if list_ex (\<lambda>(key, amount). \<not> (0 \<le> amount \<and> amount \<le> resource_ceiling key))
                (wc_resource_limits c) then Inl ValueError
      else Inr c)"

definition worker_capabilities_create ::
  "(runner_kind \<times> string) list \<Rightarrow> (string \<times> int) list \<Rightarrow> durable_effect list
     \<Rightarrow> worker_capabilities result" where
  "worker_capabilities_create runner_bindings resource_limits effect_profiles =
     (if set (map fst resource_limits) \<noteq> set RESOURCE_KEYS then Inl ValueError
      else worker_capabilities_post_init
        \<lparr>wc_runner_bindings = sort_key binding_key runner_bindings,
         wc_resource_limits =
           map (\<lambda>key. (key, case map_of resource_limits key of Some n \<Rightarrow> n | None \<Rightarrow> 0)) RESOURCE_KEYS,
         wc_effect_profiles = sort_key durable_effect_value effect_profiles\<rparr>)"

text \<open>\<open>capabilities.resource_map()[key]\<close>; the constructor checked that every key is there.\<close>

definition resource_limit :: "worker_capabilities \<Rightarrow> string \<Rightarrow> int" where
  "resource_limit c key = (case map_of (wc_resource_limits c) key of Some n \<Rightarrow> n | None \<Rightarrow> 0)"

section \<open>The lease\<close>

record lease =
  l_owner_user_id :: string
  l_workload_id :: ident
  l_revision_id :: ident
  l_stage_id :: ident
  l_stage_key :: string
  l_unit_id :: ident
  l_unit_key :: string
  l_attempt_id :: ident
  l_attempt_number :: int
  l_fence :: int
  l_worker_id :: string
  l_lease_expires_at :: instant
  l_runner_kind :: runner_kind
  l_runner_name :: string
  l_effect_profile :: durable_effect
  l_output_schema_version :: string
  l_resource_claims :: "(string \<times> int) list"
  l_retry_policy :: retry_policy
  l_timeout_s :: int
  l_manual_retry :: bool

definition lease_post_init :: "lease \<Rightarrow> lease result" where
  "lease_post_init l =
     bindE (require_worker_id (l_worker_id l)) (\<lambda>_.
     if list_ex (\<lambda>v. v = [])
          [l_owner_user_id l, l_workload_id l, l_revision_id l, l_stage_id l, l_stage_key l,
           l_unit_id l, l_unit_key l, l_attempt_id l, l_runner_name l] then Inl ValueError
     else if l_attempt_number l < 1 \<or> l_fence l < 1 then Inl ValueError
     else if \<not> schema_re (l_output_schema_version l) then Inl ValueError
     else if map fst (l_resource_claims l) \<noteq> RESOURCE_KEYS then Inl ValueError
     else if \<not> (1 \<le> l_timeout_s l \<and> l_timeout_s l \<le> 86400) then Inl ValueError
     else Inr l)"

lemma lease_post_init_Inr: "lease_post_init l = Inr l' \<Longrightarrow> l' = l"
  by (auto simp: lease_post_init_def tx_simps split: if_splits)

section \<open>Retry delay and retry decision\<close>

text \<open>
  \<open>sha8 s\<close> is the number of the first eight bytes, big endian, of the SHA-256 digest of
  the UTF-8 text \<open>s\<close>. The delay is \<open>base * 2^k\<close> capped at the maximum, with a jitter
  that keeps it in the upper quarter.
\<close>

definition deterministic_retry_delay_ms ::
  "(string \<Rightarrow> nat) \<Rightarrow> string \<Rightarrow> int \<Rightarrow> int \<Rightarrow> int \<Rightarrow> int result" where
  "deterministic_retry_delay_ms sha8 unit_key attempt_number base_delay_ms max_delay_ms =
     (if unit_key = [] then Inl ValueError
      else if attempt_number < 1 then Inl ValueError
      else if \<not> (0 \<le> base_delay_ms \<and> base_delay_ms \<le> max_delay_ms) then Inl ValueError
      else if base_delay_ms = 0 \<or> max_delay_ms = 0 then Inr 0
      else
        let exponent = min (attempt_number - 1) 62;
            nominal = min max_delay_ms (base_delay_ms * 2 ^ nat exponent);
            lower = (nominal * 3) div 4;
            span = nominal - lower + 1;
            material = unit_key @ [CHR 0x00] @ show_int attempt_number;
            jitter = int (sha8 material) mod span
        in Inr (lower + jitter))"

definition attention_error_classes :: "string list" where
  "attention_error_classes =
     [''budget_exhausted'', ''capability_unavailable'', ''publication_ambiguous'',
      ''source_missing'', ''executor_unknown'']"

definition decide_retry ::
  "durable_effect \<Rightarrow> retry_policy \<Rightarrow> int \<Rightarrow> string \<Rightarrow> bool \<Rightarrow> retry_decision result" where
  "decide_retry effect_profile policy attempt_number error_class manual_retry =
     (if \<not> error_class_re error_class then Inl ValueError
      else if error_class \<in> set attention_error_classes then Inr RD_NEEDS_ATTENTION
      else if effect_profile \<in> {E_RECONCILABLE, E_MANUAL_ONLY} then Inr RD_NEEDS_ATTENTION
      else if error_class \<in> {''executor_permanent'', ''contract_violation'', ''invalid_plan''}
        then Inr RD_FAIL_PERMANENT
      else if error_class \<in> set (rp_retryable_error_classes policy) then
        (if manual_retry \<or> attempt_number \<ge> rp_max_attempts policy then Inr RD_NEEDS_ATTENTION
         else Inr RD_RETRY)
      else Inr RD_FAIL_PERMANENT)"

section \<open>Correctness of the contracts\<close>

lemma length_jstrings: "jstrings vs = Inr ss \<Longrightarrow> length ss = length vs"
  by (induction vs arbitrary: ss rule: jstrings.induct) (auto simp: tx_simps)

text \<open>
  Decoding a retry policy is safe: every policy that \<open>from_mapping\<close> accepts lies in
  the frozen bounds (1..32 attempts, delays ordered and at most one day, at most 32
  distinct well-formed error classes).
\<close>

theorem retry_policy_from_mapping_ok:
  assumes "retry_policy_from_mapping v = Inr p"
  shows "retry_policy_ok p"
  using assms
  by (cases v; simp add: retry_policy_from_mapping_def)
    (simp only: tx_simps, elim conjE exE,
     auto simp: retry_policy_ok_def tx_simps list_ex_iff list_all_iff dest: length_jstrings
      split: jval.split_asm option.split_asm if_split_asm)

definition example_policy_json :: jval where
  "example_policy_json = JObj
     [(''max_attempts'', JInt 3), (''base_delay_ms'', JInt 100), (''max_delay_ms'', JInt 5000),
      (''retryable_error_classes'', JArr [JStr ''executor_transient''])]"

definition example_policy :: retry_policy where
  "example_policy = \<lparr>rp_max_attempts = 3, rp_base_delay_ms = 100, rp_max_delay_ms = 5000,
     rp_retryable_error_classes = [''executor_transient'']\<rparr>"

theorem retry_policy_from_mapping_ok_witness:
  "retry_policy_from_mapping example_policy_json = Inr example_policy \<and> retry_policy_ok example_policy"
proof -
  have h: "retry_policy_from_mapping example_policy_json = Inr example_policy"
    by code_simp
  show ?thesis using h retry_policy_from_mapping_ok [OF h] by simp
qed

text \<open>
  The retry delay is total on valid input and bounded: it never exceeds the policy's
  maximum and stays within the upper quarter of the capped exponential
  \<open>min max (base * 2^min(n-1, 62))\<close>, whatever the hash returns.
\<close>

theorem retry_delay_bounds:
  assumes "unit_key \<noteq> []" and "1 \<le> n" and "0 \<le> base" and "base \<le> maxd"
  shows "\<exists>d. deterministic_retry_delay_ms sha8 unit_key n base maxd = Inr d
      \<and> 0 \<le> d \<and> d \<le> maxd
      \<and> (let nominal = min maxd (base * 2 ^ nat (min (n - 1) 62))
         in (nominal * 3) div 4 \<le> d \<and> d \<le> nominal)"
proof (cases "base = 0 \<or> maxd = 0")
  case True
  with assms show ?thesis
    by (auto simp: deterministic_retry_delay_ms_def Let_def)
next
  case False
  define nominal where "nominal = min maxd (base * 2 ^ nat (min (n - 1) 62))"
  define lower where "lower = (nominal * 3) div 4"
  define jitter where
    "jitter = int (sha8 (unit_key @ [CHR 0x00] @ show_int n)) mod (nominal - lower + 1)"
  have nom: "0 < nominal" and nommax: "nominal \<le> maxd"
    using False assms by (simp_all add: nominal_def)
  have low: "0 \<le> lower" "lower \<le> nominal"
    using nom by (simp_all add: lower_def)
  then have jit: "0 \<le> jitter" "jitter \<le> nominal - lower"
    using pos_mod_bound [of "nominal - lower + 1"] by (simp_all add: jitter_def)
  have "deterministic_retry_delay_ms sha8 unit_key n base maxd = Inr (lower + jitter)"
    using assms False
    by (simp add: deterministic_retry_delay_ms_def Let_def nominal_def lower_def jitter_def)
  with low jit nommax show ?thesis
    by (simp add: nominal_def [symmetric] lower_def [symmetric] Let_def)
qed

theorem retry_delay_bounds_witness:
  "\<exists>d. deterministic_retry_delay_ms (\<lambda>_. 7) ''unit-key'' 3 100 5000 = Inr d
      \<and> 0 \<le> d \<and> d \<le> 5000
      \<and> (let nominal = min 5000 (100 * 2 ^ nat (min (3 - 1) 62))
         in (nominal * 3) div 4 \<le> d \<and> d \<le> nominal)"
proof -
  have "''unit-key'' \<noteq> []" "(1::int) \<le> 3" "(0::int) \<le> 100" "(100::int) \<le> 5000"
    by simp_all
  then show ?thesis by (rule retry_delay_bounds)
qed

text \<open>
  When the frozen contract retries by itself: for a well-formed error class, exactly
  the classes the policy lists, outside the attention and permanent classes, for a pure or
  idempotent stage, before the last granted attempt and never on a manual grant.
\<close>

theorem decide_retry_automatic_iff:
  "decide_retry effect policy n cls manual = Inr RD_RETRY \<longleftrightarrow>
     error_class_re cls
     \<and> cls \<in> set (rp_retryable_error_classes policy)
     \<and> cls \<notin> set attention_error_classes
     \<and> cls \<notin> {''executor_permanent'', ''contract_violation'', ''invalid_plan''}
     \<and> effect \<in> {E_PURE, E_IDEMPOTENT}
     \<and> n < rp_max_attempts policy \<and> \<not> manual"
  by (cases effect) (auto simp: decide_retry_def)

lemma decide_retry_total: "error_class_re cls \<Longrightarrow> \<exists>d. decide_retry effect policy n cls manual = Inr d"
  by (auto simp: decide_retry_def)

text \<open>
  Capabilities built with \<open>create\<close> are canonical: the resource ceilings name exactly
  the six v1 keys in order and within their bounds, and the effect profiles are
  non-empty and free of duplicates.
\<close>

theorem worker_capabilities_create_canonical:
  assumes "worker_capabilities_create bs ls es = Inr c"
  shows "map fst (wc_resource_limits c) = RESOURCE_KEYS
    \<and> (\<forall>(key, amount) \<in> set (wc_resource_limits c). 0 \<le> amount \<and> amount \<le> resource_ceiling key)
    \<and> wc_effect_profiles c \<noteq> [] \<and> distinct (wc_effect_profiles c)
    \<and> set (wc_effect_profiles c) = set es
    \<and> set (wc_runner_bindings c) = set bs \<and> distinct (wc_runner_bindings c)"
  using assms
  by (auto simp: worker_capabilities_create_def worker_capabilities_post_init_def Let_def
      list_ex_iff split: if_splits)

definition example_capabilities :: worker_capabilities where
  "example_capabilities = \<lparr>wc_runner_bindings = [(R_INTERNAL, ''unit_map'')],
     wc_resource_limits = [(''cpu'', 4), (''device'', 1), (''llm'', 0), (''local_io'', 2),
       (''network_io'', 2), (''vlm'', 0)],
     wc_effect_profiles = [E_IDEMPOTENT, E_PURE]\<rparr>"

theorem worker_capabilities_create_canonical_witness:
  "worker_capabilities_create [(R_INTERNAL, ''unit_map'')]
     [(''vlm'', 0), (''cpu'', 4), (''device'', 1), (''llm'', 0), (''local_io'', 2), (''network_io'', 2)]
     [E_PURE, E_IDEMPOTENT] = Inr example_capabilities
   \<and> map fst (wc_resource_limits example_capabilities) = RESOURCE_KEYS"
proof -
  have h: "worker_capabilities_create [(R_INTERNAL, ''unit_map'')]
     [(''vlm'', 0), (''cpu'', 4), (''device'', 1), (''llm'', 0), (''local_io'', 2), (''network_io'', 2)]
     [E_PURE, E_IDEMPOTENT] = Inr example_capabilities"
    by code_simp
  show ?thesis using h worker_capabilities_create_canonical [OF h] by simp
qed

end
