(* ===== verification/Store_State.thy ===== *)
theory Store_State
  imports Coordinator
begin

text \<open>
  The database of \<open>durable_workloads/storage.py\<close> with the schema of
  \<open>migrations.py\<close>: one record per table row, one field of \<open>db\<close> per table. JSON
  columns that the repository only reads back as fixed contracts (plan budgets, retry
  policy, resources, tolerated error classes, required artifacts, output schema name, the
  identity field of a stage's entries) are stored decoded; the others are JSON objects. Two more fields stand for the process
  environment: the reading of the UTC clock, and how many random identifiers have been
  drawn (\<open>uuid4\<close>).
\<close>

section \<open>Rows\<close>

record workload_row =
  w_owner :: string
  w_id :: ident
  w_request_key :: string
  w_request_digest :: string
  w_redacted_request :: jobj
  w_state :: workload_state
  w_priority :: string
  w_budget :: jobj
  w_active_revision :: "ident option"
  w_version :: int
  w_next_event_id :: int
  w_created_at :: instant
  w_updated_at :: instant
  w_terminal_reason :: "jobj option"

record budgets =
  b_max_units :: int
  b_max_attempts_per_unit :: int
  b_max_wall_time_s :: int
  b_max_bytes_read :: int
  b_max_bytes_written :: int
  b_max_tokens :: int
  b_max_cost_micros :: int
  b_max_artifacts :: int
  b_max_concurrency :: int

record artifact_requirement =
  ar_name :: string
  ar_mime_type :: string
  ar_schema_version :: string

record revision_row =
  r_owner :: string
  r_id :: ident
  r_workload :: ident
  r_number :: int
  r_budgets :: budgets
  r_plan_digest :: string
  r_catalog :: jobj
  r_inventory_digest :: "string option"
  r_inventory_sealed :: bool
  r_expected_source_count :: int
  r_caps_truncated :: bool
  r_partial_output_accepted :: bool
  r_usage_complete :: bool
  r_failure_policy :: string
  r_tolerated_error_classes :: "string list"
  r_required_artifacts :: "artifact_requirement list"
  r_admitted_at :: "instant option"
  r_manual_retry_generation :: int
  r_policy :: jobj
  r_inventory_text :: "string option"

record resources =
  res_cpu :: int
  res_device :: int
  res_llm :: int
  res_local_io :: int
  res_network_io :: int
  res_vlm :: int

record stage_row =
  s_owner :: string
  s_id :: ident
  s_revision :: ident
  s_key :: string
  s_position :: int
  s_type :: stage_type
  s_runner_kind :: runner_kind
  s_runner_name :: string
  s_effect :: durable_effect
  s_cardinality :: string
  s_max_units :: int
  s_output_schema :: string
  s_retry :: retry_policy
  s_timeout_s :: int
  s_resources :: resources
  s_required :: bool
  s_reduction_fan_in :: "int option"
  s_invalidation_digest :: string
  s_reduction_max_input_bytes :: "int option"
  s_entry_identity_field :: "string option"
  s_bindings :: "(string \<times> jobj) list"
  s_reduction_input :: "string option"

record stage_dependency_row =
  sd_owner :: string
  sd_revision :: ident
  sd_stage :: ident
  sd_depends_on :: ident
  sd_ordinal :: int

record source_row =
  src_owner :: string
  src_id :: ident
  src_revision :: ident
  src_state :: source_state
  src_accounted :: bool
  src_source_id :: string
  src_ordinal :: int
  src_content_digest :: string
  src_device_id :: string
  src_locator_redacted :: string
  src_kind :: string
  src_size_bytes :: int
  src_mtime_ns :: int

record placement_row =
  pm_owner :: string
  pm_revision :: ident
  pm_stage :: ident
  pm_target :: string
  pm_device :: "string option"

record unit_row =
  u_owner :: string
  u_id :: ident
  u_revision :: ident
  u_stage :: ident
  u_key :: string
  u_state :: unit_state
  u_attempt_count :: int
  u_expected_dependency_count :: int
  u_next_attempt_at :: "instant option"
  u_lease_worker :: "string option"
  u_active_attempt :: "ident option"
  u_fence :: int
  u_lease_expires_at :: "instant option"
  u_committed_result :: "ident option"
  u_error_class :: "string option"
  u_partial_output :: bool
  u_terminal_detail :: "jobj option"
  u_manual_retry_tokens :: int
  u_manual_retry_generation :: int
  u_reduction_level :: "int option"
  u_created_at :: instant
  u_updated_at :: instant
  u_source_row :: "ident option"
  u_shard_key :: "string option"
  u_reduction_ordinal :: "int option"
  u_reduction_root :: bool

record attempt_row =
  a_owner :: string
  a_id :: ident
  a_unit :: ident
  a_number :: int
  a_fence :: int
  a_worker :: string
  a_device :: "string option"
  a_invocation :: "string option"
  a_state :: attempt_state
  a_started_at :: instant
  a_ended_at :: "instant option"
  a_structured_error :: "jobj option"
  a_executor_snapshot :: jobj
  a_model_snapshot :: jobj
  a_metrics :: jobj

record result_row =
  x_owner :: string
  x_id :: ident
  x_revision :: ident
  x_unit :: ident
  x_attempt :: ident
  x_fence :: int
  x_digest :: string
  x_schema_version :: string
  x_payload :: jobj
  x_provenance :: jobj
  x_committed_at :: instant

record unit_dependency_row =
  ud_owner :: string
  ud_revision :: ident
  ud_unit :: ident
  ud_source_result :: ident
  ud_role :: string
  ud_ordinal :: int
  ud_entry_offset :: "int option"
  ud_entry_length :: "int option"

record dependency_row =
  d_owner :: string
  d_revision :: ident
  d_child_result :: ident
  d_source_result :: ident
  d_role :: string
  d_ordinal :: int

record artifact_row =
  art_owner :: string
  art_id :: ident
  art_revision :: ident
  art_logical_name :: string
  art_state :: artifact_state
  art_digest_verified :: bool
  art_schema_valid :: bool
  art_postconditions_valid :: bool
  art_schema_version :: string
  art_mime_type :: string

record publication_row =
  pub_owner :: string
  pub_artifact :: ident
  pub_state :: publication_state

record event_row =
  e_owner :: string
  e_workload :: ident
  e_id :: int
  e_type :: event_type
  e_payload :: jobj
  e_created_at :: instant

record outbox_row =
  o_owner :: string
  o_id :: ident
  o_workload :: ident
  o_event :: int
  o_channel :: string
  o_recipient :: string
  o_state :: outbox_state
  o_attempt_count :: int
  o_next_attempt_at :: "instant option"
  o_lease_worker :: "string option"
  o_lease_expires_at :: "instant option"
  o_fence :: int
  o_ack :: "jobj option"
  o_coalesce_key :: "string option"
  o_created_at :: instant
  o_updated_at :: instant

record credit_row =
  c_owner :: string
  c_workload :: ident
  c_deficit :: int
  c_last_selected_seq :: int
  c_quota :: int
  c_updated_at :: instant

record command_row =
  k_owner :: string
  k_workload :: ident
  k_idempotency_key :: string
  k_command :: string
  k_payload_digest :: string
  k_result :: workload_record
  k_created_at :: instant

record attention_row =
  n_owner :: string
  n_workload :: ident
  n_idempotency_key :: string
  n_decision :: string
  n_note :: "string option"
  n_created_at :: instant

record dismissal_row =
  dm_owner :: string
  dm_workload :: ident
  dm_expected_version :: int
  dm_idempotency_key :: string
  dm_dismissed_at :: instant

record usage_row =
  us_owner :: string
  us_revision :: ident
  us_input_bytes :: int
  us_output_bytes :: int
  us_input_tokens :: int
  us_output_tokens :: int
  us_cost_micros :: int
  us_usage_unknown :: bool
  us_artifact_count :: int
  us_started_at :: "instant option"
  us_clock_high_water_at :: "instant option"
  us_updated_at :: instant

record materialization_row =
  m_owner :: string
  m_revision :: ident
  m_stage :: ident
  m_completed :: bool
  m_attention_code :: "string option"
  m_source_ordinal :: int
  m_parent_position :: int
  m_parent_unit :: "ident option"
  m_entry_offset :: int
  m_legacy_replay :: bool
  m_unit_count :: int
  m_reduction_level :: int
  m_reduction_ordinal :: int
  m_reduction_waiting :: bool
  m_reduction_input_count :: int
  m_updated_at :: instant

record temporary_storage_row =
  ts_owner :: string
  ts_workload :: ident
  ts_version :: int
  ts_status :: string

record db =
  workloads :: "workload_row list"
  revisions :: "revision_row list"
  stages :: "stage_row list"
  stage_dependencies :: "stage_dependency_row list"
  sources :: "source_row list"
  stage_placements :: "placement_row list"
  units :: "unit_row list"
  attempts :: "attempt_row list"
  results :: "result_row list"
  unit_dependencies :: "unit_dependency_row list"
  dependencies :: "dependency_row list"
  artifacts :: "artifact_row list"
  publications :: "publication_row list"
  events :: "event_row list"
  outbox :: "outbox_row list"
  scheduler_credits :: "credit_row list"
  commands :: "command_row list"
  attention_resolutions :: "attention_row list"
  workload_dismissals :: "dismissal_row list"
  revision_usage :: "usage_row list"
  stage_materialization :: "materialization_row list"
  temporary_storage :: "temporary_storage_row list"
  clock :: instant
  uuid_count :: int

section \<open>Keys\<close>

definition workload_at :: "string \<Rightarrow> ident \<Rightarrow> workload_row \<Rightarrow> bool" where
  "workload_at owner wid w \<longleftrightarrow> w_owner w = owner \<and> w_id w = wid"

definition unit_at :: "string \<Rightarrow> ident \<Rightarrow> unit_row \<Rightarrow> bool" where
  "unit_at owner uid u \<longleftrightarrow> u_owner u = owner \<and> u_id u = uid"

definition revision_at :: "string \<Rightarrow> ident \<Rightarrow> revision_row \<Rightarrow> bool" where
  "revision_at owner rid r \<longleftrightarrow> r_owner r = owner \<and> r_id r = rid"

definition usage_at :: "string \<Rightarrow> ident \<Rightarrow> usage_row \<Rightarrow> bool" where
  "usage_at owner rid u \<longleftrightarrow> us_owner u = owner \<and> us_revision u = rid"

definition stage_at :: "string \<Rightarrow> ident \<Rightarrow> ident \<Rightarrow> stage_row \<Rightarrow> bool" where
  "stage_at owner rid sid s \<longleftrightarrow> s_owner s = owner \<and> s_revision s = rid \<and> s_id s = sid"

definition in_revision :: "string \<Rightarrow> ident \<Rightarrow> unit_row \<Rightarrow> bool" where
  "in_revision owner rid u \<longleftrightarrow> u_owner u = owner \<and> u_revision u = rid"

abbreviation unit_pk :: "unit_row \<Rightarrow> string \<times> ident" where
  "unit_pk u \<equiv> (u_owner u, u_id u)"

abbreviation workload_pk :: "workload_row \<Rightarrow> string \<times> ident" where
  "workload_pk w \<equiv> (w_owner w, w_id w)"

abbreviation attempt_pk :: "attempt_row \<Rightarrow> string \<times> ident" where
  "attempt_pk a \<equiv> (a_owner a, a_id a)"

abbreviation outbox_pk :: "outbox_row \<Rightarrow> string \<times> ident" where
  "outbox_pk b \<equiv> (o_owner b, o_id b)"

text \<open>\<open>PRIMARY KEY\<close>, \<open>UNIQUE (owner, workload, event, channel, recipient)\<close> and the partial index.\<close>

definition outbox_event_key :: "outbox_row \<Rightarrow> string \<times> ident \<times> int \<times> string \<times> string" where
  "outbox_event_key b = (o_owner b, o_workload b, o_event b, o_channel b, o_recipient b)"

definition pending_coalesce_key ::
  "outbox_row \<Rightarrow> string \<times> ident \<times> string \<times> string \<times> string option" where
  "pending_coalesce_key b = (o_owner b, o_workload b, o_channel b, o_recipient b, o_coalesce_key b)"

definition outbox_indexes_ok :: "outbox_row list \<Rightarrow> bool" where
  "outbox_indexes_ok rows \<longleftrightarrow>
     distinct (map outbox_pk rows) \<and> distinct (map outbox_event_key rows) \<and>
     distinct (map pending_coalesce_key
       (filter (\<lambda>b. o_coalesce_key b \<noteq> None \<and> o_state b = O_PENDING) rows))"

section \<open>Argument checks and identifiers\<close>

definition require_owner :: "string \<Rightarrow> string result" where
  "require_owner owner =
     (if owner = [] \<or> length owner > 160 \<or> owner \<noteq> strip owner \<or> CHR 0x00 \<in> set owner
      then Inl OwnerRequiredError else Inr owner)"

definition require_key :: "string \<Rightarrow> nat \<Rightarrow> string result" where
  "require_key value maximum =
     (if \<not> (1 \<le> length value \<and> length value \<le> maximum) \<or> CHR 0x00 \<in> set value then Inl ValueError
      else if value \<noteq> strip value then Inl ValueError else Inr value)"

definition require_version :: "int \<Rightarrow> int result" where
  "require_version value = (if value < 1 then Inl ValueError else Inr value)"

definition require_limit :: "int \<Rightarrow> int \<Rightarrow> int result" where
  "require_limit value maximum =
     (if \<not> (1 \<le> value \<and> value \<le> maximum) then Inl ValueError else Inr value)"

text \<open>
  \<open>uuid.uuid4().hex\<close>: 32 hexadecimal digits. The generator is modelled by the count of
  identifiers drawn so far; every insertion still checks the primary key, so nothing rests
  on two draws being different.
\<close>

function hex_digits :: "int \<Rightarrow> string" where
  "hex_digits n = (if n < 16 then [hex_digit n] else hex_digits (n div 16) @ [hex_digit (n mod 16)])"
  by pat_completeness auto
termination
  by (relation "measure nat") auto

declare hex_digits.simps [simp del]

definition uuid_hex :: "int \<Rightarrow> string" where
  "uuid_hex n = (let d = hex_digits n in replicate (32 - length d) (CHR ''0'') @ d)"

definition new_id :: "string \<Rightarrow> db \<Rightarrow> ident \<times> db" where
  "new_id prefix d =
     (prefix @ ''_'' @ uuid_hex (uuid_count d), d\<lparr>uuid_count := uuid_count d + 1\<rparr>)"

definition chosen_id :: "ident option \<Rightarrow> string \<Rightarrow> db \<Rightarrow> (ident \<times> db) result" where
  "chosen_id value prefix d =
     (let (identifier, d') = (case value of None \<Rightarrow> new_id prefix d | Some v \<Rightarrow> (v, d)) in
      if \<not> id_re identifier then Inl ValueError else Inr (identifier, d'))"

definition utc_now :: "db \<Rightarrow> instant" where
  "utc_now d = clock d"

text \<open>\<open>_operation_now\<close>: the caller's instant, or the clock.\<close>

definition operation_now :: "db \<Rightarrow> instant option \<Rightarrow> instant" where
  "operation_now d now = (case now of None \<Rightarrow> clock d | Some t \<Rightarrow> t)"

section \<open>Workload rows\<close>

definition row_to_workload :: "workload_row \<Rightarrow> workload_record" where
  "row_to_workload w =
     \<lparr>wr_owner_user_id = w_owner w, wr_workload_id = w_id w, wr_request_key = w_request_key w,
      wr_state = w_state w, wr_priority = w_priority w,
      wr_active_revision_id = w_active_revision w, wr_version = w_version w,
      wr_created_at = w_created_at w, wr_updated_at = w_updated_at w,
      wr_terminal_reason = w_terminal_reason w\<rparr>"

definition select_workload :: "db \<Rightarrow> string \<Rightarrow> ident \<Rightarrow> workload_row result" where
  "select_workload d owner wid = optE (find (workload_at owner wid) (workloads d)) WorkloadNotFoundError"

lemma select_workload_Inr:
  "select_workload d owner wid = Inr w \<Longrightarrow>
     w \<in> set (workloads d) \<and> w_owner w = owner \<and> w_id w = wid"
  by (auto simp: select_workload_def tx_simps workload_at_def dest!: find_SomeD)

definition get_workload :: "db \<Rightarrow> string \<Rightarrow> ident \<Rightarrow> workload_record result" where
  "get_workload d owner_user_id workload_id =
     bindE (require_owner owner_user_id) (\<lambda>owner.
     bindE (select_workload d owner workload_id) (\<lambda>w. Inr (row_to_workload w)))"

definition get_visible_workload :: "db \<Rightarrow> string \<Rightarrow> ident \<Rightarrow> workload_record result" where
  "get_visible_workload d owner_user_id workload_id =
     bindE (require_owner owner_user_id) (\<lambda>owner.
     bindE (select_workload d owner workload_id) (\<lambda>w.
     if exists_where (\<lambda>m. dm_owner m = owner \<and> dm_workload m = workload_id) (workload_dismissals d)
     then Inl WorkloadNotFoundError else Inr (row_to_workload w)))"

text \<open>Resource claims in the canonical order of \<open>RESOURCE_KEYS\<close>.\<close>

definition resource_items :: "resources \<Rightarrow> (string \<times> int) list" where
  "resource_items r =
     [(''cpu'', res_cpu r), (''device'', res_device r), (''llm'', res_llm r),
      (''local_io'', res_local_io r), (''network_io'', res_network_io r), (''vlm'', res_vlm r)]"

lemma map_fst_resource_items [simp]: "map fst (resource_items r) = RESOURCE_KEYS"
  by (simp add: resource_items_def RESOURCE_KEYS_def)

end
