(* ===== verification/Evolution.thy ===== *)
theory Evolution
  imports Store_State
begin

text \<open>
  How the store's tables may change. One preorder per table says what every operation
  keeps of a row: identities are fixed, a workload's state follows the graph of
  \<open>models.py\<close> and each state change raises its version, fences and attempt counts never
  fall, ended attempts, committed results, events and recorded commands are frozen.
  \<open>db_evolves\<close> puts them together; every operation of the later theories is shown to be
  one such evolution, so that the safety properties of whole runs follow from here. The
  same facts are the subject of the triggers of \<open>migrations.py\<close>: an operation that is an
  evolution never makes one of them raise.
\<close>

section \<open>One preorder per table\<close>

definition workload_evolves :: "workload_row \<Rightarrow> workload_row \<Rightarrow> bool" where
  "workload_evolves w v \<longleftrightarrow>
     w_owner v = w_owner w \<and> w_id v = w_id w \<and> w_request_key v = w_request_key w \<and>
     w_request_digest v = w_request_digest w \<and> w_created_at v = w_created_at w \<and>
     workload_path (w_state w) (w_state v) \<and> w_version w \<le> w_version v \<and>
     (w_state v \<noteq> w_state w \<longrightarrow> w_version w < w_version v) \<and>
     w_next_event_id w \<le> w_next_event_id v"

definition revision_evolves :: "revision_row \<Rightarrow> revision_row \<Rightarrow> bool" where
  "revision_evolves r s \<longleftrightarrow>
     r_manual_retry_generation r \<le> r_manual_retry_generation s \<and>
     (r_admitted_at r \<noteq> None \<longrightarrow> r_admitted_at s = r_admitted_at r) \<and>
     s\<lparr>r_manual_retry_generation := r_manual_retry_generation r,
       r_usage_complete := r_usage_complete r, r_admitted_at := r_admitted_at r\<rparr> = r"

definition live_unit :: "unit_row \<Rightarrow> bool" where
  "live_unit u \<longleftrightarrow> u_state u = U_LEASED \<or> u_state u = U_RUNNING"

abbreviation unit_holder :: "unit_row \<Rightarrow> string option \<times> ident option" where
  "unit_holder u \<equiv> (u_lease_worker u, u_active_attempt u)"

definition unit_evolves :: "unit_row \<Rightarrow> unit_row \<Rightarrow> bool" where
  "unit_evolves u v \<longleftrightarrow>
     u_owner v = u_owner u \<and> u_id v = u_id u \<and> u_revision v = u_revision u \<and>
     u_stage v = u_stage u \<and> u_key v = u_key u \<and> u_created_at v = u_created_at u \<and>
     fence_evolves live_unit u_fence unit_holder u v \<and>
     u_attempt_count u \<le> u_attempt_count v \<and>
     (terminal_unit (u_state u) \<longrightarrow> u_state v = u_state u) \<and>
     (u_committed_result u \<noteq> None \<longrightarrow> u_committed_result v = u_committed_result u)"

definition attempt_evolves :: "attempt_row \<Rightarrow> attempt_row \<Rightarrow> bool" where
  "attempt_evolves a b \<longleftrightarrow>
     a_owner b = a_owner a \<and> a_id b = a_id a \<and> a_unit b = a_unit a \<and>
     a_number b = a_number a \<and> a_fence b = a_fence a \<and> a_worker b = a_worker a \<and>
     a_started_at b = a_started_at a \<and> (a_ended_at a \<noteq> None \<longrightarrow> b = a)"

definition usage_evolves :: "usage_row \<Rightarrow> usage_row \<Rightarrow> bool" where
  "usage_evolves u v \<longleftrightarrow>
     us_owner v = us_owner u \<and> us_revision v = us_revision u \<and>
     us_input_bytes u \<le> us_input_bytes v \<and> us_output_bytes u \<le> us_output_bytes v \<and>
     us_input_tokens u \<le> us_input_tokens v \<and> us_output_tokens u \<le> us_output_tokens v \<and>
     us_cost_micros u \<le> us_cost_micros v \<and> us_artifact_count u \<le> us_artifact_count v \<and>
     (us_usage_unknown u \<longrightarrow> us_usage_unknown v) \<and>
     (us_started_at u \<noteq> None \<longrightarrow> us_started_at v = us_started_at u) \<and>
     us_clock_high_water_at u \<le> us_clock_high_water_at v"

definition leased_outbox :: "outbox_row \<Rightarrow> bool" where
  "leased_outbox b \<longleftrightarrow> o_state b = O_LEASED"

definition settled_outbox :: "outbox_row \<Rightarrow> bool" where
  "settled_outbox b \<longleftrightarrow> o_state b = O_SENT \<or> o_state b = O_CANCELLED"

definition outbox_evolves :: "outbox_row \<Rightarrow> outbox_row \<Rightarrow> bool" where
  "outbox_evolves b c \<longleftrightarrow>
     o_owner c = o_owner b \<and> o_id c = o_id b \<and> o_workload c = o_workload b \<and>
     o_channel c = o_channel b \<and> o_recipient c = o_recipient b \<and>
     o_coalesce_key c = o_coalesce_key b \<and> o_created_at c = o_created_at b \<and>
     fence_evolves leased_outbox o_fence o_lease_worker b c \<and>
     o_attempt_count b \<le> o_attempt_count c \<and> (settled_outbox b \<longrightarrow> c = b)"

interpretation workload_rows: row_preorder workload_evolves
  by unfold_locales (auto simp: workload_evolves_def)

lemma revision_evolves_refl: "revision_evolves r r"
  by (simp add: revision_evolves_def)

lemma revision_evolves_trans:
  "revision_evolves r s \<Longrightarrow> revision_evolves s t \<Longrightarrow> revision_evolves r t"
  by (cases r; cases s; cases t) (simp add: revision_evolves_def)

lemma revision_evolves_keys:
  "revision_evolves r s \<Longrightarrow> r_owner s = r_owner r \<and> r_id s = r_id r \<and> r_workload s = r_workload r"
  by (cases r; cases s) (simp add: revision_evolves_def)

interpretation revision_rows: row_preorder revision_evolves
  by unfold_locales (auto intro: revision_evolves_refl revision_evolves_trans)

lemma unit_evolves_trans: "unit_evolves u v \<Longrightarrow> unit_evolves v w \<Longrightarrow> unit_evolves u w"
  unfolding unit_evolves_def by (auto intro: fence_evolves_trans)

interpretation unit_rows: fenced_lease unit_evolves live_unit u_fence unit_holder
  by unfold_locales
    (auto simp: unit_evolves_def fence_evolves_refl dest: unit_evolves_trans
      intro: fence_evolves_trans)

interpretation attempt_rows: row_preorder attempt_evolves
  by unfold_locales (auto simp: attempt_evolves_def)

interpretation usage_rows: row_preorder usage_evolves
  by unfold_locales (auto simp: usage_evolves_def)

lemma outbox_evolves_trans: "outbox_evolves b c \<Longrightarrow> outbox_evolves c d \<Longrightarrow> outbox_evolves b d"
  unfolding outbox_evolves_def by (auto intro: fence_evolves_trans)

interpretation outbox_rows: fenced_lease outbox_evolves leased_outbox o_fence o_lease_worker
  by unfold_locales
    (auto simp: outbox_evolves_def fence_evolves_refl intro: fence_evolves_trans)

interpretation frozen_rows: row_preorder "(=)"
  by unfold_locales simp_all

section \<open>The whole database\<close>

definition db_evolves :: "db \<Rightarrow> db \<Rightarrow> bool" where
  "db_evolves d e \<longleftrightarrow>
     rows_evolve workload_evolves (workloads d) (workloads e) \<and>
     rows_evolve revision_evolves (revisions d) (revisions e) \<and>
     rows_evolve (=) (stages d) (stages e) \<and>
     rows_evolve unit_evolves (units d) (units e) \<and>
     rows_evolve attempt_evolves (attempts d) (attempts e) \<and>
     rows_evolve (=) (results d) (results e) \<and>
     rows_evolve (=) (events d) (events e) \<and>
     rows_evolve outbox_evolves (outbox d) (outbox e) \<and>
     rows_evolve (=) (commands d) (commands e) \<and>
     rows_evolve usage_evolves (revision_usage d) (revision_usage e)"

lemmas rows_refl [simp] =
  workload_rows.refl_rows revision_rows.refl_rows unit_rows.refl_rows attempt_rows.refl_rows
  usage_rows.refl_rows outbox_rows.refl_rows frozen_rows.refl_rows

lemmas rows_append [simp] =
  workload_rows.append_rows revision_rows.append_rows unit_rows.append_rows
  attempt_rows.append_rows usage_rows.append_rows outbox_rows.append_rows
  frozen_rows.append_rows

lemma db_evolves_refl [simp]: "db_evolves d d"
  by (simp add: db_evolves_def)

lemma db_evolves_trans [trans]: "db_evolves d e \<Longrightarrow> db_evolves e f \<Longrightarrow> db_evolves d f"
  unfolding db_evolves_def
  by (blast intro: workload_rows.trans_rows revision_rows.trans_rows unit_rows.trans_rows
      attempt_rows.trans_rows usage_rows.trans_rows outbox_rows.trans_rows
      frozen_rows.trans_rows)

text \<open>Each table on its own.\<close>

lemma db_evolves_update [evolve_intros]:
  "rows_evolve workload_evolves (workloads d) ws \<Longrightarrow> db_evolves d (d\<lparr>workloads := ws\<rparr>)"
  "rows_evolve revision_evolves (revisions d) rs \<Longrightarrow> db_evolves d (d\<lparr>revisions := rs\<rparr>)"
  "rows_evolve (=) (stages d) ss \<Longrightarrow> db_evolves d (d\<lparr>stages := ss\<rparr>)"
  "rows_evolve unit_evolves (units d) us \<Longrightarrow> db_evolves d (d\<lparr>units := us\<rparr>)"
  "rows_evolve attempt_evolves (attempts d) as \<Longrightarrow> db_evolves d (d\<lparr>attempts := as\<rparr>)"
  "rows_evolve (=) (results d) xs \<Longrightarrow> db_evolves d (d\<lparr>results := xs\<rparr>)"
  "rows_evolve (=) (events d) es \<Longrightarrow> db_evolves d (d\<lparr>events := es\<rparr>)"
  "rows_evolve outbox_evolves (outbox d) bs \<Longrightarrow> db_evolves d (d\<lparr>outbox := bs\<rparr>)"
  "rows_evolve (=) (commands d) cs \<Longrightarrow> db_evolves d (d\<lparr>commands := cs\<rparr>)"
  "rows_evolve usage_evolves (revision_usage d) vs \<Longrightarrow> db_evolves d (d\<lparr>revision_usage := vs\<rparr>)"
  by (simp_all add: db_evolves_def)

lemma foldE_db_evolves:
  assumes "foldE g ks s = Inr s'"
    and "\<And>k s t. k \<in> set ks \<Longrightarrow> g k s = Inr t \<Longrightarrow> db_evolves (the_db s) (the_db t)"
  shows "db_evolves (the_db s) (the_db s')"
  using foldE_invariant [where Q = "\<lambda>t. db_evolves (the_db s) (the_db t)", OF assms(1)]
    assms(2) by (blast intro: db_evolves_trans db_evolves_refl)

lemma new_id_evolves: "new_id prefix d = (identifier, e) \<Longrightarrow> db_evolves d e"
  by (auto simp: new_id_def db_evolves_def)

lemma chosen_id_evolves: "chosen_id v prefix d = Inr (identifier, e) \<Longrightarrow> db_evolves d e"
  by (auto simp: chosen_id_def new_id_def db_evolves_def split: option.splits if_splits)

end
