(* ===== verification/Store_Invariant.thy ===== *)
theory Store_Invariant
  imports Evolution
begin

text \<open>
  The invariant of the store: primary keys are unique, the events of a workload are
  numbered without gaps from 1, a unit is live exactly while one live attempt carries its
  worker and fence, and a unit is committed exactly when it owns its one result. \<open>txn\<close> is
  what every transaction is shown to be: an evolution of the tables that keeps the invariant.
\<close>

section \<open>The invariant\<close>

abbreviation revision_pk :: "revision_row \<Rightarrow> string \<times> ident" where
  "revision_pk r \<equiv> (r_owner r, r_id r)"

abbreviation stage_pk :: "stage_row \<Rightarrow> string \<times> ident" where
  "stage_pk s \<equiv> (s_owner s, s_id s)"

abbreviation usage_pk :: "usage_row \<Rightarrow> string \<times> ident" where
  "usage_pk u \<equiv> (us_owner u, us_revision u)"

definition keys_ok :: "db \<Rightarrow> bool" where
  "keys_ok d \<longleftrightarrow>
     distinct (map workload_pk (workloads d)) \<and> distinct (map unit_pk (units d)) \<and>
     distinct (map attempt_pk (attempts d)) \<and>
     distinct (map stage_pk (stages d)) \<and>
     distinct (map revision_pk (revisions d)) \<and> distinct (map usage_pk (revision_usage d)) \<and>
     distinct (map (\<lambda>x. (x_owner x, x_unit x)) (results d)) \<and>
     distinct (map (\<lambda>x. (x_owner x, x_id x)) (results d))"

text \<open>The active revision of a workload is its own and has a usage row.\<close>

definition active_revision_ok :: "revision_row list \<Rightarrow> usage_row list \<Rightarrow> workload_row \<Rightarrow> bool" where
  "active_revision_ok rs us w \<longleftrightarrow> (case w_active_revision w of None \<Rightarrow> True
     | Some rid \<Rightarrow> (\<exists>r \<in> set rs. revision_at (w_owner w) rid r \<and> r_workload r = w_id w) \<and>
         (\<exists>u \<in> set us. usage_at (w_owner w) rid u))"

definition active_ok :: "db \<Rightarrow> bool" where
  "active_ok d \<longleftrightarrow> (\<forall>w \<in> set (workloads d). active_revision_ok (revisions d) (revision_usage d) w)"

definition event_of :: "workload_row \<Rightarrow> event_row \<Rightarrow> bool" where
  "event_of w e \<longleftrightarrow> e_owner e = w_owner w \<and> e_workload e = w_id w"

definition event_ids_ok :: "event_row list \<Rightarrow> workload_row \<Rightarrow> bool" where
  "event_ids_ok es w \<longleftrightarrow> 1 \<le> w_next_event_id w \<and>
     map e_id (filter (event_of w) es) = [1..w_next_event_id w - 1]"

definition events_ok :: "workload_row list \<Rightarrow> event_row list \<Rightarrow> bool" where
  "events_ok ws es \<longleftrightarrow> (\<forall>w \<in> set ws. event_ids_ok es w) \<and>
     (\<forall>e \<in> set es. \<exists>w \<in> set ws. event_of w e)"

definition live_attempt :: "attempt_row \<Rightarrow> bool" where
  "live_attempt a \<longleftrightarrow> a_state a = A_LEASED \<or> a_state a = A_RUNNING"

definition attempt_of :: "unit_row \<Rightarrow> attempt_row \<Rightarrow> bool" where
  "attempt_of u a \<longleftrightarrow> a_owner a = u_owner u \<and> a_unit a = u_id u \<and>
     u_active_attempt u = Some (a_id a) \<and> u_lease_worker u = Some (a_worker a) \<and>
     a_fence a = u_fence u"

definition leased_alike :: "unit_row \<Rightarrow> attempt_row \<Rightarrow> bool" where
  "leased_alike u a \<longleftrightarrow>
     (u_state u = U_LEASED \<and> a_state a = A_LEASED) \<or> (u_state u = U_RUNNING \<and> a_state a = A_RUNNING)"

definition idle_unit :: "unit_row \<Rightarrow> bool" where
  "idle_unit u \<longleftrightarrow> \<not> live_unit u \<and> u_active_attempt u = None \<and> u_lease_worker u = None \<and>
     u_lease_expires_at u = None"

text \<open>An attempt belongs to its unit and is not ahead of the unit's fence and count.\<close>

definition attempt_within :: "unit_row \<Rightarrow> attempt_row \<Rightarrow> bool" where
  "attempt_within u a \<longleftrightarrow> a_owner a = u_owner u \<and> a_unit a = u_id u \<and> a_fence a \<le> u_fence u \<and>
     a_number a \<le> u_attempt_count u"

definition attempts_ok :: "attempt_row list \<Rightarrow> bool" where
  "attempts_ok as \<longleftrightarrow> (\<forall>a \<in> set as. a_ended_at a = None \<longleftrightarrow> live_attempt a)"

definition leases_ok :: "unit_row list \<Rightarrow> attempt_row list \<Rightarrow> bool" where
  "leases_ok us as \<longleftrightarrow>
     (\<forall>u \<in> set us. idle_unit u \<or> (u_lease_expires_at u \<noteq> None \<and>
        (\<exists>a \<in> set as. attempt_of u a \<and> leased_alike u a))) \<and>
     (\<forall>a \<in> set as. live_attempt a \<longrightarrow> (\<exists>u \<in> set us. live_unit u \<and> attempt_of u a)) \<and>
     (\<forall>a \<in> set as. \<exists>u \<in> set us. attempt_within u a)"

definition results_ok :: "unit_row list \<Rightarrow> result_row list \<Rightarrow> bool" where
  "results_ok us xs \<longleftrightarrow>
     (\<forall>u \<in> set us. u_state u = U_COMMITTED \<longleftrightarrow> u_committed_result u \<noteq> None) \<and>
     (\<forall>u \<in> set us. u_committed_result u = None \<or>
        (\<exists>x \<in> set xs. x_owner x = u_owner u \<and> x_unit x = u_id u \<and> u_committed_result u = Some (x_id x))) \<and>
     (\<forall>x \<in> set xs. \<exists>u \<in> set us. x_owner x = u_owner u \<and> x_unit x = u_id u \<and>
        u_committed_result u = Some (x_id x))"

definition store_ok :: "db \<Rightarrow> bool" where
  "store_ok d \<longleftrightarrow> keys_ok d \<and> active_ok d \<and> outbox_indexes_ok (outbox d) \<and>
     events_ok (workloads d) (events d) \<and> attempts_ok (attempts d) \<and>
     leases_ok (units d) (attempts d) \<and> results_ok (units d) (results d)"

definition txn :: "db \<Rightarrow> db \<Rightarrow> bool" where
  "txn d e \<longleftrightarrow> db_evolves d e \<and> (store_ok d \<longrightarrow> store_ok e)"

lemma txn_refl [simp]: "txn d d"
  by (simp add: txn_def)

lemma txn_trans [trans]: "txn d e \<Longrightarrow> txn e f \<Longrightarrow> txn d f"
  by (auto simp: txn_def intro: db_evolves_trans)

lemma txn_keeps: "txn d e \<Longrightarrow> store_ok d \<Longrightarrow> store_ok e"
  by (simp add: txn_def)

lemma foldE_txn:
  assumes "foldE g ks s = Inr s'"
    and "\<And>k s t. k \<in> set ks \<Longrightarrow> g k s = Inr t \<Longrightarrow> txn (the_db s) (the_db t)"
  shows "txn (the_db s) (the_db s')"
  using foldE_invariant [where Q = "\<lambda>t. txn (the_db s) (the_db t)", OF assms(1)]
    assms(2) by (blast intro: txn_trans txn_refl)

section \<open>Updates of one table\<close>

lemma event_of_cong:
  "w_owner v = w_owner w \<Longrightarrow> w_id v = w_id w \<Longrightarrow> event_of v = event_of w"
  by (simp add: event_of_def fun_eq_iff)

lemma events_ok_update:
  assumes change: "\<And>w. w \<in> set ws \<Longrightarrow> P w \<Longrightarrow>
      w_owner (f w) = w_owner w \<and> w_id (f w) = w_id w \<and> w_next_event_id (f w) = w_next_event_id w"
    and ok: "events_ok ws es"
  shows "events_ok (update_where P f ws) es"
proof -
  define g where "g w = (if P w then f w else w)" for w
  have g: "update_where P f ws = map g ws"
    by (simp add: g_def update_where_def)
  have "event_of (g w) = event_of w" "event_ids_ok es (g w) = event_ids_ok es w"
    if "w \<in> set ws" for w
    using change [OF that] event_of_cong [of "g w" w] by (auto simp: g_def event_ids_ok_def)
  then show ?thesis
    using ok unfolding g by (simp add: events_ok_def)
qed

lemma workload_pk_update:
  assumes "\<And>w. w \<in> set ws \<Longrightarrow> P w \<Longrightarrow> w_owner (f w) = w_owner w \<and> w_id (f w) = w_id w"
  shows "map workload_pk (update_where P f ws) = map workload_pk ws"
  using assms by (intro map_update_where) auto

lemma active_revision_ok_evolves:
  assumes "rows_evolve revision_evolves rs rs'" and "rows_evolve usage_evolves us us'"
    and "active_revision_ok rs us w"
    and "w_active_revision v = w_active_revision w" "w_owner v = w_owner w" "w_id v = w_id w"
  shows "active_revision_ok rs' us' v"
proof (cases "w_active_revision w")
  case None
  with assms(4) show ?thesis by (simp add: active_revision_ok_def)
next
  case (Some rid)
  then obtain r u where "r \<in> set rs" "revision_at (w_owner w) rid r" "r_workload r = w_id w"
    and "u \<in> set us" "usage_at (w_owner w) rid u"
    using assms(3) by (auto simp: active_revision_ok_def)
  moreover obtain r' u' where "r' \<in> set rs'" "revision_evolves r r'" "u' \<in> set us'" "usage_evolves u u'"
    using rows_evolveD [OF assms(1)] rows_evolveD [OF assms(2)] calculation by blast
  ultimately show ?thesis
    using Some assms(4-6) revision_evolves_keys [of r r']
    by (auto simp: active_revision_ok_def revision_at_def usage_at_def usage_evolves_def)
qed

lemma active_ok_update:
  assumes "\<And>w. w \<in> set (workloads d) \<Longrightarrow> P w \<Longrightarrow> w_owner (f w) = w_owner w \<and>
      w_id (f w) = w_id w \<and> w_active_revision (f w) = w_active_revision w"
    and "active_ok d" and "workloads e = update_where P f (workloads d)"
    and "revisions e = revisions d" and "revision_usage e = revision_usage d"
  shows "active_ok e"
proof -
  have "active_revision_ok (revisions d) (revision_usage d) (if P w then f w else w)"
    if "w \<in> set (workloads d)" for w
    using assms(1) [OF that] that assms(2)
    by (rule_tac active_revision_ok_evolves [where w = w and rs = "revisions d" and us = "revision_usage d"])
      (auto simp: active_ok_def)
  then show ?thesis using assms(3-5) by (simp add: active_ok_def ball_update_where)
qed

lemma txn_workloads:
  assumes "\<And>w. w \<in> set (workloads d) \<Longrightarrow> P w \<Longrightarrow> workload_evolves w (f w) \<and>
      w_next_event_id (f w) = w_next_event_id w \<and> w_active_revision (f w) = w_active_revision w"
  shows "txn d (d\<lparr>workloads := update_where P f (workloads d)\<rparr>)"
proof -
  have ev: "rows_evolve workload_evolves (workloads d) (update_where P f (workloads d))"
    using assms by (intro workload_rows.update_rows) auto
  have "events_ok (update_where P f (workloads d)) (events d)" if "events_ok (workloads d) (events d)"
    using that assms by (intro events_ok_update) (auto simp: workload_evolves_def)
  moreover have "map workload_pk (update_where P f (workloads d)) = map workload_pk (workloads d)"
    using assms by (intro workload_pk_update) (auto simp: workload_evolves_def)
  moreover have "active_ok (d\<lparr>workloads := update_where P f (workloads d)\<rparr>)" if "active_ok d"
    using that assms by (rule_tac active_ok_update [where d = d and P = P and f = f])
      (auto simp: workload_evolves_def)
  ultimately show ?thesis
    using ev by (auto simp: txn_def store_ok_def keys_ok_def db_evolves_def)
qed

lemma active_ok_evolves:
  assumes "rows_evolve revision_evolves (revisions d) (revisions e)"
    and "rows_evolve usage_evolves (revision_usage d) (revision_usage e)"
    and "workloads e = workloads d" and "active_ok d"
  shows "active_ok e"
  using assms unfolding active_ok_def by (auto intro: active_revision_ok_evolves)

lemma txn_revisions:
  assumes "\<And>r. r \<in> set (revisions d) \<Longrightarrow> P r \<Longrightarrow> revision_evolves r (f r)"
  shows "txn d (d\<lparr>revisions := update_where P f (revisions d)\<rparr>)"
proof -
  have ev: "rows_evolve revision_evolves (revisions d) (update_where P f (revisions d))"
    using assms by (rule revision_rows.update_rows)
  moreover have "map revision_pk (update_where P f (revisions d)) = map revision_pk (revisions d)"
    using assms revision_evolves_keys by (intro map_update_where) fastforce
  moreover have "active_ok (d\<lparr>revisions := update_where P f (revisions d)\<rparr>)" if "active_ok d"
    using that ev by (rule_tac active_ok_evolves [where d = d]) simp_all
  ultimately show ?thesis
    by (auto simp: txn_def store_ok_def keys_ok_def db_evolves_def)
qed

lemma txn_usage:
  assumes "\<And>r. r \<in> set (revision_usage d) \<Longrightarrow> P r \<Longrightarrow> usage_evolves r (f r)"
  shows "txn d (d\<lparr>revision_usage := update_where P f (revision_usage d)\<rparr>)"
proof -
  have ev: "rows_evolve usage_evolves (revision_usage d) (update_where P f (revision_usage d))"
    using assms by (rule usage_rows.update_rows)
  moreover have "map usage_pk (update_where P f (revision_usage d)) = map usage_pk (revision_usage d)"
    using assms by (intro map_update_where) (auto simp: usage_evolves_def)
  moreover have "active_ok (d\<lparr>revision_usage := update_where P f (revision_usage d)\<rparr>)" if "active_ok d"
    using that ev by (rule_tac active_ok_evolves [where d = d]) simp_all
  ultimately show ?thesis
    by (auto simp: txn_def store_ok_def keys_ok_def db_evolves_def)
qed

lemma txn_untracked [simp]:
  "txn d (d\<lparr>scheduler_credits := cs\<rparr>)"
  "txn d (d\<lparr>attention_resolutions := ns\<rparr>)"
  "txn d (d\<lparr>workload_dismissals := ms\<rparr>)"
  "txn d (d\<lparr>unit_dependencies := us\<rparr>)"
  "txn d (d\<lparr>dependencies := ds\<rparr>)"
  "txn d (d\<lparr>commands := commands d @ ks\<rparr>)"
  "txn d (d\<lparr>uuid_count := n\<rparr>)"
  "txn d (d\<lparr>clock := t\<rparr>)"
  by (simp_all add: txn_def store_ok_def keys_ok_def active_ok_def db_evolves_def)

lemma new_id_txn: "new_id prefix d = (identifier, e) \<Longrightarrow> txn d e"
  by (auto simp: new_id_def)

text \<open>Updates that touch only idle units and leave them idle.\<close>

definition idle_change :: "unit_row \<Rightarrow> unit_row \<Rightarrow> bool" where
  "idle_change u v \<longleftrightarrow> \<not> live_unit u \<and> \<not> terminal_unit (u_state u) \<and> u_state v \<noteq> U_COMMITTED \<and>
     \<not> live_unit v \<and> unit_evolves u v \<and>
     u_active_attempt v = u_active_attempt u \<and> u_lease_worker v = u_lease_worker u \<and>
     u_lease_expires_at v = u_lease_expires_at u \<and> u_fence v = u_fence u \<and>
     u_committed_result v = u_committed_result u"

lemma idle_change_idle: "idle_change u v \<Longrightarrow> idle_unit v \<longleftrightarrow> idle_unit u"
  by (auto simp: idle_change_def idle_unit_def)

lemma leases_okD:
  assumes "leases_ok us as"
  shows "u \<in> set us \<Longrightarrow> idle_unit u \<or> (u_lease_expires_at u \<noteq> None \<and>
        (\<exists>a \<in> set as. attempt_of u a \<and> leased_alike u a))"
    and "a \<in> set as \<Longrightarrow> live_attempt a \<Longrightarrow> \<exists>u \<in> set us. live_unit u \<and> attempt_of u a"
    and "a \<in> set as \<Longrightarrow> \<exists>u \<in> set us. attempt_within u a"
  using assms unfolding leases_ok_def by blast+

lemma leases_ok_live: "leases_ok us as \<Longrightarrow> u \<in> set us \<Longrightarrow> \<not> idle_unit u \<Longrightarrow> live_unit u"
  using leases_okD(1) by (fastforce simp: leased_alike_def live_unit_def)

lemma leases_ok_idle:
  assumes change: "\<And>u. u \<in> set us \<Longrightarrow> P u \<Longrightarrow> idle_change u (f u)" and ok: "leases_ok us as"
  shows "leases_ok (update_where P f us) as"
proof -
  define g where "g u = (if P u then f u else u)" for u
  have g: "update_where P f us = map g us"
    by (simp add: g_def update_where_def)
  have same: "idle_unit (g u) \<longleftrightarrow> idle_unit u" "u_owner (g u) = u_owner u" "u_id (g u) = u_id u"
    "u_fence (g u) = u_fence u" "u_attempt_count u \<le> u_attempt_count (g u)" if "u \<in> set us" for u
    using change [OF that] idle_change_idle
    by (auto simp: g_def idle_change_def unit_evolves_def)
  have kept: "g u = u" if "u \<in> set us" "\<not> idle_unit u" for u
    using change [OF that(1)] leases_ok_live [OF ok that] by (auto simp: g_def idle_change_def)
  have "idle_unit (g u) \<or> (u_lease_expires_at (g u) \<noteq> None \<and>
      (\<exists>a \<in> set as. attempt_of (g u) a \<and> leased_alike (g u) a))" if "u \<in> set us" for u
    using leases_okD(1) [OF ok that] same(1) [OF that] kept [OF that] by auto
  moreover have "\<exists>u \<in> set us. live_unit (g u) \<and> attempt_of (g u) a"
    if h: "a \<in> set as" "live_attempt a" for a
  proof -
    obtain u where u: "u \<in> set us" "live_unit u" "attempt_of u a"
      using leases_okD(2) [OF ok h] by blast
    moreover from u have "g u = u" using kept by (simp add: idle_unit_def)
    ultimately show ?thesis by metis
  qed
  moreover have "\<exists>u \<in> set us. attempt_within (g u) a" if "a \<in> set as" for a
    using leases_okD(3) [OF ok that] same(2-5) by (fastforce simp: attempt_within_def)
  ultimately show ?thesis
    unfolding g by (simp add: leases_ok_def)
qed

lemma results_ok_same:
  assumes change: "\<And>u. u \<in> set us \<Longrightarrow> P u \<Longrightarrow> unit_evolves u (f u) \<and> u_state u \<noteq> U_COMMITTED \<and>
      u_state (f u) \<noteq> U_COMMITTED \<and> u_committed_result (f u) = u_committed_result u"
    and ok: "results_ok us xs"
  shows "results_ok (update_where P f us) xs"
proof -
  define g where "g u = (if P u then f u else u)" for u
  have g: "update_where P f us = map g us"
    by (simp add: g_def update_where_def)
  have "u_owner (g u) = u_owner u \<and> u_id (g u) = u_id u \<and>
      u_committed_result (g u) = u_committed_result u \<and>
      (u_state (g u) = U_COMMITTED \<longleftrightarrow> u_state u = U_COMMITTED)" if "u \<in> set us" for u
    using change [OF that] by (auto simp: g_def unit_evolves_def)
  then show ?thesis
    using ok unfolding g by (simp add: results_ok_def)
qed

lemma unit_pk_update:
  assumes "\<And>u. u \<in> set us \<Longrightarrow> P u \<Longrightarrow> unit_evolves u (f u)"
  shows "map unit_pk (update_where P f us) = map unit_pk us"
  using assms by (intro map_update_where) (auto simp: unit_evolves_def)

lemma txn_idle_units:
  assumes "\<And>u. u \<in> set (units d) \<Longrightarrow> P u \<Longrightarrow> idle_change u (f u)"
  shows "txn d (d\<lparr>units := update_where P f (units d)\<rparr>)"
proof -
  have ev: "\<And>u. u \<in> set (units d) \<Longrightarrow> P u \<Longrightarrow> unit_evolves u (f u)"
    using assms by (auto simp: idle_change_def)
  have "results_ok (update_where P f (units d)) xs" if "results_ok (units d) xs" for xs
    using assms that by (intro results_ok_same) (auto simp: idle_change_def TERMINAL_UNIT_STATES_def)
  then show ?thesis
    using unit_rows.update_rows [of "units d" P f, OF ev] unit_pk_update [OF ev]
      leases_ok_idle [OF assms]
    by (auto simp: txn_def store_ok_def keys_ok_def active_ok_def db_evolves_def)
qed

end
