(* ===== verification/Outbox.thy ===== *)
theory Outbox
  imports Store_Invariant
begin

text \<open>
  Events and the delivery outbox of \<open>storage.py\<close>: the per-workload event sequence and
  the leased, fenced delivery rows beside it. An \<open>OutboxRecord\<close> is the row without its
  acknowledgement. The two uniqueness rules of the outbox table (one row per event,
  channel and recipient; one pending row per coalescing key) are checked on the
  statements that can break them.
\<close>

section \<open>Events\<close>

definition append_event_in_transaction ::
  "string \<Rightarrow> ident \<Rightarrow> event_type \<Rightarrow> jobj \<Rightarrow> db \<Rightarrow> (event_row \<times> db) result" where
  "append_event_in_transaction owner_user_id workload_id event_type payload d =
     bindE (require_owner owner_user_id) (\<lambda>owner.
     bindE (validate_event_payload payload) (\<lambda>_.
     bindE (optE (find (workload_at owner workload_id) (workloads d)) WorkloadNotFoundError) (\<lambda>row.
     let event_id = w_next_event_id row;
         here = (\<lambda>w. workload_at owner workload_id w \<and> w_next_event_id w = event_id);
         event = \<lparr>e_owner = owner, e_workload = workload_id, e_id = event_id, e_type = event_type,
                  e_payload = payload, e_created_at = utc_now d\<rparr>
     in if count_where here (workloads d) \<noteq> 1
        then Inl (DurableStoreError ''event sequence compare-and-set failed'')
        else if exists_where
               (\<lambda>e. e_owner e = owner \<and> e_workload e = workload_id \<and> e_id e = event_id) (events d)
        then Inl IntegrityError
        else Inr (event,
          d\<lparr>workloads := update_where here (\<lambda>w. w\<lparr>w_next_event_id := w_next_event_id w + 1\<rparr>) (workloads d),
             events := events d @ [event]\<rparr>))))"

section \<open>Outbox records\<close>

record outbox_record =
  ob_owner_user_id :: string
  ob_outbox_id :: ident
  ob_workload_id :: ident
  ob_event_id :: int
  ob_channel :: string
  ob_recipient_key :: string
  ob_state :: outbox_state
  ob_attempt_count :: int
  ob_next_attempt_at :: "instant option"
  ob_lease_worker_id :: "string option"
  ob_lease_expires_at :: "instant option"
  ob_fence :: int
  ob_coalesce_key :: "string option"
  ob_created_at :: instant
  ob_updated_at :: instant

definition row_to_outbox :: "outbox_row \<Rightarrow> outbox_record" where
  "row_to_outbox b =
     \<lparr>ob_owner_user_id = o_owner b, ob_outbox_id = o_id b, ob_workload_id = o_workload b,
      ob_event_id = o_event b, ob_channel = o_channel b, ob_recipient_key = o_recipient b,
      ob_state = o_state b, ob_attempt_count = o_attempt_count b,
      ob_next_attempt_at = o_next_attempt_at b, ob_lease_worker_id = o_lease_worker b,
      ob_lease_expires_at = o_lease_expires_at b, ob_fence = o_fence b,
      ob_coalesce_key = o_coalesce_key b, ob_created_at = o_created_at b,
      ob_updated_at = o_updated_at b\<rparr>"

definition outbox_at :: "string \<Rightarrow> ident \<Rightarrow> outbox_row \<Rightarrow> bool" where
  "outbox_at owner oid b \<longleftrightarrow> o_owner b = owner \<and> o_id b = oid"

definition find_outbox_row :: "db \<Rightarrow> string \<Rightarrow> ident \<Rightarrow> outbox_row result" where
  "find_outbox_row d owner oid = optE (find (outbox_at owner oid) (outbox d)) WorkloadNotFoundError"

definition OUTBOX_CHANNELS :: "string list" where
  "OUTBOX_CHANNELS = [''owner_event'', ''telegram'']"

definition OUTBOX_CANCEL_REASONS :: "string list" where
  "OUTBOX_CANCEL_REASONS =
     [''delivery_ambiguous'', ''event_not_supported'', ''provider_rejected'',
      ''recipient_unavailable'', ''retry_exhausted'']"

definition outbox_channel :: "string \<Rightarrow> string result" where
  "outbox_channel value = (if value \<notin> set OUTBOX_CHANNELS then Inl ValueError else Inr value)"

definition enqueue_outbox_in_transaction ::
  "string \<Rightarrow> ident \<Rightarrow> int \<Rightarrow> string \<Rightarrow> string \<Rightarrow> string option \<Rightarrow> instant option \<Rightarrow> bool
     \<Rightarrow> db \<Rightarrow> (outbox_record \<times> db) result" where
  "enqueue_outbox_in_transaction owner_user_id workload_id event_id channel recipient_key
       coalesce_key due delivered d =
     bindE (require_owner owner_user_id) (\<lambda>owner.
     if event_id < 1 then Inl ValueError else
     bindE (outbox_channel channel) (\<lambda>selected_channel.
     bindE (require_key recipient_key 256) (\<lambda>recipient.
     bindE (case coalesce_key of None \<Rightarrow> Inr ''''
            | Some ck \<Rightarrow> require_key ck 128) (\<lambda>_.
     if \<not> exists_where
          (\<lambda>e. e_owner e = owner \<and> e_workload e = workload_id \<and> e_id e = event_id) (events d)
     then Inl WorkloadNotFoundError
     else
       let now = utc_now d;
           replaceable = (\<lambda>b. o_owner b = owner \<and> o_workload b = workload_id \<and>
             o_channel b = selected_channel \<and> o_recipient b = recipient \<and>
             o_coalesce_key b = coalesce_key \<and> o_state b = O_PENDING)
       in case (if coalesce_key \<noteq> None \<and> \<not> delivered then find replaceable (outbox d) else None) of
            Some existing \<Rightarrow>
              let rows = update_where
                    (\<lambda>b. outbox_at owner (o_id existing) b \<and> o_state b = O_PENDING)
                    (\<lambda>b. b\<lparr>o_event := event_id, o_next_attempt_at := due, o_updated_at := now\<rparr>)
                    (outbox d)
              in if \<not> outbox_indexes_ok rows then Inl IntegrityError
                 else bindE (find_outbox_row (d\<lparr>outbox := rows\<rparr>) owner (o_id existing)) (\<lambda>b.
                   Inr (row_to_outbox b, d\<lparr>outbox := rows\<rparr>))
          | None \<Rightarrow>
              let (outbox_id, d1) = new_id ''obx'' d;
                  row = \<lparr>o_owner = owner, o_id = outbox_id, o_workload = workload_id,
                    o_event = event_id, o_channel = selected_channel, o_recipient = recipient,
                    o_state = (if delivered then O_SENT else O_PENDING), o_attempt_count = 0,
                    o_next_attempt_at = due, o_lease_worker = None, o_lease_expires_at = None,
                    o_fence = 0,
                    o_ack = (if delivered then Some [(''delivery'', JStr ''recorded'')] else None),
                    o_coalesce_key = coalesce_key, o_created_at = now, o_updated_at = now\<rparr>;
                  rows = outbox d @ [row]
              in if \<not> outbox_indexes_ok rows then Inl IntegrityError
                 else bindE (find_outbox_row (d1\<lparr>outbox := rows\<rparr>) owner outbox_id) (\<lambda>b.
                   Inr (row_to_outbox b, d1\<lparr>outbox := rows\<rparr>))))))"

text \<open>The latest confirmed progress row decides the earliest time of the next one.\<close>

definition enqueue_progress_outbox_in_transaction ::
  "string \<Rightarrow> ident \<Rightarrow> int \<Rightarrow> string \<Rightarrow> string \<Rightarrow> int \<Rightarrow> instant option \<Rightarrow> db
     \<Rightarrow> (outbox_record \<times> db) result" where
  "enqueue_progress_outbox_in_transaction owner_user_id workload_id event_id channel recipient_key
       minimum_interval_s now d =
     (if \<not> (0 \<le> minimum_interval_s \<and> minimum_interval_s \<le> 86400) then Inl ValueError else
      bindE (require_owner owner_user_id) (\<lambda>owner.
      bindE (outbox_channel channel) (\<lambda>selected_channel.
      let current = operation_now d now;
          sent = map o_updated_at (filter (\<lambda>b. o_owner b = owner \<and> o_workload b = workload_id \<and>
            o_channel b = selected_channel \<and> o_recipient b = recipient_key \<and>
            o_coalesce_key b = Some ''progress'' \<and> o_state b = O_SENT) (outbox d));
          due = (if sent = [] then current
                 else max current (foldr max sent (hd sent) + minimum_interval_s * micros_per_second))
      in enqueue_outbox_in_transaction owner workload_id event_id channel recipient_key
           (Some ''progress'') (Some due) False d)))"

definition enqueue_notification_in_transaction ::
  "string \<Rightarrow> ident \<Rightarrow> int \<Rightarrow> db \<Rightarrow> db result" where
  "enqueue_notification_in_transaction owner workload_id event_id d =
     bindE (enqueue_outbox_in_transaction owner workload_id event_id ''owner_event'' owner
              None None True d) (\<lambda>(_, d1).
     bindE (enqueue_outbox_in_transaction owner workload_id event_id ''telegram'' owner
              None None False d1) (\<lambda>(_, d2). Inr d2))"

section \<open>Delivery leases\<close>

definition MAX_OUTBOX_LEASE_SECONDS :: int where "MAX_OUTBOX_LEASE_SECONDS = 300"

definition outbox_due :: "instant \<Rightarrow> outbox_row \<Rightarrow> bool" where
  "outbox_due current b \<longleftrightarrow> o_state b \<in> {O_PENDING, O_FAILED} \<and>
     (case o_next_attempt_at b of None \<Rightarrow> True | Some t \<Rightarrow> t \<le> current)"

definition outbox_lease_expired :: "instant \<Rightarrow> outbox_row \<Rightarrow> bool" where
  "outbox_lease_expired current b \<longleftrightarrow> o_state b = O_LEASED \<and>
     (case o_lease_expires_at b of None \<Rightarrow> False | Some t \<Rightarrow> t \<le> current)"

definition delivery_started :: "outbox_row \<Rightarrow> bool" where
  "delivery_started b \<longleftrightarrow>
     (case o_ack b of None \<Rightarrow> False | Some ack \<Rightarrow> jget ack ''delivery'' = Some (JStr ''started''))"

definition cancelled_ack :: "string \<Rightarrow> jobj" where
  "cancelled_ack reason = [(''delivery'', JStr ''cancelled''), (''reason_code'', JStr reason)]"

definition lease_outbox_row :: "string \<Rightarrow> instant \<Rightarrow> instant \<Rightarrow> outbox_row \<Rightarrow> outbox_row" where
  "lease_outbox_row worker expiry current b =
     b\<lparr>o_state := O_LEASED, o_attempt_count := o_attempt_count b + 1,
       o_lease_worker := Some worker, o_lease_expires_at := Some expiry,
       o_fence := o_fence b + 1, o_updated_at := current\<rparr>"

definition finish_outbox_row :: "outbox_state \<Rightarrow> jobj \<Rightarrow> instant \<Rightarrow> outbox_row \<Rightarrow> outbox_row" where
  "finish_outbox_row state ack current b =
     b\<lparr>o_state := state, o_ack := Some ack, o_lease_worker := None, o_lease_expires_at := None,
       o_next_attempt_at := None, o_updated_at := current\<rparr>"

definition claim_outbox_candidate ::
  "string \<Rightarrow> instant \<Rightarrow> instant \<Rightarrow> outbox_row \<Rightarrow> outbox_record list \<times> db
     \<Rightarrow> (outbox_record list \<times> db) result" where
  "claim_outbox_candidate worker expiry current candidate acc =
     (let (records, d) = acc in
      if o_state candidate = O_LEASED \<and> delivery_started candidate then
        let ambiguous = (\<lambda>b. outbox_at (o_owner candidate) (o_id candidate) b
              \<and> outbox_lease_expired current b)
        in if count_where ambiguous (outbox d) \<noteq> 1
           then Inl (DurableStoreError ''ambiguous outbox recovery compare-and-set failed'')
           else Inr (records, d\<lparr>outbox := update_where ambiguous
             (finish_outbox_row O_CANCELLED (cancelled_ack ''delivery_ambiguous'') current) (outbox d)\<rparr>)
      else
        let claimable = (\<lambda>b. outbox_at (o_owner candidate) (o_id candidate) b \<and>
              (outbox_due current b \<or> outbox_lease_expired current b));
            d1 = d\<lparr>outbox := update_where claimable (lease_outbox_row worker expiry current) (outbox d)\<rparr>
        in if count_where claimable (outbox d) = 1
           then bindE (find_outbox_row d1 (o_owner candidate) (o_id candidate)) (\<lambda>b.
             Inr (records @ [row_to_outbox b], d1))
           else Inr (records, d1))"

definition claim_outbox_candidates :: "string \<Rightarrow> instant \<Rightarrow> nat \<Rightarrow> outbox_row list \<Rightarrow> outbox_row list" where
  "claim_outbox_candidates channel current limit rows =
     order_limit (\<lambda>b. (o_created_at b, o_id b)) limit
       (filter (\<lambda>b. o_channel b = channel \<and> (outbox_due current b \<or> outbox_lease_expired current b)) rows)"

definition claim_outbox ::
  "string \<Rightarrow> string \<Rightarrow> int \<Rightarrow> int \<Rightarrow> instant option \<Rightarrow> db \<Rightarrow> (outbox_record list \<times> db) result" where
  "claim_outbox channel worker_id limit lease_duration now d =
     bindE (outbox_channel channel) (\<lambda>selected_channel.
     bindE (require_worker_id worker_id) (\<lambda>worker.
     bindE (require_limit limit 200) (\<lambda>_.
     bindE (require_lease_duration lease_duration) (\<lambda>duration.
     if duration > MAX_OUTBOX_LEASE_SECONDS * micros_per_second then Inl ValueError
     else
       let current = operation_now d now; expiry = current + duration in
       foldE (claim_outbox_candidate worker expiry current)
         (claim_outbox_candidates selected_channel current (nat limit) (outbox d)) ([], d)))))"

text \<open>The row that the worker of this record still holds: leased, same worker, same fence.\<close>

definition outbox_held :: "outbox_record \<Rightarrow> string \<Rightarrow> outbox_row \<Rightarrow> bool" where
  "outbox_held rec worker b \<longleftrightarrow>
     outbox_at (ob_owner_user_id rec) (ob_outbox_id rec) b \<and> o_state b = O_LEASED \<and>
     o_lease_worker b = Some worker \<and> o_fence b = ob_fence rec"

definition mark_outbox_delivery_started ::
  "outbox_record \<Rightarrow> string \<Rightarrow> instant option \<Rightarrow> db \<Rightarrow> (bool \<times> db) result" where
  "mark_outbox_delivery_started rec worker_id now d =
     bindE (require_worker_id worker_id) (\<lambda>worker.
     let current = operation_now d now;
         here = (\<lambda>b. outbox_held rec worker b \<and> (o_ack b = None \<or> delivery_started b))
     in Inr (count_where here (outbox d) = 1,
          d\<lparr>outbox := update_where here
             (\<lambda>b. b\<lparr>o_ack := Some [(''delivery'', JStr ''started'')], o_updated_at := current\<rparr>) (outbox d)\<rparr>))"

definition confirm_outbox ::
  "outbox_record \<Rightarrow> string \<Rightarrow> jobj option \<Rightarrow> instant option \<Rightarrow> db \<Rightarrow> (bool \<times> db) result" where
  "confirm_outbox rec worker_id acknowledgement now d =
     bindE (require_worker_id worker_id) (\<lambda>worker.
     let ack = (case acknowledgement of Some (a # as) \<Rightarrow> a # as
                | _ \<Rightarrow> [(''delivery'', JStr ''sent'')])
     in bindE (canonical_json (JObj ack) max_event_json_bytes) (\<lambda>_.
     let current = operation_now d now; here = outbox_held rec worker
     in Inr (count_where here (outbox d) = 1,
          d\<lparr>outbox := update_where here (finish_outbox_row O_SENT ack current) (outbox d)\<rparr>)))"

definition release_outbox ::
  "outbox_record \<Rightarrow> string \<Rightarrow> instant option \<Rightarrow> instant option \<Rightarrow> db \<Rightarrow> (bool \<times> db) result" where
  "release_outbox rec worker_id retry_at now d =
     bindE (require_worker_id worker_id) (\<lambda>worker.
     let current = operation_now d now;
         retry = (case retry_at of None \<Rightarrow> current | Some t \<Rightarrow> t);
         here = outbox_held rec worker;
         rows = update_where here
           (\<lambda>b. b\<lparr>o_state := O_PENDING, o_lease_worker := None, o_lease_expires_at := None,
                  o_next_attempt_at := Some retry, o_ack := None, o_updated_at := current\<rparr>) (outbox d)
     in if \<not> outbox_indexes_ok rows then Inl IntegrityError
        else Inr (count_where here (outbox d) = 1, d\<lparr>outbox := rows\<rparr>))"

definition cancel_outbox ::
  "outbox_record \<Rightarrow> string \<Rightarrow> string \<Rightarrow> instant option \<Rightarrow> db \<Rightarrow> (bool \<times> db) result" where
  "cancel_outbox rec worker_id reason_code now d =
     bindE (require_worker_id worker_id) (\<lambda>worker.
     if reason_code \<notin> set OUTBOX_CANCEL_REASONS then Inl ValueError
     else
       let current = operation_now d now; here = outbox_held rec worker
       in Inr (count_where here (outbox d) = 1,
            d\<lparr>outbox := update_where here
               (finish_outbox_row O_CANCELLED (cancelled_ack reason_code) current) (outbox d)\<rparr>))"

text \<open>Retention removes at most \<open>limit\<close> settled rows older than the cutoff.\<close>

definition prunable :: "instant \<Rightarrow> outbox_row \<Rightarrow> bool" where
  "prunable cutoff b \<longleftrightarrow> o_state b \<in> {O_SENT, O_CANCELLED} \<and> o_updated_at b < cutoff"

definition prune_outbox :: "int \<Rightarrow> int \<Rightarrow> instant option \<Rightarrow> db \<Rightarrow> (nat \<times> db) result" where
  "prune_outbox older_than limit now d =
     (if \<not> (86400000000 \<le> older_than \<and> older_than \<le> 3650 * 86400000000) then Inl ValueError
      else bindE (require_limit limit 1000) (\<lambda>_.
      let cutoff = operation_now d now - older_than;
          rows = order_limit (\<lambda>b. (o_updated_at b, o_owner b, o_id b)) (nat limit)
                   (filter (prunable cutoff) (outbox d))
      in Inr (length rows,
           d\<lparr>outbox := fold (\<lambda>r. delete_where (\<lambda>b. outbox_at (o_owner r) (o_id r) b \<and> prunable cutoff b))
              rows (outbox d)\<rparr>)))"

section \<open>Transactions\<close>

lemma upto_snoc: "1 \<le> n \<Longrightarrow> [1..n - 1] @ [n] = [1..n::int]"
  by (simp add: upto_rec2)

lemma event_ids_ok_append:
  assumes "event_ids_ok es w" and "event_of w e" and "e_id e = w_next_event_id w"
  shows "event_ids_ok (es @ [e]) (w\<lparr>w_next_event_id := w_next_event_id w + 1\<rparr>)"
proof -
  have "event_of (w\<lparr>w_next_event_id := w_next_event_id w + 1\<rparr>) = event_of w"
    by (simp add: event_of_def fun_eq_iff)
  then show ?thesis
    using assms by (simp add: event_ids_ok_def upto_snoc)
qed

lemma event_ids_ok_other: "\<not> event_of w e \<Longrightarrow> event_ids_ok (es @ [e]) w = event_ids_ok es w"
  by (simp add: event_ids_ok_def)

text \<open>What a successful append does: the new event, and the sequence number of its workload.\<close>

lemma append_event_effect:
  assumes "append_event_in_transaction owner wid t payload d = Inr (e, d')"
  obtains w where "w \<in> set (workloads d)" and "workload_at owner wid w"
    and "e = \<lparr>e_owner = owner, e_workload = wid, e_id = w_next_event_id w, e_type = t,
          e_payload = payload, e_created_at = utc_now d\<rparr>"
    and "d' = d\<lparr>workloads := update_where
          (\<lambda>v. workload_at owner wid v \<and> w_next_event_id v = w_next_event_id w)
          (\<lambda>v. v\<lparr>w_next_event_id := w_next_event_id v + 1\<rparr>) (workloads d),
        events := events d @ [e]\<rparr>"
  using assms unfolding append_event_in_transaction_def Let_def
  by (auto simp: tx_simps require_owner_def dest!: find_SomeD split: if_splits)

lemma workload_pk_unique:
  assumes "distinct (map workload_pk ws)" and "w \<in> set ws" and "v \<in> set ws"
    and "workload_at owner wid w" and "workload_at owner wid v"
  shows "v = w"
  using assms by (auto simp: workload_at_def distinct_map inj_on_def)

lemma append_event_txn:
  assumes "append_event_in_transaction owner wid t payload d = Inr (e, d')"
  shows "txn d d'"
  using assms
proof (rule append_event_effect)
  fix w
  assume w: "w \<in> set (workloads d)" "workload_at owner wid w"
    and e: "e = \<lparr>e_owner = owner, e_workload = wid, e_id = w_next_event_id w, e_type = t,
          e_payload = payload, e_created_at = utc_now d\<rparr>"
  let ?here = "\<lambda>v. workload_at owner wid v \<and> w_next_event_id v = w_next_event_id w"
  let ?next = "\<lambda>v. v\<lparr>w_next_event_id := w_next_event_id v + 1\<rparr>"
  assume d': "d' = d\<lparr>workloads := update_where ?here ?next (workloads d), events := events d @ [e]\<rparr>"
  have ev: "rows_evolve workload_evolves (workloads d) (workloads d')"
    unfolding d' by (simp, rule workload_rows.update_rows) (simp add: workload_evolves_def)
  have pk: "map workload_pk (workloads d') = map workload_pk (workloads d)"
    unfolding d' by (simp add: update_where_fieldwise)
  have "events_ok (workloads d') (events d')" if ok: "store_ok d"
  proof -
    have dist: "distinct (map workload_pk (workloads d))" and eok: "events_ok (workloads d) (events d)"
      using ok by (simp_all add: store_ok_def keys_ok_def)
    define g where "g v = (if ?here v then ?next v else v)" for v
    have g: "workloads d' = map g (workloads d)"
      by (simp add: d' g_def update_where_def)
    have ids: "event_ids_ok (events d @ [e]) (g v)" if v: "v \<in> set (workloads d)" for v
    proof (cases "workload_at owner wid v")
      case True
      then have "v = w" using workload_pk_unique [OF dist w(1) v w(2)] by simp
      moreover have "event_of w e" "event_ids_ok (events d) w"
        using w e eok by (auto simp: workload_at_def event_of_def events_ok_def)
      ultimately show ?thesis
        using True e event_ids_ok_append by (simp add: g_def)
    next
      case False
      then have "\<not> event_of v e" by (auto simp: e event_of_def workload_at_def)
      moreover have "event_ids_ok (events d) v" using v eok by (simp add: events_ok_def)
      ultimately show ?thesis using False by (simp add: g_def event_ids_ok_other)
    qed
    have same: "event_of (g v) = event_of v" for v
      by (simp add: g_def event_of_def fun_eq_iff)
    have "\<exists>v \<in> set (workloads d). event_of v e"
      using w by (auto simp: e event_of_def workload_at_def)
    with eok ids show ?thesis
      unfolding events_ok_def g by (auto simp: d' same)
  qed
  moreover have "active_ok d'" if "active_ok d"
    using that by (rule_tac active_ok_update [where d = d and P = ?here and f = ?next]) (auto simp: d')
  ultimately show ?thesis
    using ev pk by (auto simp: txn_def db_evolves_def store_ok_def keys_ok_def d')
qed

text \<open>The uniqueness rules survive an update that makes no row pending.\<close>

lemma outbox_indexes_update:
  assumes "\<And>b. b \<in> set rows \<Longrightarrow> P b \<Longrightarrow>
      outbox_pk (f b) = outbox_pk b \<and> outbox_event_key (f b) = outbox_event_key b \<and> o_state (f b) \<noteq> O_PENDING"
    and "outbox_indexes_ok rows"
  shows "outbox_indexes_ok (update_where P f rows)"
proof -
  let ?pending = "\<lambda>b. o_coalesce_key b \<noteq> None \<and> o_state b = O_PENDING"
  have "map outbox_pk (update_where P f rows) = map outbox_pk rows"
    "map outbox_event_key (update_where P f rows) = map outbox_event_key rows"
    using assms(1) by (auto intro!: map_update_where)
  moreover have "filter ?pending (update_where P f rows) = filter (\<lambda>b. \<not> P b) (filter ?pending rows)"
    using assms(1) by (induction rows) auto
  moreover have "distinct (map pending_coalesce_key (filter (\<lambda>b. \<not> P b) (filter ?pending rows)))"
    using assms(2) unfolding outbox_indexes_ok_def by (blast intro: distinct_map_filter [of _ "filter ?pending rows"])
  ultimately show ?thesis
    using assms(2) unfolding outbox_indexes_ok_def by presburger
qed

lemma txn_outbox:
  assumes "rows_evolve outbox_evolves (outbox d) rows"
    and "outbox_indexes_ok (outbox d) \<Longrightarrow> outbox_indexes_ok rows"
  shows "txn d (d\<lparr>outbox := rows\<rparr>)"
  using assms by (auto simp: txn_def db_evolves_def store_ok_def keys_ok_def active_ok_def)

text \<open>A change of rows that are not settled, after which they are not pending.\<close>

definition outbox_change :: "outbox_row \<Rightarrow> outbox_row \<Rightarrow> bool" where
  "outbox_change b c \<longleftrightarrow> outbox_evolves b c \<and> o_event c = o_event b \<and> o_state c \<noteq> O_PENDING"

lemma txn_outbox_update:
  assumes "\<And>b. b \<in> set (outbox d) \<Longrightarrow> P b \<Longrightarrow> outbox_change b (f b)"
  shows "txn d (d\<lparr>outbox := update_where P f (outbox d)\<rparr>)"
  using assms
  by (intro txn_outbox outbox_rows.update_rows outbox_indexes_update)
    (auto simp: outbox_change_def outbox_evolves_def outbox_event_key_def)

lemma finish_outbox_change:
  "leased_outbox b \<Longrightarrow> state \<in> {O_SENT, O_CANCELLED} \<Longrightarrow> outbox_change b (finish_outbox_row state ack current b)"
  by (auto simp: outbox_change_def outbox_evolves_def finish_outbox_row_def leased_outbox_def
      settled_outbox_def fence_evolves_def)

lemma lease_outbox_change:
  "\<not> settled_outbox b \<Longrightarrow> outbox_change b (lease_outbox_row worker expiry current b)"
  by (auto simp: outbox_change_def outbox_evolves_def lease_outbox_row_def fence_evolves_def)

lemma enqueue_outbox_txn:
  assumes "enqueue_outbox_in_transaction owner wid eid channel recipient ck due delivered d = Inr (r, d')"
  shows "txn d d'"
proof -
  have "(\<exists>i. d' = d\<lparr>outbox := update_where (\<lambda>b. outbox_at owner i b \<and> o_state b = O_PENDING)
          (\<lambda>b. b\<lparr>o_event := eid, o_next_attempt_at := due, o_updated_at := utc_now d\<rparr>) (outbox d)\<rparr>) \<and>
        outbox_indexes_ok (outbox d')
      \<or> (\<exists>row n. d' = d\<lparr>uuid_count := n, outbox := outbox d @ [row]\<rparr>) \<and> outbox_indexes_ok (outbox d')"
    using assms unfolding enqueue_outbox_in_transaction_def
    by (auto simp: tx_simps Let_def new_id_def require_owner_def
        split: if_splits option.splits prod.splits)
  then show ?thesis
  proof (elim disjE conjE exE)
    fix i
    assume d': "d' = d\<lparr>outbox := update_where (\<lambda>b. outbox_at owner i b \<and> o_state b = O_PENDING)
          (\<lambda>b. b\<lparr>o_event := eid, o_next_attempt_at := due, o_updated_at := utc_now d\<rparr>) (outbox d)\<rparr>"
      and ok: "outbox_indexes_ok (outbox d')"
    have "rows_evolve outbox_evolves (outbox d) (outbox d')"
      unfolding d'
      by (simp, rule outbox_rows.update_rows)
        (auto simp: outbox_evolves_def fence_evolves_def leased_outbox_def settled_outbox_def)
    with ok show ?thesis using txn_outbox [of d "outbox d'"] by (simp add: d')
  next
    fix row n
    assume d': "d' = d\<lparr>uuid_count := n, outbox := outbox d @ [row]\<rparr>" and ok: "outbox_indexes_ok (outbox d')"
    then have "txn (d\<lparr>uuid_count := n\<rparr>) d'"
      using txn_outbox [of "d\<lparr>uuid_count := n\<rparr>" "outbox d @ [row]"] by simp
    then show ?thesis by (rule txn_trans [OF txn_untracked(7)])
  qed
qed

lemma enqueue_progress_txn:
  "enqueue_progress_outbox_in_transaction owner wid eid channel recipient interval now d = Inr (r, d')
     \<Longrightarrow> txn d d'"
  by (auto simp: enqueue_progress_outbox_in_transaction_def Let_def tx_simps
      split: if_splits intro: enqueue_outbox_txn)

lemma enqueue_notification_txn:
  "enqueue_notification_in_transaction owner wid eid d = Inr d' \<Longrightarrow> txn d d'"
  by (auto simp: enqueue_notification_in_transaction_def tx_simps
      dest!: enqueue_outbox_txn intro: txn_trans)

section \<open>Claiming deliveries\<close>

definition claimable_outbox :: "instant \<Rightarrow> outbox_row \<Rightarrow> bool" where
  "claimable_outbox current b \<longleftrightarrow> outbox_due current b \<or> outbox_lease_expired current b"

definition ambiguous_delivery :: "outbox_row \<Rightarrow> bool" where
  "ambiguous_delivery b \<longleftrightarrow> o_state b = O_LEASED \<and> delivery_started b"

text \<open>The reference behaviour of a claim on one row.\<close>

definition claimed_row :: "string \<Rightarrow> instant \<Rightarrow> instant \<Rightarrow> outbox_row \<Rightarrow> outbox_row" where
  "claimed_row worker expiry current b =
     (if ambiguous_delivery b
      then finish_outbox_row O_CANCELLED (cancelled_ack ''delivery_ambiguous'') current b
      else lease_outbox_row worker expiry current b)"

lemma claimed_row_pk [simp]: "outbox_pk (claimed_row worker expiry current b) = outbox_pk b"
  by (simp add: claimed_row_def finish_outbox_row_def lease_outbox_row_def)

lemma claimable_change:
  "claimable_outbox current b \<Longrightarrow> outbox_change b (claimed_row worker expiry current b)"
  by (auto simp: claimed_row_def claimable_outbox_def ambiguous_delivery_def outbox_due_def
      outbox_lease_expired_def settled_outbox_def leased_outbox_def
      intro!: finish_outbox_change lease_outbox_change)

lemma outbox_at_unique:
  assumes "distinct (map outbox_pk rows)" and "c \<in> set rows"
  shows "b \<in> set rows \<Longrightarrow> outbox_at (o_owner c) (o_id c) b \<longleftrightarrow> b = c"
  using assms by (auto simp: outbox_at_def distinct_map inj_on_def)

lemma update_where_cong:
  "(\<And>b. b \<in> set rows \<Longrightarrow> P b = Q b) \<Longrightarrow> (\<And>b. b \<in> set rows \<Longrightarrow> Q b \<Longrightarrow> f b = g b)
     \<Longrightarrow> update_where P f rows = update_where Q g rows"
  by (simp add: update_where_def)

lemma count_where_single: "distinct rows \<Longrightarrow> c \<in> set rows \<Longrightarrow> count_where (\<lambda>b. b = c) rows = 1"
  by (induction rows) (auto simp: count_where_def filter_empty_conv)

lemma count_where_cong: "(\<And>b. b \<in> set rows \<Longrightarrow> P b = Q b) \<Longrightarrow> count_where P rows = count_where Q rows"
  by (simp add: count_where_def cong: filter_cong)

lemma claim_outbox_candidate_spec:
  assumes dist: "distinct (map outbox_pk (outbox d))" and c: "c \<in> set (outbox d)"
    and claimable: "claimable_outbox current c"
  shows "claim_outbox_candidate worker expiry current c (records, d) =
    Inr (records @ (if ambiguous_delivery c then []
                    else [row_to_outbox (claimed_row worker expiry current c)]),
         d\<lparr>outbox := update_where (\<lambda>b. b = c) (claimed_row worker expiry current) (outbox d)\<rparr>)"
proof -
  let ?rows = "update_where (\<lambda>b. b = c) (claimed_row worker expiry current) (outbox d)"
  have one: "count_where (\<lambda>b. outbox_at (o_owner c) (o_id c) b \<and> Q b) (outbox d) = 1"
    if "Q c" for Q :: "outbox_row \<Rightarrow> bool"
  proof -
    have "count_where (\<lambda>b. outbox_at (o_owner c) (o_id c) b \<and> Q b) (outbox d)
        = count_where (\<lambda>b. b = c) (outbox d)"
      using that outbox_at_unique [OF dist c] by (intro count_where_cong) auto
    then show ?thesis
      using count_where_single [of "outbox d" c] dist c by (simp add: distinct_map)
  qed
  have upd: "update_where (\<lambda>b. outbox_at (o_owner c) (o_id c) b \<and> Q b) f (outbox d)
      = update_where (\<lambda>b. b = c) f (outbox d)" if "Q c" for Q :: "outbox_row \<Rightarrow> bool" and f
    using that outbox_at_unique [OF dist c] by (intro update_where_cong) auto
  show ?thesis
  proof (cases "ambiguous_delivery c")
    case True
    then have "outbox_lease_expired current c"
      using claimable by (auto simp: ambiguous_delivery_def claimable_outbox_def outbox_due_def)
    then have "claim_outbox_candidate worker expiry current c (records, d) =
        Inr (records, d\<lparr>outbox := update_where (\<lambda>b. b = c)
          (finish_outbox_row O_CANCELLED (cancelled_ack ''delivery_ambiguous'') current) (outbox d)\<rparr>)"
      using True by (simp add: claim_outbox_candidate_def ambiguous_delivery_def one upd)
    also have "update_where (\<lambda>b. b = c)
          (finish_outbox_row O_CANCELLED (cancelled_ack ''delivery_ambiguous'') current) (outbox d) = ?rows"
      using True by (intro update_where_cong) (auto simp: claimed_row_def)
    finally show ?thesis using True by simp
  next
    case False
    have rows: "update_where (\<lambda>b. b = c) (lease_outbox_row worker expiry current) (outbox d) = ?rows"
      using False by (intro update_where_cong) (auto simp: claimed_row_def)
    have "map outbox_pk ?rows = map outbox_pk (outbox d)"
      by (intro map_update_where) simp
    moreover have "claimed_row worker expiry current c \<in> set ?rows"
      using c by (auto simp: set_update_where intro!: rev_image_eqI [where x = c])
    ultimately have "find (\<lambda>b. outbox_pk b = outbox_pk (claimed_row worker expiry current c)) ?rows
        = Some (claimed_row worker expiry current c)"
      using dist by (intro find_distinct_key) auto
    then have "find_outbox_row (d\<lparr>outbox := ?rows\<rparr>) (o_owner c) (o_id c)
        = Inr (claimed_row worker expiry current c)"
      by (simp add: find_outbox_row_def outbox_at_def [abs_def])
    then show ?thesis
      using False claimable
      by (auto simp: claim_outbox_candidate_def ambiguous_delivery_def claimable_outbox_def one upd rows)
  qed
qed

lemma claim_outbox_fold_spec:
  assumes "distinct (map outbox_pk (outbox d))" and "set cs \<subseteq> set (outbox d)" and "distinct cs"
    and "\<And>c. c \<in> set cs \<Longrightarrow> claimable_outbox current c"
  shows "foldE (claim_outbox_candidate worker expiry current) cs (records, d) =
    Inr (records @ map (row_to_outbox \<circ> claimed_row worker expiry current)
            (filter (\<lambda>c. \<not> ambiguous_delivery c) cs),
         d\<lparr>outbox := update_where (\<lambda>b. b \<in> set cs) (claimed_row worker expiry current) (outbox d)\<rparr>)"
  using assms
proof (induction cs arbitrary: records d)
  case Nil
  then show ?case by (simp add: update_where_id)
next
  case (Cons c cs)
  let ?f = "claimed_row worker expiry current"
  let ?rows = "update_where (\<lambda>b. b = c) ?f (outbox d)"
  have pks: "map outbox_pk ?rows = map outbox_pk (outbox d)"
    by (intro map_update_where) simp
  have sub: "set cs \<subseteq> set ?rows"
  proof
    fix b assume "b \<in> set cs"
    with Cons.prems have "b \<in> set (outbox d)" "b \<noteq> c" by auto
    then show "b \<in> set ?rows" by (auto simp: set_update_where intro!: rev_image_eqI)
  qed
  have apart: "?f c \<notin> set cs"
  proof
    assume "?f c \<in> set cs"
    with Cons.prems have "?f c \<in> set (outbox d)" "c \<in> set (outbox d)" by auto
    moreover have "outbox_pk (?f c) = outbox_pk c" by simp
    ultimately have "?f c = c"
      using Cons.prems(1) unfolding distinct_map inj_on_def by blast
    with \<open>?f c \<in> set cs\<close> Cons.prems show False by simp
  qed
  have "update_where (\<lambda>b. b \<in> set cs) ?f ?rows = update_where (\<lambda>b. b \<in> set (c # cs)) ?f (outbox d)"
    using apart Cons.prems(3) by (auto simp: update_where_def)
  then show ?case
    using Cons.prems claim_outbox_candidate_spec [of d c current worker expiry records]
      Cons.IH [of "d\<lparr>outbox := ?rows\<rparr>"] pks sub
    by simp
qed

lemma distinct_order_limit: "distinct rows \<Longrightarrow> distinct (order_limit k n rows)"
  by (simp add: order_limit_def distinct_sort)

lemma claim_candidates_props:
  assumes "c \<in> set (claim_outbox_candidates channel current n rows)"
  shows "c \<in> set rows" and "o_channel c = channel" and "claimable_outbox current c"
  using assms set_order_limit [of "\<lambda>b. (o_created_at b, o_id b)" n]
  by (fastforce simp: claim_outbox_candidates_def claimable_outbox_def)+

lemma claim_outbox_eq:
  assumes "distinct (map outbox_pk (outbox d))"
    and "claim_outbox channel worker limit duration now d = Inr (records, d')"
  defines "current \<equiv> operation_now d now"
  defines "cs \<equiv> claim_outbox_candidates channel current (nat limit) (outbox d)"
  shows "records = map (row_to_outbox \<circ> claimed_row worker (current + duration) current)
          (filter (\<lambda>c. \<not> ambiguous_delivery c) cs)"
    and "d' = d\<lparr>outbox := update_where (\<lambda>b. b \<in> set cs)
          (claimed_row worker (current + duration) current) (outbox d)\<rparr>"
proof -
  have "distinct cs"
    using assms(1) unfolding cs_def claim_outbox_candidates_def
    by (intro distinct_order_limit distinct_filter) (simp add: distinct_map)
  moreover have "foldE (claim_outbox_candidate worker (current + duration) current) cs ([], d)
      = Inr (records, d')"
    using assms(2) unfolding claim_outbox_def cs_def current_def
    by (auto simp: tx_simps Let_def outbox_channel_def require_worker_id_def
        require_lease_duration_def split: if_splits)
  ultimately show "records = map (row_to_outbox \<circ> claimed_row worker (current + duration) current)
          (filter (\<lambda>c. \<not> ambiguous_delivery c) cs)"
    and "d' = d\<lparr>outbox := update_where (\<lambda>b. b \<in> set cs)
          (claimed_row worker (current + duration) current) (outbox d)\<rparr>"
    using claim_outbox_fold_spec [of d cs current worker "current + duration" "[]"] assms(1)
      claim_candidates_props [of _ channel current "nat limit" "outbox d"]
    by (auto simp: cs_def)
qed

lemma claim_outbox_candidate_txn:
  assumes "claim_outbox_candidate worker expiry current c (records, d) = Inr (records', d')"
  shows "txn d d'"
  using assms unfolding claim_outbox_candidate_def
  by (auto simp: Let_def tx_simps outbox_lease_expired_def outbox_due_def leased_outbox_def
      settled_outbox_def split: if_splits
      intro!: txn_outbox_update finish_outbox_change lease_outbox_change)

lemma claim_outbox_txn:
  assumes "claim_outbox channel worker limit duration now d = Inr (records, d')"
  shows "txn d d'"
proof -
  obtain w ex cur cs where "foldE (claim_outbox_candidate w ex cur) cs ([], d) = Inr (records, d')"
    using assms unfolding claim_outbox_def by (auto simp: tx_simps Let_def split: if_splits)
  then show ?thesis
    by (drule_tac foldE_txn [where the_db = snd]) (auto dest: claim_outbox_candidate_txn)
qed

lemma outbox_held_leased: "outbox_held rec worker b \<Longrightarrow> leased_outbox b"
  by (simp add: outbox_held_def leased_outbox_def)

lemma mark_outbox_txn: "mark_outbox_delivery_started rec worker now d = Inr (ok, d') \<Longrightarrow> txn d d'"
  unfolding mark_outbox_delivery_started_def
  by (auto simp: tx_simps Let_def outbox_change_def outbox_evolves_def fence_evolves_def
      leased_outbox_def settled_outbox_def dest!: outbox_held_leased intro!: txn_outbox_update)

lemma confirm_outbox_txn: "confirm_outbox rec worker ack now d = Inr (ok, d') \<Longrightarrow> txn d d'"
  unfolding confirm_outbox_def
  by (auto simp: tx_simps Let_def intro!: txn_outbox_update finish_outbox_change outbox_held_leased)

lemma cancel_outbox_txn: "cancel_outbox rec worker reason now d = Inr (ok, d') \<Longrightarrow> txn d d'"
  unfolding cancel_outbox_def
  by (auto simp: tx_simps Let_def split: if_splits
      intro!: txn_outbox_update finish_outbox_change outbox_held_leased)

lemma release_outbox_txn:
  assumes "release_outbox rec worker retry now d = Inr (ok, d')"
  shows "txn d d'"
  using assms unfolding release_outbox_def
  by (auto simp: tx_simps Let_def outbox_evolves_def fence_evolves_def leased_outbox_def
      settled_outbox_def split: if_splits dest!: outbox_held_leased
      intro!: txn_outbox outbox_rows.update_rows)

text \<open>The held predicate is the fenced-lease token of the row.\<close>

lemma outbox_held_token:
  "outbox_held rec worker b \<longleftrightarrow> outbox_at (ob_owner_user_id rec) (ob_outbox_id rec) b \<and>
     holds_lease leased_outbox o_fence o_lease_worker (Some worker) (ob_fence rec) b"
  by (auto simp: outbox_held_def holds_lease_def leased_outbox_def)

lemma count_where_none: "(\<And>b. b \<in> set rows \<Longrightarrow> \<not> P b) \<Longrightarrow> count_where P rows = 0"
  by (simp add: count_where_def filter_empty_conv)

lemma outbox_not_held_noop:
  assumes "\<And>b. b \<in> set (outbox d) \<Longrightarrow> \<not> outbox_held rec worker b"
  shows "confirm_outbox rec worker ack now d = Inr (ok, d') \<Longrightarrow> ok = False \<and> d' = d"
    and "mark_outbox_delivery_started rec worker now d = Inr (ok, d') \<Longrightarrow> ok = False \<and> d' = d"
    and "release_outbox rec worker retry now d = Inr (ok, d') \<Longrightarrow> ok = False \<and> d' = d"
    and "cancel_outbox rec worker reason now d = Inr (ok, d') \<Longrightarrow> ok = False \<and> d' = d"
  using assms
  by (auto simp: confirm_outbox_def mark_outbox_delivery_started_def release_outbox_def
      cancel_outbox_def tx_simps Let_def require_worker_id_def update_where_id count_where_none
      split: if_splits)

section \<open>Properties\<close>


text \<open>A store with one delivery that had started under a lease that expired, and one that is due.\<close>

definition example_outbox_row :: "ident \<Rightarrow> int \<Rightarrow> outbox_row" where
  "example_outbox_row i event =
     \<lparr>o_owner = ''owner'', o_id = i, o_workload = ''wkl_00000001'', o_event = event,
      o_channel = ''telegram'', o_recipient = ''owner'', o_state = O_PENDING, o_attempt_count = 0,
      o_next_attempt_at = None, o_lease_worker = None, o_lease_expires_at = None, o_fence = 0,
      o_ack = None, o_coalesce_key = None, o_created_at = 1000, o_updated_at = 1000\<rparr>"

definition empty_store :: "instant \<Rightarrow> db" where
  "empty_store t =
     \<lparr>workloads = [], revisions = [], stages = [], stage_dependencies = [], sources = [], stage_placements = [], units = [],
      attempts = [], results = [], unit_dependencies = [], dependencies = [], artifacts = [],
      publications = [], events = [], outbox = [], scheduler_credits = [], commands = [],
      attention_resolutions = [], workload_dismissals = [], revision_usage = [],
      stage_materialization = [], temporary_storage = [], clock = t, uuid_count = 0\<rparr>"

lemma empty_store_ok: "store_ok (empty_store t)"
  by (simp add: empty_store_def store_ok_def keys_ok_def active_ok_def outbox_indexes_ok_def events_ok_def
      attempts_ok_def leases_ok_def results_ok_def)

definition example_outbox_store :: db where
  "example_outbox_store = (empty_store 9000000000)\<lparr>outbox :=
     [(example_outbox_row ''obx_00000001'' 1)\<lparr>o_state := O_LEASED, o_fence := 1,
        o_lease_worker := Some ''sender-1'', o_lease_expires_at := Some 5000,
        o_ack := Some [(''delivery'', JStr ''started'')]\<rparr>,
      example_outbox_row ''obx_00000002'' 2]\<rparr>"


text \<open>
  A worker whose delivery lease is gone can do nothing: if no row is still held by the
  worker under the fence of its record, confirming, marking, releasing or cancelling
  reports failure and leaves the store as it is.
\<close>

theorem stale_delivery_is_inert:
  assumes "\<forall>b \<in> set (outbox d). \<not> outbox_held rec worker b"
  shows "(\<forall>ok d'. confirm_outbox rec worker ack now d = Inr (ok, d') \<longrightarrow> \<not> ok \<and> d' = d) \<and>
    (\<forall>ok d'. mark_outbox_delivery_started rec worker now d = Inr (ok, d') \<longrightarrow> \<not> ok \<and> d' = d) \<and>
    (\<forall>ok d'. release_outbox rec worker retry now d = Inr (ok, d') \<longrightarrow> \<not> ok \<and> d' = d) \<and>
    (\<forall>ok d'. cancel_outbox rec worker reason now d = Inr (ok, d') \<longrightarrow> \<not> ok \<and> d' = d)"
proof -
  have "\<And>b. b \<in> set (outbox d) \<Longrightarrow> \<not> outbox_held rec worker b"
    using assms by blast
  note inert = outbox_not_held_noop [OF this]
  show ?thesis
    using inert(1) inert(2) inert(3) inert(4) by blast
qed

theorem stale_delivery_is_inert_witness:
  "confirm_outbox (row_to_outbox (example_outbox_row ''obx_00000002'' 2)) ''sender-1'' None None example_outbox_store
     = Inr (False, example_outbox_store)"
proof -
  let ?rec = "row_to_outbox (example_outbox_row ''obx_00000002'' 2)"
  have "\<forall>b \<in> set (outbox example_outbox_store). \<not> outbox_held ?rec ''sender-1'' b"
    by code_simp
  moreover have "succeeds_with (confirm_outbox ?rec ''sender-1'' None None example_outbox_store) (\<lambda>_. True)"
    by code_simp
  then obtain ok d' where "confirm_outbox ?rec ''sender-1'' None None example_outbox_store = Inr (ok, d')"
    by (auto elim!: succeeds_withE)
  ultimately show ?thesis
    using stale_delivery_is_inert [of example_outbox_store ?rec "''sender-1''" None None] by auto
qed

section \<open>Retention\<close>

lemma fold_delete_where:
  "fold (\<lambda>r. delete_where (P r)) rs xs = filter (\<lambda>b. \<forall>r \<in> set rs. \<not> P r b) xs"
  by (induction rs arbitrary: xs) (auto simp: delete_where_def intro: filter_cong)

lemma length_filter_notin:
  assumes "distinct xs" and "distinct ys" and "set ys \<subseteq> set xs"
  shows "length (filter (\<lambda>x. x \<notin> set ys) xs) + length ys = length xs"
proof -
  have "length (filter (\<lambda>x. x \<in> set ys) xs) = length ys"
    using distinct_card [OF distinct_filter [OF assms(1)], of "\<lambda>x. x \<in> set ys"]
      distinct_card [OF assms(2)] assms(3) by (simp add: Collect_conj_eq Int_absorb1)
  then show ?thesis
    using sum_length_filter_compl [of "\<lambda>x. x \<in> set ys" xs] by simp
qed

lemma order_limit_all:
  assumes "length (order_limit k n rows) < n"
  shows "set (order_limit k n rows) = set rows"
proof -
  have "length rows < n" using assms by (auto simp: order_limit_def split: if_splits)
  then show ?thesis by (simp add: order_limit_def)
qed

lemma filter_swap: "filter Q (filter P rows) = filter P (filter Q rows)"
  by (simp add: conj_commute)

lemma outbox_indexes_filter: "outbox_indexes_ok rows \<Longrightarrow> outbox_indexes_ok (filter P rows)"
  unfolding outbox_indexes_ok_def filter_swap [of _ P] by (blast intro: distinct_map_filter)

text \<open>
  Retention is safe and bounded: pruning reports exactly how many rows it removed, at
  most \<open>limit\<close>; every row it removed was sent or cancelled and older than the cutoff; it
  stops short of the limit only when no such row is left; and the store stays well formed.
\<close>

theorem prune_outbox_safe:
  assumes ok: "store_ok d" and prune: "prune_outbox older_than limit now d = Inr (n, d')"
  shows "n \<le> nat limit \<and> length (outbox d') + n = length (outbox d) \<and>
    set (outbox d') \<subseteq> set (outbox d) \<and>
    (\<forall>b \<in> set (outbox d) - set (outbox d').
       settled_outbox b \<and> o_updated_at b < operation_now d now - older_than) \<and>
    (n < nat limit \<longrightarrow> (\<forall>b \<in> set (outbox d'). \<not> prunable (operation_now d now - older_than) b)) \<and>
    store_ok d'"
proof -
  define cutoff where "cutoff = operation_now d now - older_than"
  define rows where "rows = order_limit (\<lambda>b. (o_updated_at b, o_owner b, o_id b)) (nat limit)
    (filter (prunable cutoff) (outbox d))"
  have dist: "distinct (map outbox_pk (outbox d))"
    using ok by (simp add: store_ok_def outbox_indexes_ok_def)
  have sub: "r \<in> set (outbox d) \<and> prunable cutoff r" if "r \<in> set rows" for r
    using that set_order_limit [of "\<lambda>b. (o_updated_at b, o_owner b, o_id b)" "nat limit"]
    by (fastforce simp: rows_def)
  have d': "n = length rows" "d' = d\<lparr>outbox := filter (\<lambda>b. \<forall>r \<in> set rows.
      \<not> (outbox_at (o_owner r) (o_id r) b \<and> prunable cutoff b)) (outbox d)\<rparr>"
    using prune unfolding prune_outbox_def rows_def cutoff_def
    by (auto simp: tx_simps Let_def fold_delete_where split: if_splits)
  have out: "outbox d' = filter (\<lambda>b. b \<notin> set rows) (outbox d)"
    using sub outbox_at_unique [OF dist] unfolding d'(2)
    by (auto intro!: filter_cong)
  have "distinct (outbox d)" "distinct rows"
    using dist unfolding rows_def
    by (auto simp: distinct_map intro!: distinct_order_limit distinct_filter)
  then have "length (outbox d') + n = length (outbox d)"
    using length_filter_notin [of "outbox d" rows] sub by (auto simp: out d'(1))
  moreover have "n \<le> nat limit"
    by (simp add: d'(1) rows_def length_order_limit)
  moreover have "settled_outbox b \<and> o_updated_at b < cutoff" if "b \<in> set (outbox d) - set (outbox d')" for b
    using that sub by (auto simp: out prunable_def settled_outbox_def)
  moreover have "\<not> prunable cutoff b" if "n < nat limit" "b \<in> set (outbox d')" for b
    using that order_limit_all [of "\<lambda>b. (o_updated_at b, o_owner b, o_id b)" "nat limit" "filter (prunable cutoff) (outbox d)"]
    by (auto simp: out d'(1) rows_def)
  moreover have "store_ok d'"
    using ok outbox_indexes_filter unfolding d'(2)
    by (simp add: store_ok_def keys_ok_def active_ok_def)
  ultimately show ?thesis
    by (auto simp: out cutoff_def)
qed

definition example_settled_store :: db where
  "example_settled_store = (empty_store 900000000000)\<lparr>outbox :=
     [(example_outbox_row ''obx_00000001'' 1)\<lparr>o_state := O_SENT\<rparr>,
      example_outbox_row ''obx_00000002'' 2,
      (example_outbox_row ''obx_00000003'' 3)\<lparr>o_state := O_CANCELLED\<rparr>]\<rparr>"

theorem prune_outbox_safe_witness:
  "\<exists>d'. prune_outbox 86400000000 1 None example_settled_store = Inr (1, d')
     \<and> map o_id (outbox d') = [''obx_00000002'', ''obx_00000003''] \<and> store_ok d'"
proof -
  have ok: "store_ok example_settled_store" by code_simp
  have "succeeds_with (prune_outbox 86400000000 1 None example_settled_store)
      (\<lambda>(n, d'). n = 1 \<and> map o_id (outbox d') = [''obx_00000002'', ''obx_00000003''])"
    by code_simp
  then obtain d' where run: "prune_outbox 86400000000 1 None example_settled_store = Inr (1, d')"
    and seen: "map o_id (outbox d') = [''obx_00000002'', ''obx_00000003'']"
    by (auto elim!: succeeds_withE)
  have "store_ok d'" using prune_outbox_safe [OF ok run] by blast
  with run seen show ?thesis by (intro exI conjI)
qed

section \<open>A released coalesced delivery can collide\<close>

definition example_event :: "int \<Rightarrow> event_row" where
  "example_event i = \<lparr>e_owner = ''owner'', e_workload = ''wkl_00000001'', e_id = i,
     e_type = Ev_RUNNING, e_payload = [], e_created_at = 1000\<rparr>"

definition coalesce_store :: db where
  "coalesce_store = (empty_store 1000)\<lparr>events := [example_event 1, example_event 2]\<rparr>"

definition coalesced_release :: "(bool \<times> db) result" where
  "coalesced_release =
     bindE (enqueue_progress_outbox_in_transaction ''owner'' ''wkl_00000001'' 1 ''telegram'' ''owner'' 0 None
              coalesce_store) (\<lambda>(_, d1).
     bindE (claim_outbox ''telegram'' ''sender-1'' 1 60000000 None d1) (\<lambda>(records, d2).
     bindE (enqueue_progress_outbox_in_transaction ''owner'' ''wkl_00000001'' 2 ''telegram'' ''owner'' 0 None d2) (\<lambda>(_, d3).
     release_outbox (hd records) ''sender-1'' None None d3)))"


end
