(* ===== verification/Workloads.thy ===== *)
theory Workloads
  imports Outbox
begin

text \<open>
  The life of a workload in \<open>storage.py\<close>: drafts and their idempotent submission, the
  compare-and-set change of state with its event, the cancellation of waiting units, the
  accounting of a revision's usage against its budgets, and the settlement that brings
  control and failure states in line with the facts of the units.
\<close>

section \<open>Constants\<close>

fun EVENT_BY_TARGET :: "workload_state \<Rightarrow> event_type option" where
  "EVENT_BY_TARGET W_ADMITTED = Some Ev_REVISION_ADMITTED"
| "EVENT_BY_TARGET W_QUEUED = Some Ev_QUEUED"
| "EVENT_BY_TARGET W_RUNNING = Some Ev_RUNNING"
| "EVENT_BY_TARGET W_PAUSE_REQUESTED = Some Ev_PAUSE_REQUESTED"
| "EVENT_BY_TARGET W_PAUSED = Some Ev_PAUSED"
| "EVENT_BY_TARGET W_CANCEL_REQUESTED = Some Ev_CANCEL_REQUESTED"
| "EVENT_BY_TARGET W_CANCELLED = Some Ev_CANCELLED"
| "EVENT_BY_TARGET W_NEEDS_ATTENTION = Some Ev_NEEDS_ATTENTION"
| "EVENT_BY_TARGET W_FAILED = Some Ev_FAILED"
| "EVENT_BY_TARGET W_DRAFT = None"
| "EVENT_BY_TARGET W_COMPLETED = None"
| "EVENT_BY_TARGET W_COMPLETED_WITH_ERRORS = None"

definition UNIT_STATE_BATCH_SIZE :: int where "UNIT_STATE_BATCH_SIZE = 256"
definition SQLITE_INTEGER_MAX :: int where "SQLITE_INTEGER_MAX = 9223372036854775807"
definition CLOCK_REGRESSION_TOLERANCE :: int where "CLOCK_REGRESSION_TOLERANCE = 5000000"

section \<open>Submission\<close>

definition submit_digest :: "(string \<Rightarrow> string) \<Rightarrow> jobj \<Rightarrow> string \<Rightarrow> jobj \<Rightarrow> string result" where
  "submit_digest sha redacted_request priority budget =
     digest_json sha ''durable-submit''
       (JObj [(''redacted_request'', JObj redacted_request), (''priority'', JStr priority),
              (''budget'', JObj budget)]) max_plan_json_bytes"

definition request_at :: "string \<Rightarrow> string \<Rightarrow> workload_row \<Rightarrow> bool" where
  "request_at owner key w \<longleftrightarrow> w_owner w = owner \<and> w_request_key w = key"

definition WORKLOAD_PRIORITIES :: "string list" where
  "WORKLOAD_PRIORITIES = [''low'', ''normal'', ''high'']"

definition draft_request :: "jobj \<Rightarrow> jobj" where
  "draft_request redacted_request =
     [(''schema_version'', JStr ''metnos.redacted-request/1''), (''payload'', JObj redacted_request)]"

definition draft_limits :: "jobj \<Rightarrow> jobj" where
  "draft_limits budget =
     [(''schema_version'', JStr ''metnos.durable-draft-budget/1''), (''limits'', JObj budget)]"

definition draft_row ::
  "string \<Rightarrow> ident \<Rightarrow> string \<Rightarrow> string \<Rightarrow> jobj \<Rightarrow> string \<Rightarrow> jobj \<Rightarrow> instant \<Rightarrow> workload_row" where
  "draft_row owner chosen key digest request priority limits now =
     \<lparr>w_owner = owner, w_id = chosen, w_request_key = key, w_request_digest = digest,
      w_redacted_request = request, w_state = W_DRAFT, w_priority = priority, w_budget = limits,
      w_active_revision = None, w_version = 1, w_next_event_id = 1, w_created_at = now,
      w_updated_at = now, w_terminal_reason = None\<rparr>"

text \<open>The transaction of a submission: replay the request key, or insert the draft and its event.\<close>

definition submit_draft :: "workload_row \<Rightarrow> db \<Rightarrow> (workload_record \<times> db) result" where
  "submit_draft row d =
     (case find (request_at (w_owner row) (w_request_key row)) (workloads d) of
        Some existing \<Rightarrow>
          if w_request_digest existing \<noteq> w_request_digest row then Inl IdempotencyConflictError
          else Inr (row_to_workload existing, d)
      | None \<Rightarrow>
          if exists_where (workload_at (w_owner row) (w_id row)) (workloads d)
          then Inl IdentifierConflictError
          else
            bindE (append_event_in_transaction (w_owner row) (w_id row) Ev_DRAFT_CREATED
                     [(''version'', JInt 1)] (d\<lparr>workloads := workloads d @ [row]\<rparr>)) (\<lambda>(_, d2).
            bindE (select_workload d2 (w_owner row) (w_id row)) (\<lambda>w. Inr (row_to_workload w, d2))))"

definition create_draft ::
  "(string \<Rightarrow> string) \<Rightarrow> string \<Rightarrow> string \<Rightarrow> jobj \<Rightarrow> string \<Rightarrow> jobj option \<Rightarrow> ident option
     \<Rightarrow> db \<Rightarrow> (workload_record \<times> db) result" where
  "create_draft sha owner_user_id request_key redacted_request priority budget workload_id d =
     bindE (require_owner owner_user_id) (\<lambda>owner.
     bindE (require_key request_key 256) (\<lambda>key.
     if priority \<notin> set WORKLOAD_PRIORITIES then Inl ValueError else
     let budget_value = (case budget of None \<Rightarrow> [] | Some b \<Rightarrow> b) in
     bindE (canonical_json (JObj (draft_request redacted_request)) max_plan_json_bytes) (\<lambda>_.
     bindE (canonical_json (JObj (draft_limits budget_value)) max_plan_json_bytes) (\<lambda>_.
     bindE (submit_digest sha redacted_request priority budget_value) (\<lambda>request_digest.
     bindE (chosen_id workload_id ''wrk'' d) (\<lambda>(chosen, d1).
     submit_draft (draft_row owner chosen key request_digest (draft_request redacted_request)
       priority (draft_limits budget_value) (utc_now d)) d1))))))"

definition find_submission_by_request_key ::
  "(string \<Rightarrow> string) \<Rightarrow> string \<Rightarrow> string \<Rightarrow> jobj \<Rightarrow> string \<Rightarrow> jobj option \<Rightarrow> db
     \<Rightarrow> workload_record option result" where
  "find_submission_by_request_key sha owner_user_id request_key redacted_request priority budget d =
     bindE (require_owner owner_user_id) (\<lambda>owner.
     bindE (require_key request_key 256) (\<lambda>key.
     if priority \<notin> set WORKLOAD_PRIORITIES then Inl ValueError else
     bindE (submit_digest sha redacted_request priority (case budget of None \<Rightarrow> [] | Some b \<Rightarrow> b)) (\<lambda>expected.
     case find (request_at owner key) (workloads d) of
       None \<Rightarrow> Inr None
     | Some row \<Rightarrow> if w_request_digest row \<noteq> expected then Inl IdempotencyConflictError
                   else Inr (Some (row_to_workload row)))))"

text \<open>\<open>json_extract(redacted_request_json, '$.payload.submission_scope')\<close>, when it is text.\<close>

definition submission_scope :: "workload_row \<Rightarrow> string option" where
  "submission_scope w =
     (case jget (w_redacted_request w) ''payload'' of
        Some (JObj payload) \<Rightarrow>
          (case jget payload ''submission_scope'' of Some (JStr s) \<Rightarrow> Some s | _ \<Rightarrow> None)
      | _ \<Rightarrow> None)"

definition find_active_submission ::
  "string \<Rightarrow> string \<Rightarrow> bool \<Rightarrow> db \<Rightarrow> workload_record option result" where
  "find_active_submission owner_user_id scope_digest include_attention d =
     bindE (require_owner owner_user_id) (\<lambda>owner.
     if \<not> sha256_re scope_digest then Inl ValueError else
     Inr (case order_limit (\<lambda>w. (w_created_at w, w_id w)) 1
            (filter (\<lambda>w. w_owner w = owner \<and> \<not> terminal_workload (w_state w) \<and>
               (include_attention \<or> w_state w \<noteq> W_NEEDS_ATTENTION) \<and>
               submission_scope w = Some scope_digest) (workloads d)) of
          [] \<Rightarrow> None | w # _ \<Rightarrow> Some (row_to_workload w)))"

definition source_authority_active :: "string \<Rightarrow> ident \<Rightarrow> db \<Rightarrow> bool result" where
  "source_authority_active owner_user_id workload_id d =
     bindE (require_owner owner_user_id) (\<lambda>owner.
     bindE (chosen_id (Some workload_id) ''wrk'' d) (\<lambda>(selected, _).
     Inr (case find (workload_at owner selected) (workloads d) of
            None \<Rightarrow> False | Some w \<Rightarrow> \<not> terminal_workload (w_state w))))"

definition visible_to :: "string \<Rightarrow> workload_state option \<Rightarrow> db \<Rightarrow> workload_row \<Rightarrow> bool" where
  "visible_to owner state d w \<longleftrightarrow> w_owner w = owner \<and>
     \<not> exists_where (\<lambda>m. dm_owner m = w_owner w \<and> dm_workload m = w_id w) (workload_dismissals d) \<and>
     (case state of None \<Rightarrow> True | Some s \<Rightarrow> w_state w = s)"

definition list_workloads ::
  "string \<Rightarrow> workload_state option \<Rightarrow> int \<Rightarrow> db \<Rightarrow> workload_record list result" where
  "list_workloads owner_user_id state limit d =
     bindE (require_owner owner_user_id) (\<lambda>owner.
     bindE (require_limit limit 200) (\<lambda>_.
     Inr (map row_to_workload (order_limit (\<lambda>w. (- w_updated_at w, w_id w)) (nat limit)
       (filter (visible_to owner state d) (workloads d))))))"

text \<open>A page in the order of update time and identifier, both descending, after a cursor.\<close>

definition list_workloads_page ::
  "string \<Rightarrow> workload_state option \<Rightarrow> (instant \<times> ident) option \<Rightarrow> int \<Rightarrow> db
     \<Rightarrow> workload_record list result" where
  "list_workloads_page owner_user_id state before limit d =
     bindE (require_owner owner_user_id) (\<lambda>owner.
     bindE (require_limit limit 200) (\<lambda>_.
     if (case before of None \<Rightarrow> False | Some (_, i) \<Rightarrow> i = []) then Inl ValueError else
     let rows = filter (\<lambda>w. visible_to owner state d w \<and>
           (case before of None \<Rightarrow> True
            | Some (t, i) \<Rightarrow> w_updated_at w < t \<or> (w_updated_at w = t \<and> w_id w < i))) (workloads d)
     in Inr (map row_to_workload
          (take (nat limit) (rev (sort_key (\<lambda>w. (w_updated_at w, w_id w)) rows))))))"

section \<open>Change of state\<close>

text \<open>Wall-clock authority of a revision: first start, and the highest instant seen.\<close>

definition start_usage :: "instant \<Rightarrow> usage_row \<Rightarrow> usage_row" where
  "start_usage t u =
     u\<lparr>us_started_at := (case us_started_at u of None \<Rightarrow> Some t | Some s \<Rightarrow> Some s),
       us_clock_high_water_at := (case us_clock_high_water_at u of
          None \<Rightarrow> Some t | Some h \<Rightarrow> if h < t then Some t else Some h),
       us_updated_at := t\<rparr>"

definition start_revision_usage :: "string \<Rightarrow> ident option \<Rightarrow> instant \<Rightarrow> db \<Rightarrow> db result" where
  "start_revision_usage owner revision t d =
     (let here = (\<lambda>u. us_owner u = owner \<and> Some (us_revision u) = revision) in
      if count_where here (revision_usage d) \<noteq> 1
      then Inl (DurableStoreError ''revision usage row is missing'')
      else Inr (d\<lparr>revision_usage := update_where here (start_usage t) (revision_usage d)\<rparr>))"

definition update_state_in_transaction ::
  "string \<Rightarrow> ident \<Rightarrow> workload_state \<Rightarrow> workload_state \<Rightarrow> int \<Rightarrow> jobj option \<Rightarrow> instant option
     \<Rightarrow> db \<Rightarrow> (workload_record \<times> db) result" where
  "update_state_in_transaction owner workload_id source target expected_version terminal_reason now_text d =
     (let transition_time = (case now_text of None \<Rightarrow> utc_now d | Some t \<Rightarrow> t);
          here = (\<lambda>w. workload_at owner workload_id w \<and> w_state w = source \<and> w_version w = expected_version)
      in
      bindE (case terminal_reason of None \<Rightarrow> Inr ''''
             | Some r \<Rightarrow> canonical_json (JObj r) max_event_json_bytes) (\<lambda>_.
      if count_where here (workloads d) \<noteq> 1 then Inl VersionConflictError
      else
        let d1 = d\<lparr>workloads := update_where here
              (\<lambda>w. w\<lparr>w_state := target, w_version := w_version w + 1, w_updated_at := transition_time,
                     w_terminal_reason := (case terminal_reason of None \<Rightarrow> w_terminal_reason w
                                           | Some r \<Rightarrow> Some r)\<rparr>) (workloads d)\<rparr>
        in
        bindE (if target \<notin> {W_QUEUED, W_RUNNING}
               then Inr (d1\<lparr>scheduler_credits := delete_where
                      (\<lambda>c. c_owner c = owner \<and> c_workload c = workload_id) (scheduler_credits d1)\<rparr>)
               else start_revision_usage owner
                      (case find (workload_at owner workload_id) (workloads d1) of
                         None \<Rightarrow> None | Some w \<Rightarrow> w_active_revision w)
                      transition_time d1) (\<lambda>d2.
        bindE (select_workload d2 owner workload_id) (\<lambda>w. Inr (row_to_workload w, d2)))))"

definition transition_workload ::
  "string \<Rightarrow> ident \<Rightarrow> string \<Rightarrow> int \<Rightarrow> jobj option \<Rightarrow> instant option \<Rightarrow> db
     \<Rightarrow> (workload_record \<times> db) result" where
  "transition_workload owner_user_id workload_id destination expected_version payload now d =
     bindE (require_owner owner_user_id) (\<lambda>owner.
     bindE (require_version expected_version) (\<lambda>expected.
     bindE (workload_state_of destination) (\<lambda>target.
     if target \<in> {W_COMPLETED, W_COMPLETED_WITH_ERRORS} then Inl ReservedCompletionTransitionError else
     bindE (optE (EVENT_BY_TARGET target) InvalidTransitionError) (\<lambda>event_type.
     let event_payload = (case payload of None \<Rightarrow> [] | Some p \<Rightarrow> p) in
     bindE (validate_event_payload event_payload) (\<lambda>_.
     let current = operation_now d now in
     bindE (select_workload d owner workload_id) (\<lambda>row.
     if w_version row \<noteq> expected then Inl VersionConflictError else
     let source = w_state row in
     if \<not> can_transition_workload (workload_state_value source) (workload_state_value target)
     then Inl InvalidTransitionError else
     bindE (update_state_in_transaction owner workload_id source target expected
              (if target \<in> {W_CANCELLED, W_FAILED} then Some event_payload else None)
              (Some current) d) (\<lambda>(updated, d1).
     bindE (append_event_in_transaction owner workload_id event_type
              (jupdate event_payload
                [(''previous_state'', JStr (workload_state_value source)),
                 (''new_state'', JStr (workload_state_value target)),
                 (''new_version'', JInt (wr_version updated))]) d1) (\<lambda>(event, d2).
     bindE (if target \<in> {W_NEEDS_ATTENTION, W_FAILED}
            then enqueue_notification_in_transaction owner workload_id (e_id event) d2
            else Inr d2) (\<lambda>d3.
     Inr (updated, d3))))))))))"

section \<open>Waiting and exhausted units\<close>

definition waiting_unit :: "string \<Rightarrow> ident \<Rightarrow> unit_row \<Rightarrow> bool" where
  "waiting_unit owner revision_id u \<longleftrightarrow> in_revision owner revision_id u \<and>
     u_state u \<in> {U_PENDING, U_RETRY_WAIT, U_NEEDS_ATTENTION} \<and> u_active_attempt u = None"

definition cancel_unit :: "instant \<Rightarrow> unit_row \<Rightarrow> unit_row" where
  "cancel_unit t u =
     u\<lparr>u_state := U_CANCELLED, u_next_attempt_at := None,
       u_error_class := (case u_error_class u of None \<Rightarrow> Some ''cancelled'' | Some c \<Rightarrow> Some c),
       u_manual_retry_tokens := 0, u_partial_output := False, u_updated_at := t\<rparr>"

definition cancel_waiting_units_in_transaction ::
  "string \<Rightarrow> ident \<Rightarrow> instant \<Rightarrow> int \<Rightarrow> db \<Rightarrow> ((nat \<times> nat) \<times> db) result" where
  "cancel_waiting_units_in_transaction owner revision_id now_text limit d =
     (let rows = order_limit (\<lambda>u. (u_updated_at u, u_id u)) (nat limit)
                   (filter (waiting_unit owner revision_id) (units d));
          here = (\<lambda>u. waiting_unit owner revision_id u \<and> u_id u \<in> set (map u_id rows));
          changed = count_where here (units d)
      in if rows = [] then Inr ((0, 0), d)
         else if changed \<noteq> length rows
         then Inl (DurableStoreError ''unit cancellation batch changed concurrently'')
         else Inr ((changed, count_where (\<lambda>u. u_state u = U_NEEDS_ATTENTION) rows),
           d\<lparr>units := update_where here (cancel_unit now_text) (units d)\<rparr>))"

definition waiting_unit_exists_in_transaction :: "string \<Rightarrow> ident \<Rightarrow> db \<Rightarrow> bool" where
  "waiting_unit_exists_in_transaction owner revision_id d =
     exists_where (waiting_unit owner revision_id) (units d)"

text \<open>A pending unit with neither automatic attempts nor a manual grant left.\<close>

definition exhausted_pending :: "db \<Rightarrow> string \<Rightarrow> ident \<Rightarrow> unit_row \<Rightarrow> bool" where
  "exhausted_pending d owner revision_id u \<longleftrightarrow> in_revision owner revision_id u \<and>
     u_state u = U_PENDING \<and> u_manual_retry_tokens u = 0 \<and>
     exists_where (\<lambda>s. stage_at (u_owner u) (u_revision u) (u_stage u) s \<and>
       u_attempt_count u \<ge> rp_max_attempts (s_retry s)) (stages d)"

definition unit_retry_generation :: "db \<Rightarrow> unit_row \<Rightarrow> int option" where
  "unit_retry_generation d u =
     map_option r_manual_retry_generation (find (revision_at (u_owner u) (u_revision u)) (revisions d))"

text \<open>The generation column takes the revision's; its foreign key makes the revision exist.\<close>

definition exhaust_unit :: "db \<Rightarrow> instant \<Rightarrow> unit_row \<Rightarrow> unit_row" where
  "exhaust_unit d t u =
     u\<lparr>u_state := U_NEEDS_ATTENTION, u_next_attempt_at := None,
       u_error_class := (case u_error_class u of None \<Rightarrow> Some ''budget_exhausted'' | Some c \<Rightarrow> Some c),
       u_manual_retry_generation := (case unit_retry_generation d u of
          None \<Rightarrow> u_manual_retry_generation u | Some g \<Rightarrow> g),
       u_updated_at := t\<rparr>"

definition repair_exhausted_units_in_transaction ::
  "string \<Rightarrow> ident \<Rightarrow> instant \<Rightarrow> int \<Rightarrow> db \<Rightarrow> nat \<times> db" where
  "repair_exhausted_units_in_transaction owner revision_id now_text limit d =
     (let rows = order_limit (\<lambda>u. (u_updated_at u, u_id u)) (nat limit)
                   (filter (exhausted_pending d owner revision_id) (units d));
          here = (\<lambda>u. in_revision owner revision_id u \<and> u_id u \<in> set (map u_id rows))
      in (count_where here (units d),
          d\<lparr>units := update_where here (exhaust_unit d now_text) (units d)\<rparr>))"

definition exhausted_pending_exists_in_transaction :: "string \<Rightarrow> ident \<Rightarrow> db \<Rightarrow> bool" where
  "exhausted_pending_exists_in_transaction owner revision_id d =
     exists_where (exhausted_pending d owner revision_id) (units d)"

definition active_unit_count_in_transaction :: "string \<Rightarrow> ident \<Rightarrow> db \<Rightarrow> nat" where
  "active_unit_count_in_transaction owner revision_id d =
     count_where (\<lambda>u. in_revision owner revision_id u \<and> u_state u \<in> {U_LEASED, U_RUNNING}) (units d)"

definition revision_artifacts :: "string \<Rightarrow> ident \<Rightarrow> db \<Rightarrow> artifact_row list" where
  "revision_artifacts owner revision_id d =
     filter (\<lambda>a. art_owner a = owner \<and> art_revision a = revision_id) (artifacts d)"

definition artifact_attention_count_in_transaction :: "string \<Rightarrow> ident \<Rightarrow> db \<Rightarrow> nat" where
  "artifact_attention_count_in_transaction owner revision_id d =
     count_where (\<lambda>a. art_state a = Art_NEEDS_ATTENTION) (revision_artifacts owner revision_id d) +
     sum_list (map (\<lambda>a. count_where (\<lambda>p. pub_owner p = art_owner a \<and> pub_artifact p = art_id a \<and>
       pub_state p = Pub_NEEDS_ATTENTION) (publications d)) (revision_artifacts owner revision_id d))"

section \<open>Usage and budgets\<close>

record usage_increments =
  inc_input_bytes :: int
  inc_output_bytes :: int
  inc_input_tokens :: int
  inc_output_tokens :: int
  inc_cost_micros :: int
  inc_artifacts :: int

definition no_increments :: usage_increments where
  "no_increments = \<lparr>inc_input_bytes = 0, inc_output_bytes = 0, inc_input_tokens = 0,
     inc_output_tokens = 0, inc_cost_micros = 0, inc_artifacts = 0\<rparr>"

definition increment_list :: "usage_increments \<Rightarrow> int list" where
  "increment_list i = [inc_input_bytes i, inc_output_bytes i, inc_input_tokens i,
     inc_output_tokens i, inc_cost_micros i, inc_artifacts i]"

definition usage_counters :: "usage_row \<Rightarrow> int list" where
  "usage_counters u = [us_input_bytes u, us_output_bytes u, us_input_tokens u,
     us_output_tokens u, us_cost_micros u, us_artifact_count u]"

definition add_usage :: "usage_increments \<Rightarrow> bool \<Rightarrow> instant \<Rightarrow> usage_row \<Rightarrow> usage_row" where
  "add_usage i unknown t u =
     u\<lparr>us_input_bytes := us_input_bytes u + inc_input_bytes i,
       us_output_bytes := us_output_bytes u + inc_output_bytes i,
       us_input_tokens := us_input_tokens u + inc_input_tokens i,
       us_output_tokens := us_output_tokens u + inc_output_tokens i,
       us_cost_micros := us_cost_micros u + inc_cost_micros i,
       us_artifact_count := us_artifact_count u + inc_artifacts i,
       us_usage_unknown := (us_usage_unknown u \<or> unknown), us_updated_at := t\<rparr>"

definition add_revision_usage_in_transaction ::
  "string \<Rightarrow> ident \<Rightarrow> usage_increments \<Rightarrow> bool \<Rightarrow> instant \<Rightarrow> db \<Rightarrow> db result" where
  "add_revision_usage_in_transaction owner revision_id increments usage_unknown now_text d =
     (if \<exists>v \<in> set (increment_list increments). v < 0
      then Inl (DurableStoreError ''revision usage increment is invalid'') else
      bindE (optE (find (usage_at owner revision_id) (revision_usage d))
               (DurableStoreError ''revision usage row is missing'')) (\<lambda>row.
      if \<exists>(v, i) \<in> set (zip (usage_counters row) (increment_list increments)). v > SQLITE_INTEGER_MAX - i
      then Inl (DurableStoreError ''revision usage counter overflow'')
      else if count_where (usage_at owner revision_id) (revision_usage d) \<noteq> 1
      then Inl (DurableStoreError ''revision usage update failed'')
      else
        let d1 = d\<lparr>revision_usage := update_where (usage_at owner revision_id)
              (add_usage increments usage_unknown now_text) (revision_usage d)\<rparr>
        in Inr (if usage_unknown
                then d1\<lparr>revisions := update_where (revision_at owner revision_id)
                       (\<lambda>r. r\<lparr>r_usage_complete := False\<rparr>) (revisions d1)\<rparr>
                else d1)))"

definition clock_regressed :: "instant option \<Rightarrow> instant \<Rightarrow> bool" where
  "clock_regressed high_water current =
     (case high_water of None \<Rightarrow> False | Some h \<Rightarrow> current + CLOCK_REGRESSION_TOLERANCE < h)"

definition observed_usage :: "usage_row \<Rightarrow> (string \<times> int) list" where
  "observed_usage u =
     [(''max_bytes_read'', us_input_bytes u), (''max_bytes_written'', us_output_bytes u),
      (''max_tokens'', us_input_tokens u + us_output_tokens u),
      (''max_cost_micros'', us_cost_micros u), (''max_artifacts'', us_artifact_count u)]"

definition budget_limits :: "budgets \<Rightarrow> (string \<times> int) list" where
  "budget_limits b =
     [(''max_bytes_read'', b_max_bytes_read b), (''max_bytes_written'', b_max_bytes_written b),
      (''max_tokens'', b_max_tokens b), (''max_cost_micros'', b_max_cost_micros b),
      (''max_artifacts'', b_max_artifacts b)]"

definition exceeded_reason :: "string \<Rightarrow> int \<Rightarrow> int \<Rightarrow> jobj" where
  "exceeded_reason name observed limit =
     [(''reason_code'', JStr ''budget_limit_exceeded''), (''budget'', JStr name),
      (''observed'', JInt observed), (''limit'', JInt limit)]"

definition accounting_reason :: jobj where
  "accounting_reason =
     [(''reason_code'', JStr ''budget_accounting_incomplete''), (''budget'', JStr ''accounting'')]"

definition regressed_reason :: jobj where
  "regressed_reason =
     [(''reason_code'', JStr ''budget_accounting_incomplete''), (''budget'', JStr ''max_wall_time_s''),
      (''clock_regressed'', JBool True)]"

text \<open>The first counter above its limit, in the order of the source.\<close>

definition first_exceeded :: "(string \<times> int) list \<Rightarrow> (string \<times> int) list \<Rightarrow> (string \<times> int \<times> int) option" where
  "first_exceeded observed limits =
     find (\<lambda>(_, value, limit). value > limit)
       (map (\<lambda>((name, value), (_, limit)). (name, value, limit)) (zip observed limits))"

definition elapsed_seconds :: "instant \<Rightarrow> instant \<Rightarrow> int" where
  "elapsed_seconds started_at now = max 0 ((now - started_at) div micros_per_second)"

definition usage_violation :: "budgets \<Rightarrow> usage_row \<Rightarrow> instant \<Rightarrow> jobj option" where
  "usage_violation limits usage now =
     (if us_usage_unknown usage then Some accounting_reason
      else if clock_regressed (us_clock_high_water_at usage) now then Some regressed_reason
      else case first_exceeded (observed_usage usage) (budget_limits limits) of
             Some (name, value, limit) \<Rightarrow> Some (exceeded_reason name value limit)
           | None \<Rightarrow>
               (case us_started_at usage of
                  None \<Rightarrow> None
                | Some started_at \<Rightarrow>
                    (let elapsed = elapsed_seconds started_at now in
                     if elapsed \<ge> b_max_wall_time_s limits
                     then Some (exceeded_reason ''max_wall_time_s'' elapsed (b_max_wall_time_s limits))
                     else None)))"

definition revision_of :: "string \<Rightarrow> ident \<Rightarrow> ident \<Rightarrow> db \<Rightarrow> revision_row option" where
  "revision_of owner workload_id revision_id d =
     find (\<lambda>r. revision_at owner revision_id r \<and> r_workload r = workload_id) (revisions d)"

definition budget_violation_in_transaction ::
  "string \<Rightarrow> ident \<Rightarrow> ident \<Rightarrow> instant \<Rightarrow> db \<Rightarrow> jobj option" where
  "budget_violation_in_transaction owner workload_id revision_id now d =
     (case (revision_of owner workload_id revision_id d,
            find (usage_at owner revision_id) (revision_usage d)) of
        (Some revision, Some usage) \<Rightarrow> usage_violation (r_budgets revision) usage now
      | _ \<Rightarrow> Some accounting_reason)"

section \<open>Automatic transitions and settlement\<close>

definition automatic_workload_transition_in_transaction ::
  "workload_row \<Rightarrow> workload_state \<Rightarrow> string \<Rightarrow> jobj \<Rightarrow> instant option \<Rightarrow> db
     \<Rightarrow> (workload_record \<times> db) result" where
  "automatic_workload_transition_in_transaction row target reason_code details now_text d =
     (let owner = w_owner row; workload_id = w_id row; source = w_state row in
      if \<not> can_transition_workload (workload_state_value source) (workload_state_value target)
      then Inl InvalidTransitionError else
      let evidence = jupdate details
            [(''reason_code'', JStr reason_code),
             (''previous_state'', JStr (workload_state_value source)),
             (''new_state'', JStr (workload_state_value target)),
             (''new_version'', JInt (w_version row + 1))]
      in
      bindE (update_state_in_transaction owner workload_id source target (w_version row)
               (if target \<in> {W_CANCELLED, W_FAILED}
                then Some (jupdate [(''reason_code'', JStr reason_code)] details) else None)
               now_text d) (\<lambda>(result, d1).
      bindE (optE (EVENT_BY_TARGET target) ValueError) (\<lambda>event_type.
      bindE (append_event_in_transaction owner workload_id event_type evidence d1) (\<lambda>(event, d2).
      bindE (if target \<in> {W_NEEDS_ATTENTION, W_FAILED}
             then enqueue_notification_in_transaction owner workload_id (e_id event) d2
             else Inr d2) (\<lambda>d3.
      Inr (result, d3))))))"

definition attention_in_reason :: "jobj \<Rightarrow> int result" where
  "attention_in_reason reason =
     (case jget reason ''unresolved_unit_attention'' of
        None \<Rightarrow> Inr 0
      | Some (JInt i) \<Rightarrow>
          if i < 0 then Inl (DurableStoreError ''cancellation attention counter is invalid'') else Inr i
      | Some _ \<Rightarrow> Inl (DurableStoreError ''cancellation attention counter is invalid''))"

text \<open>\<open>str(value)\<close> of the stored reason, which every writer stores as text.\<close>

definition reason_text :: "jobj \<Rightarrow> string" where
  "reason_text reason =
     (case jget reason ''reason'' of
        None \<Rightarrow> ''owner_cancelled'' | Some (JStr s) \<Rightarrow> s | Some v \<Rightarrow> encode_json v)"

type_synonym settled = "(workload_record \<times> nat) \<times> db"

definition settle_transition ::
  "workload_row \<Rightarrow> instant \<Rightarrow> workload_state \<Rightarrow> string \<Rightarrow> jobj \<Rightarrow> nat \<Rightarrow> db \<Rightarrow> settled result" where
  "settle_transition row now_text target reason details n d =
     bindE (automatic_workload_transition_in_transaction row target reason details (Some now_text) d)
       (\<lambda>(result, d'). Inr ((result, n), d'))"

definition record_cancelled_attention ::
  "string \<Rightarrow> ident \<Rightarrow> instant \<Rightarrow> jobj \<Rightarrow> nat \<Rightarrow> int \<Rightarrow> db \<Rightarrow> db result" where
  "record_cancelled_attention owner workload_id now_text reason attention_cancelled unit_attention d =
     (if attention_cancelled = 0 then Inr d
      else
        let updated_reason = jupdate reason
              [(''reason'', JStr (reason_text reason)),
               (''unresolved_unit_attention'', JInt unit_attention)]
        in bindE (canonical_json (JObj updated_reason) max_event_json_bytes) (\<lambda>_.
             Inr (d\<lparr>workloads := update_where
               (\<lambda>w. workload_at owner workload_id w \<and> w_state w = W_CANCEL_REQUESTED)
               (\<lambda>w. w\<lparr>w_terminal_reason := Some updated_reason, w_updated_at := now_text\<rparr>)
               (workloads d)\<rparr>)))"

definition settle_cancel_requested ::
  "string \<Rightarrow> ident \<Rightarrow> ident \<Rightarrow> workload_row \<Rightarrow> instant \<Rightarrow> int \<Rightarrow> db \<Rightarrow> settled result" where
  "settle_cancel_requested owner workload_id revision_id row now_text mutation_limit d =
     bindE (cancel_waiting_units_in_transaction owner revision_id now_text mutation_limit d)
       (\<lambda>((cancelled, attention_cancelled), d1).
     let reason = (case w_terminal_reason row of None \<Rightarrow> [] | Some r \<Rightarrow> r) in
     bindE (attention_in_reason reason) (\<lambda>previous_attention.
     let unit_attention = previous_attention + int attention_cancelled in
     bindE (record_cancelled_attention owner workload_id now_text reason attention_cancelled
              unit_attention d1) (\<lambda>d2.
     if active_unit_count_in_transaction owner revision_id d2 \<noteq> 0
        \<or> waiting_unit_exists_in_transaction owner revision_id d2
     then bindE (select_workload d2 owner workload_id) (\<lambda>w. Inr ((row_to_workload w, cancelled), d2))
     else
       bindE (select_workload d2 owner workload_id) (\<lambda>current_row.
       settle_transition current_row now_text W_CANCELLED ''owner_cancellation_settled''
         [(''unresolved_unit_attention'', JInt unit_attention),
          (''unresolved_artifact_attention'',
            JInt (int (artifact_attention_count_in_transaction owner revision_id d2)))]
         (cancelled + 1) d2))))"

definition untolerated_failure :: "string \<Rightarrow> ident \<Rightarrow> revision_row \<Rightarrow> unit_row \<Rightarrow> bool" where
  "untolerated_failure owner revision_id revision u \<longleftrightarrow> in_revision owner revision_id u \<and>
     u_state u = U_FAILED_PERMANENT \<and>
     (r_failure_policy revision \<noteq> ''declared'' \<or>
      (case u_error_class u of None \<Rightarrow> True | Some c \<Rightarrow> c \<notin> set (r_tolerated_error_classes revision)))"

definition current_attention :: "db \<Rightarrow> string \<Rightarrow> ident \<Rightarrow> unit_row \<Rightarrow> bool" where
  "current_attention d owner revision_id u \<longleftrightarrow> in_revision owner revision_id u \<and>
     u_state u = U_NEEDS_ATTENTION \<and>
     (case unit_retry_generation d u of None \<Rightarrow> False | Some g \<Rightarrow> u_manual_retry_generation u \<ge> g)"

definition materialization_attention_count :: "string \<Rightarrow> ident \<Rightarrow> db \<Rightarrow> nat" where
  "materialization_attention_count owner revision_id d =
     count_where (\<lambda>m. m_owner m = owner \<and> m_revision m = revision_id \<and> m_attention_code m \<noteq> None)
       (stage_materialization d)"

text \<open>The end of settlement: attention, untolerated failure, and the drained pause.\<close>

definition settle_attention_and_failure ::
  "string \<Rightarrow> ident \<Rightarrow> ident \<Rightarrow> workload_row \<Rightarrow> instant \<Rightarrow> int \<Rightarrow> nat \<Rightarrow> db \<Rightarrow> settled result" where
  "settle_attention_and_failure owner workload_id revision_id row now_text mutation_limit exhausted d =
     (let materialization = materialization_attention_count owner revision_id d;
          unit_attention = count_where (current_attention d owner revision_id) (units d);
          artifact_attention = artifact_attention_count_in_transaction owner revision_id d
      in
      if materialization \<noteq> 0
      then settle_transition row now_text W_NEEDS_ATTENTION ''materialization_attention_required''
             [(''affected_stages'', JInt (int materialization))] (exhausted + 1) d
      else if unit_attention \<noteq> 0 \<or> artifact_attention \<noteq> 0
      then settle_transition row now_text W_NEEDS_ATTENTION ''execution_attention_required''
             [(''unit_attention'', JInt (int unit_attention)),
              (''artifact_attention'', JInt (int artifact_attention))] (exhausted + 1) d
      else
      bindE (optE (revision_of owner workload_id revision_id d)
               (DurableStoreError ''active revision is missing'')) (\<lambda>revision.
      let untolerated = count_where (untolerated_failure owner revision_id revision) (units d) in
      if untolerated \<noteq> 0
      then
        bindE (cancel_waiting_units_in_transaction owner revision_id now_text mutation_limit d)
          (\<lambda>((cancelled, _), d1).
        if active_unit_count_in_transaction owner revision_id d1 \<noteq> 0
           \<or> waiting_unit_exists_in_transaction owner revision_id d1
        then Inr ((row_to_workload row, exhausted + cancelled), d1)
        else settle_transition row now_text W_FAILED ''untolerated_unit_failure''
               [(''failed_units'', JInt (int untolerated))] (exhausted + cancelled + 1) d1)
      else if w_state row = W_PAUSE_REQUESTED \<and> active_unit_count_in_transaction owner revision_id d = 0
      then settle_transition row now_text W_PAUSED ''active_attempts_drained'' [] (exhausted + 1) d
      else Inr ((row_to_workload row, exhausted), d)))"

text \<open>
  A workload that may still execute: budgets first, then pending units that can neither run
  automatically nor by a manual grant, then attention and failure.
\<close>

definition settle_executable ::
  "string \<Rightarrow> ident \<Rightarrow> ident \<Rightarrow> workload_row \<Rightarrow> instant \<Rightarrow> bool \<Rightarrow> int \<Rightarrow> db \<Rightarrow> settled result" where
  "settle_executable owner workload_id revision_id row now_text repair_exhausted mutation_limit d =
     (case (if w_state row \<in> {W_ADMITTED, W_QUEUED, W_RUNNING, W_PAUSE_REQUESTED, W_PAUSED}
            then budget_violation_in_transaction owner workload_id revision_id now_text d else None) of
        Some violation \<Rightarrow>
          settle_transition row now_text W_NEEDS_ATTENTION
            (case jget violation ''reason_code'' of Some (JStr s) \<Rightarrow> s | _ \<Rightarrow> [])
            violation 1 d
      | None \<Rightarrow>
          let (exhausted, d1) = (if repair_exhausted
                then repair_exhausted_units_in_transaction owner revision_id now_text mutation_limit d
                else (0, d))
          in
          if repair_exhausted \<and> exhausted_pending_exists_in_transaction owner revision_id d1
          then Inr ((row_to_workload row, exhausted), d1)
          else if w_state row = W_NEEDS_ATTENTION then Inr ((row_to_workload row, exhausted), d1)
          else settle_attention_and_failure owner workload_id revision_id row now_text mutation_limit
                 exhausted d1)"

definition settle_workload_in_transaction ::
  "string \<Rightarrow> ident \<Rightarrow> instant \<Rightarrow> bool \<Rightarrow> int \<Rightarrow> db \<Rightarrow> settled result" where
  "settle_workload_in_transaction owner workload_id now_text repair_exhausted mutation_limit d =
     bindE (select_workload d owner workload_id) (\<lambda>row.
     case w_active_revision row of
       None \<Rightarrow> Inr ((row_to_workload row, 0), d)
     | Some revision_id \<Rightarrow>
       if w_state row \<in> {W_CANCELLED, W_FAILED}
       then bindE (cancel_waiting_units_in_transaction owner revision_id now_text mutation_limit d)
              (\<lambda>((changed, _), d1). Inr ((row_to_workload row, changed), d1))
       else if w_state row \<in> {W_COMPLETED, W_COMPLETED_WITH_ERRORS}
       then Inr ((row_to_workload row, 0), d)
       else if w_state row = W_CANCEL_REQUESTED
       then settle_cancel_requested owner workload_id revision_id row now_text mutation_limit d
       else settle_executable owner workload_id revision_id row now_text repair_exhausted mutation_limit d)"

definition settle_workload ::
  "string \<Rightarrow> ident \<Rightarrow> instant option \<Rightarrow> db \<Rightarrow> (workload_record \<times> db) result" where
  "settle_workload owner_user_id workload_id now d =
     bindE (require_owner owner_user_id) (\<lambda>owner.
     bindE (settle_workload_in_transaction owner workload_id (operation_now d now) True
              UNIT_STATE_BATCH_SIZE d) (\<lambda>((result, _), d1). Inr (result, d1)))"

text \<open>
  The periodic pass. The query selects the workloads that settlement would change; each is
  settled in its own transaction, so an exception keeps what earlier iterations committed.
\<close>

definition usage_needs_settlement :: "budgets \<Rightarrow> usage_row \<Rightarrow> instant \<Rightarrow> bool" where
  "usage_needs_settlement b u current \<longleftrightarrow>
     us_usage_unknown u \<or>
     (case us_clock_high_water_at u of None \<Rightarrow> False | Some h \<Rightarrow> h > current + CLOCK_REGRESSION_TOLERANCE) \<or>
     us_input_bytes u > b_max_bytes_read b \<or> us_output_bytes u > b_max_bytes_written b \<or>
     us_input_tokens u > b_max_tokens b - us_output_tokens u \<or>
     us_cost_micros u > b_max_cost_micros b \<or> us_artifact_count u > b_max_artifacts b \<or>
     (case us_started_at u of None \<Rightarrow> False
      | Some t \<Rightarrow> current - t \<ge> b_max_wall_time_s b * micros_per_second)"

definition active_unit_exists :: "string \<Rightarrow> ident \<Rightarrow> db \<Rightarrow> bool" where
  "active_unit_exists owner rid d =
     exists_where (\<lambda>u. in_revision owner rid u \<and> u_state u \<in> {U_LEASED, U_RUNNING}) (units d)"

definition attention_or_budget :: "db \<Rightarrow> instant \<Rightarrow> string \<Rightarrow> ident \<Rightarrow> revision_row \<Rightarrow> bool" where
  "attention_or_budget d current owner rid active_revision \<longleftrightarrow>
     exists_where (\<lambda>r. revision_at owner rid r \<and> exists_where
       (\<lambda>u. usage_at owner rid u \<and> usage_needs_settlement (r_budgets r) u current) (revision_usage d))
       (revisions d) \<or>
     exists_where (\<lambda>m. m_owner m = owner \<and> m_revision m = rid \<and> m_attention_code m \<noteq> None)
       (stage_materialization d) \<or>
     exists_where (\<lambda>u. untolerated_failure owner rid active_revision u \<and>
       (\<not> active_unit_exists owner rid d \<or> waiting_unit_exists_in_transaction owner rid d) \<or>
       in_revision owner rid u \<and> u_state u = U_NEEDS_ATTENTION \<and>
         u_manual_retry_generation u \<ge> (case unit_retry_generation d u of None \<Rightarrow> 0 | Some g \<Rightarrow> g)) (units d) \<or>
     exists_where (\<lambda>a. art_state a = Art_NEEDS_ATTENTION \<or>
       exists_where (\<lambda>p. pub_owner p = art_owner a \<and> pub_artifact p = art_id a \<and>
         pub_state p = Pub_NEEDS_ATTENTION) (publications d)) (revision_artifacts owner rid d) \<or>
     exists_where (exhausted_pending d owner rid) (units d)"

definition settle_candidate :: "db \<Rightarrow> instant \<Rightarrow> workload_row \<Rightarrow> bool" where
  "settle_candidate d current w \<longleftrightarrow>
     (case w_active_revision w of None \<Rightarrow> False
      | Some rid \<Rightarrow> exists_where (\<lambda>active_revision. revision_at (w_owner w) rid active_revision \<and>
          (w_state w \<in> {W_CANCELLED, W_FAILED} \<and> waiting_unit_exists_in_transaction (w_owner w) rid d \<or>
           w_state w \<notin> {W_CANCELLED, W_FAILED, W_COMPLETED, W_COMPLETED_WITH_ERRORS, W_NEEDS_ATTENTION} \<and>
           (w_state w \<in> {W_PAUSE_REQUESTED, W_CANCEL_REQUESTED} \<and>
              (\<not> active_unit_exists (w_owner w) rid d \<or>
               w_state w = W_CANCEL_REQUESTED \<and> waiting_unit_exists_in_transaction (w_owner w) rid d) \<or>
            w_state w \<noteq> W_CANCEL_REQUESTED \<and>
              attention_or_budget d current (w_owner w) rid active_revision))) (revisions d))"

fun settle_rows :: "instant \<Rightarrow> int \<Rightarrow> workload_row list \<Rightarrow> int \<Rightarrow> db \<Rightarrow> int result \<times> db" where
  "settle_rows current limit [] changed d = (Inr changed, d)"
| "settle_rows current limit (row # rows) changed d =
     (let remaining = limit - min changed limit in
      if remaining \<le> 0 then (Inr changed, d)
      else case settle_workload_in_transaction (w_owner row) (w_id row) current True remaining d of
             Inl e \<Rightarrow> (Inl e, d)
           | Inr ((_, did_change), d1) \<Rightarrow> settle_rows current limit rows (changed + int did_change) d1)"

definition settle_workloads :: "int \<Rightarrow> instant option \<Rightarrow> db \<Rightarrow> int result \<times> db" where
  "settle_workloads limit now d =
     (case require_limit limit 1000 of
        Inl e \<Rightarrow> (Inl e, d)
      | Inr _ \<Rightarrow>
          let current = operation_now d now in
          settle_rows current limit
            (order_limit (\<lambda>w. (w_updated_at w, w_owner w, w_id w)) (nat limit)
              (filter (settle_candidate d current) (workloads d))) 0 d)"

section \<open>Transactions\<close>

lemma usage_evolves_start: "usage_evolves u (start_usage t u)"
  by (auto simp: usage_evolves_def start_usage_def split: option.splits)

lemma start_revision_usage_txn: "start_revision_usage owner rid t d = Inr d' \<Longrightarrow> txn d d'"
  by (auto simp: start_revision_usage_def Let_def split: if_splits
      intro!: txn_usage usage_evolves_start)

lemma workload_step_evolves:
  assumes "workload_edge (w_state w) target"
  shows "workload_evolves w (w\<lparr>w_state := target, w_version := w_version w + 1, w_updated_at := t,
    w_terminal_reason := r\<rparr>)"
  using assms by (auto simp: workload_evolves_def)

lemma update_state_txn:
  assumes "update_state_in_transaction owner wid source target expected reason now d = Inr (r, d')"
    and "workload_edge source target"
  shows "txn d d'"
proof -
  let ?t = "case now of None \<Rightarrow> utc_now d | Some t \<Rightarrow> t"
  let ?here = "\<lambda>w. workload_at owner wid w \<and> w_state w = source \<and> w_version w = expected"
  let ?f = "\<lambda>w. w\<lparr>w_state := target, w_version := w_version w + 1, w_updated_at := ?t,
      w_terminal_reason := (case reason of None \<Rightarrow> w_terminal_reason w | Some r \<Rightarrow> Some r)\<rparr>"
  let ?d1 = "d\<lparr>workloads := update_where ?here ?f (workloads d)\<rparr>"
  have step: "txn d ?d1"
    using assms(2) by (intro txn_workloads conjI) (auto intro!: workload_step_evolves)
  have "txn ?d1 d'"
    using assms(1) unfolding update_state_in_transaction_def Let_def tx_simps
    by (elim exE conjE) (auto split: if_splits simp: tx_simps dest: start_revision_usage_txn)
  with step show ?thesis by (rule txn_trans)
qed

lemma update_state_result:
  assumes "update_state_in_transaction owner wid source target expected reason now d = Inr (r, d')"
  shows "wr_owner_user_id r = owner \<and> wr_workload_id r = wid"
proof -
  obtain d2 w where "select_workload d2 owner wid = Inr w" "r = row_to_workload w"
    using assms unfolding update_state_in_transaction_def Let_def tx_simps by auto
  then show ?thesis by (auto dest: select_workload_Inr simp: row_to_workload_def)
qed

lemma can_transition_edge:
  "can_transition_workload (workload_state_value s) (workload_state_value t) \<longleftrightarrow> workload_edge s t"
  by (simp add: workload_edge_def)

lemma notify_txn:
  "(if b then enqueue_notification_in_transaction owner wid i d else Inr d) = Inr d' \<Longrightarrow> txn d d'"
  by (auto split: if_splits dest: enqueue_notification_txn)

lemma transition_workload_txn:
  assumes "transition_workload owner wid destination expected payload now d = Inr (r, d')"
  shows "txn d d'"
  using assms unfolding transition_workload_def Let_def tx_simps
  by (elim exE conjE)
    (auto simp: tx_simps can_transition_edge simp del: can_transition_workload_value
      dest!: update_state_txn append_event_txn notify_txn intro: txn_trans split: prod.splits)

lemma idle_change_waiting:
  assumes "u_state u \<in> {U_PENDING, U_RETRY_WAIT, U_NEEDS_ATTENTION}"
    and "u_owner v = u_owner u" "u_id v = u_id u" "u_revision v = u_revision u" "u_stage v = u_stage u"
      "u_key v = u_key u" "u_created_at v = u_created_at u" "u_fence v = u_fence u"
      "u_attempt_count v = u_attempt_count u" "u_committed_result v = u_committed_result u"
      "u_active_attempt v = u_active_attempt u" "u_lease_worker v = u_lease_worker u"
      "u_lease_expires_at v = u_lease_expires_at u"
    and "u_state v \<notin> {U_COMMITTED, U_LEASED, U_RUNNING}"
  shows "idle_change u v"
  using assms by (auto simp: idle_change_def live_unit_def unit_evolves_def fence_evolves_def
      TERMINAL_UNIT_STATES_def)

lemma cancel_waiting_units_txn:
  assumes "cancel_waiting_units_in_transaction owner rid t limit d = Inr (r, d')"
  shows "txn d d'"
proof -
  have "txn d (d\<lparr>units := update_where (\<lambda>u. waiting_unit owner rid u \<and> P u) (cancel_unit t) (units d)\<rparr>)" for P
    by (rule txn_idle_units, rule idle_change_waiting) (auto simp: waiting_unit_def cancel_unit_def)
  with assms show ?thesis
    by (auto simp: cancel_waiting_units_in_transaction_def Let_def split: if_splits)
qed

text \<open>Under unique keys the repair touches exactly exhausted pending units.\<close>

lemma unit_pk_unique:
  assumes "distinct (map unit_pk us)" and "u \<in> set us" and "v \<in> set us"
    and "u_owner v = u_owner u" and "u_id v = u_id u"
  shows "v = u"
  using assms by (auto simp: distinct_map inj_on_def)

definition exhausted_batch :: "db \<Rightarrow> string \<Rightarrow> ident \<Rightarrow> int \<Rightarrow> unit_row list" where
  "exhausted_batch d owner rid limit = order_limit (\<lambda>u. (u_updated_at u, u_id u)) (nat limit)
     (filter (exhausted_pending d owner rid) (units d))"

lemma exhausted_batch_sub: "set (exhausted_batch d owner rid limit) \<subseteq> {u \<in> set (units d). exhausted_pending d owner rid u}"
  using set_order_limit by (fastforce simp: exhausted_batch_def)

lemma repair_here:
  assumes "distinct (map unit_pk (units d))" and "u \<in> set (units d)"
    and "in_revision owner rid u" and "u_id u \<in> set (map u_id (exhausted_batch d owner rid limit))"
  shows "u \<in> set (exhausted_batch d owner rid limit) \<and> exhausted_pending d owner rid u"
proof -
  obtain v where v: "v \<in> set (exhausted_batch d owner rid limit)" "u_id u = u_id v"
    using assms(4) by auto
  then have "v \<in> set (units d)" "exhausted_pending d owner rid v"
    using exhausted_batch_sub by blast+
  then have "u = v"
    using assms v by (intro unit_pk_unique [of "units d"]) (auto simp: exhausted_pending_def in_revision_def)
  with v \<open>exhausted_pending d owner rid v\<close> show ?thesis by simp
qed

lemma repair_exhausted_txn:
  assumes "repair_exhausted_units_in_transaction owner rid t limit d = (n, d')" and ok: "store_ok d"
  shows "txn d d'"
proof -
  have dist: "distinct (map unit_pk (units d))"
    using ok by (simp add: store_ok_def keys_ok_def)
  have "idle_change u (exhaust_unit d t u)"
    if "u \<in> set (units d)" "in_revision owner rid u \<and> u_id u \<in> set (map u_id (exhausted_batch d owner rid limit))" for u
    using repair_here [OF dist that(1)] that(2)
    by (intro idle_change_waiting) (auto simp: exhausted_pending_def exhaust_unit_def)
  then have "txn d (d\<lparr>units := update_where
      (\<lambda>u. in_revision owner rid u \<and> u_id u \<in> set (map u_id (exhausted_batch d owner rid limit)))
      (exhaust_unit d t) (units d)\<rparr>)"
    by (rule txn_idle_units)
  with assms(1) show ?thesis
    by (auto simp: repair_exhausted_units_in_transaction_def exhausted_batch_def Let_def)
qed

lemma add_usage_evolves:
  "\<forall>v \<in> set (increment_list i). 0 \<le> v \<Longrightarrow> usage_evolves u (add_usage i unknown t u)"
  by (auto simp: usage_evolves_def add_usage_def increment_list_def)

lemma add_revision_usage_txn:
  assumes "add_revision_usage_in_transaction owner rid inc unknown t d = Inr d'"
  shows "txn d d'"
proof -
  let ?d1 = "d\<lparr>revision_usage := update_where (usage_at owner rid) (add_usage inc unknown t) (revision_usage d)\<rparr>"
  have "\<forall>v \<in> set (increment_list inc). 0 \<le> v" and "d' = ?d1 \<or>
      d' = ?d1\<lparr>revisions := update_where (revision_at owner rid) (\<lambda>r. r\<lparr>r_usage_complete := False\<rparr>) (revisions ?d1)\<rparr>"
    using assms unfolding add_revision_usage_in_transaction_def Let_def
    by (auto simp: tx_simps split: if_splits)
  moreover from this have "txn d ?d1" by (intro txn_usage add_usage_evolves)
  moreover have "txn ?d1 (?d1\<lparr>revisions := update_where (revision_at owner rid)
      (\<lambda>r. r\<lparr>r_usage_complete := False\<rparr>) (revisions ?d1)\<rparr>)"
    by (rule txn_revisions) (simp add: revision_evolves_def)
  ultimately show ?thesis by (auto intro: txn_trans)
qed

lemma automatic_transition_txn:
  assumes "automatic_workload_transition_in_transaction row target reason details now d = Inr (r, d')"
  shows "txn d d'"
  using assms unfolding automatic_workload_transition_in_transaction_def Let_def tx_simps
  by (elim exE conjE)
    (auto simp: tx_simps can_transition_edge simp del: can_transition_workload_value
      dest!: update_state_txn append_event_txn notify_txn intro: txn_trans split: prod.splits)

lemma settle_transition_txn:
  "settle_transition row t target reason details n d = Inr (x, d') \<Longrightarrow> txn d d'"
  by (auto simp: settle_transition_def tx_simps dest: automatic_transition_txn)

lemma record_cancelled_attention_txn:
  assumes "record_cancelled_attention owner wid t reason n m d = Inr d'"
  shows "txn d d'"
proof -
  have "txn d (d\<lparr>workloads := update_where
      (\<lambda>w. workload_at owner wid w \<and> w_state w = W_CANCEL_REQUESTED)
      (\<lambda>w. w\<lparr>w_terminal_reason := r, w_updated_at := t\<rparr>) (workloads d)\<rparr>)" for r
    by (rule txn_workloads) (simp add: workload_evolves_def)
  with assms show ?thesis
    by (auto simp: record_cancelled_attention_def Let_def tx_simps split: if_splits)
qed

lemma settle_cancel_requested_txn:
  assumes "settle_cancel_requested owner wid rid row t limit d = Inr (x, d')"
  shows "txn d d'"
  using assms unfolding settle_cancel_requested_def Let_def tx_simps
  by (elim exE conjE)
    (auto simp: tx_simps split: if_splits prod.splits
      dest!: cancel_waiting_units_txn record_cancelled_attention_txn settle_transition_txn
      intro: txn_trans)

lemma settle_attention_and_failure_txn:
  assumes "settle_attention_and_failure owner wid rid row t limit n d = Inr (x, d')"
  shows "txn d d'"
  using assms unfolding settle_attention_and_failure_def Let_def
  by (auto simp: tx_simps split: if_splits prod.splits
      dest!: cancel_waiting_units_txn settle_transition_txn intro: txn_trans)

lemma settle_executable_txn:
  assumes "settle_executable owner wid rid row t repair limit d = Inr (x, d')" and "store_ok d"
  shows "txn d d'"
proof (cases "if w_state row \<in> {W_ADMITTED, W_QUEUED, W_RUNNING, W_PAUSE_REQUESTED, W_PAUSED}
            then budget_violation_in_transaction owner wid rid t d else None")
  case (Some violation)
  with assms(1) show ?thesis
    unfolding settle_executable_def by (auto dest: settle_transition_txn)
next
  case None
  obtain n d1 where step: "(if repair then repair_exhausted_units_in_transaction owner rid t limit d else (0, d)) = (n, d1)"
    by fastforce
  then have "txn d d1"
    using assms(2) by (auto split: if_splits dest: repair_exhausted_txn)
  moreover have "d' = d1 \<or> settle_attention_and_failure owner wid rid row t limit n d1 = Inr (x, d')"
    using assms(1) unfolding settle_executable_def None step by (auto split: if_splits)
  ultimately show ?thesis by (auto dest: settle_attention_and_failure_txn intro: txn_trans)
qed

lemma settle_in_transaction_txn:
  assumes "settle_workload_in_transaction owner wid t repair limit d = Inr (x, d')" and "store_ok d"
  shows "txn d d'"
proof -
  obtain row where row: "select_workload d owner wid = Inr row"
    using assms(1) unfolding settle_workload_in_transaction_def tx_simps by blast
  show ?thesis
    using assms settle_cancel_requested_txn settle_executable_txn
    unfolding settle_workload_in_transaction_def row
    by (cases "w_active_revision row")
      (auto simp: tx_simps split: if_splits dest: cancel_waiting_units_txn)
qed

lemma settle_workload_txn:
  "settle_workload owner wid now d = Inr (r, d') \<Longrightarrow> store_ok d \<Longrightarrow> txn d d'"
  unfolding settle_workload_def tx_simps by (auto simp: tx_simps dest: settle_in_transaction_txn)

lemma settle_rows_txn: "settle_rows t limit rows n d = (r, d') \<Longrightarrow> store_ok d \<Longrightarrow> txn d d'"
proof (induction rows arbitrary: n d)
  case (Cons row rows)
  consider "d' = d" | x m d1 where
      "settle_workload_in_transaction (w_owner row) (w_id row) t True (limit - min n limit) d = Inr ((x, m), d1)"
      "settle_rows t limit rows (n + int m) d1 = (r, d')"
    using Cons.prems(1) by (auto simp: Let_def split: if_splits sum.splits)
  then show ?case
  proof cases
    case 2
    from settle_in_transaction_txn [OF 2(1) Cons.prems(2)] have "txn d d1" .
    moreover from this have "store_ok d1" using Cons.prems(2) by (simp add: txn_def)
    ultimately show ?thesis using Cons.IH [OF 2(2)] by (blast intro: txn_trans)
  qed simp
qed simp

lemma settle_workloads_txn: "settle_workloads limit now d = (r, d') \<Longrightarrow> store_ok d \<Longrightarrow> txn d d'"
  by (auto simp: settle_workloads_def Let_def split: sum.splits dest: settle_rows_txn)

lemma chosen_id_store:
  assumes "chosen_id v prefix d = Inr (i, e)"
  shows "\<exists>n. e = d\<lparr>uuid_count := n\<rparr>"
proof (cases v)
  case None
  with assms show ?thesis by (auto simp: chosen_id_def new_id_def split: if_splits)
next
  case (Some w)
  with assms have "e = d" by (auto simp: chosen_id_def split: if_splits)
  then have "e = d\<lparr>uuid_count := uuid_count d\<rparr>" by simp
  then show ?thesis by blast
qed

lemma insert_workload_txn:
  assumes "\<not> exists_where (workload_at (w_owner row) (w_id row)) (workloads d)"
    and "w_next_event_id row = 1" and "w_active_revision row = None"
  shows "txn d (d\<lparr>workloads := workloads d @ [row]\<rparr>)"
proof -
  have "events_ok (workloads d @ [row]) (events d)" if ok: "events_ok (workloads d) (events d)"
  proof -
    have "\<not> event_of row e" if "e \<in> set (events d)" for e
      using ok that assms(1) by (auto simp: events_ok_def event_of_def workload_at_def)
    then have "filter (event_of row) (events d) = []"
      by (simp add: filter_empty_conv)
    then have "event_ids_ok (events d) row"
      using assms(2) by (simp add: event_ids_ok_def)
    with ok show ?thesis by (auto simp: events_ok_def)
  qed
  moreover have "distinct (map workload_pk (workloads d @ [row]))" if "distinct (map workload_pk (workloads d))"
    using that assms(1) by (auto simp: workload_at_def)
  moreover have "active_ok (d\<lparr>workloads := workloads d @ [row]\<rparr>)" if "active_ok d"
    using that assms(3) by (auto simp: active_ok_def active_revision_ok_def)
  ultimately show ?thesis
    by (simp add: txn_def db_evolves_def store_ok_def keys_ok_def)
qed

lemma submit_draft_txn:
  assumes "submit_draft row d = Inr (r, d')"
    and "w_next_event_id row = 1" and "w_active_revision row = None"
  shows "txn d d'"
proof (cases "find (request_at (w_owner row) (w_request_key row)) (workloads d)")
  case None
  then obtain e where fresh: "\<not> exists_where (workload_at (w_owner row) (w_id row)) (workloads d)"
    and event: "append_event_in_transaction (w_owner row) (w_id row) Ev_DRAFT_CREATED
      [(''version'', JInt 1)] (d\<lparr>workloads := workloads d @ [row]\<rparr>) = Inr (e, d')"
    using assms(1) unfolding submit_draft_def by (auto simp: tx_simps split: if_splits)
  have "txn d (d\<lparr>workloads := workloads d @ [row]\<rparr>)"
    using fresh assms(2,3) by (intro insert_workload_txn)
  with append_event_txn [OF event] show ?thesis by (rule_tac txn_trans)
next
  case (Some existing)
  with assms(1) show ?thesis unfolding submit_draft_def by (auto split: if_splits)
qed

lemma create_draft_cases:
  assumes "create_draft sha owner key request priority budget wid d = Inr (r, d')"
  obtains digest chosen d1 where "require_owner owner = Inr owner" and "require_key key 256 = Inr key"
    and "priority \<in> set WORKLOAD_PRIORITIES"
    and "\<exists>t. canonical_json (JObj (draft_request request)) max_plan_json_bytes = Inr t"
    and "\<exists>t. canonical_json (JObj (draft_limits (case budget of None \<Rightarrow> [] | Some b \<Rightarrow> b))) max_plan_json_bytes = Inr t"
    and "submit_digest sha request priority (case budget of None \<Rightarrow> [] | Some b \<Rightarrow> b) = Inr digest"
    and "chosen_id wid ''wrk'' d = Inr (chosen, d1)"
    and "submit_draft (draft_row owner chosen key digest (draft_request request) priority
       (draft_limits (case budget of None \<Rightarrow> [] | Some b \<Rightarrow> b)) (utc_now d)) d1 = Inr (r, d')"
proof -
  have own: "require_owner owner = Inr o1 \<Longrightarrow> o1 = owner" for o1
    by (auto simp: require_owner_def split: if_splits)
  have ky: "require_key key 256 = Inr k1 \<Longrightarrow> k1 = key" for k1
    by (auto simp: require_key_def split: if_splits)
  show ?thesis
    using assms unfolding create_draft_def Let_def tx_simps
    by (elim exE conjE) (auto simp: tx_simps split: if_splits prod.splits dest: own ky intro!: that)
qed

lemma create_draft_txn:
  assumes "create_draft sha owner key request priority budget wid d = Inr (r, d')"
  shows "txn d d'"
  using assms
proof (rule create_draft_cases)
  fix digest chosen d1
  assume "chosen_id wid ''wrk'' d = Inr (chosen, d1)"
    and submit: "submit_draft (draft_row owner chosen key digest (draft_request request) priority
       (draft_limits (case budget of None \<Rightarrow> [] | Some b \<Rightarrow> b)) (utc_now d)) d1 = Inr (r, d')"
  then have "txn d d1" by (auto dest: chosen_id_store)
  with submit_draft_txn [OF submit] show ?thesis
    by (auto simp: draft_row_def intro: txn_trans)
qed

end
