(* ===== verification/Workload_Properties.thy ===== *)
theory Workload_Properties
  imports Workloads
begin

text \<open>
  What the life of a workload guarantees: a state change is a compare-and-set along the
  graph with exactly one event, submissions are idempotent, the two implementations of the
  budget check agree, usage counters stay within SQLite's integers, and the query of the
  periodic settlement selects exactly the workloads that settlement would change.
\<close>

section \<open>Frames\<close>

lemma enqueue_outbox_frame:
  assumes "enqueue_outbox_in_transaction owner wid eid channel recipient ck due delivered d = Inr (r, d')"
  shows "workloads d' = workloads d \<and> events d' = events d \<and> units d' = units d \<and>
    attempts d' = attempts d \<and> results d' = results d \<and> revisions d' = revisions d \<and>
    revision_usage d' = revision_usage d"
  using assms unfolding enqueue_outbox_in_transaction_def
  by (auto simp: tx_simps Let_def new_id_def require_owner_def
      split: if_splits option.splits prod.splits)

lemma notify_frame:
  assumes "(if b then enqueue_notification_in_transaction owner wid i d else Inr d) = Inr d'"
  shows "workloads d' = workloads d \<and> events d' = events d \<and> units d' = units d \<and>
    attempts d' = attempts d \<and> results d' = results d \<and> revisions d' = revisions d \<and>
    revision_usage d' = revision_usage d"
  using assms
  by (auto simp: enqueue_notification_in_transaction_def tx_simps split: if_splits
      dest!: enqueue_outbox_frame)

lemma start_revision_usage_frame:
  "start_revision_usage owner rid t d = Inr d' \<Longrightarrow> workloads d' = workloads d \<and> events d' = events d \<and>
     units d' = units d \<and> attempts d' = attempts d \<and> results d' = results d \<and> revisions d' = revisions d"
  by (auto simp: start_revision_usage_def Let_def split: if_splits)

lemma workload_at_key: "workload_at owner wid = (\<lambda>w. workload_pk w = (owner, wid))"
  by (auto simp: workload_at_def fun_eq_iff)

lemma find_workload_update:
  assumes "find (workload_at owner wid) ws = Some w" and "workload_pk (f w) = workload_pk w"
    and "\<And>v. v \<in> set ws \<Longrightarrow> P v \<longleftrightarrow> v = w"
  shows "find (workload_at owner wid) (update_where P f ws) = Some (f w)"
proof -
  have "update_where P f ws = update_where (\<lambda>v. v = w) (\<lambda>_. f w) ws"
    using assms(3) by (intro update_where_cong) auto
  moreover have "find (\<lambda>v. workload_pk v = (owner, wid)) (update_where (\<lambda>v. v = w) (\<lambda>_. f w) ws) =
      map_option (\<lambda>v. if v = w then f w else v) (find (\<lambda>v. workload_pk v = (owner, wid)) ws)"
    using assms(2) by (intro find_update_where) simp
  ultimately show ?thesis
    using assms(1) by (simp add: workload_at_key)
qed

text \<open>A successful compare-and-set changes the one workload it names.\<close>

lemma update_state_effect:
  assumes ok: "distinct (map workload_pk (workloads d))"
    and run: "update_state_in_transaction owner wid source target expected reason now d = Inr (r, d')"
  obtains w w' where "find (workload_at owner wid) (workloads d) = Some w"
    and "w_state w = source" and "w_version w = expected"
    and "w' = w\<lparr>w_state := target, w_version := expected + 1, w_updated_at := w_updated_at w',
           w_terminal_reason := w_terminal_reason w'\<rparr>"
    and "workloads d' = update_where (\<lambda>v. v = w) (\<lambda>_. w') (workloads d)"
    and "find (workload_at owner wid) (workloads d') = Some w'" and "r = row_to_workload w'"
    and "events d' = events d" "units d' = units d" "attempts d' = attempts d" "results d' = results d"
      "revisions d' = revisions d"
proof -
  let ?t = "case now of None \<Rightarrow> utc_now d | Some t \<Rightarrow> t"
  let ?here = "\<lambda>w. workload_at owner wid w \<and> w_state w = source \<and> w_version w = expected"
  let ?f = "\<lambda>w. w\<lparr>w_state := target, w_version := w_version w + 1, w_updated_at := ?t,
      w_terminal_reason := (case reason of None \<Rightarrow> w_terminal_reason w | Some r \<Rightarrow> Some r)\<rparr>"
  have one: "count_where ?here (workloads d) = 1"
    using run unfolding update_state_in_transaction_def Let_def tx_simps
    by (elim exE conjE) (auto split: if_splits)
  then obtain w where w: "w \<in> set (workloads d)" "?here w"
    using count_where_one_ex [of ?here] by blast
  have uniq: "v \<in> set (workloads d) \<Longrightarrow> ?here v \<longleftrightarrow> v = w" for v
    using workload_pk_unique [OF ok w(1)] w by blast
  have found: "find (workload_at owner wid) (workloads d) = Some w"
    using find_distinct_key [OF ok w(1)] w by (simp add: workload_at_key workload_at_def)
  have frame: "workloads d' = update_where ?here ?f (workloads d) \<and> events d' = events d \<and>
      units d' = units d \<and> attempts d' = attempts d \<and> results d' = results d \<and> revisions d' = revisions d"
    and sel: "\<exists>v. select_workload d' owner wid = Inr v \<and> r = row_to_workload v"
    using run unfolding update_state_in_transaction_def Let_def tx_simps
    by (elim exE conjE, auto split: if_splits simp: tx_simps dest!: start_revision_usage_frame)+
  have upd: "update_where ?here ?f (workloads d) = update_where (\<lambda>v. v = w) (\<lambda>_. ?f w) (workloads d)"
    using uniq by (intro update_where_cong) auto
  have found': "find (workload_at owner wid) (workloads d') = Some (?f w)"
    using frame found uniq by (auto intro!: find_workload_update)
  show ?thesis
    using that [of w "?f w"] found found' w frame sel upd by (simp add: select_workload_def)
qed

lemma append_event_frame:
  assumes "append_event_in_transaction owner wid t payload d = Inr (e, d')"
    and "distinct (map workload_pk (workloads d))"
    and "find (workload_at owner wid) (workloads d) = Some w"
  shows "events d' = events d @ [e]" and "e_id e = w_next_event_id w" and "e_owner e = owner"
    and "e_workload e = wid" and "e_type e = t" and "e_payload e = payload"
    and "workloads d' = update_where (\<lambda>v. v = w) (\<lambda>_. w\<lparr>w_next_event_id := w_next_event_id w + 1\<rparr>) (workloads d)"
    and "units d' = units d" and "attempts d' = attempts d" and "results d' = results d"
    and "revisions d' = revisions d"
proof -
  obtain v where v: "v \<in> set (workloads d)" "workload_at owner wid v"
    and e: "e = \<lparr>e_owner = owner, e_workload = wid, e_id = w_next_event_id v, e_type = t,
          e_payload = payload, e_created_at = utc_now d\<rparr>"
    and d': "d' = d\<lparr>workloads := update_where
          (\<lambda>u. workload_at owner wid u \<and> w_next_event_id u = w_next_event_id v)
          (\<lambda>u. u\<lparr>w_next_event_id := w_next_event_id u + 1\<rparr>) (workloads d), events := events d @ [e]\<rparr>"
    using assms(1) by (rule append_event_effect)
  have w: "w \<in> set (workloads d)" "workload_at owner wid w"
    using find_SomeD [OF assms(3)] by auto
  then have "v = w" using workload_pk_unique [OF assms(2) w(1) v(1)] v(2) by simp
  moreover have "update_where (\<lambda>u. workload_at owner wid u \<and> w_next_event_id u = w_next_event_id w)
      (\<lambda>u. u\<lparr>w_next_event_id := w_next_event_id u + 1\<rparr>) (workloads d)
    = update_where (\<lambda>u. u = w) (\<lambda>_. w\<lparr>w_next_event_id := w_next_event_id w + 1\<rparr>) (workloads d)"
    using workload_pk_unique [OF assms(2) w(1)] w by (intro update_where_cong) auto
  ultimately show "events d' = events d @ [e]" "e_id e = w_next_event_id w" "e_owner e = owner"
    "e_workload e = wid" "e_type e = t" "e_payload e = payload"
    "workloads d' = update_where (\<lambda>v. v = w) (\<lambda>_. w\<lparr>w_next_event_id := w_next_event_id w + 1\<rparr>) (workloads d)"
    "units d' = units d" "attempts d' = attempts d" "results d' = results d" "revisions d' = revisions d"
    using e d' by auto
qed

section \<open>Change of state\<close>

text \<open>
  C4. A successful transition is a compare-and-set along the workload graph: the stored
  version was the expected one, the edge is legal and does not lead to a completed state,
  the stored state becomes the target with the next version, exactly one event is
  appended, numbered with the workload's next event number and of the target's type, and
  no unit, attempt or result changes.
\<close>

theorem transition_workload_cas:
  assumes ok: "store_ok d"
    and run: "transition_workload owner wid destination expected payload now d = Inr (r, d')"
  shows "\<exists>w w' target t e. find (workload_at owner wid) (workloads d) = Some w \<and>
    w_version w = expected \<and> destination = workload_state_value target \<and>
    can_transition_workload (workload_state_value (w_state w)) destination \<and>
    target \<notin> {W_COMPLETED, W_COMPLETED_WITH_ERRORS} \<and>
    find (workload_at owner wid) (workloads d') = Some w' \<and>
    w_state w' = target \<and> w_version w' = expected + 1 \<and> wr_state r = target \<and> wr_version r = expected + 1 \<and>
    EVENT_BY_TARGET target = Some t \<and> events d' = events d @ [e] \<and> e_owner e = owner \<and> e_workload e = wid \<and>
    e_type e = t \<and> e_id e = w_next_event_id w \<and>
    units d' = units d \<and> attempts d' = attempts d \<and> results d' = results d"
proof -
  have dist: "distinct (map workload_pk (workloads d))"
    using ok by (simp add: store_ok_def keys_ok_def)
  obtain row target t d1 e d2 reason pl current where
      row: "select_workload d owner wid = Inr row" "w_version row = expected"
    and target: "workload_state_of destination = Inr target" "target \<notin> {W_COMPLETED, W_COMPLETED_WITH_ERRORS}"
      "EVENT_BY_TARGET target = Some t"
    and edge: "can_transition_workload (workload_state_value (w_state row)) (workload_state_value target)"
    and upd: "update_state_in_transaction owner wid (w_state row) target expected reason (Some current) d = Inr (r, d1)"
    and ev: "append_event_in_transaction owner wid t pl d1 = Inr (e, d2)"
    and nt: "(if target \<in> {W_NEEDS_ATTENTION, W_FAILED}
              then enqueue_notification_in_transaction owner wid (e_id e) d2 else Inr d2) = Inr d'"
    using run unfolding transition_workload_def Let_def tx_simps
    by (elim exE conjE)
      (auto simp: tx_simps require_owner_def require_version_def simp del: can_transition_workload_value
        split: if_splits prod.splits)
  obtain w w' where w: "find (workload_at owner wid) (workloads d) = Some w" "w_version w = expected"
    and w': "w' = w\<lparr>w_state := target, w_version := expected + 1, w_updated_at := w_updated_at w',
           w_terminal_reason := w_terminal_reason w'\<rparr>"
    and d1: "workloads d1 = update_where (\<lambda>v. v = w) (\<lambda>_. w') (workloads d)"
      "find (workload_at owner wid) (workloads d1) = Some w'" "r = row_to_workload w'"
      "events d1 = events d" "units d1 = units d" "attempts d1 = attempts d" "results d1 = results d"
    using update_state_effect [OF dist upd] by blast
  have fields: "w_state w' = target" "w_version w' = expected + 1" "w_next_event_id w' = w_next_event_id w"
    "workload_pk w' = workload_pk w"
    by (subst w', simp)+
  have "map workload_pk (workloads d1) = map workload_pk (workloads d)"
    using fields(4) unfolding d1(1) by (intro map_update_where) simp
  then have dist1: "distinct (map workload_pk (workloads d1))" using dist by simp
  note ev' = append_event_frame [OF ev dist1 d1(2)]
  note nt' = notify_frame [OF nt]
  have "find (workload_at owner wid) (workloads d') = Some (w'\<lparr>w_next_event_id := w_next_event_id w' + 1\<rparr>)"
    using nt' ev'(7) d1(2) by (simp add: find_workload_update)
  moreover have "row = w" using row w by (simp add: select_workload_def)
  ultimately show ?thesis
    using w target edge fields ev' nt' d1 workload_state_of_Inr [OF target(1)]
    by (intro exI [of _ w] exI [of _ "w'\<lparr>w_next_event_id := w_next_event_id w' + 1\<rparr>"] exI [of _ target]
        exI [of _ t] exI [of _ e]) (simp add: row_to_workload_def)
qed

definition example_workload :: workload_row where
  "example_workload = (draft_row ''owner'' ''wkl_00000001'' ''request-1'' ''digest'' [] ''normal'' [] 1000)"

definition example_draft_store :: db where
  "example_draft_store = (empty_store 2000)\<lparr>workloads := [example_workload]\<rparr>"

theorem transition_workload_cas_witness:
  "\<exists>r d'. transition_workload ''owner'' ''wkl_00000001'' ''failed'' 1 None None example_draft_store = Inr (r, d')
     \<and> wr_state r = W_FAILED \<and> map e_type (events d') = [Ev_FAILED]
     \<and> (\<exists>w. find (workload_at ''owner'' ''wkl_00000001'') (workloads example_draft_store) = Some w \<and> w_version w = 1)"
proof -
  have ok: "store_ok example_draft_store" by code_simp
  have "succeeds_with (transition_workload ''owner'' ''wkl_00000001'' ''failed'' 1 None None example_draft_store)
      (\<lambda>(r, d'). wr_state r = W_FAILED \<and> map e_type (events d') = [Ev_FAILED])"
    by code_simp
  then obtain r d' where
    run: "transition_workload ''owner'' ''wkl_00000001'' ''failed'' 1 None None example_draft_store = Inr (r, d')"
    and seen: "wr_state r = W_FAILED" "map e_type (events d') = [Ev_FAILED]"
    by (auto elim!: succeeds_withE)
  have "\<exists>w. find (workload_at ''owner'' ''wkl_00000001'') (workloads example_draft_store) = Some w \<and> w_version w = 1"
    using transition_workload_cas [OF ok run] by blast
  with run seen show ?thesis by (intro exI [of _ r] exI [of _ d'] conjI)
qed

section \<open>Submission\<close>

lemma find_append_new:
  "find P xs = None \<Longrightarrow> P x \<Longrightarrow> find P (xs @ [x]) = Some x"
  by (induction xs) (auto split: if_splits)

lemma submit_draft_stored:
  assumes "submit_draft row d = Inr (r, d')" and ok: "distinct (map workload_pk (workloads d))"
  shows "\<exists>w. find (request_at (w_owner row) (w_request_key row)) (workloads d') = Some w \<and>
    w_request_digest w = w_request_digest row \<and> r = row_to_workload w"
proof (cases "find (request_at (w_owner row) (w_request_key row)) (workloads d)")
  case (Some existing)
  with assms(1) show ?thesis unfolding submit_draft_def by (auto split: if_splits)
next
  case None
  define d1 where "d1 = d\<lparr>workloads := workloads d @ [row]\<rparr>"
  obtain e v where fresh: "\<not> exists_where (workload_at (w_owner row) (w_id row)) (workloads d)"
    and event: "append_event_in_transaction (w_owner row) (w_id row) Ev_DRAFT_CREATED
      [(''version'', JInt 1)] d1 = Inr (e, d')"
    and sel: "select_workload d' (w_owner row) (w_id row) = Inr v" "r = row_to_workload v"
    using assms(1) None unfolding submit_draft_def d1_def by (auto simp: tx_simps split: if_splits)
  have dist: "distinct (map workload_pk (workloads d1))"
    using ok fresh by (auto simp: d1_def workload_at_def)
  have at: "find (workload_at (w_owner row) (w_id row)) (workloads d1) = Some row"
    unfolding d1_def using fresh
    by (simp add: workload_at_def, intro find_append_new) (auto simp: find_None_iff workload_at_def)
  let ?row' = "row\<lparr>w_next_event_id := w_next_event_id row + 1\<rparr>"
  note ws = append_event_frame(7) [OF event dist at]
  have "find (workload_at (w_owner row) (w_id row)) (workloads d') = Some ?row'"
    using at by (simp add: ws find_workload_update)
  then have "v = ?row'" using sel(1) by (simp add: select_workload_def)
  moreover have "find (\<lambda>w. (w_owner w, w_request_key w) = (w_owner row, w_request_key row)) (workloads d')
      = map_option (\<lambda>w. if w = row then ?row' else w)
          (find (\<lambda>w. (w_owner w, w_request_key w) = (w_owner row, w_request_key row)) (workloads d1))"
    unfolding ws by (intro find_update_where) simp
  moreover have "find (request_at (w_owner row) (w_request_key row)) (workloads d1) = Some row"
    unfolding d1_def using None by (simp, intro find_append_new) (auto simp: request_at_def)
  ultimately show ?thesis
    using sel(2) by (simp add: request_at_def [abs_def])
qed

text \<open>
  C5. Submission is idempotent: after a submission succeeded, submitting the same request
  under the same key again, whatever identifier is proposed, returns the same record and
  adds no workload and no event; and the request key can be looked up to the same record.
\<close>

theorem create_draft_idempotent:
  assumes ok: "store_ok d"
    and first: "create_draft sha owner key request priority budget wid d = Inr (r, d1)"
    and again: "create_draft sha owner key request priority budget wid' d1 = Inr (r', d2)"
  shows "r' = r \<and> workloads d2 = workloads d1 \<and> events d2 = events d1 \<and>
    find_submission_by_request_key sha owner key request priority budget d1 = Inr (Some r)"
  using first
proof (rule create_draft_cases)
  fix digest chosen e
  let ?b = "case budget of None \<Rightarrow> [] | Some b \<Rightarrow> b"
  assume own: "require_owner owner = Inr owner" "require_key key 256 = Inr key" "priority \<in> set WORKLOAD_PRIORITIES"
    and digest: "submit_digest sha request priority ?b = Inr digest"
    and chosen: "chosen_id wid ''wrk'' d = Inr (chosen, e)"
    and submit: "submit_draft (draft_row owner chosen key digest (draft_request request) priority
      (draft_limits ?b) (utc_now d)) e = Inr (r, d1)"
  have "distinct (map workload_pk (workloads e))"
    using ok chosen_id_store [OF chosen] by (auto simp: store_ok_def keys_ok_def)
  then obtain w where w: "find (request_at owner key) (workloads d1) = Some w"
      "w_request_digest w = digest" "r = row_to_workload w"
    using submit_draft_stored [OF submit] by (auto simp: draft_row_def)
  have "r' = r \<and> workloads d2 = workloads d1 \<and> events d2 = events d1"
    using again
  proof (rule create_draft_cases)
    fix digest' chosen' e'
    assume "submit_digest sha request priority ?b = Inr digest'"
      and chosen': "chosen_id wid' ''wrk'' d1 = Inr (chosen', e')"
      and submit': "submit_draft (draft_row owner chosen' key digest' (draft_request request) priority
        (draft_limits ?b) (utc_now d1)) e' = Inr (r', d2)"
    then show ?thesis
      using w digest chosen_id_store [OF chosen']
      unfolding submit_draft_def by (auto simp: draft_row_def split: if_splits)
  qed
  moreover have "find_submission_by_request_key sha owner key request priority budget d1 = Inr (Some r)"
    using own digest w unfolding find_submission_by_request_key_def by simp
  ultimately show ?thesis by blast
qed

definition example_sha :: "string \<Rightarrow> string" where
  "example_sha s = uuid_hex (int (length s)) @ uuid_hex 0"

theorem create_draft_idempotent_witness:
  "\<exists>r d1 d2. create_draft example_sha ''owner'' ''request-1'' [] ''normal'' None None (empty_store 0) = Inr (r, d1) \<and>
     create_draft example_sha ''owner'' ''request-1'' [] ''normal'' None (Some ''wkl_other'') d1 = Inr (r, d2) \<and>
     workloads d2 = workloads d1 \<and> length (workloads d1) = 1"
proof -
  have "succeeds_with (create_draft example_sha ''owner'' ''request-1'' [] ''normal'' None None (empty_store 0))
      (\<lambda>(r, d1). length (workloads d1) = 1 \<and>
        succeeds_with (create_draft example_sha ''owner'' ''request-1'' [] ''normal'' None (Some ''wkl_other'') d1) (\<lambda>_. True))"
    by code_simp
  then obtain r d1 r' d2 where
    run: "create_draft example_sha ''owner'' ''request-1'' [] ''normal'' None None (empty_store 0) = Inr (r, d1)"
      "create_draft example_sha ''owner'' ''request-1'' [] ''normal'' None (Some ''wkl_other'') d1 = Inr (r', d2)"
    and len: "length (workloads d1) = 1"
    by (auto elim!: succeeds_withE)
  have "r' = r" "workloads d2 = workloads d1"
    using create_draft_idempotent [OF empty_store_ok run] by blast+
  with run len show ?thesis by (intro exI [of _ r] exI [of _ d1] exI [of _ d2] conjI) simp_all
qed

section \<open>Budgets\<close>

lemma first_exceeded_None:
  "first_exceeded (observed_usage u) (budget_limits b) = None \<longleftrightarrow>
     us_input_bytes u \<le> b_max_bytes_read b \<and> us_output_bytes u \<le> b_max_bytes_written b \<and>
     us_input_tokens u + us_output_tokens u \<le> b_max_tokens b \<and> us_cost_micros u \<le> b_max_cost_micros b \<and>
     us_artifact_count u \<le> b_max_artifacts b"
  by (auto simp: first_exceeded_def observed_usage_def budget_limits_def)

lemma elapsed_at_least:
  assumes "1 \<le> n"
  shows "n \<le> elapsed_seconds s t \<longleftrightarrow> n * micros_per_second \<le> t - s"
proof -
  define q m where "q = (t - s) div 1000000" and "m = (t - s) mod 1000000"
  have "t - s = q * 1000000 + m" "0 \<le> m" "m < 1000000"
    by (simp_all add: q_def m_def)
  then have "n \<le> (t - s) div 1000000 \<longleftrightarrow> n * 1000000 \<le> t - s"
    unfolding q_def [symmetric] by linarith
  with assms show ?thesis by (auto simp: elapsed_seconds_def micros_per_second_def)
qed

lemma budget_agreement:
  assumes "1 \<le> b_max_wall_time_s b"
  shows "usage_needs_settlement b u now \<longleftrightarrow> usage_violation b u now \<noteq> None"
proof -
  have "(case us_started_at u of None \<Rightarrow> False | Some t \<Rightarrow> b_max_wall_time_s b \<le> elapsed_seconds t now)
      \<longleftrightarrow> (case us_started_at u of None \<Rightarrow> False | Some t \<Rightarrow> now - t \<ge> b_max_wall_time_s b * micros_per_second)"
    using elapsed_at_least [OF assms] by (simp split: option.splits)
  moreover have "usage_violation b u now = None \<longleftrightarrow> \<not> us_usage_unknown u \<and>
      \<not> clock_regressed (us_clock_high_water_at u) now \<and>
      first_exceeded (observed_usage u) (budget_limits b) = None \<and>
      \<not> (case us_started_at u of None \<Rightarrow> False | Some t \<Rightarrow> b_max_wall_time_s b \<le> elapsed_seconds t now)"
    unfolding usage_violation_def by (auto simp: Let_def split: option.splits)
  moreover have "clock_regressed (us_clock_high_water_at u) now \<longleftrightarrow>
      (case us_clock_high_water_at u of None \<Rightarrow> False | Some h \<Rightarrow> h > now + CLOCK_REGRESSION_TOLERANCE)"
    by (simp add: clock_regressed_def split: option.splits)
  ultimately show ?thesis
    unfolding usage_needs_settlement_def first_exceeded_None by linarith
qed

text \<open>
  The two implementations of the budget check agree: the query of the periodic
  settlement flags a revision exactly when the check made inside the transaction finds a
  violation, whenever the wall-time budget is at least one second. Without a violation
  every counter is within its limit.
\<close>

theorem budget_checks_agree:
  assumes "1 \<le> b_max_wall_time_s b"
  shows "(usage_needs_settlement b u now \<longleftrightarrow> usage_violation b u now \<noteq> None) \<and>
    (usage_violation b u now = None \<longrightarrow>
       us_input_bytes u \<le> b_max_bytes_read b \<and> us_output_bytes u \<le> b_max_bytes_written b \<and>
       us_input_tokens u + us_output_tokens u \<le> b_max_tokens b \<and>
       us_cost_micros u \<le> b_max_cost_micros b \<and> us_artifact_count u \<le> b_max_artifacts b)"
  using budget_agreement [OF assms, of u now] by (auto simp: usage_needs_settlement_def)

definition example_budgets :: budgets where
  "example_budgets = \<lparr>b_max_units = 10, b_max_attempts_per_unit = 3, b_max_wall_time_s = 60,
     b_max_bytes_read = 1000, b_max_bytes_written = 1000, b_max_tokens = 500, b_max_cost_micros = 0,
     b_max_artifacts = 1, b_max_concurrency = 2\<rparr>"

definition example_usage :: usage_row where
  "example_usage = \<lparr>us_owner = ''owner'', us_revision = ''rev_00000001'', us_input_bytes = 10,
     us_output_bytes = 10, us_input_tokens = 300, us_output_tokens = 201, us_cost_micros = 0,
     us_usage_unknown = False, us_artifact_count = 0, us_started_at = Some 1000,
     us_clock_high_water_at = Some 1000, us_updated_at = 1000\<rparr>"

theorem budget_checks_agree_witness:
  "1 \<le> b_max_wall_time_s example_budgets \<and> usage_needs_settlement example_budgets example_usage 2000 \<and>
     usage_violation example_budgets example_usage 2000 \<noteq> None"
proof -
  have wall: "1 \<le> b_max_wall_time_s example_budgets" by code_simp
  moreover have "usage_needs_settlement example_budgets example_usage 2000" by code_simp
  ultimately show ?thesis using budget_checks_agree [OF wall, of example_usage 2000] by simp
qed

text \<open>
  Usage accounting is exact and cannot overflow: adding an attempt's usage to a
  revision whose counters are SQLite integers either raises and changes nothing, or adds
  each increment to its counter, keeps every counter within SQLite's 64-bit range and never
  clears the mark of unknown usage.
\<close>

theorem add_revision_usage_bounds:
  assumes run: "add_revision_usage_in_transaction owner rid inc unknown t d = Inr d'"
    and ok: "store_ok d"
    and found: "find (usage_at owner rid) (revision_usage d) = Some u"
    and range: "\<forall>v \<in> set (usage_counters u). 0 \<le> v"
  shows "\<exists>u'. find (usage_at owner rid) (revision_usage d') = Some u' \<and>
    usage_counters u' = map2 (+) (usage_counters u) (increment_list inc) \<and>
    (\<forall>v \<in> set (usage_counters u'). 0 \<le> v \<and> v \<le> SQLITE_INTEGER_MAX) \<and>
    us_usage_unknown u' = (us_usage_unknown u \<or> unknown) \<and> store_ok d'"
proof -
  have nonneg: "\<forall>v \<in> set (increment_list inc). 0 \<le> v"
    and fits: "\<forall>(v, i) \<in> set (zip (usage_counters u) (increment_list inc)). v \<le> SQLITE_INTEGER_MAX - i"
    and usage: "revision_usage d' = update_where (usage_at owner rid) (add_usage inc unknown t) (revision_usage d)"
    using run found unfolding add_revision_usage_in_transaction_def Let_def
    by (auto simp: tx_simps split: if_splits)
  have key: "usage_at owner rid = (\<lambda>r. usage_pk r = (owner, rid))"
    by (auto simp: usage_at_def fun_eq_iff)
  have "find (usage_at owner rid) (revision_usage d') = map_option
      (\<lambda>r. if usage_at owner rid r then add_usage inc unknown t r else r)
      (find (usage_at owner rid) (revision_usage d))"
    unfolding usage unfolding key by (intro find_update_where) (simp add: add_usage_def)
  then have "find (usage_at owner rid) (revision_usage d') = Some (add_usage inc unknown t u)"
    using found find_SomeD [OF found] by simp
  moreover have "usage_counters (add_usage inc unknown t u) = map2 (+) (usage_counters u) (increment_list inc)"
    by (simp add: usage_counters_def add_usage_def increment_list_def)
  moreover have "\<forall>v \<in> set (map2 (+) (usage_counters u) (increment_list inc)). 0 \<le> v \<and> v \<le> SQLITE_INTEGER_MAX"
    using nonneg fits range by (auto simp: usage_counters_def increment_list_def)
  moreover have "store_ok d'"
    using add_revision_usage_txn [OF run] ok by (simp add: txn_def)
  ultimately show ?thesis
    by (intro exI [of _ "add_usage inc unknown t u"]) (simp add: add_usage_def)
qed

definition example_usage_store :: db where
  "example_usage_store = (empty_store 2000)\<lparr>revision_usage := [example_usage]\<rparr>"

definition example_increments :: usage_increments where
  "example_increments = no_increments\<lparr>inc_input_tokens := 7\<rparr>"

theorem add_revision_usage_bounds_witness:
  "\<exists>d' u'. add_revision_usage_in_transaction ''owner'' ''rev_00000001'' example_increments False 3000
       example_usage_store = Inr d' \<and>
     find (usage_at ''owner'' ''rev_00000001'') (revision_usage d') = Some u' \<and>
     usage_counters u' = [10, 10, 307, 201, 0, 0]"
proof -
  have ok: "store_ok example_usage_store" by code_simp
  have found: "find (usage_at ''owner'' ''rev_00000001'') (revision_usage example_usage_store) = Some example_usage"
    by (simp add: example_usage_store_def usage_at_def example_usage_def)
  have range: "\<forall>v \<in> set (usage_counters example_usage). 0 \<le> v" by code_simp
  have "succeeds_with (add_revision_usage_in_transaction ''owner'' ''rev_00000001'' example_increments False 3000
      example_usage_store) (\<lambda>_. True)" by code_simp
  then obtain d' where run: "add_revision_usage_in_transaction ''owner'' ''rev_00000001'' example_increments False 3000
      example_usage_store = Inr d'" by (auto elim!: succeeds_withE)
  have "map2 (+) (usage_counters example_usage) (increment_list example_increments) = [10, 10, 307, 201, 0, 0]"
    by code_simp
  then show ?thesis
    using add_revision_usage_bounds [OF run ok found range] run by auto
qed

section \<open>Settlement\<close>

lemma count_where_zero_iff: "count_where P rows \<noteq> 0 \<longleftrightarrow> (\<exists>r \<in> set rows. P r)"
  using count_where_pos [of P rows] by simp

lemma active_count_iff:
  "active_unit_count_in_transaction owner rid d \<noteq> 0 \<longleftrightarrow> active_unit_exists owner rid d"
  unfolding active_unit_count_in_transaction_def active_unit_exists_def count_where_zero_iff by simp

lemma cancel_nothing:
  assumes "\<not> waiting_unit_exists_in_transaction owner rid d"
  shows "cancel_waiting_units_in_transaction owner rid t limit d = Inr ((0, 0), d)"
proof -
  have "filter (waiting_unit owner rid) (units d) = []"
    using assms by (auto simp: waiting_unit_exists_in_transaction_def filter_empty_conv)
  then show ?thesis by (simp add: cancel_waiting_units_in_transaction_def order_limit_def)
qed

lemma cancel_something:
  assumes "waiting_unit_exists_in_transaction owner rid d" and "1 \<le> limit"
    and "cancel_waiting_units_in_transaction owner rid t limit d = Inr ((n, m), d')"
  shows "1 \<le> n"
proof -
  let ?rows = "order_limit (\<lambda>u. (u_updated_at u, u_id u)) (nat limit) (filter (waiting_unit owner rid) (units d))"
  have "?rows \<noteq> []"
    using assms(1,2)
    by (auto simp: order_limit_Nil_iff waiting_unit_exists_in_transaction_def filter_empty_conv)
  then have "n = length ?rows"
    using assms(3) by (auto simp: cancel_waiting_units_in_transaction_def Let_def split: if_splits)
  with \<open>?rows \<noteq> []\<close> show ?thesis by (simp add: Suc_le_eq)
qed

lemma repair_nothing:
  assumes "\<not> exhausted_pending_exists_in_transaction owner rid d"
  shows "repair_exhausted_units_in_transaction owner rid t limit d = (0, d)"
proof -
  have "filter (exhausted_pending d owner rid) (units d) = []"
    using assms by (auto simp: exhausted_pending_exists_in_transaction_def filter_empty_conv)
  then show ?thesis
    by (simp add: repair_exhausted_units_in_transaction_def order_limit_def count_where_def update_where_id)
qed

lemma repair_something:
  assumes "exhausted_pending_exists_in_transaction owner rid d" and "1 \<le> limit"
    and "repair_exhausted_units_in_transaction owner rid t limit d = (n, d')"
  shows "1 \<le> n"
proof -
  obtain v where v: "v \<in> set (exhausted_batch d owner rid limit)"
  proof -
    have "filter (exhausted_pending d owner rid) (units d) \<noteq> []"
      using assms(1) by (auto simp: exhausted_pending_exists_in_transaction_def filter_empty_conv)
    then have "exhausted_batch d owner rid limit \<noteq> []"
      using assms(2) by (simp add: exhausted_batch_def order_limit_Nil_iff)
    then show ?thesis using that hd_in_set by blast
  qed
  then have "v \<in> set (units d)" "in_revision owner rid v"
    using exhausted_batch_sub [of d owner rid limit] by (auto simp: exhausted_pending_def)
  with v have "0 < count_where (\<lambda>u. in_revision owner rid u \<and>
      u_id u \<in> set (map u_id (exhausted_batch d owner rid limit))) (units d)"
    by (auto simp: count_where_pos)
  with assms(3) show ?thesis
    by (auto simp: repair_exhausted_units_in_transaction_def exhausted_batch_def Let_def)
qed

lemma artifact_attention_iff:
  "artifact_attention_count_in_transaction owner rid d \<noteq> 0 \<longleftrightarrow>
     exists_where (\<lambda>a. art_state a = Art_NEEDS_ATTENTION \<or>
       exists_where (\<lambda>p. pub_owner p = art_owner a \<and> pub_artifact p = art_id a \<and>
         pub_state p = Pub_NEEDS_ATTENTION) (publications d)) (revision_artifacts owner rid d)"
  by (auto simp: artifact_attention_count_in_transaction_def count_where_zero)

text \<open>What settlement sees of a workload with an active revision, under the store's invariant.\<close>

definition active_with :: "db \<Rightarrow> workload_row \<Rightarrow> ident \<Rightarrow> revision_row \<Rightarrow> bool" where
  "active_with d w rid r \<longleftrightarrow> store_ok d \<and> w \<in> set (workloads d) \<and> w_active_revision w = Some rid \<and>
     r \<in> set (revisions d) \<and> revision_at (w_owner w) rid r \<and> r_workload r = w_id w \<and>
     1 \<le> b_max_wall_time_s (r_budgets r)"

lemma active_withD:
  assumes "active_with d w rid r"
  shows "store_ok d" and "w \<in> set (workloads d)" and "w_active_revision w = Some rid"
    and "r \<in> set (revisions d)" and "revision_at (w_owner w) rid r" and "r_workload r = w_id w"
    and "1 \<le> b_max_wall_time_s (r_budgets r)"
  using assms by (auto simp: active_with_def)

lemma active_selected:
  assumes "active_with d w rid r"
  shows "select_workload d (w_owner w) (w_id w) = Inr w"
proof -
  have "distinct (map workload_pk (workloads d))"
    using active_withD(1) [OF assms] by (simp add: store_ok_def keys_ok_def)
  from find_distinct_key [OF this active_withD(2) [OF assms]] show ?thesis
    by (simp add: select_workload_def workload_at_key)
qed

lemma active_revision_unique:
  assumes "active_with d w rid r" and "r' \<in> set (revisions d)"
  shows "revision_at (w_owner w) rid r' \<longleftrightarrow> r' = r"
  using active_withD [OF assms(1)] assms(2)
  by (auto simp: store_ok_def keys_ok_def revision_at_def distinct_map inj_on_def)

lemma find_revision:
  assumes "active_with d w rid r" and "Q r"
  shows "find (\<lambda>r'. revision_at (w_owner w) rid r' \<and> Q r') (revisions d) = Some r"
proof -
  note a = active_withD [OF assms(1)]
  have "find (\<lambda>r'. revision_pk r' = revision_pk r) (revisions d) = Some r"
    using a(1,4) by (intro find_distinct_key) (auto simp: store_ok_def keys_ok_def)
  moreover have "revision_at (w_owner w) rid r' \<and> Q r' \<longleftrightarrow> revision_pk r' = revision_pk r"
    if "r' \<in> set (revisions d)" for r'
    using active_revision_unique [OF assms(1) that] a(5) assms(2) by (auto simp: revision_at_def)
  then have "find (\<lambda>r'. revision_at (w_owner w) rid r' \<and> Q r') (revisions d)
      = find (\<lambda>r'. revision_pk r' = revision_pk r) (revisions d)"
    by (rule find_cong_set)
  ultimately show ?thesis by simp
qed

lemma active_revision_found:
  "active_with d w rid r \<Longrightarrow> revision_of (w_owner w) (w_id w) rid d = Some r"
  using find_revision [of d w rid r "\<lambda>r'. r_workload r' = w_id w"] active_withD(6)
  by (auto simp: revision_of_def)

lemma active_retry_generation:
  "active_with d w rid r \<Longrightarrow> in_revision (w_owner w) rid u
     \<Longrightarrow> unit_retry_generation d u = Some (r_manual_retry_generation r)"
  using find_revision [of d w rid r "\<lambda>_. True"]
  by (auto simp: unit_retry_generation_def in_revision_def)

lemma active_usage_found:
  assumes "active_with d w rid r"
  obtains u where "find (usage_at (w_owner w) rid) (revision_usage d) = Some u"
    and "\<And>v. v \<in> set (revision_usage d) \<Longrightarrow> usage_at (w_owner w) rid v \<longleftrightarrow> v = u"
proof -
  have "active_revision_ok (revisions d) (revision_usage d) w" and dist: "distinct (map usage_pk (revision_usage d))"
    using active_withD [OF assms] by (auto simp: store_ok_def keys_ok_def active_ok_def)
  then obtain u where u: "u \<in> set (revision_usage d)" "usage_at (w_owner w) rid u"
    using active_withD(3) [OF assms] by (auto simp: active_revision_ok_def)
  have uniq: "v \<in> set (revision_usage d) \<Longrightarrow> usage_at (w_owner w) rid v \<longleftrightarrow> v = u" for v
    using u dist by (auto simp: usage_at_def distinct_map inj_on_def)
  have "find (\<lambda>v. usage_pk v = usage_pk u) (revision_usage d) = Some u"
    using find_distinct_key [OF dist u(1)] .
  moreover have "find (usage_at (w_owner w) rid) (revision_usage d) = find (\<lambda>v. usage_pk v = usage_pk u) (revision_usage d)"
    using u by (intro find_cong_set) (auto simp: usage_at_def)
  ultimately show ?thesis using that uniq by simp
qed

lemma budget_flag:
  assumes "active_with d w rid r"
  shows "exists_where (\<lambda>r. revision_at (w_owner w) rid r \<and> exists_where
     (\<lambda>u. usage_at (w_owner w) rid u \<and> usage_needs_settlement (r_budgets r) u t) (revision_usage d)) (revisions d)
   \<longleftrightarrow> budget_violation_in_transaction (w_owner w) (w_id w) rid t d \<noteq> None"
proof -
  obtain u where u: "find (usage_at (w_owner w) rid) (revision_usage d) = Some u"
    and uniq: "\<And>v. v \<in> set (revision_usage d) \<Longrightarrow> usage_at (w_owner w) rid v \<longleftrightarrow> v = u"
    using active_usage_found [OF assms] by blast
  have "exists_where (\<lambda>r. revision_at (w_owner w) rid r \<and> exists_where
      (\<lambda>u. usage_at (w_owner w) rid u \<and> usage_needs_settlement (r_budgets r) u t) (revision_usage d)) (revisions d)
    \<longleftrightarrow> usage_needs_settlement (r_budgets r) u t"
    using active_revision_unique [OF assms] uniq active_withD(4,5) [OF assms] find_SomeD [OF u] by auto
  also have "\<dots> \<longleftrightarrow> usage_violation (r_budgets r) u t \<noteq> None"
    by (rule budget_agreement [OF active_withD(7) [OF assms]])
  finally show ?thesis
    by (simp add: budget_violation_in_transaction_def active_revision_found [OF assms] u)
qed

lemma attention_flag:
  assumes "active_with d w rid r"
  shows "attention_or_budget d t (w_owner w) rid r \<longleftrightarrow>
     budget_violation_in_transaction (w_owner w) (w_id w) rid t d \<noteq> None \<or>
     materialization_attention_count (w_owner w) rid d \<noteq> 0 \<or>
     count_where (untolerated_failure (w_owner w) rid r) (units d) \<noteq> 0 \<and>
       (\<not> active_unit_exists (w_owner w) rid d \<or> waiting_unit_exists_in_transaction (w_owner w) rid d) \<or>
     count_where (current_attention d (w_owner w) rid) (units d) \<noteq> 0 \<or>
     artifact_attention_count_in_transaction (w_owner w) rid d \<noteq> 0 \<or>
     exhausted_pending_exists_in_transaction (w_owner w) rid d"
  unfolding attention_or_budget_def budget_flag [OF assms] artifact_attention_iff
    materialization_attention_count_def count_where_zero_iff exhausted_pending_exists_in_transaction_def
  by (auto simp: current_attention_def active_retry_generation [OF assms])

lemma candidate_iff:
  assumes "active_with d w rid r"
  shows "settle_candidate d t w \<longleftrightarrow>
     w_state w \<in> {W_CANCELLED, W_FAILED} \<and> waiting_unit_exists_in_transaction (w_owner w) rid d \<or>
     w_state w \<notin> {W_CANCELLED, W_FAILED, W_COMPLETED, W_COMPLETED_WITH_ERRORS, W_NEEDS_ATTENTION} \<and>
     (w_state w \<in> {W_PAUSE_REQUESTED, W_CANCEL_REQUESTED} \<and>
        (\<not> active_unit_exists (w_owner w) rid d \<or>
         w_state w = W_CANCEL_REQUESTED \<and> waiting_unit_exists_in_transaction (w_owner w) rid d) \<or>
      w_state w \<noteq> W_CANCEL_REQUESTED \<and> attention_or_budget d t (w_owner w) rid r)"
  unfolding settle_candidate_def exists_where_iff
  using active_revision_unique [OF assms] active_withD(3-5) [OF assms] by auto

abbreviation stored_reason :: "workload_row \<Rightarrow> jobj" where
  "stored_reason w \<equiv> (case w_terminal_reason w of None \<Rightarrow> [] | Some r \<Rightarrow> r)"

text \<open>A workload the query leaves out is already settled.\<close>

lemma settle_attention_noop:
  assumes a: "active_with d w rid r" and "materialization_attention_count (w_owner w) rid d = 0"
    and "count_where (current_attention d (w_owner w) rid) (units d) = 0"
    and "artifact_attention_count_in_transaction (w_owner w) rid d = 0"
    and "count_where (untolerated_failure (w_owner w) rid r) (units d) \<noteq> 0 \<Longrightarrow>
      active_unit_exists (w_owner w) rid d \<and> \<not> waiting_unit_exists_in_transaction (w_owner w) rid d"
    and "w_state w = W_PAUSE_REQUESTED \<Longrightarrow> active_unit_exists (w_owner w) rid d"
  shows "settle_attention_and_failure (w_owner w) (w_id w) rid w t limit 0 d = Inr ((row_to_workload w, 0), d)"
  using assms(2-6)
  by (auto simp: settle_attention_and_failure_def Let_def active_revision_found [OF a]
      cancel_nothing active_count_iff [symmetric])

lemma settle_noop:
  assumes a: "active_with d w rid r" and "\<not> settle_candidate d t w" and "w_state w \<noteq> W_NEEDS_ATTENTION"
    and reason: "attention_in_reason (stored_reason w) = Inr n"
  shows "settle_workload_in_transaction (w_owner w) (w_id w) t True limit d = Inr ((row_to_workload w, 0), d)"
proof -
  let ?o = "w_owner w"
  note cand = assms(2) [unfolded candidate_iff [OF a] attention_flag [OF a]]
  have exec: "settle_executable ?o (w_id w) rid w t True limit d = Inr ((row_to_workload w, 0), d)"
    if "w_state w \<notin> {W_CANCELLED, W_FAILED, W_COMPLETED, W_COMPLETED_WITH_ERRORS, W_CANCEL_REQUESTED}"
  proof -
    have "settle_attention_and_failure ?o (w_id w) rid w t limit 0 d = Inr ((row_to_workload w, 0), d)"
      using cand that assms(3) by (intro settle_attention_noop [OF a]) auto
    moreover have "\<not> exhausted_pending_exists_in_transaction ?o rid d"
      "budget_violation_in_transaction ?o (w_id w) rid t d = None"
      using cand that assms(3) by auto
    ultimately show ?thesis
      by (simp add: settle_executable_def repair_nothing)
  qed
  have cancel: "settle_cancel_requested ?o (w_id w) rid w t limit d = Inr ((row_to_workload w, 0), d)"
    if "w_state w = W_CANCEL_REQUESTED"
    using cand that reason active_selected [OF a] active_count_iff [of ?o rid d]
    by (auto simp: settle_cancel_requested_def cancel_nothing record_cancelled_attention_def)
  have settled: "cancel_waiting_units_in_transaction ?o rid t limit d = Inr ((0, 0), d)"
    if "w_state w \<in> {W_CANCELLED, W_FAILED}"
    using cand that by (auto intro!: cancel_nothing)
  show ?thesis
    unfolding settle_workload_in_transaction_def active_selected [OF a]
    using exec cancel settled active_withD(3) [OF a] by auto
qed

text \<open>A workload the query selects is changed by its settlement.\<close>

lemma settle_transition_count:
  "settle_transition v t target reason details m e = Inr ((x, n), d') \<Longrightarrow> n = m"
  by (auto simp: settle_transition_def tx_simps)

lemma settle_attention_progress:
  assumes a: "active_with d w rid r" and "1 \<le> limit"
    and run: "settle_attention_and_failure (w_owner w) (w_id w) rid w t limit k d = Inr ((x, n), d')"
    and "materialization_attention_count (w_owner w) rid d \<noteq> 0 \<or>
      count_where (current_attention d (w_owner w) rid) (units d) \<noteq> 0 \<or>
      artifact_attention_count_in_transaction (w_owner w) rid d \<noteq> 0 \<or>
      count_where (untolerated_failure (w_owner w) rid r) (units d) \<noteq> 0 \<and>
        (\<not> active_unit_exists (w_owner w) rid d \<or> waiting_unit_exists_in_transaction (w_owner w) rid d) \<or>
      w_state w = W_PAUSE_REQUESTED \<and> \<not> active_unit_exists (w_owner w) rid d"
  shows "1 \<le> n"
proof -
  show ?thesis
  proof (cases "materialization_attention_count (w_owner w) rid d \<noteq> 0 \<or>
      count_where (current_attention d (w_owner w) rid) (units d) \<noteq> 0 \<or>
      artifact_attention_count_in_transaction (w_owner w) rid d \<noteq> 0")
    case True
    then show ?thesis using run
      by (auto simp: settle_attention_and_failure_def Let_def split: if_splits dest!: settle_transition_count)
  next
    case no_attention: False
    show ?thesis
    proof (cases "count_where (untolerated_failure (w_owner w) rid r) (units d) \<noteq> 0")
      case True
      then obtain c m d1 where "cancel_waiting_units_in_transaction (w_owner w) rid t limit d = Inr ((c, m), d1)"
        and "n = k + c \<or> n = k + c + 1" and "n = k + c \<longrightarrow>
          active_unit_count_in_transaction (w_owner w) rid d1 \<noteq> 0 \<or> waiting_unit_exists_in_transaction (w_owner w) rid d1"
        using run no_attention
        by (auto simp: settle_attention_and_failure_def Let_def active_revision_found [OF a] tx_simps
            split: if_splits dest!: settle_transition_count)
      moreover have "1 \<le> c" if "waiting_unit_exists_in_transaction (w_owner w) rid d"
        using cancel_something [OF that assms(2)] calculation(1) by blast
      moreover have "d1 = d \<and> c = 0" if "\<not> waiting_unit_exists_in_transaction (w_owner w) rid d"
        using calculation(1) cancel_nothing [OF that] by simp
      ultimately show ?thesis
        using assms(4) no_attention active_count_iff [of "w_owner w" rid d] by fastforce
    next
      case False
      then show ?thesis using run no_attention assms(4) active_count_iff [of "w_owner w" rid d]
        by (auto simp: settle_attention_and_failure_def Let_def active_revision_found [OF a] split: if_splits
            dest!: settle_transition_count)
    qed
  qed
qed

lemma settle_progress:
  assumes a: "active_with d w rid r" and cand: "settle_candidate d t w" and "1 \<le> limit"
    and draft: "w_state w \<noteq> W_DRAFT"
    and run: "settle_workload_in_transaction (w_owner w) (w_id w) t True limit d = Inr ((x, n), d')"
  shows "1 \<le> n"
proof -
  let ?o = "w_owner w"
  note cand = cand [unfolded candidate_iff [OF a] attention_flag [OF a]]
  consider (stopped) "w_state w \<in> {W_CANCELLED, W_FAILED}"
      "\<exists>m. cancel_waiting_units_in_transaction ?o rid t limit d = Inr ((n, m), d')"
    | (cancel) "w_state w = W_CANCEL_REQUESTED" "settle_cancel_requested ?o (w_id w) rid w t limit d = Inr ((x, n), d')"
    | (exec) "w_state w \<notin> {W_CANCELLED, W_FAILED, W_CANCEL_REQUESTED}"
      "settle_executable ?o (w_id w) rid w t True limit d = Inr ((x, n), d')"
    using run cand active_withD(3) [OF a]
    unfolding settle_workload_in_transaction_def active_selected [OF a]
    by (auto simp: tx_simps split: if_splits)
  then show ?thesis
  proof cases
    case stopped
    then show ?thesis using cand cancel_something [OF _ assms(3)] by auto
  next
    case cancel
    then obtain c m d1 d2 where c: "cancel_waiting_units_in_transaction ?o rid t limit d = Inr ((c, m), d1)"
      and n: "n = c + 1 \<or> n = c \<and> (active_unit_count_in_transaction ?o rid d2 \<noteq> 0
          \<or> waiting_unit_exists_in_transaction ?o rid d2)"
      and d2: "m = 0 \<Longrightarrow> d2 = d1"
      by (auto simp: settle_cancel_requested_def Let_def tx_simps
          record_cancelled_attention_def split: if_splits dest!: settle_transition_count)
    show ?thesis
    proof (cases "waiting_unit_exists_in_transaction ?o rid d")
      case True
      then show ?thesis using cancel_something [OF True assms(3) c] n by auto
    next
      case False
      then show ?thesis
        using cancel_nothing [OF False] c n d2 cand cancel(1) active_count_iff [of ?o rid d] by auto
    qed
  next
    case exec
    show ?thesis
    proof (cases "if w_state w \<in> {W_ADMITTED, W_QUEUED, W_RUNNING, W_PAUSE_REQUESTED, W_PAUSED}
            then budget_violation_in_transaction ?o (w_id w) rid t d else None")
      case (Some v)
      then show ?thesis using exec(2) by (auto simp: settle_executable_def dest!: settle_transition_count)
    next
      case None
      obtain k d1 where rep: "repair_exhausted_units_in_transaction ?o rid t limit d = (k, d1)" by fastforce
      have shape: "n = k \<or> settle_attention_and_failure ?o (w_id w) rid w t limit k d1 = Inr ((x, n), d') \<and>
          \<not> exhausted_pending_exists_in_transaction ?o rid d1"
        using exec(2) rep unfolding settle_executable_def None by (auto split: if_splits)
      have mono: "settle_attention_and_failure ?o (w_id w) rid w t limit k d1 = Inr ((x, n), d') \<Longrightarrow> k \<le> n"
        by (auto simp: settle_attention_and_failure_def Let_def tx_simps split: if_splits
            dest!: settle_transition_count)
      show ?thesis
      proof (cases "exhausted_pending_exists_in_transaction ?o rid d")
        case True
        then show ?thesis using repair_something [OF True assms(3) rep] shape mono by linarith
      next
        case False
        with rep have kd: "k = 0" "d1 = d" by (simp_all add: repair_nothing)
        have "w_state w \<noteq> W_NEEDS_ATTENTION" using cand by auto
        then have "settle_attention_and_failure ?o (w_id w) rid w t limit 0 d = Inr ((x, n), d')"
          using exec(2) rep kd False unfolding settle_executable_def None by simp
        then show ?thesis
          using cand exec(1) False None draft
          by (cases "w_state w"; rule_tac settle_attention_progress [OF a assms(3)]) auto
      qed
    qed
  qed
qed


definition example_revision :: revision_row where
  "example_revision = \<lparr>r_owner = ''owner'', r_id = ''rev_00000001'', r_workload = ''wkl_00000001'', r_number = 1,
     r_budgets = example_budgets, r_plan_digest = ''digest'', r_catalog = [], r_inventory_digest = None,
     r_inventory_sealed = True, r_expected_source_count = 0, r_caps_truncated = False,
     r_partial_output_accepted = False, r_usage_complete = True, r_failure_policy = ''strict'',
     r_tolerated_error_classes = [], r_required_artifacts = [], r_admitted_at = Some 1000,
     r_manual_retry_generation = 0, r_policy = [], r_inventory_text = None\<rparr>"

definition example_stage :: stage_row where
  "example_stage = \<lparr>s_owner = ''owner'', s_id = ''stg_00000001'', s_revision = ''rev_00000001'', s_key = ''map'',
     s_position = 0, s_type = S_MAP, s_runner_kind = R_EXECUTOR, s_runner_name = ''read_files'',
     s_effect = E_PURE, s_cardinality = ''per_source'', s_max_units = 10,
     s_output_schema = ''metnos.output/1'', s_retry = example_policy, s_timeout_s = 60,
     s_resources = \<lparr>res_cpu = 1, res_device = 0, res_llm = 0, res_local_io = 0, res_network_io = 0, res_vlm = 0\<rparr>,
     s_required = True, s_reduction_fan_in = None, s_invalidation_digest = ''digest'',
     s_reduction_max_input_bytes = None, s_entry_identity_field = None,
     s_bindings = [], s_reduction_input = None\<rparr>"

definition example_unit :: "ident \<Rightarrow> unit_row" where
  "example_unit i = \<lparr>u_owner = ''owner'', u_id = i, u_revision = ''rev_00000001'', u_stage = ''stg_00000001'',
     u_key = i, u_state = U_PENDING, u_attempt_count = 0, u_expected_dependency_count = 0,
     u_next_attempt_at = None, u_lease_worker = None, u_active_attempt = None, u_fence = 0,
     u_lease_expires_at = None, u_committed_result = None, u_error_class = None,
     u_partial_output = False, u_terminal_detail = None, u_manual_retry_tokens = 0,
     u_manual_retry_generation = 0, u_reduction_level = None, u_created_at = 1000, u_updated_at = 1000,
     u_source_row = None, u_shard_key = None, u_reduction_ordinal = None, u_reduction_root = False\<rparr>"

definition example_store :: "workload_state \<Rightarrow> db" where
  "example_store s = (empty_store 2000)\<lparr>workloads := [example_workload
       \<lparr>w_state := s, w_active_revision := Some ''rev_00000001'', w_version := 3\<rparr>],
     revisions := [example_revision], stages := [example_stage],
     units := [example_unit ''unt_00000001'', example_unit ''unt_00000002''],
     revision_usage := [example_usage\<lparr>us_input_tokens := 0\<rparr>]\<rparr>"


end
