(* ===== verification/Lease_Invariant.thy ===== *)
theory Lease_Invariant
  imports Store_Invariant
begin

text \<open>
  How the invariant survives the life of a lease. A live unit and its live attempt change
  together: the pair is kept (start of execution, heartbeat, recorded facts), released
  (failure, abandonment, expiry), committed with its one result, or acquired by a claim.
  One lemma per case shows that the change of the tables is a transaction.
\<close>

section \<open>One row of a table\<close>

lemma update_where_row:
  assumes "count_where P rows = 1" and "r \<in> set rows" and "P r"
  shows "update_where P f rows = update_where (\<lambda>x. x = r) (\<lambda>_. f r) rows"
proof -
  from assms(1) obtain y where "filter P rows = [y]"
    by (auto simp: count_where_def length_Suc_conv)
  then have "{x \<in> set rows. P x} = {y}"
    by (metis empty_set list.simps(15) set_filter)
  then have "P x \<longleftrightarrow> x = r" if "x \<in> set rows" for x
    using assms(2,3) that by (metis (mono_tags, lifting) mem_Collect_eq singletonD)
  then show ?thesis
    using assms(3) by (auto simp: update_where_def)
qed

lemma update_where_same [simp]: "update_where (\<lambda>x. x = r) (\<lambda>_. r) rows = rows"
  by (induction rows) auto

lemma ball_update_row:
  "r \<in> set rows \<Longrightarrow> (\<forall>x \<in> set (update_where (\<lambda>x. x = r) (\<lambda>_. r') rows). Q x) \<longleftrightarrow>
     Q r' \<and> (\<forall>x \<in> set rows. x \<noteq> r \<longrightarrow> Q x)"
  by (auto simp: set_update_where)

lemma bex_update_rowI:
  "r \<in> set rows \<Longrightarrow> Q r' \<Longrightarrow> \<exists>x \<in> set (update_where (\<lambda>x. x = r) (\<lambda>_. r') rows). Q x"
  "x \<in> set rows \<Longrightarrow> x \<noteq> r \<Longrightarrow> Q x \<Longrightarrow> \<exists>x \<in> set (update_where (\<lambda>x. x = r) (\<lambda>_. r') rows). Q x"
  by (auto simp: set_update_where)

lemma pk_unique:
  "distinct (map unit_pk us) \<Longrightarrow> u \<in> set us \<Longrightarrow> v \<in> set us \<Longrightarrow> unit_pk v = unit_pk u \<Longrightarrow> v = u"
  "distinct (map attempt_pk as) \<Longrightarrow> a \<in> set as \<Longrightarrow> b \<in> set as \<Longrightarrow> attempt_pk b = attempt_pk a \<Longrightarrow> b = a"
  by (auto simp: distinct_map inj_on_def)

section \<open>A leased pair\<close>

text \<open>
  \<open>pair_step u a u' a'\<close>: the unit and its attempt keep their identities and the fence, and
  either stay leased alike or are both let go.
\<close>

definition pair_step :: "unit_row \<Rightarrow> attempt_row \<Rightarrow> unit_row \<Rightarrow> attempt_row \<Rightarrow> bool" where
  "pair_step u a u' a' \<longleftrightarrow> unit_evolves u u' \<and> attempt_evolves a a' \<and> u_fence u' = u_fence u \<and>
     (a_ended_at a' = None \<longleftrightarrow> live_attempt a') \<and>
     (attempt_of u' a' \<and> leased_alike u' a' \<and> u_lease_expires_at u' \<noteq> None \<or>
      idle_unit u' \<and> \<not> live_attempt a')"

lemma leased_alike_live: "leased_alike u a \<Longrightarrow> live_unit u \<and> live_attempt a"
  by (auto simp: leased_alike_def live_unit_def live_attempt_def)

lemma leases_ok_pair:
  assumes ok: "leases_ok us as" and keys: "distinct (map unit_pk us)" "distinct (map attempt_pk as)"
    and u: "u \<in> set us" and a: "a \<in> set as" and pair: "attempt_of u a" and step: "pair_step u a u' a'"
  shows "leases_ok (update_where (\<lambda>v. v = u) (\<lambda>_. u') us) (update_where (\<lambda>b. b = a) (\<lambda>_. a') as)"
    (is "leases_ok ?us ?as")
proof -
  have ids: "u_owner u' = u_owner u" "u_id u' = u_id u" "a_owner a' = a_owner a" "a_unit a' = a_unit a"
      "a_fence a' = a_fence a" "u_fence u' = u_fence u" "a_number a' = a_number a"
      "u_attempt_count u \<le> u_attempt_count u'"
    using step by (auto simp: pair_step_def unit_evolves_def attempt_evolves_def)
  have other_unit: "v = u" if "v \<in> set us" "attempt_of v a" for v
    using that pair u pk_unique(1) [OF keys(1) u that(1)] by (auto simp: attempt_of_def)
  have other_attempt: "b = a" if "b \<in> set as" "attempt_of u b" for b
    using that pair pk_unique(2) [OF keys(2) a that(1)] by (auto simp: attempt_of_def)
  have "idle_unit v \<or> (u_lease_expires_at v \<noteq> None \<and> (\<exists>b \<in> set ?as. attempt_of v b \<and> leased_alike v b))"
    if "v \<in> set us" "v \<noteq> u" for v
    using leases_okD(1) [OF ok that(1)] that other_unit
      bex_update_rowI(2) [of _ as a "\<lambda>b. attempt_of v b \<and> leased_alike v b" a'] by blast
  moreover have "idle_unit u' \<or> (u_lease_expires_at u' \<noteq> None \<and>
      (\<exists>b \<in> set ?as. attempt_of u' b \<and> leased_alike u' b))"
    using step bex_update_rowI(1) [OF a, of "\<lambda>b. attempt_of u' b \<and> leased_alike u' b" a']
    by (auto simp: pair_step_def)
  moreover have "\<exists>v \<in> set ?us. live_unit v \<and> attempt_of v b" if "b \<in> set as" "b \<noteq> a" "live_attempt b" for b
    using leases_okD(2) [OF ok that(1,3)] that other_attempt
      bex_update_rowI(2) [of _ us u "\<lambda>v. live_unit v \<and> attempt_of v b" u'] by blast
  moreover have "\<exists>v \<in> set ?us. live_unit v \<and> attempt_of v a'" if "live_attempt a'"
    using that step leased_alike_live bex_update_rowI(1) [OF u, of "\<lambda>v. live_unit v \<and> attempt_of v a'" u']
    by (auto simp: pair_step_def)
  moreover have within: "\<exists>v \<in> set ?us. attempt_within v b" if "b \<in> set as" for b
    using leases_okD(3) [OF ok that] ids by (fastforce simp: bex_update_where attempt_within_def)
  moreover have "\<exists>v \<in> set ?us. attempt_within v a'"
    using within [OF a] ids by (auto simp: attempt_within_def)
  ultimately show ?thesis
    unfolding leases_ok_def ball_update_row [OF u] ball_update_row [OF a] by blast
qed

lemma attempts_ok_pair:
  assumes "attempts_ok as" and "a \<in> set as" and "pair_step u a u' a'"
  shows "attempts_ok (update_where (\<lambda>b. b = a) (\<lambda>_. a') as)"
  using assms unfolding attempts_ok_def ball_update_row [OF assms(2)] by (auto simp: pair_step_def)

lemma attempt_pk_update:
  "attempt_evolves a a' \<Longrightarrow>
     map attempt_pk (update_where (\<lambda>b. b = a) (\<lambda>_. a') as) = map attempt_pk as"
  by (intro map_update_where) (auto simp: attempt_evolves_def)

abbreviation put_pair :: "unit_row \<Rightarrow> unit_row \<Rightarrow> attempt_row \<Rightarrow> attempt_row \<Rightarrow> db \<Rightarrow> db" where
  "put_pair u u' a a' d \<equiv>
     d\<lparr>units := update_where (\<lambda>v. v = u) (\<lambda>_. u') (units d),
       attempts := update_where (\<lambda>b. b = a) (\<lambda>_. a') (attempts d)\<rparr>"

lemma put_pair_evolves:
  "pair_step u a u' a' \<Longrightarrow> db_evolves d (put_pair u u' a a' d)"
  by (auto simp: db_evolves_def pair_step_def intro!: unit_rows.update_rows attempt_rows.update_rows)

text \<open>The pair kept or released without a result.\<close>

lemma txn_pair:
  assumes u: "u \<in> set (units d)" and a: "a \<in> set (attempts d)" and pair: "attempt_of u a"
    and step: "pair_step u a u' a'" and plain: "u_state u \<noteq> U_COMMITTED" "u_state u' \<noteq> U_COMMITTED"
      "u_committed_result u' = u_committed_result u"
  shows "txn d (put_pair u u' a a' d)"
proof -
  have ev: "unit_evolves u u'" "attempt_evolves a a'"
    using step by (auto simp: pair_step_def)
  have "store_ok (put_pair u u' a a' d)" if ok: "store_ok d"
  proof -
    have "results_ok (update_where (\<lambda>v. v = u) (\<lambda>_. u') (units d)) (results d)"
      using ok plain ev by (intro results_ok_same) (auto simp: store_ok_def)
    moreover have "map unit_pk (update_where (\<lambda>v. v = u) (\<lambda>_. u') (units d)) = map unit_pk (units d)"
      using ev by (intro unit_pk_update) auto
    ultimately show ?thesis
      using ok leases_ok_pair [OF _ _ _ u a pair step] attempts_ok_pair [OF _ a step]
        attempt_pk_update [OF ev(2)]
      by (simp add: store_ok_def keys_ok_def active_ok_def)
  qed
  with put_pair_evolves [OF step] show ?thesis by (simp add: txn_def)
qed

text \<open>The pair committed with its result.\<close>

lemma txn_commit_pair:
  assumes u: "u \<in> set (units d)" and a: "a \<in> set (attempts d)" and pair: "attempt_of u a"
    and step: "pair_step u a u' a'" and live: "live_unit u"
    and state: "u_state u' = U_COMMITTED" "u_committed_result u' = Some (x_id x)"
    and new: "x_owner x = u_owner u" "x_unit x = u_id u"
      "\<forall>y \<in> set (results d). (x_owner y, x_unit y) \<noteq> (x_owner x, x_unit x) \<and> (x_owner y, x_id y) \<noteq> (x_owner x, x_id x)"
  shows "txn d ((put_pair u u' a a' d)\<lparr>results := results d @ [x]\<rparr>)"
proof -
  have ev: "unit_evolves u u'" "attempt_evolves a a'" "u_owner u' = u_owner u" "u_id u' = u_id u"
    using step by (auto simp: pair_step_def unit_evolves_def)
  let ?us = "update_where (\<lambda>v. v = u) (\<lambda>_. u') (units d)"
  have "results_ok ?us (results d @ [x])" if ok: "store_ok d"
  proof -
    have res: "results_ok (units d) (results d)" and keys: "distinct (map unit_pk (units d))"
      using ok by (simp_all add: store_ok_def keys_ok_def)
    have "u_committed_result u = None"
      using res u live by (auto simp: results_ok_def live_unit_def)
    then have old: "\<exists>v \<in> set ?us. x_owner y = u_owner v \<and> x_unit y = u_id v \<and> u_committed_result v = Some (x_id y)"
      if y: "y \<in> set (results d)" for y
    proof -
      obtain v where "v \<in> set (units d)" "x_owner y = u_owner v" "x_unit y = u_id v"
        "u_committed_result v = Some (x_id y)"
        using res y by (auto simp: results_ok_def)
      moreover from this have "v \<noteq> u" using \<open>u_committed_result u = None\<close> by auto
      ultimately show ?thesis by (intro bex_update_rowI(2)) auto
    qed
    moreover have "\<exists>v \<in> set ?us. x_owner x = u_owner v \<and> x_unit x = u_id v \<and> u_committed_result v = Some (x_id x)"
      using u state new ev by (intro bex_update_rowI(1)) auto
    ultimately show ?thesis
      using res state new ev old unfolding results_ok_def ball_update_row [OF u] by auto
  qed
  moreover have "map unit_pk ?us = map unit_pk (units d)"
    using ev by (intro unit_pk_update) auto
  ultimately have "store_ok ((put_pair u u' a a' d)\<lparr>results := results d @ [x]\<rparr>)" if "store_ok d"
    using that new leases_ok_pair [OF _ _ _ u a pair step] attempts_ok_pair [OF _ a step]
      attempt_pk_update [OF ev(2)]
    by (auto simp: store_ok_def keys_ok_def active_ok_def)
  moreover have "db_evolves d ((put_pair u u' a a' d)\<lparr>results := results d @ [x]\<rparr>)"
    using put_pair_evolves [OF step, of d] by (simp add: db_evolves_def)
  ultimately show ?thesis by (simp add: txn_def)
qed

section \<open>A new lease\<close>

definition lease_start :: "unit_row \<Rightarrow> unit_row \<Rightarrow> attempt_row \<Rightarrow> bool" where
  "lease_start u u' a \<longleftrightarrow> unit_evolves u u' \<and> \<not> live_unit u \<and> u_fence u < u_fence u' \<and>
     attempt_of u' a \<and> u_state u' = U_LEASED \<and> a_state a = A_LEASED \<and> a_ended_at a = None \<and>
     a_number a \<le> u_attempt_count u' \<and>
     u_lease_expires_at u' \<noteq> None \<and> u_state u \<noteq> U_COMMITTED \<and>
     u_committed_result u' = u_committed_result u"

lemma leases_ok_start:
  assumes ok: "leases_ok us as" and keys: "distinct (map unit_pk us)" and u: "u \<in> set us"
    and start: "lease_start u u' a"
  shows "leases_ok (update_where (\<lambda>v. v = u) (\<lambda>_. u') us) (as @ [a])" (is "leases_ok ?us _")
proof -
  have ids: "u_owner u' = u_owner u" "u_id u' = u_id u" and a: "attempt_of u' a" "live_unit u'" "leased_alike u' a"
    using start by (auto simp: lease_start_def unit_evolves_def live_unit_def leased_alike_def)
  have "idle_unit v \<or> (u_lease_expires_at v \<noteq> None \<and> (\<exists>b \<in> set (as @ [a]). attempt_of v b \<and> leased_alike v b))"
    if "v \<in> set us" for v
    using leases_okD(1) [OF ok that] by auto
  moreover have "\<exists>v \<in> set ?us. live_unit v \<and> attempt_of v b" if "b \<in> set as" "live_attempt b" for b
    using leases_okD(2) [OF ok that] start
      bex_update_rowI(2) [of _ us u "\<lambda>v. live_unit v \<and> attempt_of v b" u'] by (auto simp: lease_start_def)
  moreover have "\<exists>v \<in> set ?us. attempt_within v b" if "b \<in> set as" for b
    using leases_okD(3) [OF ok that] ids start
    by (fastforce simp: bex_update_where lease_start_def attempt_within_def unit_evolves_def)
  moreover have "\<exists>v \<in> set ?us. live_unit v \<and> attempt_of v a"
    using a u by (intro bex_update_rowI(1)) auto
  moreover have "\<exists>v \<in> set ?us. attempt_within v a"
    using a u start by (intro bex_update_rowI(1)) (auto simp: attempt_of_def attempt_within_def lease_start_def)
  ultimately show ?thesis
    using a start unfolding leases_ok_def ball_update_row [OF u] by (auto simp: lease_start_def)
qed

lemma txn_lease_start:
  assumes u: "u \<in> set (units d)" and start: "lease_start u u' a"
    and new: "\<forall>b \<in> set (attempts d). attempt_pk b \<noteq> attempt_pk a"
  shows "txn d (d\<lparr>attempts := attempts d @ [a], units := update_where (\<lambda>v. v = u) (\<lambda>_. u') (units d)\<rparr>)"
    (is "txn d ?e")
proof -
  have ev: "unit_evolves u u'" using start by (simp add: lease_start_def)
  have "store_ok ?e" if ok: "store_ok d"
  proof -
    have "results_ok (update_where (\<lambda>v. v = u) (\<lambda>_. u') (units d)) (results d)"
      using ok start ev by (intro results_ok_same) (auto simp: store_ok_def lease_start_def)
    moreover have "map unit_pk (update_where (\<lambda>v. v = u) (\<lambda>_. u') (units d)) = map unit_pk (units d)"
      using ev by (intro unit_pk_update) auto
    moreover have "attempts_ok (attempts d @ [a])"
      using ok start by (auto simp: store_ok_def attempts_ok_def lease_start_def live_attempt_def)
    ultimately show ?thesis
      using ok new leases_ok_start [OF _ _ u start]
      by (auto simp: store_ok_def keys_ok_def active_ok_def)
  qed
  moreover have "db_evolves d ?e"
    using ev by (auto simp: db_evolves_def intro!: unit_rows.update_rows)
  ultimately show ?thesis by (simp add: txn_def)
qed

end
