(* ===== verification/Leasing.thy ===== *)
theory Leasing
  imports Workload_Properties Lease_Invariant
begin

text \<open>
  Leases of work units (\<open>storage.py\<close>: \<open>claim_next\<close>, \<open>mark_running\<close>, \<open>heartbeat\<close> and
  the row that every lease operation reads). A claim promotes due retries, chooses the
  next workload, stage and unit a worker is able to run within the budgets, and fences it.
\<close>

section \<open>Model reservations\<close>

definition MAX_UNIT_DEPENDENCIES :: int where "MAX_UNIT_DEPENDENCIES = 1024"
definition MAX_ATTEMPT_METRICS_JSON_BYTES :: int where "MAX_ATTEMPT_METRICS_JSON_BYTES = 1048576"

text \<open>\<open>json_extract\<close> along a path of keys.\<close>

fun jpath :: "jobj \<Rightarrow> string list \<Rightarrow> jval option" where
  "jpath obj [] = Some (JObj obj)"
| "jpath obj [k] = jget obj k"
| "jpath obj (k # ks) = (case jget obj k of Some (JObj inner) \<Rightarrow> jpath inner ks | _ \<Rightarrow> None)"

definition json_objects :: "jval list \<Rightarrow> jobj list" where
  "json_objects vs = concat (map (\<lambda>v. case v of JObj obj \<Rightarrow> [obj] | _ \<Rightarrow> []) vs)"

text \<open>
  \<open>json_each(catalog, '$.entries')\<close>. An entry that is no object becomes an empty object,
  which has no stage key and so joins with no stage: it is left out.
\<close>

definition model_catalog_entries :: "revision_row \<Rightarrow> jobj list" where
  "model_catalog_entries r =
     (case jget (r_catalog r) ''entries'' of
        Some (JArr vs) \<Rightarrow> json_objects vs
      | Some (JObj kvs) \<Rightarrow> json_objects (map snd kvs)
      | _ \<Rightarrow> [])"

definition jint_between :: "jobj \<Rightarrow> string \<Rightarrow> int \<Rightarrow> int \<Rightarrow> bool" where
  "jint_between obj k lo hi = (case jget obj k of Some (JInt i) \<Rightarrow> lo \<le> i \<and> i \<le> hi | _ \<Rightarrow> False)"

definition jint_value :: "jobj \<Rightarrow> string \<Rightarrow> int" where
  "jint_value obj k = (case jget obj k of Some (JInt i) \<Rightarrow> i | _ \<Rightarrow> 0)"

definition model_contract_ok :: "stage_row \<Rightarrow> jobj \<Rightarrow> bool" where
  "model_contract_ok s c \<longleftrightarrow>
     jget c ''model_cost_policy'' = Some (JStr ''zero'') \<and>
     (case jget c ''model_binding_digest'' of Some (JStr digest) \<Rightarrow> sha256_re digest | _ \<Rightarrow> False) \<and>
     jget c ''kind'' = Some (JStr (runner_kind_value (s_runner_kind s))) \<and>
     jget c ''name'' = Some (JStr (s_runner_name s)) \<and>
     jint_between c ''model_max_calls'' 1 64 \<and>
     jint_between c ''model_max_input_tokens'' 1 16777216 \<and>
     jint_between c ''model_max_output_tokens'' 1 1000000"

definition uses_model :: "stage_row \<Rightarrow> bool" where
  "uses_model s \<longleftrightarrow> res_llm (s_resources s) > 0 \<or> res_vlm (s_resources s) > 0"

text \<open>\<open>model_limits.max_tokens\<close>: the tokens an attempt of the stage may use, when they are bounded.\<close>

definition model_max_tokens :: "revision_row \<Rightarrow> stage_row \<Rightarrow> int option" where
  "model_max_tokens r s =
     (if \<not> uses_model s then None
      else case filter (\<lambda>c. jget c ''stage_key'' = Some (JStr (s_key s))) (model_catalog_entries r) of
        [c] \<Rightarrow> if model_contract_ok s c
               then Some (jint_value c ''model_max_calls'' *
                 (jint_value c ''model_max_input_tokens'' + jint_value c ''model_max_output_tokens''))
               else None
      | _ \<Rightarrow> None)"

definition remaining_tokens :: "revision_row \<Rightarrow> usage_row \<Rightarrow> int" where
  "remaining_tokens r us = b_max_tokens (r_budgets r) - us_input_tokens us - us_output_tokens us"

definition stage_of :: "db \<Rightarrow> unit_row \<Rightarrow> stage_row option" where
  "stage_of d u = find (stage_at (u_owner u) (u_revision u) (u_stage u)) (stages d)"

definition reserving_unit :: "db \<Rightarrow> revision_row \<Rightarrow> unit_row \<Rightarrow> bool" where
  "reserving_unit d r u \<longleftrightarrow> in_revision (r_owner r) (r_id r) u \<and> u_state u \<in> {U_LEASED, U_RUNNING} \<and>
     (case stage_of d u of None \<Rightarrow> False | Some s \<Rightarrow> uses_model s)"

definition reserving_attempt :: "db \<Rightarrow> unit_row \<Rightarrow> attempt_row option" where
  "reserving_attempt d u =
     find (\<lambda>a. attempt_of u a \<and> a_state a \<in> {A_LEASED, A_RUNNING} \<and> a_ended_at a = None) (attempts d)"

text \<open>An attempt whose model usage has been recorded in full reserves nothing any more.\<close>

definition accounted_attempt :: "attempt_row \<Rightarrow> bool" where
  "accounted_attempt a \<longleftrightarrow> jget (a_model_snapshot a) ''mode'' = Some (JStr ''llm'') \<and>
     jpath (a_metrics a) [''llm_usage'', ''schema_version''] = Some (JStr ''metnos.durable-model-usage/2'') \<and>
     jpath (a_metrics a) [''llm_usage'', ''usage_missing''] = Some (JBool False) \<and>
     jpath (a_metrics a) [''llm_usage'', ''cost_unknown''] = Some (JBool False)"

definition unit_max_tokens :: "db \<Rightarrow> revision_row \<Rightarrow> unit_row \<Rightarrow> int option" where
  "unit_max_tokens d r u = (case stage_of d u of None \<Rightarrow> None | Some s \<Rightarrow> model_max_tokens r s)"

definition unbounded_reservation :: "db \<Rightarrow> revision_row \<Rightarrow> unit_row \<Rightarrow> bool" where
  "unbounded_reservation d r u \<longleftrightarrow> unit_max_tokens d r u = None \<or> reserving_attempt d u = None"

definition reserved_tokens :: "db \<Rightarrow> revision_row \<Rightarrow> unit_row \<Rightarrow> int" where
  "reserved_tokens d r u =
     (if (case reserving_attempt d u of None \<Rightarrow> False | Some a \<Rightarrow> accounted_attempt a) then 0
      else case unit_max_tokens d r u of None \<Rightarrow> 0 | Some n \<Rightarrow> n)"

definition active_models :: "db \<Rightarrow> revision_row \<Rightarrow> nat" where
  "active_models d r = count_where (reserving_unit d r) (units d)"

definition unbounded_models :: "db \<Rightarrow> revision_row \<Rightarrow> nat" where
  "unbounded_models d r = count_where (\<lambda>u. reserving_unit d r u \<and> unbounded_reservation d r u) (units d)"

definition total_reserved :: "db \<Rightarrow> revision_row \<Rightarrow> int" where
  "total_reserved d r = sum_list (map (reserved_tokens d r) (filter (reserving_unit d r) (units d)))"

section \<open>The choice of a unit\<close>

definition dependency_count :: "db \<Rightarrow> unit_row \<Rightarrow> int" where
  "dependency_count d u = int (count_where (\<lambda>x. ud_owner x = u_owner u \<and> ud_revision x = u_revision u \<and>
     ud_unit x = u_id u) (unit_dependencies d))"

definition ready_unit :: "db \<Rightarrow> revision_row \<Rightarrow> stage_row \<Rightarrow> instant \<Rightarrow> unit_row \<Rightarrow> bool" where
  "ready_unit d r s current u \<longleftrightarrow>
     u_owner u = s_owner s \<and> u_revision u = s_revision s \<and> u_stage u = s_id s \<and>
     (u_state u = U_PENDING \<and>
        (case u_next_attempt_at u of None \<Rightarrow> True | Some t \<Rightarrow> t \<le> current) \<and>
        (u_attempt_count u < rp_max_attempts (s_retry s) \<or> u_manual_retry_tokens u > 0) \<or>
      u_state u = U_NEEDS_ATTENTION \<and> u_manual_retry_generation u < r_manual_retry_generation r) \<and>
     u_expected_dependency_count u \<le> MAX_UNIT_DEPENDENCIES \<and>
     u_expected_dependency_count u = dependency_count d u"

definition worker_fits :: "worker_capabilities \<Rightarrow> stage_row \<Rightarrow> bool" where
  "worker_fits caps s \<longleftrightarrow> s_effect s \<in> set (wc_effect_profiles caps) \<and>
     (s_runner_kind s, s_runner_name s) \<in> set (wc_runner_bindings caps) \<and>
     list_all (\<lambda>(key, amount). amount \<le> resource_limit caps key) (resource_items (s_resources s))"

definition model_allowed :: "db \<Rightarrow> revision_row \<Rightarrow> usage_row \<Rightarrow> stage_row \<Rightarrow> bool" where
  "model_allowed d r us s \<longleftrightarrow>
     (res_llm (s_resources s) = 0 \<and> res_vlm (s_resources s) = 0) \<or>
     ((us_input_tokens us + us_output_tokens us < b_max_tokens (r_budgets r) \<or>
        (model_max_tokens r s \<noteq> None \<and> active_models d r = 0)) \<and>
      (b_max_cost_micros (r_budgets r) = 0 \<or> us_cost_micros us < b_max_cost_micros (r_budgets r)) \<and>
      (case model_max_tokens r s of
         None \<Rightarrow> active_models d r = 0
       | Some n \<Rightarrow> unbounded_models d r = 0 \<and>
           (n + total_reserved d r \<le> remaining_tokens r us \<or> active_models d r = 0)))"

definition over_limit :: "revision_row \<Rightarrow> usage_row \<Rightarrow> stage_row \<Rightarrow> bool" where
  "over_limit r us s \<longleftrightarrow>
     (case model_max_tokens r s of None \<Rightarrow> False | Some n \<Rightarrow> n > remaining_tokens r us)"

definition stage_eligible ::
  "db \<Rightarrow> worker_capabilities \<Rightarrow> instant \<Rightarrow> revision_row \<Rightarrow> usage_row \<Rightarrow> stage_row \<Rightarrow> bool" where
  "stage_eligible d caps current r us s \<longleftrightarrow> s_owner s = r_owner r \<and> s_revision s = r_id r \<and>
     exists_where (ready_unit d r s current) (units d) \<and> worker_fits caps s \<and> model_allowed d r us s"

definition candidate_stage ::
  "db \<Rightarrow> worker_capabilities \<Rightarrow> instant \<Rightarrow> revision_row \<Rightarrow> usage_row \<Rightarrow> stage_row option" where
  "candidate_stage d caps current r us =
     (case order_limit (\<lambda>s. (of_bool (over_limit r us s) :: int, s_position s, s_id s)) 1
             (filter (stage_eligible d caps current r us) (stages d)) of
        [] \<Rightarrow> None | s # _ \<Rightarrow> Some s)"

record claim_candidate =
  cc_workload :: workload_row
  cc_revision :: revision_row
  cc_usage :: usage_row
  cc_stage :: stage_row

text \<open>
  The row of the candidate query for one workload: its active revision within every budget,
  without an untolerated failure, below its concurrency, and with a stage to run.
\<close>

definition workload_candidate ::
  "db \<Rightarrow> worker_capabilities \<Rightarrow> instant \<Rightarrow> workload_row \<Rightarrow> claim_candidate option" where
  "workload_candidate d caps current w =
     (if w_state w \<notin> {W_QUEUED, W_RUNNING} then None
      else case w_active_revision w of
        None \<Rightarrow> None
      | Some rid \<Rightarrow>
        (case (find (revision_at (w_owner w) rid) (revisions d), find (usage_at (w_owner w) rid) (revision_usage d)) of
           (Some r, Some us) \<Rightarrow>
             if usage_needs_settlement (r_budgets r) us current
                \<or> exists_where (untolerated_failure (w_owner w) rid r) (units d)
                \<or> int (active_unit_count_in_transaction (w_owner w) rid d) \<ge> b_max_concurrency (r_budgets r)
             then None
             else (case candidate_stage d caps current r us of
                 None \<Rightarrow> None
               | Some s \<Rightarrow> Some \<lparr>cc_workload = w, cc_revision = r, cc_usage = us, cc_stage = s\<rparr>)
         | _ \<Rightarrow> None))"

text \<open>\<open>COALESCE(MAX(last_selected_seq), 0)\<close>.\<close>

definition max_seq :: "credit_row list \<Rightarrow> int" where
  "max_seq cs = (case map c_last_selected_seq cs of [] \<Rightarrow> 0 | n # ns \<Rightarrow> fold max ns n)"

definition priority_rank :: "string \<Rightarrow> int" where
  "priority_rank p = (if p = ''high'' then 0 else if p = ''normal'' then 1 else 2)"

definition candidate_order ::
  "db \<Rightarrow> claim_candidate \<Rightarrow> int \<times> int \<times> int \<times> int \<times> instant \<times> string \<times> ident" where
  "candidate_order d c =
     (let w = cc_workload c in
      (of_bool (over_limit (cc_revision c) (cc_usage c) (cc_stage c)),
       max_seq (filter (\<lambda>k. c_owner k = w_owner w) (scheduler_credits d)),
       max_seq (filter (\<lambda>k. c_owner k = w_owner w \<and> c_workload k = w_id w) (scheduler_credits d)),
       priority_rank (w_priority w), w_created_at w, w_owner w, w_id w))"

definition choose_candidate :: "db \<Rightarrow> worker_capabilities \<Rightarrow> instant \<Rightarrow> claim_candidate option" where
  "choose_candidate d caps current =
     (case order_limit (candidate_order d) 1
             (concat (map (\<lambda>w. case workload_candidate d caps current w of None \<Rightarrow> [] | Some c \<Rightarrow> [c])
               (workloads d))) of
        [] \<Rightarrow> None | c # _ \<Rightarrow> Some c)"

text \<open>The unit of the chosen stage, with the workload the revision belongs to.\<close>

definition claimable_unit ::
  "db \<Rightarrow> revision_row \<Rightarrow> stage_row \<Rightarrow> instant \<Rightarrow> (unit_row \<times> workload_row) option" where
  "claimable_unit d r s current =
     (case (order_limit (\<lambda>u. (u_next_attempt_at u, u_created_at u, u_key u)) 1
              (filter (ready_unit d r s current) (units d)),
            find (\<lambda>w. workload_at (r_owner r) (r_workload r) w \<and> w_active_revision w = Some (r_id r)) (workloads d)) of
        (u # _, Some w) \<Rightarrow> Some (u, w) | _ \<Rightarrow> None)"

section \<open>Promotion of due retries\<close>

definition due_retry :: "instant \<Rightarrow> unit_row \<Rightarrow> bool" where
  "due_retry t u \<longleftrightarrow> u_state u = U_RETRY_WAIT \<and>
     (case u_next_attempt_at u of None \<Rightarrow> False | Some n \<Rightarrow> n \<le> t)"

definition promote_unit :: "instant \<Rightarrow> unit_row \<Rightarrow> unit_row" where
  "promote_unit t u =
     u\<lparr>u_state := U_PENDING, u_next_attempt_at := None, u_error_class := None,
       u_partial_output := False, u_terminal_detail := None, u_updated_at := t\<rparr>"

definition promote_retry :: "instant \<Rightarrow> unit_row \<Rightarrow> db \<Rightarrow> db result" where
  "promote_retry now_text row d =
     (let here = (\<lambda>u. unit_at (u_owner row) (u_id row) u \<and> due_retry now_text u) in
      if count_where here (units d) \<noteq> 1
      then Inl (DurableStoreError ''retry promotion compare-and-set failed'')
      else Inr (d\<lparr>units := update_where here (promote_unit now_text) (units d)\<rparr>))"

definition promote_due_retries_in_transaction :: "instant \<Rightarrow> int \<Rightarrow> db \<Rightarrow> (nat \<times> db) result" where
  "promote_due_retries_in_transaction now_text limit d =
     (let rows = order_limit (\<lambda>u. (u_next_attempt_at u, u_owner u, u_id u)) (nat limit)
                   (filter (due_retry now_text) (units d))
      in bindE (foldE (promote_retry now_text) rows d) (\<lambda>d'. Inr (length rows, d')))"

section \<open>The claim\<close>

definition start_queued_workload_in_transaction ::
  "string \<Rightarrow> ident \<Rightarrow> workload_state \<Rightarrow> int \<Rightarrow> instant \<Rightarrow> string \<Rightarrow> db \<Rightarrow> db result" where
  "start_queued_workload_in_transaction owner workload_id state version now_text reason_code d =
     (let here = (\<lambda>w. workload_at owner workload_id w \<and> w_state w = W_QUEUED \<and> w_version w = version) in
      if state \<noteq> W_QUEUED then Inr d
      else if count_where here (workloads d) \<noteq> 1
      then Inl (DurableStoreError ''workload start compare-and-set failed'')
      else bindE (append_event_in_transaction owner workload_id Ev_RUNNING
             [(''previous_state'', JStr (workload_state_value W_QUEUED)),
              (''new_state'', JStr (workload_state_value W_RUNNING)),
              (''new_version'', JInt (version + 1)), (''reason_code'', JStr reason_code)]
             (d\<lparr>workloads := update_where here
               (\<lambda>w. w\<lparr>w_state := W_RUNNING, w_version := w_version w + 1, w_updated_at := now_text\<rparr>)
               (workloads d)\<rparr>)) (\<lambda>(_, d'). Inr d'))"

definition new_credit :: "string \<Rightarrow> ident \<Rightarrow> instant \<Rightarrow> credit_row" where
  "new_credit owner workload_id t =
     \<lparr>c_owner = owner, c_workload = workload_id, c_deficit = 0, c_last_selected_seq = 0,
      c_quota = 1, c_updated_at = t\<rparr>"

definition select_credit :: "string \<Rightarrow> ident \<Rightarrow> instant \<Rightarrow> credit_row list \<Rightarrow> credit_row list" where
  "select_credit owner workload_id t cs =
     (let here = (\<lambda>c. c_owner c = owner \<and> c_workload c = workload_id);
          cs1 = (if exists_where here cs then cs else cs @ [new_credit owner workload_id t])
      in update_where here (\<lambda>c. c\<lparr>c_last_selected_seq := max_seq cs1 + 1, c_updated_at := t\<rparr>) cs1)"

definition attention_retry :: "unit_row \<Rightarrow> bool" where
  "attention_retry u \<longleftrightarrow> u_state u = U_NEEDS_ATTENTION"

definition token_retry :: "unit_row \<Rightarrow> bool" where
  "token_retry u \<longleftrightarrow> u_state u = U_PENDING \<and> u_manual_retry_tokens u > 0"

definition claim_executor_snapshot :: "stage_row \<Rightarrow> jobj" where
  "claim_executor_snapshot s =
     [(''schema_version'', JStr ''metnos.durable-executor-snapshot/1''), (''mode'', JStr ''dummy''),
      (''runner_kind'', JStr (runner_kind_value (s_runner_kind s))), (''runner_name'', JStr (s_runner_name s))]"

definition claim_model_snapshot :: jobj where
  "claim_model_snapshot =
     [(''schema_version'', JStr ''metnos.durable-model-snapshot/1''), (''binding'', JNull)]"

definition claim_metrics :: "unit_row \<Rightarrow> jobj" where
  "claim_metrics u =
     [(''schema_version'', JStr ''metnos.durable-attempt-metrics/1''),
      (''attempt_number'', JInt (u_attempt_count u + 1)), (''execution_started'', JBool False),
      (''manual_retry'', JBool (attention_retry u \<or> token_retry u))]"

definition claimed_attempt :: "unit_row \<Rightarrow> stage_row \<Rightarrow> ident \<Rightarrow> string \<Rightarrow> instant \<Rightarrow> attempt_row" where
  "claimed_attempt u s attempt_id worker t =
     \<lparr>a_owner = u_owner u, a_id = attempt_id, a_unit = u_id u, a_number = u_attempt_count u + 1,
      a_fence = u_fence u + 1, a_worker = worker, a_device = None, a_invocation = None,
      a_state = A_LEASED, a_started_at = t, a_ended_at = None, a_structured_error = None,
      a_executor_snapshot = claim_executor_snapshot s, a_model_snapshot = claim_model_snapshot,
      a_metrics = claim_metrics u\<rparr>"

text \<open>\<open>INSERT INTO attempts\<close> with the table's checks and unique keys.\<close>

definition insert_attempt :: "attempt_row \<Rightarrow> db \<Rightarrow> db result" where
  "insert_attempt a d =
     (if a_number a < 1 \<or> a_fence a < 1 \<or> exists_where (\<lambda>b. a_owner b = a_owner a \<and>
           (a_id b = a_id a \<or> a_unit b = a_unit a \<and> (a_number b = a_number a \<or> a_fence b = a_fence a))) (attempts d)
      then Inl IntegrityError
      else Inr (d\<lparr>attempts := attempts d @ [a]\<rparr>))"

definition claimed_unit :: "unit_row \<Rightarrow> revision_row \<Rightarrow> ident \<Rightarrow> string \<Rightarrow> instant \<Rightarrow> instant \<Rightarrow> unit_row" where
  "claimed_unit u r attempt_id worker expiry t =
     u\<lparr>u_state := U_LEASED, u_attempt_count := u_attempt_count u + 1, u_lease_worker := Some worker,
       u_active_attempt := Some attempt_id, u_fence := u_fence u + 1, u_lease_expires_at := Some expiry,
       u_manual_retry_tokens := u_manual_retry_tokens u - of_bool (token_retry u),
       u_manual_retry_generation := (if u_state u = U_NEEDS_ATTENTION then r_manual_retry_generation r
                                     else u_manual_retry_generation u),
       u_error_class := None, u_partial_output := False, u_terminal_detail := None,
       u_next_attempt_at := None, u_updated_at := t\<rparr>"

definition lease_unit ::
  "unit_row \<Rightarrow> revision_row \<Rightarrow> stage_row \<Rightarrow> string \<Rightarrow> instant \<Rightarrow> instant \<Rightarrow> db \<Rightarrow> (ident \<times> db) result" where
  "lease_unit u r s worker expiry current d =
     (let (attempt_id, d0) = new_id ''att'' d;
          here = (\<lambda>v. unit_at (u_owner u) (u_id u) v \<and> u_state v = u_state u \<and>
            u_attempt_count v = u_attempt_count u \<and> u_fence v = u_fence u \<and>
            (\<not> token_retry u \<or> u_manual_retry_tokens v > 0) \<and>
            (\<not> attention_retry u \<or> u_manual_retry_generation v < r_manual_retry_generation r))
      in
      bindE (canonical_json (JObj (claim_executor_snapshot s)) max_snapshot_json_bytes) (\<lambda>_.
      bindE (canonical_json (JObj (claim_metrics u)) MAX_ATTEMPT_METRICS_JSON_BYTES) (\<lambda>_.
      bindE (insert_attempt (claimed_attempt u s attempt_id worker current) d0) (\<lambda>d1.
      if count_where here (units d1) \<noteq> 1 then Inl (DurableStoreError ''claim compare-and-set failed'')
      else Inr (attempt_id, d1\<lparr>units := update_where here
             (\<lambda>v. claimed_unit v r attempt_id worker expiry current) (units d1)\<rparr>)))))"

definition lease_of ::
  "unit_row \<Rightarrow> workload_row \<Rightarrow> stage_row \<Rightarrow> ident \<Rightarrow> string \<Rightarrow> instant \<Rightarrow> lease" where
  "lease_of u w s attempt_id worker expiry =
     \<lparr>l_owner_user_id = u_owner u, l_workload_id = w_id w, l_revision_id = u_revision u,
      l_stage_id = u_stage u, l_stage_key = s_key s, l_unit_id = u_id u, l_unit_key = u_key u,
      l_attempt_id = attempt_id, l_attempt_number = u_attempt_count u + 1, l_fence = u_fence u + 1,
      l_worker_id = worker, l_lease_expires_at = expiry, l_runner_kind = s_runner_kind s,
      l_runner_name = s_runner_name s, l_effect_profile = s_effect s,
      l_output_schema_version = s_output_schema s, l_resource_claims = resource_items (s_resources s),
      l_retry_policy = s_retry s, l_timeout_s = s_timeout_s s,
      l_manual_retry = (attention_retry u \<or> token_retry u)\<rparr>"

definition token_details :: "claim_candidate \<Rightarrow> int \<Rightarrow> jobj" where
  "token_details c required =
     (let limit = b_max_tokens (r_budgets (cc_revision c));
          remaining = remaining_tokens (cc_revision c) (cc_usage c)
      in [(''budget'', JStr ''max_tokens''), (''limit'', JInt limit), (''observed'', JInt (limit - remaining)),
          (''required_token_reservation'', JInt required), (''remaining'', JInt remaining)])"

definition lease_candidate ::
  "claim_candidate \<Rightarrow> string \<Rightarrow> instant \<Rightarrow> instant \<Rightarrow> db \<Rightarrow> (lease option \<times> db) result" where
  "lease_candidate c worker expiry current d =
     (let r = cc_revision c; s = cc_stage c in
      bindE (optE (claimable_unit d r s current) (DurableStoreError ''ready stage has no claimable unit''))
        (\<lambda>(u, w).
      bindE (lease_unit u r s worker expiry current d) (\<lambda>(attempt_id, d1).
      bindE (start_revision_usage (u_owner u) (Some (u_revision u)) current d1) (\<lambda>d2.
      bindE (start_queued_workload_in_transaction (u_owner u) (w_id w) (w_state w) (w_version w) current
               ''first_unit_claimed'' d2) (\<lambda>d3.
      bindE (lease_post_init (lease_of u w s attempt_id worker expiry)) (\<lambda>lease.
      Inr (Some lease,
        d3\<lparr>scheduler_credits := select_credit (u_owner u) (w_id w) current (scheduler_credits d3)\<rparr>)))))))"

text \<open>
  With no active model reservation and no runnable candidate ahead, a stage that needs more
  tokens than remain is reported as attention instead of being leased.
\<close>

definition claim_chosen ::
  "claim_candidate \<Rightarrow> string \<Rightarrow> instant \<Rightarrow> instant \<Rightarrow> db \<Rightarrow> (lease option \<times> db) result" where
  "claim_chosen c worker expiry now d =
     (if over_limit (cc_revision c) (cc_usage c) (cc_stage c)
      then bindE (select_workload d (w_owner (cc_workload c)) (w_id (cc_workload c))) (\<lambda>row.
           bindE (automatic_workload_transition_in_transaction row W_NEEDS_ATTENTION
                    ''budget_limit_exceeded''
                    (token_details c (case model_max_tokens (cc_revision c) (cc_stage c) of
                       None \<Rightarrow> 0 | Some required \<Rightarrow> required)) (Some now) d)
             (\<lambda>(_, d'). Inr (None, d')))
      else lease_candidate c worker expiry now d)"

definition claim_next ::
  "string \<Rightarrow> instant \<Rightarrow> int \<Rightarrow> worker_capabilities \<Rightarrow> db \<Rightarrow> (lease option \<times> db) result" where
  "claim_next worker_id now lease_duration capabilities d =
     bindE (require_worker_id worker_id) (\<lambda>worker.
     bindE (require_lease_duration lease_duration) (\<lambda>duration.
     bindE (promote_due_retries_in_transaction now 1000 d) (\<lambda>(_, d1).
     case choose_candidate d1 capabilities now of
       None \<Rightarrow> Inr (None, d1)
     | Some c \<Rightarrow> claim_chosen c worker (now + duration) now d1)))"

section \<open>The row of a lease\<close>

record lease_row =
  lr_unit :: unit_row
  lr_revision :: revision_row
  lr_workload :: workload_row
  lr_usage :: usage_row
  lr_stage :: stage_row
  lr_attempt :: "attempt_row option"

definition select_lease_row :: "db \<Rightarrow> lease \<Rightarrow> lease_row option" where
  "select_lease_row d l =
     (case find (unit_at (l_owner_user_id l) (l_unit_id l)) (units d) of
        None \<Rightarrow> None
      | Some u \<Rightarrow>
        (case (find (revision_at (u_owner u) (u_revision u)) (revisions d), stage_of d u,
               find (usage_at (u_owner u) (u_revision u)) (revision_usage d)) of
           (Some r, Some s, Some us) \<Rightarrow>
             (case find (workload_at (r_owner r) (r_workload r)) (workloads d) of
                None \<Rightarrow> None
              | Some w \<Rightarrow> Some \<lparr>lr_unit = u, lr_revision = r, lr_workload = w, lr_usage = us, lr_stage = s,
                  lr_attempt = find (\<lambda>a. a_owner a = u_owner u \<and> a_id a = l_attempt_id l \<and> a_unit a = u_id u)
                    (attempts d)\<rparr>)
         | _ \<Rightarrow> None))"

definition manual_retry_of :: "attempt_row \<Rightarrow> jval" where
  "manual_retry_of a = (case jget (a_metrics a) ''manual_retry'' of None \<Rightarrow> JBool False | Some v \<Rightarrow> v)"

definition row_matches :: "lease_row \<Rightarrow> attempt_row \<Rightarrow> lease \<Rightarrow> bool" where
  "row_matches row a l \<longleftrightarrow>
     (let u = lr_unit row; s = lr_stage row in
      u_owner u = l_owner_user_id l \<and> r_workload (lr_revision row) = l_workload_id l \<and>
      u_revision u = l_revision_id l \<and> u_stage u = l_stage_id l \<and> s_key s = l_stage_key l \<and>
      u_id u = l_unit_id l \<and> u_key u = l_unit_key l \<and> u_active_attempt u = Some (l_attempt_id l) \<and>
      a_number a = l_attempt_number l \<and> u_fence u = l_fence l \<and> a_fence a = l_fence l \<and>
      u_lease_worker u = Some (l_worker_id l) \<and> a_worker a = l_worker_id l \<and>
      s_runner_kind s = l_runner_kind l \<and> s_runner_name s = l_runner_name l \<and>
      s_effect s = l_effect_profile l \<and> s_output_schema s = l_output_schema_version l \<and>
      resource_items (s_resources s) = l_resource_claims l \<and> s_retry s = l_retry_policy l \<and>
      s_timeout_s s = l_timeout_s l \<and> manual_retry_of a = JBool (l_manual_retry l))"

text \<open>\<open>_lease_matches\<close>, together with the row and the attempt it read.\<close>

definition matched_row :: "db \<Rightarrow> lease \<Rightarrow> (lease_row \<times> attempt_row) option" where
  "matched_row d l =
     (case select_lease_row d l of
        None \<Rightarrow> None
      | Some row \<Rightarrow> (case lr_attempt row of
          None \<Rightarrow> None
        | Some a \<Rightarrow> if row_matches row a l then Some (row, a) else None))"

definition lease_matches :: "db \<Rightarrow> lease \<Rightarrow> bool" where
  "lease_matches d l \<longleftrightarrow> matched_row d l \<noteq> None"

definition attempt_metrics :: "attempt_row \<Rightarrow> jobj \<Rightarrow> jobj result" where
  "attempt_metrics a updates =
     (let value = jupdate (a_metrics a) updates in
      bindE (canonical_json (JObj value) MAX_ATTEMPT_METRICS_JSON_BYTES) (\<lambda>_. Inr value))"

definition advance_usage_clock :: "instant \<Rightarrow> usage_row \<Rightarrow> usage_row" where
  "advance_usage_clock t u =
     u\<lparr>us_clock_high_water_at := (case us_clock_high_water_at u of
        None \<Rightarrow> Some t | Some h \<Rightarrow> if h < t then Some t else Some h)\<rparr>"

definition advance_revision_clock_in_transaction :: "string \<Rightarrow> ident \<Rightarrow> instant \<Rightarrow> db \<Rightarrow> db result" where
  "advance_revision_clock_in_transaction owner revision_id now_text d =
     (if count_where (usage_at owner revision_id) (revision_usage d) \<noteq> 1
      then Inl (DurableStoreError ''revision usage row is missing'')
      else Inr (d\<lparr>revision_usage := update_where (usage_at owner revision_id)
             (advance_usage_clock now_text) (revision_usage d)\<rparr>))"

section \<open>Start of execution and heartbeat\<close>

definition leased_unit_at :: "lease \<Rightarrow> unit_row \<Rightarrow> bool" where
  "leased_unit_at l u \<longleftrightarrow> unit_at (l_owner_user_id l) (l_unit_id l) u \<and>
     u_active_attempt u = Some (l_attempt_id l) \<and> u_fence u = l_fence l \<and>
     u_lease_worker u = Some (l_worker_id l)"

definition leased_attempt_at :: "lease \<Rightarrow> attempt_row \<Rightarrow> bool" where
  "leased_attempt_at l a \<longleftrightarrow> a_owner a = l_owner_user_id l \<and> a_id a = l_attempt_id l \<and>
     a_unit a = l_unit_id l \<and> a_fence a = l_fence l \<and> a_worker a = l_worker_id l \<and> a_ended_at a = None"

definition execution_clock :: "instant \<Rightarrow> jobj" where
  "execution_clock t = [(''execution_started'', JBool True), (''execution_started_at'', JInstant t)]"

text \<open>
  The two compare-and-set updates that every lease operation ends with: the attempt and its
  unit, each of which must change exactly one row.
\<close>

definition update_pair ::
  "(attempt_row \<Rightarrow> bool) \<Rightarrow> (attempt_row \<Rightarrow> attempt_row) \<Rightarrow> (unit_row \<Rightarrow> bool) \<Rightarrow> (unit_row \<Rightarrow> unit_row)
     \<Rightarrow> string \<Rightarrow> db \<Rightarrow> db result" where
  "update_pair attempt_here change_attempt unit_here change_unit failure d =
     (if count_where attempt_here (attempts d) \<noteq> 1 \<or> count_where unit_here (units d) \<noteq> 1
      then Inl (DurableStoreError failure)
      else Inr (d\<lparr>units := update_where unit_here change_unit (units d),
                  attempts := update_where attempt_here change_attempt (attempts d)\<rparr>))"

definition start_execution ::
  "lease \<Rightarrow> jobj \<Rightarrow> instant \<Rightarrow> instant \<Rightarrow> db \<Rightarrow> (lease_mutation_status \<times> db) result" where
  "start_execution l metrics expiry current d =
     bindE (update_pair
       (\<lambda>a. leased_attempt_at l a \<and> a_state a = A_LEASED) (\<lambda>a. a\<lparr>a_state := A_RUNNING, a_metrics := metrics\<rparr>)
       (\<lambda>u. leased_unit_at l u \<and> u_state u = U_LEASED)
       (\<lambda>u. u\<lparr>u_state := U_RUNNING, u_lease_expires_at := Some expiry, u_updated_at := current\<rparr>)
       ''mark-running compare-and-set failed'' d) (\<lambda>d1.
     bindE (advance_revision_clock_in_transaction (l_owner_user_id l) (l_revision_id l) current d1) (\<lambda>d2.
     Inr (LM_APPLIED, d2)))"

definition mark_running :: "lease \<Rightarrow> instant option \<Rightarrow> db \<Rightarrow> (lease_mutation_status \<times> db) result" where
  "mark_running l now d =
     (let current = operation_now d now in
      case matched_row d l of
        None \<Rightarrow> Inr (LM_STALE_FENCE, d)
      | Some (row, a) \<Rightarrow>
          if clock_regressed (us_clock_high_water_at (lr_usage row)) current then Inr (LM_LEASE_EXPIRED, d) else
          bindE (optE (u_lease_expires_at (lr_unit row)) ValueError) (\<lambda>stored_expiry.
          if stored_expiry \<le> current then Inr (LM_LEASE_EXPIRED, d)
          else if u_state (lr_unit row) = U_RUNNING \<and> a_state a = A_RUNNING then Inr (LM_ALREADY_APPLIED, d)
          else if u_state (lr_unit row) \<noteq> U_LEASED \<or> a_state a \<noteq> A_LEASED then Inr (LM_INVALID_STATE, d) else
          bindE (attempt_metrics a (execution_clock current)) (\<lambda>metrics.
          start_execution l metrics (min stored_expiry (current + l_timeout_s l * micros_per_second)) current d)))"

text \<open>
  \<open>metrics.get("execution_started_at")\<close> as an instant: \<open>None\<close> when it is no text; other text
  than an instant does not parse.
\<close>

definition execution_started_at :: "attempt_row \<Rightarrow> (instant option) result" where
  "execution_started_at a =
     (case jget (a_metrics a) ''execution_started_at'' of
        Some (JInstant t) \<Rightarrow> Inr (Some t)
      | Some (JStr _) \<Rightarrow> Inl ValueError
      | _ \<Rightarrow> Inr None)"

definition execution_deadline :: "lease \<Rightarrow> instant \<Rightarrow> instant" where
  "execution_deadline l started = started + l_timeout_s l * micros_per_second"

definition extend_lease ::
  "lease \<Rightarrow> instant \<Rightarrow> instant \<Rightarrow> instant \<Rightarrow> db \<Rightarrow> (lease_mutation_status \<times> db) result" where
  "extend_lease l expiry stored_expiry current d =
     (let here = (\<lambda>u. leased_unit_at l u \<and> u_state u \<in> {U_LEASED, U_RUNNING} \<and>
            (case u_lease_expires_at u of None \<Rightarrow> False | Some e \<Rightarrow> e > current))
      in
      if expiry \<le> stored_expiry then Inl ValueError
      else if count_where here (units d) \<noteq> 1 then Inl (DurableStoreError ''heartbeat compare-and-set failed'')
      else
        bindE (advance_revision_clock_in_transaction (l_owner_user_id l) (l_revision_id l) current
          (d\<lparr>units := update_where here
               (\<lambda>u. u\<lparr>u_lease_expires_at := Some expiry, u_updated_at := current\<rparr>) (units d)\<rparr>)) (\<lambda>d'.
        Inr (LM_APPLIED, d')))"

definition heartbeat ::
  "lease \<Rightarrow> instant \<Rightarrow> instant option \<Rightarrow> db \<Rightarrow> (lease_mutation_status \<times> db) result" where
  "heartbeat l new_expiry now d =
     (let current = operation_now d now in
      bindE (require_lease_duration (new_expiry - current)) (\<lambda>_.
      case matched_row d l of
        None \<Rightarrow> Inr (LM_STALE_FENCE, d)
      | Some (row, a) \<Rightarrow>
          if clock_regressed (us_clock_high_water_at (lr_usage row)) current then Inr (LM_LEASE_EXPIRED, d)
          else if u_state (lr_unit row) \<notin> {U_LEASED, U_RUNNING} then Inr (LM_INVALID_STATE, d) else
          bindE (optE (u_lease_expires_at (lr_unit row)) ValueError) (\<lambda>stored_expiry.
          if stored_expiry \<le> current then Inr (LM_LEASE_EXPIRED, d)
          else if u_state (lr_unit row) = U_RUNNING then
            bindE (execution_started_at a) (\<lambda>started.
            case started of
              None \<Rightarrow> Inr (LM_INVALID_STATE, d)
            | Some t \<Rightarrow> if new_expiry > execution_deadline l t then Inl ValueError
                        else extend_lease l new_expiry stored_expiry current d)
          else extend_lease l new_expiry stored_expiry current d)))"

section \<open>Transactions\<close>

lemma promote_unit_idle: "due_retry t u \<Longrightarrow> idle_change u (promote_unit t u)"
  by (auto simp: idle_change_def due_retry_def promote_unit_def live_unit_def unit_evolves_def
      fence_evolves_def TERMINAL_UNIT_STATES_def)

lemma promote_retry_txn: "promote_retry t row d = Inr d' \<Longrightarrow> txn d d'"
  unfolding promote_retry_def Let_def
  by (auto split: if_splits intro!: txn_idle_units promote_unit_idle)

lemma promote_due_retries_txn: "promote_due_retries_in_transaction t n d = Inr (k, d') \<Longrightarrow> txn d d'"
  unfolding promote_due_retries_in_transaction_def Let_def
  using foldE_txn [where the_db = "\<lambda>d. d" and g = "promote_retry t", OF _ promote_retry_txn]
  by (auto simp: tx_simps)

lemma start_queued_txn:
  assumes "start_queued_workload_in_transaction owner wid state version t reason d = Inr d'"
  shows "txn d d'"
proof (cases "state = W_QUEUED")
  case True
  let ?here = "\<lambda>w. workload_at owner wid w \<and> w_state w = W_QUEUED \<and> w_version w = version"
  let ?f = "\<lambda>w. w\<lparr>w_state := W_RUNNING, w_version := w_version w + 1, w_updated_at := t\<rparr>"
  have "txn d (d\<lparr>workloads := update_where ?here ?f (workloads d)\<rparr>)"
    by (rule txn_workloads) (auto simp: workload_evolves_def workload_edge_def)
  moreover have "txn (d\<lparr>workloads := update_where ?here ?f (workloads d)\<rparr>) d'"
    using assms True unfolding start_queued_workload_in_transaction_def Let_def
    by (auto simp: tx_simps split: if_splits prod.splits intro: append_event_txn)
  ultimately show ?thesis by (rule txn_trans)
next
  case False
  with assms show ?thesis by (simp add: start_queued_workload_in_transaction_def)
qed

lemma advance_usage_evolves: "usage_evolves u (advance_usage_clock t u)"
  by (auto simp: usage_evolves_def advance_usage_clock_def split: option.splits)

lemma advance_revision_clock_txn:
  "advance_revision_clock_in_transaction owner rid t d = Inr d' \<Longrightarrow> txn d d'"
  unfolding advance_revision_clock_in_transaction_def
  by (auto split: if_splits intro!: txn_usage advance_usage_evolves)

lemma claimed_lease_start:
  assumes "u_state u \<in> {U_PENDING, U_NEEDS_ATTENTION}"
  shows "lease_start u (claimed_unit u r aid worker expiry t) (claimed_attempt u s aid worker t)"
  using assms by (auto simp: lease_start_def claimed_unit_def claimed_attempt_def unit_evolves_def
      fence_evolves_def live_unit_def attempt_of_def TERMINAL_UNIT_STATES_def)

lemma lease_unit_effect:
  assumes run: "lease_unit u r s worker expiry t d = Inr (aid, d')" and u: "u \<in> set (units d)"
    and ready: "attention_retry u \<Longrightarrow> u_manual_retry_generation u < r_manual_retry_generation r"
  shows "(\<forall>b \<in> set (attempts d). attempt_pk b \<noteq> (u_owner u, aid)) \<and>
    new_id ''att'' d = (aid, d\<lparr>uuid_count := uuid_count d + 1\<rparr>) \<and>
    d' = d\<lparr>uuid_count := uuid_count d + 1, attempts := attempts d @ [claimed_attempt u s aid worker t],
      units := update_where (\<lambda>v. v = u) (\<lambda>_. claimed_unit u r aid worker expiry t) (units d)\<rparr>"
proof -
  define here where "here v \<longleftrightarrow> unit_at (u_owner u) (u_id u) v \<and> u_state v = u_state u \<and>
      u_attempt_count v = u_attempt_count u \<and> u_fence v = u_fence u \<and>
      (\<not> token_retry u \<or> u_manual_retry_tokens v > 0) \<and>
      (\<not> attention_retry u \<or> u_manual_retry_generation v < r_manual_retry_generation r)" for v
  have "here u"
    using ready by (auto simp: here_def unit_at_def token_retry_def)
  moreover from run have *: "count_where here (units d) = 1"
    "\<forall>b \<in> set (attempts d). attempt_pk b \<noteq> (u_owner u, aid)"
    "new_id ''att'' d = (aid, d\<lparr>uuid_count := uuid_count d + 1\<rparr>)"
    "d' = d\<lparr>uuid_count := uuid_count d + 1, attempts := attempts d @ [claimed_attempt u s aid worker t],
      units := update_where here (\<lambda>v. claimed_unit v r aid worker expiry t) (units d)\<rparr>"
    unfolding lease_unit_def Let_def new_id_def insert_attempt_def here_def [abs_def]
    by (auto simp: tx_simps claimed_attempt_def split: if_splits)
  ultimately show ?thesis
    using update_where_row [OF _ u, of here] by simp
qed

lemma lease_unit_txn:
  assumes run: "lease_unit u r s worker expiry t d = Inr (aid, d')" and u: "u \<in> set (units d)"
    and ready: "ready_unit d r s t u"
  shows "txn d d'"
proof -
  have state: "u_state u \<in> {U_PENDING, U_NEEDS_ATTENTION}"
    and att: "attention_retry u \<Longrightarrow> u_manual_retry_generation u < r_manual_retry_generation r"
    using ready by (auto simp: ready_unit_def attention_retry_def)
  let ?d = "d\<lparr>uuid_count := uuid_count d + 1\<rparr>"
  have "txn ?d (?d\<lparr>attempts := attempts ?d @ [claimed_attempt u s aid worker t],
      units := update_where (\<lambda>v. v = u) (\<lambda>_. claimed_unit u r aid worker expiry t) (units ?d)\<rparr>)"
    using lease_unit_effect [OF run u att] u
    by (intro txn_lease_start claimed_lease_start [OF state]) (auto simp: claimed_attempt_def)
  then show ?thesis
    using lease_unit_effect [OF run u att] txn_trans [of d ?d d'] by simp
qed

lemma claimable_unitD:
  assumes "claimable_unit d r s t = Some (u, w)"
  shows "u \<in> set (units d)" and "ready_unit d r s t u" and "w \<in> set (workloads d)"
    and "workload_at (r_owner r) (r_workload r) w" and "w_active_revision w = Some (r_id r)"
proof -
  from assms obtain us where rows: "order_limit (\<lambda>u. (u_next_attempt_at u, u_created_at u, u_key u)) 1
        (filter (ready_unit d r s t) (units d)) = u # us"
    and w: "find (\<lambda>w. workload_at (r_owner r) (r_workload r) w \<and> w_active_revision w = Some (r_id r)) (workloads d) = Some w"
    by (auto simp: claimable_unit_def split: list.splits option.splits)
  have "u \<in> set (filter (ready_unit d r s t) (units d))"
    using rows set_order_limit by (metis list.set_intros(1) subsetD)
  then show "u \<in> set (units d)" and "ready_unit d r s t u" by simp_all
  show "w \<in> set (workloads d)" and "workload_at (r_owner r) (r_workload r) w"
    and "w_active_revision w = Some (r_id r)"
    using find_SomeD [OF w] by simp_all
qed

lemma lease_candidate_txn:
  assumes "lease_candidate c worker expiry t d = Inr (l, d')"
  shows "txn d d'"
proof -
  obtain u w aid d1 d2 d3 where 0: "claimable_unit d (cc_revision c) (cc_stage c) t = Some (u, w)"
    and 1: "lease_unit u (cc_revision c) (cc_stage c) worker expiry t d = Inr (aid, d1)"
    and 2: "start_revision_usage (u_owner u) (Some (u_revision u)) t d1 = Inr d2"
    and 3: "start_queued_workload_in_transaction (u_owner u) (w_id w) (w_state w) (w_version w) t
      ''first_unit_claimed'' d2 = Inr d3"
    and 4: "d' = d3\<lparr>scheduler_credits := select_credit (u_owner u) (w_id w) t (scheduler_credits d3)\<rparr>"
    using assms unfolding lease_candidate_def Let_def by (auto simp: tx_simps split: prod.splits)
  have "txn d d1"
    by (rule lease_unit_txn [OF 1 claimable_unitD(1,2) [OF 0]])
  then show ?thesis
    unfolding 4 using start_revision_usage_txn [OF 2] start_queued_txn [OF 3]
    by (blast intro: txn_trans txn_untracked(1))
qed

lemma claim_chosen_txn: "claim_chosen c worker expiry now d = Inr (l, d') \<Longrightarrow> txn d d'"
  unfolding claim_chosen_def
  by (auto simp: tx_simps split: if_splits dest: lease_candidate_txn automatic_transition_txn)

lemma claim_next_txn: "claim_next worker now duration caps d = Inr (l, d') \<Longrightarrow> txn d d'"
  unfolding claim_next_def
  by (auto simp: tx_simps split: option.splits
      dest!: promote_due_retries_txn claim_chosen_txn intro: txn_trans)

text \<open>A matching lease names the live pair of its unit and its attempt.\<close>

lemma matched_rowD:
  assumes "matched_row d l = Some (row, a)"
  shows "lr_unit row \<in> set (units d)" and "a \<in> set (attempts d)" and "attempt_of (lr_unit row) a"
    and "leased_unit_at l (lr_unit row)" and "row_matches row a l"
    and "a_owner a = l_owner_user_id l" and "a_id a = l_attempt_id l" and "a_unit a = l_unit_id l"
    and "a_fence a = l_fence l" and "a_worker a = l_worker_id l"
proof -
  from assms have row: "select_lease_row d l = Some row" and att: "lr_attempt row = Some a"
    and m: "row_matches row a l"
    by (auto simp: matched_row_def split: option.splits if_splits)
  from row have u: "find (unit_at (l_owner_user_id l) (l_unit_id l)) (units d) = Some (lr_unit row)"
    and a: "lr_attempt row = find (\<lambda>a. a_owner a = u_owner (lr_unit row) \<and> a_id a = l_attempt_id l \<and>
      a_unit a = u_id (lr_unit row)) (attempts d)"
    by (auto simp: select_lease_row_def split: option.splits)
  note a' = find_SomeD [OF att [unfolded a]]
  show "lr_unit row \<in> set (units d)" using find_SomeD [OF u] by simp
  show "a \<in> set (attempts d)" using a' by simp
  show "row_matches row a l" by (rule m)
  show "leased_unit_at l (lr_unit row)" "attempt_of (lr_unit row) a"
    using m a' by (auto simp: row_matches_def Let_def leased_unit_at_def unit_at_def attempt_of_def)
  show "a_owner a = l_owner_user_id l" "a_id a = l_attempt_id l" "a_unit a = l_unit_id l"
    "a_fence a = l_fence l" "a_worker a = l_worker_id l"
    using m a' by (auto simp: row_matches_def Let_def)
qed

text \<open>Under the invariant the pair of a live unit is leased alike.\<close>

lemma held_pair:
  assumes ok: "store_ok d" and row: "matched_row d l = Some (row, a)"
    and live: "u_state (lr_unit row) \<in> {U_LEASED, U_RUNNING}"
  shows "leased_alike (lr_unit row) a \<and> attempt_of (lr_unit row) a \<and> a_ended_at a = None \<and> live_attempt a \<and>
    u_lease_expires_at (lr_unit row) \<noteq> None"
proof -
  let ?u = "lr_unit row"
  note r = matched_rowD [OF row]
  have "\<not> idle_unit ?u" using live by (auto simp: idle_unit_def live_unit_def)
  then obtain b where b: "b \<in> set (attempts d)" "attempt_of ?u b" "leased_alike ?u b" "u_lease_expires_at ?u \<noteq> None"
    using ok leases_okD(1) [of "units d" "attempts d" ?u] r(1) by (auto simp: store_ok_def)
  moreover have "b = a"
    using ok b r(2,3) pk_unique(2) [of "attempts d" a b] by (auto simp: store_ok_def keys_ok_def attempt_of_def)
  moreover from this have "live_attempt a" using b leased_alike_live by blast
  ultimately show ?thesis
    using ok r(2,3) by (auto simp: store_ok_def attempts_ok_def)
qed

lemma update_pair_effect:
  assumes run: "update_pair PA fa PU fu msg d = Inr d'"
    and "u \<in> set (units d)" "a \<in> set (attempts d)" "PU u" "PA a"
  shows "d' = put_pair u (fu u) a (fa a) d"
  using assms update_where_row [of PU "units d" u fu] update_where_row [of PA "attempts d" a fa]
  by (auto simp: update_pair_def split: if_splits)

lemma update_pair_txn:
  assumes "update_pair PA fa PU fu msg d = Inr d'"
    and "u \<in> set (units d)" "a \<in> set (attempts d)" "PU u" "PA a"
    and "attempt_of u a" "pair_step u a (fu u) (fa a)" "u_state u \<noteq> U_COMMITTED" "u_state (fu u) \<noteq> U_COMMITTED"
      "u_committed_result (fu u) = u_committed_result u"
  shows "txn d d'"
  unfolding update_pair_effect [OF assms(1-5)] using assms(2,3,6-) by (intro txn_pair)

lemma start_execution_txn:
  assumes run: "start_execution l m expiry t d = Inr (st, d')" and ok: "store_ok d"
    and row: "matched_row d l = Some (row, a)" and states: "u_state (lr_unit row) = U_LEASED" "a_state a = A_LEASED"
  shows "txn d d'"
proof -
  note r = matched_rowD [OF row] and h = held_pair [OF ok row]
  obtain d1 where 1: "update_pair
       (\<lambda>a. leased_attempt_at l a \<and> a_state a = A_LEASED) (\<lambda>a. a\<lparr>a_state := A_RUNNING, a_metrics := m\<rparr>)
       (\<lambda>u. leased_unit_at l u \<and> u_state u = U_LEASED)
       (\<lambda>u. u\<lparr>u_state := U_RUNNING, u_lease_expires_at := Some expiry, u_updated_at := t\<rparr>)
       ''mark-running compare-and-set failed'' d = Inr d1"
    and 2: "txn d1 d'"
    using run by (auto simp: start_execution_def tx_simps dest: advance_revision_clock_txn)
  have "txn d d1"
    by (rule update_pair_txn [OF 1 r(1,2)])
      (use r h states in \<open>auto simp: leased_attempt_at_def pair_step_def unit_evolves_def attempt_evolves_def
        fence_evolves_def live_unit_def live_attempt_def attempt_of_def leased_alike_def TERMINAL_UNIT_STATES_def\<close>)
  then show ?thesis using 2 by (rule txn_trans)
qed

lemma mark_running_txn:
  assumes "mark_running l now d = Inr (st, d')" and ok: "store_ok d"
  shows "txn d d'"
proof (cases "matched_row d l")
  case None
  with assms show ?thesis by (simp add: mark_running_def Let_def)
next
  case (Some p)
  obtain row a where p: "matched_row d l = Some (row, a)" using Some by (cases p) auto
  with assms show ?thesis
    by (auto simp: mark_running_def Let_def tx_simps split: if_splits intro: start_execution_txn)
qed

lemma extend_lease_txn:
  assumes run: "extend_lease l expiry stored t d = Inr (st, d')"
    and row: "matched_row d l = Some (row, a)" and live: "u_state (lr_unit row) \<in> {U_LEASED, U_RUNNING}"
    and stored: "u_lease_expires_at (lr_unit row) = Some stored" "t < stored" and ok: "store_ok d"
  shows "txn d d'"
proof -
  let ?u = "lr_unit row"
  define PU where "PU u \<longleftrightarrow> leased_unit_at l u \<and> u_state u \<in> {U_LEASED, U_RUNNING} \<and>
    (case u_lease_expires_at u of None \<Rightarrow> False | Some e \<Rightarrow> e > t)" for u
  let ?u' = "?u\<lparr>u_lease_expires_at := Some expiry, u_updated_at := t\<rparr>"
  note r = matched_rowD [OF row]
  have here: "PU ?u"
    using r live stored by (auto simp: PU_def)
  have "pair_step ?u a ?u' a"
    using held_pair [OF ok row live] by (auto simp: pair_step_def unit_evolves_def attempt_evolves_def
        fence_evolves_def attempt_of_def leased_alike_def live_unit_def)
  then have "txn d (put_pair ?u ?u' a a d)"
    using r(1-3) live by (intro txn_pair) auto
  moreover from run have *: "count_where PU (units d) = 1"
    "advance_revision_clock_in_transaction (l_owner_user_id l) (l_revision_id l) t
       (d\<lparr>units := update_where PU (\<lambda>u. u\<lparr>u_lease_expires_at := Some expiry, u_updated_at := t\<rparr>) (units d)\<rparr>) = Inr d'"
    unfolding extend_lease_def Let_def PU_def [abs_def]
    by (auto simp: tx_simps split: if_splits)
  ultimately show ?thesis
    using update_where_row [OF *(1) r(1) here]
    by (auto dest: advance_revision_clock_txn intro: txn_trans)
qed

lemma heartbeat_txn:
  assumes "heartbeat l expiry now d = Inr (st, d')" and ok: "store_ok d"
  shows "txn d d'"
proof (cases "matched_row d l")
  case None
  with assms show ?thesis by (auto simp: heartbeat_def Let_def tx_simps)
next
  case (Some p)
  obtain row a where p: "matched_row d l = Some (row, a)" using Some by (cases p) auto
  with assms show ?thesis
    by (auto simp: heartbeat_def Let_def tx_simps not_le split: if_splits option.splits
        intro: extend_lease_txn)
qed

end
