(* ===== verification/Attempts.thy ===== *)
theory Attempts
  imports Leasing
begin

text \<open>
  The outcome of an attempt (\<open>storage.py\<close>, with the contracts of \<open>coordinator.py\<close> and
  \<open>domain_outcome.py\<close>): the frozen facts and the model usage of a running attempt, the
  commit of its result, its failure, its abandonment, and the reconciliation of leases that
  have expired.
\<close>

section \<open>Results and structured errors\<close>

definition ERROR_SCHEMA_VERSION :: string where "ERROR_SCHEMA_VERSION = ''metnos.durable-error/1''"
definition MAX_ERROR_JSON_BYTES :: int where "MAX_ERROR_JSON_BYTES = 65536"
definition MAX_DOMAIN_ERRORS :: int where "MAX_DOMAIN_ERRORS = 1000000"
definition MAX_DOMAIN_ERROR_CODES :: nat where "MAX_DOMAIN_ERROR_CODES = 20"

definition has_keys :: "jobj \<Rightarrow> string list \<Rightarrow> bool" where
  "has_keys obj ks \<longleftrightarrow> set (map fst obj) = set ks"

definition completion_outcome :: "jobj \<Rightarrow> (string option) result" where
  "completion_outcome payload =
     (case jget payload ''completion_outcome'' of
        None \<Rightarrow> Inr None
      | Some (JStr value) \<Rightarrow>
          if value \<in> set [''no_changes'', ''changes_applied''] then Inr (Some value) else Inl SchemaValidationError
      | Some _ \<Rightarrow> Inl SchemaValidationError)"

definition error_count_ok :: "string \<times> jval \<Rightarrow> bool" where
  "error_count_ok kv \<longleftrightarrow> error_code_re (fst kv) \<and>
     (case snd kv of JInt n \<Rightarrow> 1 \<le> n \<and> n \<le> MAX_DOMAIN_ERRORS | _ \<Rightarrow> False)"

definition count_value :: "jval \<Rightarrow> int" where
  "count_value v = (case v of JInt n \<Rightarrow> n | _ \<Rightarrow> 0)"

definition domain_outcome :: "jobj \<Rightarrow> (jobj option) result" where
  "domain_outcome payload =
     (case jget payload ''domain_outcome'' of
        None \<Rightarrow> Inr None
      | Some (JObj value) \<Rightarrow>
          if \<not> has_keys value [''version'', ''error_counts''] \<or> jget value ''version'' \<noteq> Some (JInt 1)
          then Inl SchemaValidationError
          else (case jget value ''error_counts'' of
              Some (JObj counts) \<Rightarrow>
                if length counts > MAX_DOMAIN_ERROR_CODES \<or> \<not> list_all error_count_ok counts \<or>
                   sum_list (map (count_value \<circ> snd) counts) > MAX_DOMAIN_ERRORS
                then Inl SchemaValidationError
                else Inr (Some [(''version'', JInt 1), (''error_counts'', JObj counts)])
            | _ \<Rightarrow> Inl SchemaValidationError)
      | Some _ \<Rightarrow> Inl SchemaValidationError)"

definition domain_detail :: "jobj option \<Rightarrow> jobj" where
  "domain_detail outcome =
     (case outcome of
        None \<Rightarrow> []
      | Some value \<Rightarrow> (case jget value ''error_counts'' of
          Some (JObj (c # cs)) \<Rightarrow> [(''domain_outcome'', JObj value)] | _ \<Rightarrow> []))"

definition domain_terminal_detail :: "jobj \<Rightarrow> (jobj option) result" where
  "domain_terminal_detail payload =
     bindE (domain_outcome payload) (\<lambda>outcome.
     bindE (completion_outcome payload) (\<lambda>completion.
     let detail = domain_detail outcome @
           (case completion of None \<Rightarrow> [] | Some c \<Rightarrow> [(''completion_outcome'', JStr c)]);
         document = (''schema_version'', JStr ''metnos.durable-unit-terminal/1'') # detail
     in if detail = [] then Inr None
        else bindE (canonical_json (JObj document) 65536) (\<lambda>_. Inr (Some document))))"

record validated_result =
  vr_schema_version :: string
  vr_payload :: jobj
  vr_digest :: string

definition canonical_result ::
  "(string \<Rightarrow> string) \<Rightarrow> string \<Rightarrow> jobj \<Rightarrow> (string \<times> string) result" where
  "canonical_result sha schema_version payload =
     (if \<not> schema_re schema_version then Inl SchemaValidationError else
      bindE (canonical_json (JObj payload) max_result_json_bytes) (\<lambda>payload_json.
      bindE (digest_json sha ''durable-result''
               (JObj [(''schema_version'', JStr schema_version), (''payload'', JObj payload)])
               max_result_json_bytes) (\<lambda>digest.
      Inr (payload_json, digest))))"

text \<open>\<open>from_payload\<close> and the checks of \<open>__post_init__\<close>.\<close>

definition validated_result_from_payload ::
  "(string \<Rightarrow> string) \<Rightarrow> string \<Rightarrow> jobj \<Rightarrow> validated_result result" where
  "validated_result_from_payload sha schema_version payload =
     bindE (canonical_result sha schema_version payload) (\<lambda>(_, digest).
     bindE (domain_outcome payload) (\<lambda>_.
     bindE (completion_outcome payload) (\<lambda>_.
     Inr \<lparr>vr_schema_version = schema_version, vr_payload = payload, vr_digest = digest\<rparr>)))"

record structured_error =
  se_error_class :: string
  se_payload :: jobj

definition structured_error_fields :: "string list" where
  "structured_error_fields =
     [''schema_version'', ''error_class'', ''code'', ''message_key'', ''retry'', ''scope'',
      ''details_redacted'', ''occurred_at'']"

definition jstr_matches :: "jobj \<Rightarrow> string \<Rightarrow> (string \<Rightarrow> bool) \<Rightarrow> bool" where
  "jstr_matches obj k P = (case jget obj k of Some (JStr s) \<Rightarrow> P s | _ \<Rightarrow> False)"

definition structured_error_post_init :: "structured_error \<Rightarrow> structured_error result" where
  "structured_error_post_init e =
     (let v = se_payload e in
      if \<not> error_class_re (se_error_class e) then Inl SchemaValidationError
      else if \<not> has_keys v structured_error_fields
        \<or> jget v ''schema_version'' \<noteq> Some (JStr ERROR_SCHEMA_VERSION)
        \<or> jget v ''error_class'' \<noteq> Some (JStr (se_error_class e))
        \<or> se_error_class e \<notin> set ERROR_CLASSES
        \<or> \<not> jstr_matches v ''code'' error_code_re \<or> \<not> jstr_matches v ''message_key'' message_key_re
        \<or> \<not> jstr_matches v ''retry'' (\<lambda>m. m \<in> set ERROR_RETRY_MODES)
        \<or> jget v ''scope'' \<noteq> Some (JStr ''attempt'')
        \<or> (case jget v ''details_redacted'' of Some (JObj details) \<Rightarrow> length details > 32 | _ \<Rightarrow> True)
      then Inl SchemaValidationError
      else bindE (canonical_json (JObj v) MAX_ERROR_JSON_BYTES) (\<lambda>_.
        case jget v ''occurred_at'' of Some (JInstant _) \<Rightarrow> Inr e | _ \<Rightarrow> Inl ValueError))"

definition structured_error_create ::
  "string \<Rightarrow> string \<Rightarrow> string \<Rightarrow> string \<Rightarrow> instant \<Rightarrow> jobj \<Rightarrow> structured_error result" where
  "structured_error_create error_class code message_key retry occurred_at details =
     (if error_class \<notin> set ERROR_CLASSES \<or> \<not> error_code_re code \<or> \<not> message_key_re message_key
         \<or> retry \<notin> set ERROR_RETRY_MODES \<or> length details > 32
      then Inl SchemaValidationError
      else structured_error_post_init
        \<lparr>se_error_class = error_class,
         se_payload =
           [(''schema_version'', JStr ERROR_SCHEMA_VERSION), (''error_class'', JStr error_class),
            (''code'', JStr code), (''message_key'', JStr message_key), (''retry'', JStr retry),
            (''scope'', JStr ''attempt''), (''details_redacted'', JObj details),
            (''occurred_at'', JInstant occurred_at)]\<rparr>)"

section \<open>Model usage\<close>

definition MAX_LLM_USAGE_RECORDS :: nat where "MAX_LLM_USAGE_RECORDS = 256"
definition MAX_LLM_CALL_COUNTER :: int where "MAX_LLM_CALL_COUNTER = 1000000000000"

definition model_usage_label_re :: "string \<Rightarrow> bool" where
  "model_usage_label_re = matches_class is_alnum worker_char 0 63"

definition usage_fields :: "string list" where
  "usage_fields = [''schema_version'', ''records'', ''dropped'', ''input_tokens'', ''output_tokens'',
     ''cost_micros'', ''usage_missing'', ''cost_unknown'', ''zero_calls_verified'']"

definition usage_record_fields :: "string list" where
  "usage_record_fields = [''schema_version'', ''workload_id'', ''stage_id'', ''unit_key'', ''attempt_id'',
     ''provider'', ''model_digest'', ''tier'', ''kind'', ''in_tokens'', ''out_tokens'', ''latency_ms'',
     ''cost_micros'']"

definition jbool_of :: "jobj \<Rightarrow> string \<Rightarrow> bool option" where
  "jbool_of obj k = (case jget obj k of Some (JBool b) \<Rightarrow> Some b | _ \<Rightarrow> None)"

text \<open>\<open>value["records"]\<close> as objects: \<open>None\<close> when it is no list, an element \<open>None\<close> when it is no object.\<close>

definition usage_records :: "jobj \<Rightarrow> (jobj option) list option" where
  "usage_records value =
     (case jget value ''records'' of
        Some (JArr items) \<Rightarrow> Some (map (\<lambda>v. case v of JObj obj \<Rightarrow> Some obj | _ \<Rightarrow> None) items)
      | _ \<Rightarrow> None)"

definition optional_counter :: "jobj \<Rightarrow> string \<Rightarrow> bool" where
  "optional_counter item k =
     (case jget item k of None \<Rightarrow> True | Some JNull \<Rightarrow> True
      | Some (JInt n) \<Rightarrow> 0 \<le> n \<and> n \<le> MAX_LLM_CALL_COUNTER | _ \<Rightarrow> False)"

definition usage_record_ok :: "lease \<Rightarrow> jobj \<Rightarrow> bool" where
  "usage_record_ok l item \<longleftrightarrow> has_keys item usage_record_fields \<and>
     jget item ''schema_version'' = Some (JStr ''metnos.durable-llm-call/1'') \<and>
     jget item ''workload_id'' = Some (JStr (l_workload_id l)) \<and>
     jget item ''stage_id'' = Some (JStr (l_stage_id l)) \<and>
     jget item ''unit_key'' = Some (JStr (l_unit_key l)) \<and>
     jget item ''attempt_id'' = Some (JStr (l_attempt_id l)) \<and>
     jstr_matches item ''provider'' (\<lambda>s. 1 \<le> length s \<and> length s \<le> 64 \<and> model_usage_label_re s) \<and>
     jstr_matches item ''model_digest'' sha256_re \<and>
     jstr_matches item ''tier'' (\<lambda>s. length s \<le> 32 \<and> (s = [] \<or> model_usage_label_re s)) \<and>
     jstr_matches item ''kind'' (\<lambda>s. 1 \<le> length s \<and> length s \<le> 32 \<and> model_usage_label_re s) \<and>
     list_all (optional_counter item) [''in_tokens'', ''out_tokens'', ''latency_ms'', ''cost_micros'']"

definition counter_of :: "jobj \<Rightarrow> string \<Rightarrow> int" where
  "counter_of item k = (case jget item k of Some (JInt n) \<Rightarrow> n | _ \<Rightarrow> 0)"

definition counter_missing :: "jobj \<Rightarrow> string \<Rightarrow> bool" where
  "counter_missing item k = (case jget item k of Some (JInt n) \<Rightarrow> False | _ \<Rightarrow> True)"

definition sum_counter :: "string \<Rightarrow> jobj list \<Rightarrow> int" where
  "sum_counter k items = sum_list (map (\<lambda>item. counter_of item k) items)"

definition usage_aggregates_ok :: "jobj \<Rightarrow> jobj list \<Rightarrow> bool" where
  "usage_aggregates_ok value records \<longleftrightarrow>
     (let dropped = counter_of value ''dropped''; zero = jbool_of value ''zero_calls_verified'' = Some True;
          missing = (records = [] \<and> \<not> zero) \<or> dropped > 0 \<or>
            list_ex (\<lambda>i. counter_missing i ''in_tokens'' \<or> counter_missing i ''out_tokens'') records
      in counter_of value ''input_tokens'' = sum_counter ''in_tokens'' records \<and>
         counter_of value ''output_tokens'' = sum_counter ''out_tokens'' records \<and>
         counter_of value ''cost_micros'' = sum_counter ''cost_micros'' records \<and>
         jbool_of value ''usage_missing'' = Some missing \<and>
         jbool_of value ''cost_unknown'' = Some (list_ex (\<lambda>i. counter_missing i ''cost_micros'') records) \<and>
         \<not> (zero \<and> (records \<noteq> [] \<or> dropped \<noteq> 0)))"

definition usage_summary_ok :: "jobj \<Rightarrow> bool" where
  "usage_summary_ok value \<longleftrightarrow> has_keys value usage_fields \<and>
     jget value ''schema_version'' = Some (JStr ''metnos.durable-model-usage/2'') \<and>
     (case usage_records value of None \<Rightarrow> False | Some rs \<Rightarrow> length rs \<le> MAX_LLM_USAGE_RECORDS) \<and>
     list_all (\<lambda>k. jint_between value k 0 SQLITE_INTEGER_MAX)
       [''dropped'', ''input_tokens'', ''output_tokens'', ''cost_micros''] \<and>
     list_all (\<lambda>k. jbool_of value k \<noteq> None) [''usage_missing'', ''cost_unknown'', ''zero_calls_verified'']"

definition records_of :: "jobj \<Rightarrow> jobj list" where
  "records_of value = (case usage_records value of None \<Rightarrow> []
     | Some rs \<Rightarrow> concat (map (\<lambda>r. case r of None \<Rightarrow> [] | Some obj \<Rightarrow> [obj]) rs))"

definition validated_attempt_usage :: "jobj \<Rightarrow> lease \<Rightarrow> jobj result" where
  "validated_attempt_usage value l =
     (if \<not> usage_summary_ok value then Inl ModelUsageContractError
      else if (case usage_records value of None \<Rightarrow> True
               | Some rs \<Rightarrow> \<not> list_all (\<lambda>r. case r of None \<Rightarrow> False | Some item \<Rightarrow> usage_record_ok l item) rs)
      then Inl ModelUsageContractError
      else if \<not> usage_aggregates_ok value (records_of value) then Inl ModelUsageContractError
      else Inr value)"

definition model_snapshot_fields :: "string list" where
  "model_snapshot_fields = [''schema_version'', ''mode'', ''runner_name'', ''binding_digest'',
     ''prompt_digest'', ''prompt_language'', ''provider'', ''model_digest'', ''tier'', ''kind'',
     ''max_calls'', ''max_input_tokens'', ''max_output_tokens'', ''cost_policy'']"

definition call_within_snapshot :: "jobj \<Rightarrow> jobj \<Rightarrow> bool" where
  "call_within_snapshot model record_item \<longleftrightarrow>
     list_all (\<lambda>k. jget record_item k = jget model k) [''provider'', ''model_digest'', ''tier'', ''kind''] \<and>
     counter_of record_item ''in_tokens'' \<le> jint_value model ''max_input_tokens'' \<and>
     counter_of record_item ''out_tokens'' \<le> jint_value model ''max_output_tokens'' \<and>
     jget record_item ''cost_micros'' = Some (JInt 0)"

definition validate_usage_against_model_snapshot :: "jobj \<Rightarrow> jobj \<Rightarrow> unit result" where
  "validate_usage_against_model_snapshot usage model =
     (if \<not> has_keys model model_snapshot_fields
         \<or> jget model ''schema_version'' \<noteq> Some (JStr ''metnos.durable-model-snapshot/2'')
         \<or> jget model ''mode'' \<noteq> Some (JStr ''llm'')
      then Inl ModelUsageContractError
      else if \<not> jint_between model ''max_calls'' 1 64
         \<or> \<not> jint_between model ''max_input_tokens'' 1 16777216
         \<or> \<not> jint_between model ''max_output_tokens'' 1 1000000
         \<or> jget model ''cost_policy'' \<noteq> Some (JStr ''zero'')
      then Inl ModelUsageContractError
      else if int (length (records_of usage)) + counter_of usage ''dropped'' > jint_value model ''max_calls''
      then Inl ModelUsageContractError
      else if \<not> list_all (call_within_snapshot model) (records_of usage) then Inl ModelUsageContractError
      else Inr ())"

section \<open>Facts of a running attempt\<close>

text \<open>
  The guards shared by the operations of a running attempt: both rows running, a clock that
  has not regressed, and a lease that has not expired.
\<close>

definition running_guard :: "lease_row \<Rightarrow> attempt_row \<Rightarrow> instant \<Rightarrow> (lease_mutation_status option) result" where
  "running_guard row a current =
     (if u_state (lr_unit row) \<noteq> U_RUNNING \<or> a_state a \<noteq> A_RUNNING then Inr (Some LM_INVALID_STATE)
      else if clock_regressed (us_clock_high_water_at (lr_usage row)) current then Inr (Some LM_LEASE_EXPIRED) else
      bindE (optE (u_lease_expires_at (lr_unit row)) ValueError) (\<lambda>expiry.
      Inr (if expiry \<le> current then Some LM_LEASE_EXPIRED else None)))"

text \<open>A guard that may refuse with a status, and what runs when it does not.\<close>

definition guardE :: "('e + 's option) \<Rightarrow> ('s \<Rightarrow> 'a) \<Rightarrow> 'e + 'a \<Rightarrow> 'e + 'a" where
  "guardE g refuse proceed =
     bindE g (\<lambda>refused. case refused of Some status \<Rightarrow> Inr (refuse status) | None \<Rightarrow> proceed)"

lemma guardE_Inr_iff [tx_simps]:
  "guardE g refuse proceed = Inr x \<longleftrightarrow>
     (\<exists>status. g = Inr (Some status) \<and> x = refuse status) \<or> g = Inr None \<and> proceed = Inr x"
  by (cases g) (auto simp: guardE_def split: option.splits)

definition update_running_attempt :: "lease \<Rightarrow> (attempt_row \<Rightarrow> attempt_row) \<Rightarrow> string \<Rightarrow> db \<Rightarrow> db result" where
  "update_running_attempt l change failure d =
     (let here = (\<lambda>a. leased_attempt_at l a \<and> a_state a = A_RUNNING) in
      if count_where here (attempts d) \<noteq> 1 then Inl (DurableStoreError failure)
      else Inr (d\<lparr>attempts := update_where here change (attempts d)\<rparr>))"

definition bounded_text :: "string option \<Rightarrow> bool" where
  "bounded_text v = (case v of None \<Rightarrow> True | Some s \<Rightarrow> 1 \<le> length s \<and> length s \<le> 128)"

definition frozen_text :: "string option \<Rightarrow> string option \<Rightarrow> bool" where
  "frozen_text existing proposed = (case (existing, proposed) of (Some x, Some y) \<Rightarrow> x \<noteq> y | _ \<Rightarrow> False)"

definition first_text :: "string option \<Rightarrow> string option \<Rightarrow> string option" where
  "first_text existing proposed = (case existing of None \<Rightarrow> proposed | Some x \<Rightarrow> Some x)"

definition freeze_facts ::
  "lease \<Rightarrow> attempt_row \<Rightarrow> jobj \<Rightarrow> jobj \<Rightarrow> string option \<Rightarrow> string option \<Rightarrow> instant \<Rightarrow> db
     \<Rightarrow> (lease_mutation_status \<times> db) result" where
  "freeze_facts l a executor model device invocation current d =
     (if jget (a_executor_snapshot a) ''mode'' \<noteq> Some (JStr ''dummy'') \<and>
         (encode_json (JObj (a_executor_snapshot a)) \<noteq> encode_json (JObj executor) \<or>
          encode_json (JObj (a_model_snapshot a)) \<noteq> encode_json (JObj model))
      then Inl (DurableStoreError ''execution facts are already frozen'')
      else if frozen_text (a_device a) device then Inl (DurableStoreError ''attempt device is already frozen'')
      else if frozen_text (a_invocation a) invocation
      then Inl (DurableStoreError ''attempt invocation is already frozen'') else
      bindE (attempt_metrics a [(''execution_contract_recorded'', JBool True),
               (''execution_contract_recorded_at'', JInstant current)]) (\<lambda>metrics.
      bindE (update_running_attempt l (\<lambda>b. b\<lparr>a_executor_snapshot := executor, a_model_snapshot := model,
                a_device := first_text (a_device b) device,
                a_invocation := first_text (a_invocation b) invocation, a_metrics := metrics\<rparr>)
               ''execution facts compare-and-set failed'' d) (\<lambda>d1.
      bindE (advance_revision_clock_in_transaction (l_owner_user_id l) (l_revision_id l) current d1) (\<lambda>d2.
      Inr (LM_APPLIED, d2)))))"

definition record_execution_facts ::
  "lease \<Rightarrow> jobj \<Rightarrow> jobj \<Rightarrow> string option \<Rightarrow> string option \<Rightarrow> instant option \<Rightarrow> db
     \<Rightarrow> (lease_mutation_status \<times> db) result" where
  "record_execution_facts l executor model device invocation now d =
     (if \<not> bounded_text device \<or> \<not> bounded_text invocation then Inl ValueError else
      bindE (canonical_json (JObj executor) max_snapshot_json_bytes) (\<lambda>_.
      bindE (canonical_json (JObj model) max_snapshot_json_bytes) (\<lambda>_.
      let current = operation_now d now in
      case matched_row d l of
        None \<Rightarrow> Inr (LM_STALE_FENCE, d)
      | Some (row, a) \<Rightarrow>
          guardE (running_guard row a current) (\<lambda>status. (status, d))
            (freeze_facts l a executor model device invocation current d))))"

definition usage_increment :: "jobj \<Rightarrow> usage_increments" where
  "usage_increment usage = no_increments\<lparr>inc_input_tokens := counter_of usage ''input_tokens'',
     inc_output_tokens := counter_of usage ''output_tokens'', inc_cost_micros := counter_of usage ''cost_micros''\<rparr>"

definition usage_uncertain :: "jobj \<Rightarrow> bool" where
  "usage_uncertain usage \<longleftrightarrow> jbool_of usage ''usage_missing'' = Some True \<or> jbool_of usage ''cost_unknown'' = Some True"

text \<open>
  Usage is frozen by the first call; repeating it is a no-op, a different one is refused. Two
  dictionaries are equal when they have the same canonical text.
\<close>

definition existing_usage :: "attempt_row \<Rightarrow> jval option" where
  "existing_usage a = (case jget (a_metrics a) ''llm_usage'' of None \<Rightarrow> None | Some JNull \<Rightarrow> None | Some v \<Rightarrow> Some v)"

definition freeze_usage ::
  "lease \<Rightarrow> attempt_row \<Rightarrow> jobj \<Rightarrow> instant \<Rightarrow> db \<Rightarrow> (lease_mutation_status \<times> db) result" where
  "freeze_usage l a usage current d =
     (if jget (a_model_snapshot a) ''mode'' \<noteq> Some (JStr ''llm'') then Inl ModelUsageContractError else
      bindE (validate_usage_against_model_snapshot usage (a_model_snapshot a)) (\<lambda>_.
      case existing_usage a of
        Some existing \<Rightarrow>
          if encode_json existing = encode_json (JObj usage) then Inr (LM_ALREADY_APPLIED, d)
          else Inl (DurableStoreError ''attempt usage is already frozen for the active fence'')
      | None \<Rightarrow>
          bindE (attempt_metrics a [(''llm_usage'', JObj usage),
                   (''usage_missing'', JBool (jbool_of usage ''usage_missing'' \<noteq> Some False))]) (\<lambda>metrics.
          bindE (update_running_attempt l (\<lambda>b. b\<lparr>a_metrics := metrics\<rparr>)
                   ''attempt usage compare-and-set failed'' d) (\<lambda>d1.
          bindE (add_revision_usage_in_transaction (l_owner_user_id l) (l_revision_id l)
                   (usage_increment usage) (usage_uncertain usage) current d1) (\<lambda>d2.
          bindE (advance_revision_clock_in_transaction (l_owner_user_id l) (l_revision_id l) current d2) (\<lambda>d3.
          Inr (LM_APPLIED, d3)))))))"

definition record_attempt_usage ::
  "lease \<Rightarrow> jobj \<Rightarrow> instant option \<Rightarrow> db \<Rightarrow> (lease_mutation_status \<times> db) result" where
  "record_attempt_usage l usage now d =
     bindE (canonical_json (JObj usage) MAX_ATTEMPT_METRICS_JSON_BYTES) (\<lambda>_.
     bindE (validated_attempt_usage usage l) (\<lambda>usage_value.
     let current = operation_now d now in
     case matched_row d l of
       None \<Rightarrow> Inr (LM_STALE_FENCE, d)
     | Some (row, a) \<Rightarrow>
         guardE (running_guard row a current) (\<lambda>status. (status, d)) (freeze_usage l a usage_value current d)))"

text \<open>\<open>_model_usage_is_complete\<close>: for a model attempt, and for one whose stage froze no model.\<close>

definition model_attempt :: "attempt_row \<Rightarrow> bool" where
  "model_attempt a \<longleftrightarrow> jget (a_model_snapshot a) ''mode'' = Some (JStr ''llm'')"

definition llm_usage_complete :: "attempt_row \<Rightarrow> bool" where
  "llm_usage_complete a \<longleftrightarrow>
     jpath (a_metrics a) [''llm_usage'', ''schema_version''] = Some (JStr ''metnos.durable-model-usage/2'') \<and>
     jpath (a_metrics a) [''llm_usage'', ''usage_missing''] = Some (JBool False) \<and>
     jpath (a_metrics a) [''llm_usage'', ''cost_unknown''] = Some (JBool False)"

definition frozen_model_contract :: "stage_row \<Rightarrow> jobj \<Rightarrow> bool" where
  "frozen_model_contract s entry \<longleftrightarrow> jget entry ''stage_key'' = Some (JStr (s_key s)) \<and>
     jget entry ''model_binding_digest'' \<notin> {None, Some JNull}"

definition model_usage_is_complete :: "lease_row \<Rightarrow> attempt_row \<Rightarrow> bool result" where
  "model_usage_is_complete row a =
     (if model_attempt a then Inr (llm_usage_complete a)
      else case jget (r_catalog (lr_revision row)) ''entries'' of
        None \<Rightarrow> Inr True
      | Some (JArr entries) \<Rightarrow> Inr (\<not> list_ex (frozen_model_contract (lr_stage row)) (json_objects entries))
      | Some (JObj _) \<Rightarrow> Inr True
      | Some (JStr _) \<Rightarrow> Inr True
      | Some (JInstant _) \<Rightarrow> Inr True
      | Some _ \<Rightarrow> Inl TypeError)"

definition mark_unaccounted_model_usage_unknown_in_transaction ::
  "unit_row \<Rightarrow> attempt_row \<Rightarrow> instant \<Rightarrow> db \<Rightarrow> (bool \<times> db) result" where
  "mark_unaccounted_model_usage_unknown_in_transaction u a now_text d =
     (if \<not> model_attempt a \<or> llm_usage_complete a then Inr (False, d)
      else bindE (add_revision_usage_in_transaction (u_owner u) (u_revision u) no_increments True now_text d)
        (\<lambda>d'. Inr (True, d')))"

section \<open>Commit of a result\<close>

record dependency_join =
  dj_result :: ident
  dj_role :: string
  dj_physical :: ident
  dj_role_stage :: ident
  dj_parent_level :: "int option"
  dj_declared :: bool

text \<open>One planned dependency joined with its result, the unit and stages behind it.\<close>

definition join_dependency :: "db \<Rightarrow> ident \<Rightarrow> unit_dependency_row \<Rightarrow> dependency_join option" where
  "join_dependency d stage_id p =
     (case find (\<lambda>x. x_owner x = ud_owner p \<and> x_revision x = ud_revision p \<and> x_id x = ud_source_result p) (results d) of
        None \<Rightarrow> None
      | Some x \<Rightarrow>
        (case find (\<lambda>u. u_owner u = x_owner x \<and> u_id u = x_unit x \<and> u_revision u = x_revision x) (units d) of
           None \<Rightarrow> None
         | Some u \<Rightarrow>
           (case (stage_of d u, find (\<lambda>s. s_owner s = ud_owner p \<and> s_revision s = ud_revision p \<and>
                    s_key s = ud_role p) (stages d)) of
              (Some physical, Some role_stage) \<Rightarrow> Some
                \<lparr>dj_result = x_id x, dj_role = ud_role p, dj_physical = s_id physical,
                 dj_role_stage = s_id role_stage, dj_parent_level = u_reduction_level u,
                 dj_declared = exists_where (\<lambda>g. sd_owner g = ud_owner p \<and> sd_revision g = ud_revision p \<and>
                   sd_stage g = stage_id \<and> sd_depends_on g = s_id role_stage) (stage_dependencies d)\<rparr>
            | _ \<Rightarrow> None)))"

definition admitted_dependency :: "ident \<Rightarrow> int option \<Rightarrow> int option \<Rightarrow> dependency_join \<Rightarrow> bool" where
  "admitted_dependency stage_id level fan_in j \<longleftrightarrow> dj_declared j \<and>
     (dj_physical j = dj_role_stage j \<or>
      fan_in \<noteq> None \<and> dj_physical j = stage_id \<and>
      (case (level, dj_parent_level j) of (Some n, Some m) \<Rightarrow> n > 0 \<and> m = n - 1 | _ \<Rightarrow> False))"

definition validated_result_dependencies_in_transaction ::
  "string \<Rightarrow> ident \<Rightarrow> ident \<Rightarrow> ident \<Rightarrow> int \<Rightarrow> int option \<Rightarrow> int option \<Rightarrow> db \<Rightarrow> (dependency_join list) result" where
  "validated_result_dependencies_in_transaction owner revision_id stage_id unit_id expected level fan_in d =
     (let planned = sort_key ud_ordinal (filter (\<lambda>p. ud_owner p = owner \<and>
            ud_revision p = revision_id \<and> ud_unit p = unit_id) (unit_dependencies d));
          rows = take (nat (expected + 1)) (concat (map (\<lambda>p. case join_dependency d stage_id p of
            None \<Rightarrow> [] | Some j \<Rightarrow> [j]) planned))
      in if expected > MAX_UNIT_DEPENDENCIES then Inl ResultContractError
         else if int (length rows) \<noteq> expected then Inl ResultContractError
         else if \<not> list_all (admitted_dependency stage_id level fan_in) rows
         then Inl ResultContractError
         else Inr rows)"

definition lease_dependencies :: "lease \<Rightarrow> lease_row \<Rightarrow> db \<Rightarrow> (dependency_join list) result" where
  "lease_dependencies l row d =
     validated_result_dependencies_in_transaction (l_owner_user_id l) (l_revision_id l) (l_stage_id l) (l_unit_id l)
       (u_expected_dependency_count (lr_unit row)) (u_reduction_level (lr_unit row)) (s_reduction_fan_in (lr_stage row)) d"

text \<open>\<open>role_ordinals\<close>: each role numbers its dependencies from 0.\<close>

definition insert_dependency ::
  "string \<Rightarrow> ident \<Rightarrow> ident \<Rightarrow> dependency_join \<Rightarrow> (string \<times> int) list \<times> db \<Rightarrow> ((string \<times> int) list \<times> db) result" where
  "insert_dependency owner revision_id result_id j acc =
     (let (ordinals, d) = acc; role = dj_role j;
          ordinal = (case map_of ordinals role of None \<Rightarrow> 0 | Some n \<Rightarrow> n);
          new = \<lparr>d_owner = owner, d_revision = revision_id, d_child_result = result_id,
            d_source_result = dj_result j, d_role = role, d_ordinal = ordinal\<rparr>
      in if result_id = dj_result j \<or> exists_where (\<lambda>e. d_owner e = d_owner new \<and> d_revision e = d_revision new \<and>
              d_child_result e = result_id \<and> d_role e = role \<and>
              (d_source_result e = dj_result j \<or> d_ordinal e = ordinal)) (dependencies d)
         then Inl IntegrityError
         else Inr ((role, ordinal + 1) # ordinals, d\<lparr>dependencies := dependencies d @ [new]\<rparr>))"

definition insert_result_dependencies_in_transaction ::
  "string \<Rightarrow> ident \<Rightarrow> ident \<Rightarrow> dependency_join list \<Rightarrow> db \<Rightarrow> db result" where
  "insert_result_dependencies_in_transaction owner revision_id result_id rows d =
     bindE (foldE (insert_dependency owner revision_id result_id) rows ([], d)) (\<lambda>(_, d'). Inr d')"

record commit_outcome =
  co_status :: commit_status
  co_result_id :: "ident option"
  co_winning_digest :: "string option"
  co_proposed_digest :: string
  co_stage_terminal :: bool

definition refused_commit :: "commit_status \<Rightarrow> validated_result \<Rightarrow> commit_outcome" where
  "refused_commit status v =
     \<lparr>co_status = status, co_result_id = None, co_winning_digest = None,
      co_proposed_digest = vr_digest v, co_stage_terminal = False\<rparr>"

definition existing_commit :: "lease \<Rightarrow> validated_result \<Rightarrow> result_row \<Rightarrow> commit_outcome" where
  "existing_commit l v x =
     \<lparr>co_status = (if x_attempt x \<noteq> l_attempt_id l \<or> x_fence x \<noteq> l_fence l then CS_STALE_FENCE
                   else if x_digest x = vr_digest v then CS_IDEMPOTENT_REPLAY else CS_DIGEST_CONFLICT),
      co_result_id = Some (x_id x), co_winning_digest = Some (x_digest x),
      co_proposed_digest = vr_digest v, co_stage_terminal = False\<rparr>"

definition stage_is_terminal_in_connection :: "string \<Rightarrow> ident \<Rightarrow> ident \<Rightarrow> db \<Rightarrow> bool" where
  "stage_is_terminal_in_connection owner revision_id stage_id d =
     (\<not> exists_where (\<lambda>u. in_revision owner revision_id u \<and> u_stage u = stage_id \<and>
       \<not> terminal_unit (u_state u)) (units d))"

definition stage_is_terminal :: "lease \<Rightarrow> db \<Rightarrow> bool" where
  "stage_is_terminal l d =
     stage_is_terminal_in_connection (l_owner_user_id l) (l_revision_id l) (l_stage_id l) d"

text \<open>When a commit may go on: running rows, before the execution deadline and the lease's expiry.\<close>

definition commit_guard :: "lease \<Rightarrow> lease_row \<Rightarrow> attempt_row \<Rightarrow> instant \<Rightarrow> (commit_status option) result" where
  "commit_guard l row a current =
     (if u_state (lr_unit row) \<noteq> U_RUNNING \<or> a_state a \<noteq> A_RUNNING then Inr (Some CS_INVALID_STATE) else
      bindE (execution_started_at a) (\<lambda>started.
      case started of
        None \<Rightarrow> Inr (Some CS_INVALID_STATE)
      | Some t \<Rightarrow>
          if execution_deadline l t \<le> current then Inr (Some CS_DEADLINE_EXPIRED) else
          bindE (optE (u_lease_expires_at (lr_unit row)) ValueError) (\<lambda>expiry.
          Inr (if expiry \<le> current then Some CS_LEASE_EXPIRED else None))))"

definition payload_bytes :: "validated_result \<Rightarrow> int" where
  "payload_bytes v = utf8_size (encode_json (JObj (vr_payload v)))"

definition account_result :: "lease \<Rightarrow> validated_result \<Rightarrow> instant \<Rightarrow> db \<Rightarrow> db result" where
  "account_result l v current d =
     bindE (add_revision_usage_in_transaction (l_owner_user_id l) (l_revision_id l)
              (no_increments\<lparr>inc_output_bytes := payload_bytes v\<rparr>) False current d) (\<lambda>d1.
     case budget_violation_in_transaction (l_owner_user_id l) (l_workload_id l) (l_revision_id l) current d1 of
       Some violation \<Rightarrow> Inl (BudgetExceededError violation)
     | None \<Rightarrow> advance_revision_clock_in_transaction (l_owner_user_id l) (l_revision_id l) current d1)"

definition result_provenance ::
  "(string \<Rightarrow> string) \<Rightarrow> lease \<Rightarrow> validated_result \<Rightarrow> attempt_row \<Rightarrow> jobj \<Rightarrow> jobj result" where
  "result_provenance sha l v a metrics =
     bindE (digest_json sha ''durable-executor-snapshot'' (JObj (a_executor_snapshot a)) max_snapshot_json_bytes)
       (\<lambda>executor_digest.
     bindE (digest_json sha ''durable-model-snapshot'' (JObj (a_model_snapshot a)) max_snapshot_json_bytes)
       (\<lambda>model_digest.
     bindE (digest_json sha ''durable-attempt-metrics'' (JObj metrics) MAX_ATTEMPT_METRICS_JSON_BYTES)
       (\<lambda>metrics_digest.
     let provenance =
       [(''schema_version'', JStr ''metnos.durable-result-provenance/1''),
        (''attempt_id'', JStr (l_attempt_id l)), (''fence'', JInt (l_fence l)),
        (''runner_kind'', JStr (runner_kind_value (l_runner_kind l))), (''runner_name'', JStr (l_runner_name l)),
        (''validation'', JStr (if jget (a_executor_snapshot a) ''mode'' = Some (JStr ''dummy'')
                               then ''dummy_contract'' else ''approved_output_schema'')),
        (''output_schema'', JStr (vr_schema_version v)),
        (''executor_snapshot_digest'', JStr executor_digest), (''model_snapshot_digest'', JStr model_digest),
        (''metrics_digest'', JStr metrics_digest),
        (''usage_missing'', JBool (jget metrics ''usage_missing'' \<notin>
           {None, Some (JBool False), Some JNull, Some (JInt 0), Some (JStr []), Some (JArr []), Some (JObj [])}))]
     in bindE (canonical_json (JObj provenance) max_snapshot_json_bytes) (\<lambda>_. Inr provenance))))"

definition new_result ::
  "lease \<Rightarrow> validated_result \<Rightarrow> ident \<Rightarrow> jobj \<Rightarrow> instant \<Rightarrow> result_row" where
  "new_result l v result_id provenance current =
     \<lparr>x_owner = l_owner_user_id l, x_id = result_id, x_revision = l_revision_id l, x_unit = l_unit_id l,
      x_attempt = l_attempt_id l, x_fence = l_fence l, x_digest = vr_digest v,
      x_schema_version = vr_schema_version v, x_payload = vr_payload v, x_provenance = provenance,
      x_committed_at = current\<rparr>"

definition insert_result :: "result_row \<Rightarrow> db \<Rightarrow> db result" where
  "insert_result x d =
     (if exists_where (\<lambda>y. x_owner y = x_owner x \<and> (x_id y = x_id x \<or> x_unit y = x_unit x)) (results d)
      then Inl IntegrityError else Inr (d\<lparr>results := results d @ [x]\<rparr>))"

definition committed_unit :: "ident \<Rightarrow> jobj option \<Rightarrow> instant \<Rightarrow> unit_row \<Rightarrow> unit_row" where
  "committed_unit result_id detail t u =
     u\<lparr>u_state := U_COMMITTED, u_committed_result := Some result_id, u_lease_worker := None,
       u_active_attempt := None, u_lease_expires_at := None, u_next_attempt_at := None,
       u_error_class := None, u_partial_output := False, u_terminal_detail := detail, u_updated_at := t\<rparr>"

definition running_attempt_at :: "lease \<Rightarrow> attempt_row \<Rightarrow> bool" where
  "running_attempt_at l a \<longleftrightarrow> leased_attempt_at l a \<and> a_state a = A_RUNNING"

definition running_unit_at :: "lease \<Rightarrow> unit_row \<Rightarrow> bool" where
  "running_unit_at l u \<longleftrightarrow> leased_unit_at l u \<and> u_state u = U_RUNNING"

text \<open>The result, its dependencies, and the compare-and-set of its attempt and unit.\<close>

definition store_result ::
  "(string \<Rightarrow> string) \<Rightarrow> lease \<Rightarrow> attempt_row \<Rightarrow> validated_result \<Rightarrow> dependency_join list \<Rightarrow> instant \<Rightarrow> db
     \<Rightarrow> (ident \<times> db) result" where
  "store_result sha l a v rows current d =
     bindE (attempt_metrics a [(''result_digest'', JStr (vr_digest v)), (''committed'', JBool True),
              (''dependency_count'', JInt (int (length rows)))]) (\<lambda>metrics.
     let (result_id, d1) = new_id ''res'' d in
     bindE (result_provenance sha l v a metrics) (\<lambda>provenance.
     bindE (insert_result (new_result l v result_id provenance current) d1) (\<lambda>d2.
     bindE (insert_result_dependencies_in_transaction (l_owner_user_id l) (l_revision_id l) result_id rows d2) (\<lambda>d3.
     bindE (domain_terminal_detail (vr_payload v)) (\<lambda>detail.
     bindE (update_pair (running_attempt_at l)
              (\<lambda>b. b\<lparr>a_state := A_SUCCEEDED, a_ended_at := Some current, a_metrics := metrics\<rparr>)
              (running_unit_at l) (committed_unit result_id detail current)
              ''result commit compare-and-set failed'' d3) (\<lambda>d4.
     Inr (result_id, d4)))))))"

definition commit_running ::
  "(string \<Rightarrow> string) \<Rightarrow> lease \<Rightarrow> lease_row \<Rightarrow> attempt_row \<Rightarrow> validated_result \<Rightarrow> ident list \<Rightarrow> instant \<Rightarrow> db
     \<Rightarrow> (commit_outcome \<times> db) result" where
  "commit_running sha l row a v dependency_ids current d =
     (if s_output_schema (lr_stage row) \<noteq> vr_schema_version v then Inl ResultContractError else
      bindE (lease_dependencies l row d) (\<lambda>rows.
      if set dependency_ids \<noteq> set (map dj_result rows) then Inl ResultContractError else
      bindE (model_usage_is_complete row a) (\<lambda>complete.
      if \<not> complete then Inl (BudgetExceededError accounting_reason) else
      bindE (account_result l v current d) (\<lambda>d1.
      bindE (store_result sha l a v rows current d1) (\<lambda>(result_id, d2).
      bindE (settle_workload_in_transaction (l_owner_user_id l) (l_workload_id l) current False
               UNIT_STATE_BATCH_SIZE d2) (\<lambda>(_, d3).
      Inr (\<lparr>co_status = CS_COMMITTED, co_result_id = Some result_id, co_winning_digest = Some (vr_digest v),
             co_proposed_digest = vr_digest v, co_stage_terminal = stage_is_terminal l d3\<rparr>, d3)))))))"

definition commit_result ::
  "(string \<Rightarrow> string) \<Rightarrow> lease \<Rightarrow> validated_result \<Rightarrow> ident list \<Rightarrow> instant option \<Rightarrow> db
     \<Rightarrow> (commit_outcome \<times> db) result" where
  "commit_result sha l v dependency_ids now d =
     (let current = operation_now d now in
      if \<not> list_all id_re dependency_ids \<or> \<not> distinct dependency_ids then Inl ResultContractError
      else case find (\<lambda>x. x_owner x = l_owner_user_id l \<and> x_unit x = l_unit_id l) (results d) of
        Some existing \<Rightarrow> Inr (existing_commit l v existing, d)
      | None \<Rightarrow>
        (case matched_row d l of
           None \<Rightarrow> Inr (refused_commit CS_STALE_FENCE v, d)
         | Some (row, a) \<Rightarrow>
             guardE (commit_guard l row a current) (\<lambda>status. (refused_commit status v, d))
               (commit_running sha l row a v dependency_ids current d)))"

section \<open>Budgets of an active lease\<close>

definition budget_violation :: "lease \<Rightarrow> instant option \<Rightarrow> db \<Rightarrow> (jobj option) result" where
  "budget_violation l now d =
     (if \<not> lease_matches d l then Inl (DurableStoreError ''budget check requires the active fence'')
      else Inr (budget_violation_in_transaction (l_owner_user_id l) (l_workload_id l) (l_revision_id l)
             (operation_now d now) d))"

definition other_reservation :: "lease \<Rightarrow> unit_row \<Rightarrow> bool" where
  "other_reservation l u \<longleftrightarrow> u_id u \<noteq> l_unit_id l \<or>
     (case u_active_attempt u of None \<Rightarrow> False | Some a \<Rightarrow> a \<noteq> l_attempt_id l)"

definition other_reservations :: "db \<Rightarrow> revision_row \<Rightarrow> lease \<Rightarrow> unit_row list" where
  "other_reservations d r l = filter (\<lambda>u. reserving_unit d r u \<and> other_reservation l u) (units d)"

text \<open>The remainder of tokens and cost micros after what is used and what other attempts reserve.\<close>

definition remaining_model_budget :: "lease \<Rightarrow> instant option \<Rightarrow> db \<Rightarrow> (int \<times> int) result" where
  "remaining_model_budget l now d =
     (let current = operation_now d now in
      case matched_row d l of
        None \<Rightarrow> Inl (DurableStoreError ''model budget requires the active attempt fence'')
      | Some (row, a) \<Rightarrow>
          if u_state (lr_unit row) \<notin> {U_LEASED, U_RUNNING} \<or> a_state a \<notin> {A_LEASED, A_RUNNING}
             \<or> clock_regressed (us_clock_high_water_at (lr_usage row)) current
          then Inl (BudgetExceededError accounting_reason) else
          bindE (optE (u_lease_expires_at (lr_unit row)) ValueError) (\<lambda>expiry.
          if expiry \<le> current then Inl (BudgetExceededError accounting_reason)
          else case (revision_of (l_owner_user_id l) (l_workload_id l) (l_revision_id l) d,
                     find (usage_at (l_owner_user_id l) (l_revision_id l)) (revision_usage d)) of
              (Some r, Some us) \<Rightarrow>
                if us_usage_unknown us then Inl (BudgetExceededError accounting_reason)
                else if list_ex (unbounded_reservation d r) (other_reservations d r l)
                then Inl (BudgetExceededError accounting_reason)
                else Inr (max 0 (b_max_tokens (r_budgets r) - (us_input_tokens us + us_output_tokens us)
                            - sum_list (map (reserved_tokens d r) (other_reservations d r l))),
                          max 0 (b_max_cost_micros (r_budgets r) - us_cost_micros us))
            | _ \<Rightarrow> Inl (BudgetExceededError accounting_reason)))"

definition usage_gap :: "attempt_row \<Rightarrow> bool" where
  "usage_gap a \<longleftrightarrow> model_attempt a \<and>
     (jget (a_metrics a) ''usage_missing'' \<notin> {Some (JBool False), Some (JInt 0)} \<or>
      jget (a_metrics a) ''llm_usage'' = None)"

definition refresh_usage_complete :: "string \<Rightarrow> ident \<Rightarrow> db \<Rightarrow> (bool \<times> db) result" where
  "refresh_usage_complete owner_user_id workload_id d =
     bindE (require_owner owner_user_id) (\<lambda>owner.
     bindE (select_workload d owner workload_id) (\<lambda>w.
     case w_active_revision w of
       None \<Rightarrow> Inr (False, d)
     | Some revision_id \<Rightarrow>
         bindE (optE (find (usage_at owner revision_id) (revision_usage d)) TypeError) (\<lambda>usage.
         let missing = exists_where (\<lambda>a. a_owner a = owner \<and> usage_gap a \<and>
               exists_where (\<lambda>u. u_owner u = a_owner a \<and> u_id u = a_unit a \<and> u_revision u = revision_id) (units d))
               (attempts d);
             complete = (\<not> missing \<and> \<not> us_usage_unknown usage)
         in Inr (complete, d\<lparr>revisions := update_where
              (\<lambda>r. revision_at owner revision_id r \<and> r_workload r = workload_id)
              (\<lambda>r. r\<lparr>r_usage_complete := complete\<rparr>) (revisions d)\<rparr>))))"

section \<open>Failure and abandonment\<close>

text \<open>The lease let go: the unit in its next state, the attempt ended for good.\<close>

definition released_unit ::
  "instant \<Rightarrow> unit_state \<Rightarrow> instant option \<Rightarrow> string option \<Rightarrow> jobj option \<Rightarrow> int \<Rightarrow> int \<Rightarrow> unit_row \<Rightarrow> unit_row" where
  "released_unit t state next error_class detail generation tokens u =
     u\<lparr>u_state := state, u_next_attempt_at := next, u_lease_worker := None, u_active_attempt := None,
       u_lease_expires_at := None, u_error_class := error_class, u_terminal_detail := detail,
       u_manual_retry_tokens := u_manual_retry_tokens u + tokens,
       u_manual_retry_generation := (if state = U_NEEDS_ATTENTION then generation else u_manual_retry_generation u),
       u_updated_at := t\<rparr>"

definition ended_attempt :: "instant \<Rightarrow> attempt_state \<Rightarrow> jobj \<Rightarrow> jobj \<Rightarrow> attempt_row \<Rightarrow> attempt_row" where
  "ended_attempt t state error metrics a =
     a\<lparr>a_state := state, a_ended_at := Some t, a_structured_error := Some error, a_metrics := metrics\<rparr>"

definition finish_lease :: "lease \<Rightarrow> instant \<Rightarrow> db \<Rightarrow> db result" where
  "finish_lease l current d =
     bindE (advance_revision_clock_in_transaction (l_owner_user_id l) (l_revision_id l) current d) (\<lambda>d1.
     bindE (settle_workload_in_transaction (l_owner_user_id l) (l_workload_id l) current False
              UNIT_STATE_BATCH_SIZE d1) (\<lambda>(_, d2). Inr d2))"

type_synonym failure_outcome = "failure_status \<times> instant option"

text \<open>A failure after the lease expired counts only as the time-out of a passed execution deadline.\<close>

definition failure_expired :: "lease \<Rightarrow> attempt_row \<Rightarrow> instant \<Rightarrow> attempt_state \<Rightarrow> instant \<Rightarrow> bool result" where
  "failure_expired l a expiry attempt_state current =
     (if expiry > current then Inr False else
      bindE (execution_started_at a) (\<lambda>started.
      Inr (attempt_state \<noteq> A_TIMED_OUT \<or>
        (case started of None \<Rightarrow> True | Some t \<Rightarrow> execution_deadline l t > current))))"

definition attention_error :: "retry_decision \<Rightarrow> structured_error \<Rightarrow> structured_error result" where
  "attention_error derived e =
     (if derived = RD_NEEDS_ATTENTION \<and> jget (se_payload e) ''retry'' \<in> {Some (JStr ''automatic''), Some (JStr ''never'')}
      then structured_error_post_init (e\<lparr>se_payload := jset ''retry'' (JStr ''manual'') (se_payload e)\<rparr>)
      else Inr e)"

definition failure_target ::
  "(string \<Rightarrow> nat) \<Rightarrow> lease \<Rightarrow> retry_policy \<Rightarrow> retry_decision \<Rightarrow> instant
     \<Rightarrow> (unit_state \<times> failure_status \<times> instant option) result" where
  "failure_target sha8 l policy derived current =
     (case derived of
        RD_RETRY \<Rightarrow>
          bindE (deterministic_retry_delay_ms sha8 (l_unit_key l) (l_attempt_number l)
                   (rp_base_delay_ms policy) (rp_max_delay_ms policy)) (\<lambda>delay.
          Inr (U_RETRY_WAIT, FS_RETRY_SCHEDULED, Some (current + delay * micros_per_ms)))
      | RD_NEEDS_ATTENTION \<Rightarrow> Inr (U_NEEDS_ATTENTION, FS_NEEDS_ATTENTION, None)
      | RD_FAIL_PERMANENT \<Rightarrow> Inr (U_FAILED_PERMANENT, FS_FAILED_PERMANENT, None))"

definition failure_metrics ::
  "attempt_state \<Rightarrow> string \<Rightarrow> retry_decision \<Rightarrow> bool \<Rightarrow> bool \<Rightarrow> jobj" where
  "failure_metrics attempt_state error_class derived usage_unknown regressed =
     [(if attempt_state = A_TIMED_OUT then ''timed_out'' else ''failed'', JBool True),
      (''error_class'', JStr error_class), (''retry_decision'', JStr (retry_decision_value derived)),
      (''usage_accounting_unknown'', JBool usage_unknown), (''clock_regressed'', JBool regressed)]"

definition close_failed ::
  "(string \<Rightarrow> nat) \<Rightarrow> lease \<Rightarrow> lease_row \<Rightarrow> attempt_row \<Rightarrow> structured_error \<Rightarrow> retry_decision \<Rightarrow> attempt_state
     \<Rightarrow> bool \<Rightarrow> bool \<Rightarrow> instant \<Rightarrow> db \<Rightarrow> (failure_outcome \<times> db) result" where
  "close_failed sha8 l row a error derived attempt_state unknown regressed current d =
     bindE (attention_error derived error) (\<lambda>e.
     bindE (failure_target sha8 l (s_retry (lr_stage row)) derived current) (\<lambda>(state, status, next).
     bindE (attempt_metrics a (failure_metrics attempt_state (se_error_class e) derived unknown regressed)) (\<lambda>metrics.
     bindE (update_pair (running_attempt_at l) (ended_attempt current attempt_state (se_payload e) metrics)
              (running_unit_at l) (released_unit current state next (Some (se_error_class e)) (Some (se_payload e))
                 (r_manual_retry_generation (lr_revision row)) 0)
              ''attempt failure compare-and-set failed'' d) (\<lambda>d1.
     bindE (finish_lease l current d1) (\<lambda>d2. Inr ((status, next), d2))))))"

text \<open>Policy-derived retries hold only while accounting and time are authoritative.\<close>

definition fail_running ::
  "(string \<Rightarrow> nat) \<Rightarrow> lease \<Rightarrow> lease_row \<Rightarrow> attempt_row \<Rightarrow> structured_error \<Rightarrow> retry_decision \<Rightarrow> attempt_state
     \<Rightarrow> instant \<Rightarrow> db \<Rightarrow> (failure_outcome \<times> db) result" where
  "fail_running sha8 l row a error decision attempt_state current d =
     (let regressed = clock_regressed (us_clock_high_water_at (lr_usage row)) current in
      bindE (mark_unaccounted_model_usage_unknown_in_transaction (lr_unit row) a current d) (\<lambda>(unknown, d1).
      close_failed sha8 l row a error (if unknown \<or> regressed then RD_NEEDS_ATTENTION else decision)
        attempt_state unknown regressed current d1))"

definition fail_attempt ::
  "(string \<Rightarrow> nat) \<Rightarrow> lease \<Rightarrow> structured_error \<Rightarrow> retry_decision \<Rightarrow> attempt_state \<Rightarrow> instant option \<Rightarrow> db
     \<Rightarrow> (failure_outcome \<times> db) result" where
  "fail_attempt sha8 l error retry_decision attempt_state now d =
     (let current = operation_now d now in
      if attempt_state \<notin> {A_FAILED, A_TIMED_OUT} then Inl ValueError
      else case matched_row d l of
        None \<Rightarrow> Inr ((FS_STALE_FENCE, None), d)
      | Some (row, a) \<Rightarrow>
          if u_state (lr_unit row) \<noteq> U_RUNNING \<or> a_state a \<noteq> A_RUNNING then Inr ((FS_INVALID_STATE, None), d) else
          bindE (optE (u_lease_expires_at (lr_unit row)) ValueError) (\<lambda>expiry.
          bindE (failure_expired l a expiry attempt_state current) (\<lambda>expired.
          if expired then Inr ((FS_LEASE_EXPIRED, None), d) else
          bindE (decide_retry (l_effect_profile l) (s_retry (lr_stage row)) (l_attempt_number l)
                   (se_error_class error) (l_manual_retry l)) (\<lambda>derived.
          if retry_decision \<noteq> derived then Inl RetryDecisionConflictError
          else fail_running sha8 l row a error derived attempt_state current d))))"

definition ABANDON_REASONS :: "string list" where
  "ABANDON_REASONS = [''worker_shutdown'', ''execution_not_started'']"

definition abandonment_metrics :: "string \<Rightarrow> bool \<Rightarrow> bool \<Rightarrow> jobj" where
  "abandonment_metrics reason unknown regressed =
     [(''abandoned'', JBool True), (''abandonment_reason'', JStr reason),
      (''usage_accounting_unknown'', JBool unknown), (''clock_regressed'', JBool regressed)]"

definition abandoned_unit ::
  "instant \<Rightarrow> unit_state \<times> instant option \<Rightarrow> bool \<Rightarrow> jobj \<Rightarrow> int \<Rightarrow> bool \<Rightarrow> unit_row \<Rightarrow> unit_row" where
  "abandoned_unit t target retry_available detail generation grant_returned u =
     (released_unit t (fst target) (snd target) (if retry_available then None else Some ''cancelled'')
        (if retry_available then None else Some detail) generation (of_bool grant_returned) u)\<lparr>u_partial_output := False\<rparr>"

definition live_unit_at :: "lease \<Rightarrow> unit_row \<Rightarrow> bool" where
  "live_unit_at l u \<longleftrightarrow> leased_unit_at l u \<and> u_state u \<in> {U_LEASED, U_RUNNING}"

definition live_attempt_at :: "lease \<Rightarrow> attempt_row \<Rightarrow> bool" where
  "live_attempt_at l a \<longleftrightarrow> leased_attempt_at l a \<and> a_state a \<in> {A_LEASED, A_RUNNING}"

definition abandon_target :: "bool \<Rightarrow> bool \<Rightarrow> instant \<Rightarrow> unit_state \<times> instant option" where
  "abandon_target retry_available before current =
     (if \<not> retry_available then (U_NEEDS_ATTENTION, None)
      else if before then (U_PENDING, None) else (U_RETRY_WAIT, Some current))"

definition close_abandoned ::
  "lease \<Rightarrow> lease_row \<Rightarrow> attempt_row \<Rightarrow> string \<Rightarrow> bool \<Rightarrow> bool \<Rightarrow> bool \<Rightarrow> instant \<Rightarrow> db
     \<Rightarrow> (lease_mutation_status \<times> db) result" where
  "close_abandoned l row a reason retry_available unknown regressed current d =
     (let before = u_state (lr_unit row) = U_LEASED in
      bindE (structured_error_create ''cancelled'' (''attempt.'' @ reason) ''ERR_DURABLE_ATTEMPT_ABANDONED''
               (if retry_available then ''automatic'' else ''manual'') current
               [(''retry_safe'', JBool (\<not> unknown \<and> \<not> regressed)),
                (''retry_budget_available'', JBool retry_available)]) (\<lambda>error.
      bindE (attempt_metrics a (abandonment_metrics reason unknown regressed)) (\<lambda>metrics.
      bindE (update_pair (live_attempt_at l) (ended_attempt current A_ABANDONED (se_payload error) metrics)
               (live_unit_at l) (abandoned_unit current (abandon_target retry_available before current)
                  retry_available (se_payload error) (r_manual_retry_generation (lr_revision row))
                  (l_manual_retry l \<and> before))
               ''attempt abandonment compare-and-set failed'' d) (\<lambda>d1.
      bindE (finish_lease l current d1) (\<lambda>d2. Inr (LM_APPLIED, d2))))))"

text \<open>
  A manual grant authorises one execution: it is returned only while the runner has not
  started; after that boundary another explicit decision is required.
\<close>

definition abandon_live ::
  "lease \<Rightarrow> lease_row \<Rightarrow> attempt_row \<Rightarrow> string \<Rightarrow> instant \<Rightarrow> db \<Rightarrow> (lease_mutation_status \<times> db) result" where
  "abandon_live l row a reason current d =
     (let before = u_state (lr_unit row) = U_LEASED;
          regressed = clock_regressed (us_clock_high_water_at (lr_usage row)) current
      in
      bindE (if before then Inr (False, d)
             else mark_unaccounted_model_usage_unknown_in_transaction (lr_unit row) a current d) (\<lambda>(unknown, d1).
      close_abandoned l row a reason
        ((l_attempt_number l < rp_max_attempts (l_retry_policy l) \<or> l_manual_retry l \<and> before)
           \<and> \<not> unknown \<and> \<not> regressed) unknown regressed current d1))"

definition already_abandoned :: "db \<Rightarrow> lease \<Rightarrow> bool" where
  "already_abandoned d l =
     (case select_lease_row d l of
        None \<Rightarrow> False
      | Some row \<Rightarrow> (case lr_attempt row of
          None \<Rightarrow> False | Some a \<Rightarrow> a_fence a = l_fence l \<and> a_state a = A_ABANDONED))"

definition abandon_attempt ::
  "lease \<Rightarrow> instant option \<Rightarrow> string \<Rightarrow> db \<Rightarrow> (lease_mutation_status \<times> db) result" where
  "abandon_attempt l now reason_code d =
     (let current = operation_now d now in
      if reason_code \<notin> set ABANDON_REASONS then Inl ValueError
      else if already_abandoned d l then Inr (LM_ALREADY_APPLIED, d)
      else case matched_row d l of
        None \<Rightarrow> Inr (LM_STALE_FENCE, d)
      | Some (row, a) \<Rightarrow>
          if u_state (lr_unit row) \<notin> {U_LEASED, U_RUNNING} then Inr (LM_INVALID_STATE, d)
          else if l_effect_profile l \<noteq> E_PURE then Inr (LM_INVALID_STATE, d)
          else abandon_live l row a reason_code current d)"

section \<open>Reconciliation of expired leases\<close>

record expired_row =
  er_unit :: unit_row
  er_revision :: revision_row
  er_usage :: usage_row
  er_stage :: stage_row
  er_attempt :: attempt_row

text \<open>A live unit whose lease is over, or whose clock readings lie in the future.\<close>

definition expired_lease :: "instant \<Rightarrow> instant option \<Rightarrow> unit_row \<Rightarrow> bool" where
  "expired_lease current high_water u \<longleftrightarrow> u_state u \<in> {U_LEASED, U_RUNNING} \<and>
     ((case u_lease_expires_at u of None \<Rightarrow> False | Some e \<Rightarrow> e \<le> current) \<or>
      clock_regressed high_water current \<or> clock_regressed (Some (u_updated_at u)) current)"

definition possibly_expired :: "db \<Rightarrow> instant \<Rightarrow> bool" where
  "possibly_expired d current \<longleftrightarrow>
     exists_where (\<lambda>u. expired_lease current None u \<or>
       exists_where (\<lambda>us. usage_at (u_owner u) (u_revision u) us \<and>
         expired_lease current (us_clock_high_water_at us) u) (revision_usage d)) (units d) \<or>
     exists_where (due_retry current) (units d)"

definition expired_row_of :: "db \<Rightarrow> instant \<Rightarrow> unit_row \<Rightarrow> expired_row option" where
  "expired_row_of d current u =
     (case (find (revision_at (u_owner u) (u_revision u)) (revisions d),
            find (usage_at (u_owner u) (u_revision u)) (revision_usage d), stage_of d u,
            find (\<lambda>a. a_owner a = u_owner u \<and> u_active_attempt u = Some (a_id a) \<and> a_unit a = u_id u \<and>
              a_fence a = u_fence u) (attempts d)) of
        (Some r, Some us, Some s, Some a) \<Rightarrow>
          if expired_lease current (us_clock_high_water_at us) u
          then Some \<lparr>er_unit = u, er_revision = r, er_usage = us, er_stage = s, er_attempt = a\<rparr> else None
      | _ \<Rightarrow> None)"

definition expired_rows :: "db \<Rightarrow> instant \<Rightarrow> int \<Rightarrow> expired_row list" where
  "expired_rows d current batch_size =
     order_limit (\<lambda>e. (u_lease_expires_at (er_unit e), u_owner (er_unit e), u_id (er_unit e))) (nat batch_size)
       (concat (map (\<lambda>u. case expired_row_of d current u of None \<Rightarrow> [] | Some e \<Rightarrow> [e]) (units d)))"

record reconcile_outcome =
  ro_expired :: nat
  ro_returned_pending :: nat
  ro_retry_scheduled :: nat
  ro_failed_permanent :: nat
  ro_needs_attention :: nat
  ro_retry_promoted :: nat

definition no_reconcile :: reconcile_outcome where
  "no_reconcile = \<lparr>ro_expired = 0, ro_returned_pending = 0, ro_retry_scheduled = 0,
     ro_failed_permanent = 0, ro_needs_attention = 0, ro_retry_promoted = 0\<rparr>"

definition manual_attempt :: "attempt_row \<Rightarrow> bool" where
  "manual_attempt a \<longleftrightarrow> jget (a_metrics a) ''manual_retry'' = Some (JBool True)"

definition regressed_row :: "expired_row \<Rightarrow> instant \<Rightarrow> bool" where
  "regressed_row e current \<longleftrightarrow> clock_regressed (us_clock_high_water_at (er_usage e)) current \<or>
     clock_regressed (Some (u_updated_at (er_unit e))) current"

definition expiry_retry_mode :: "expired_row \<Rightarrow> bool \<Rightarrow> bool \<Rightarrow> string" where
  "expiry_retry_mode e unknown regressed =
     (let before = u_state (er_unit e) = U_LEASED; effect = s_effect (er_stage e) in
      if unknown \<or> regressed then ''manual''
      else if \<not> before \<and> effect = E_RECONCILABLE then ''reconcile''
      else if \<not> before \<and> effect = E_MANUAL_ONLY then ''manual''
      else if manual_attempt (er_attempt e) then ''manual''
      else if u_attempt_count (er_unit e) \<ge> rp_max_attempts (s_retry (er_stage e)) then ''manual''
      else ''automatic'')"

definition expiry_error :: "expired_row \<Rightarrow> bool \<Rightarrow> bool \<Rightarrow> instant \<Rightarrow> structured_error result" where
  "expiry_error e unknown regressed current =
     (let before = u_state (er_unit e) = U_LEASED in
      structured_error_create ''lease_lost''
        (if regressed then ''lease.clock_regressed''
         else if before then ''lease.expired_before_execution'' else ''lease.expired_during_execution'')
        ''ERR_DURABLE_LEASE_EXPIRED'' (expiry_retry_mode e unknown regressed) current
        [(''execution_started'', JBool (\<not> before)), (''attempt_number'', JInt (u_attempt_count (er_unit e))),
         (''max_attempts'', JInt (rp_max_attempts (s_retry (er_stage e)))),
         (''usage_accounting_unknown'', JBool unknown), (''clock_regressed'', JBool regressed)])"

definition expiry_target ::
  "(string \<Rightarrow> nat) \<Rightarrow> expired_row \<Rightarrow> bool \<Rightarrow> bool \<Rightarrow> (unit_state \<times> instant option) result" where
  "expiry_target sha8 e unknown regressed =
     (let u = er_unit e; policy = s_retry (er_stage e); manual = manual_attempt (er_attempt e) in
      if unknown \<or> regressed then Inr (U_NEEDS_ATTENTION, None)
      else if u_state u = U_LEASED then
        Inr (if u_attempt_count u < rp_max_attempts policy \<or> manual then U_PENDING else U_NEEDS_ATTENTION, None)
      else if s_effect (er_stage e) \<in> {E_RECONCILABLE, E_MANUAL_ONLY} \<or> manual then Inr (U_NEEDS_ATTENTION, None)
      else if u_attempt_count u < rp_max_attempts policy then
        bindE (deterministic_retry_delay_ms sha8 (u_key u) (u_attempt_count u) (rp_base_delay_ms policy)
                 (rp_max_delay_ms policy)) (\<lambda>delay.
        bindE (optE (u_lease_expires_at u) ValueError) (\<lambda>expiry.
        Inr (U_RETRY_WAIT, Some (expiry + delay * micros_per_ms))))
      else Inr (U_NEEDS_ATTENTION, None))"

definition count_target :: "unit_state \<Rightarrow> reconcile_outcome \<Rightarrow> reconcile_outcome" where
  "count_target target n =
     (let m = n\<lparr>ro_expired := ro_expired n + 1\<rparr> in
      if target = U_PENDING then m\<lparr>ro_returned_pending := ro_returned_pending m + 1\<rparr>
      else if target = U_RETRY_WAIT then m\<lparr>ro_retry_scheduled := ro_retry_scheduled m + 1\<rparr>
      else m\<lparr>ro_needs_attention := ro_needs_attention m + 1\<rparr>)"

definition expired_attempt_at :: "expired_row \<Rightarrow> attempt_row \<Rightarrow> bool" where
  "expired_attempt_at e a \<longleftrightarrow> a_owner a = u_owner (er_unit e) \<and> u_active_attempt (er_unit e) = Some (a_id a) \<and>
     a_unit a = u_id (er_unit e) \<and> a_fence a = u_fence (er_unit e) \<and>
     u_lease_worker (er_unit e) = Some (a_worker a) \<and> a_state a = a_state (er_attempt e) \<and> a_ended_at a = None"

definition expired_unit_at :: "expired_row \<Rightarrow> unit_row \<Rightarrow> bool" where
  "expired_unit_at e u \<longleftrightarrow> unit_at (u_owner (er_unit e)) (u_id (er_unit e)) u \<and> u_state u = u_state (er_unit e) \<and>
     u_active_attempt u = u_active_attempt (er_unit e) \<and> u_fence u = u_fence (er_unit e) \<and>
     u_lease_worker u = u_lease_worker (er_unit e)"

definition expiry_metrics :: "bool \<Rightarrow> bool \<Rightarrow> instant \<Rightarrow> jobj" where
  "expiry_metrics unknown regressed current =
     [(''lease_expired'', JBool True), (''reconciled_at'', JInstant current),
      (''usage_accounting_unknown'', JBool unknown), (''clock_regressed'', JBool regressed)]"

definition close_expired ::
  "(string \<Rightarrow> nat) \<Rightarrow> instant \<Rightarrow> expired_row \<Rightarrow> bool \<Rightarrow> db \<Rightarrow> (unit_state \<times> db) result" where
  "close_expired sha8 current e unknown d =
     (let u = er_unit e; a = er_attempt e; before = u_state u = U_LEASED; regressed = regressed_row e current in
      bindE (expiry_error e unknown regressed current) (\<lambda>error.
      bindE (attempt_metrics a (expiry_metrics unknown regressed current)) (\<lambda>metrics.
      bindE (expiry_target sha8 e unknown regressed) (\<lambda>(target, next).
      bindE (update_pair (expired_attempt_at e)
               (ended_attempt current (if before then A_ABANDONED else A_TIMED_OUT) (se_payload error) metrics)
               (expired_unit_at e)
               (released_unit current target next (Some ''lease_lost'') (Some (se_payload error))
                  (r_manual_retry_generation (er_revision e)) (of_bool (before \<and> manual_attempt a)))
               ''expired lease compare-and-set failed'' d) (\<lambda>d1.
      bindE (advance_revision_clock_in_transaction (u_owner u) (u_revision u) current d1) (\<lambda>d2.
      Inr (target, d2)))))))"

definition reconcile_row ::
  "(string \<Rightarrow> nat) \<Rightarrow> instant \<Rightarrow> expired_row \<Rightarrow> reconcile_outcome \<times> db \<Rightarrow> (reconcile_outcome \<times> db) result" where
  "reconcile_row sha8 current e acc =
     bindE (if u_state (er_unit e) = U_LEASED then Inr (False, snd acc)
            else mark_unaccounted_model_usage_unknown_in_transaction (er_unit e) (er_attempt e) current (snd acc))
       (\<lambda>(unknown, d1).
     bindE (close_expired sha8 current e unknown d1) (\<lambda>(target, d2).
     Inr (count_target target (fst acc), d2)))"

text \<open>\<open>sorted(affected_workloads)\<close>.\<close>

definition affected_workloads :: "expired_row list \<Rightarrow> (string \<times> ident) list" where
  "affected_workloads rows =
     sort (remdups (map (\<lambda>e. (u_owner (er_unit e), r_workload (er_revision e))) rows))"

definition settle_affected :: "instant \<Rightarrow> string \<times> ident \<Rightarrow> db \<Rightarrow> db result" where
  "settle_affected current w d =
     bindE (settle_workload_in_transaction (fst w) (snd w) current False UNIT_STATE_BATCH_SIZE d) (\<lambda>(_, d'). Inr d')"

definition reconcile_in_transaction ::
  "(string \<Rightarrow> nat) \<Rightarrow> instant \<Rightarrow> int \<Rightarrow> db \<Rightarrow> (reconcile_outcome \<times> db) result" where
  "reconcile_in_transaction sha8 now batch_size d =
     (let rows = expired_rows d now batch_size in
      bindE (foldE (reconcile_row sha8 now) rows (no_reconcile, d)) (\<lambda>(n, d1).
      bindE (promote_due_retries_in_transaction now (max 0 (batch_size - int (length rows))) d1) (\<lambda>(promoted, d2).
      bindE (foldE (settle_affected now) (affected_workloads rows) d2) (\<lambda>d3.
      Inr (n\<lparr>ro_retry_promoted := promoted\<rparr>, d3)))))"

definition reconcile_expired ::
  "(string \<Rightarrow> nat) \<Rightarrow> instant \<Rightarrow> int \<Rightarrow> db \<Rightarrow> (reconcile_outcome \<times> db) result" where
  "reconcile_expired sha8 now batch_size d =
     (if \<not> (1 \<le> batch_size \<and> batch_size \<le> 1000) then Inl ValueError
      else if \<not> possibly_expired d now then Inr (no_reconcile, d)
      else reconcile_in_transaction sha8 now batch_size d)"

section \<open>Transactions\<close>

lemma update_running_attempt_txn:
  assumes run: "update_running_attempt l f msg d = Inr d'" and ok: "store_ok d"
    and row: "matched_row d l = Some (row, a)"
    and running: "u_state (lr_unit row) = U_RUNNING" "a_state a = A_RUNNING"
    and same: "attempt_evolves a (f a)" "a_state (f a) = a_state a" "a_ended_at (f a) = a_ended_at a"
  shows "txn d d'"
proof -
  note r = matched_rowD [OF row] and h = held_pair [OF ok row]
  let ?here = "\<lambda>a. leased_attempt_at l a \<and> a_state a = A_RUNNING"
  have here: "?here a" using r h running by (auto simp: leased_attempt_at_def)
  have c: "count_where ?here (attempts d) = 1" and d': "d' = d\<lparr>attempts := update_where ?here f (attempts d)\<rparr>"
    using run by (auto simp: update_running_attempt_def Let_def split: if_splits)
  have "pair_step (lr_unit row) a (lr_unit row) (f a)"
    using h running same r(3) by (auto simp: pair_step_def unit_rows.row_refl live_attempt_def attempt_of_def
        leased_alike_def attempt_evolves_def)
  then have "txn d (put_pair (lr_unit row) (lr_unit row) a (f a) d)"
    using r(1-3) running by (intro txn_pair) auto
  then show ?thesis
    using d' update_where_row [OF c r(2) here] by simp
qed

lemma freeze_facts_txn:
  assumes "freeze_facts l a ex mo dev ivc t d = Inr (st, d')" and "store_ok d"
    and "matched_row d l = Some (row, a)" and "u_state (lr_unit row) = U_RUNNING" "a_state a = A_RUNNING"
  shows "txn d d'"
proof -
  have "a_ended_at a = None" using held_pair [OF assms(2,3)] assms(4) by simp
  with assms show ?thesis
    unfolding freeze_facts_def
    by (auto simp: tx_simps attempt_evolves_def split: if_splits
        dest!: update_running_attempt_txn [OF _ assms(2,3)] advance_revision_clock_txn intro: txn_trans)
qed

lemma freeze_usage_txn:
  assumes "freeze_usage l a usage t d = Inr (st, d')" and "store_ok d"
    and "matched_row d l = Some (row, a)" and "u_state (lr_unit row) = U_RUNNING" "a_state a = A_RUNNING"
  shows "txn d d'"
proof -
  have "a_ended_at a = None" using held_pair [OF assms(2,3)] assms(4) by simp
  with assms show ?thesis
    unfolding freeze_usage_def
    by (auto simp: tx_simps attempt_evolves_def split: if_splits option.splits
        dest!: update_running_attempt_txn [OF _ assms(2,3)] add_revision_usage_txn advance_revision_clock_txn
        intro: txn_trans)
qed

lemma running_guard_None:
  "running_guard row a t = Inr None \<Longrightarrow> u_state (lr_unit row) = U_RUNNING \<and> a_state a = A_RUNNING"
  by (auto simp: running_guard_def tx_simps split: if_splits)

lemma record_execution_facts_txn:
  assumes "record_execution_facts l ex mo dev ivc now d = Inr (st, d')" and "store_ok d"
  shows "txn d d'"
  using assms unfolding record_execution_facts_def Let_def
  by (auto simp: tx_simps split: if_splits option.splits prod.splits
      dest!: running_guard_None intro: freeze_facts_txn)

lemma record_attempt_usage_txn:
  assumes "record_attempt_usage l usage now d = Inr (st, d')" and "store_ok d"
  shows "txn d d'"
  using assms unfolding record_attempt_usage_def Let_def
  by (auto simp: tx_simps split: if_splits option.splits prod.splits
      dest!: running_guard_None intro: freeze_usage_txn)

lemma refresh_usage_complete_txn: "refresh_usage_complete owner wid d = Inr (b, d') \<Longrightarrow> txn d d'"
  unfolding refresh_usage_complete_def Let_def
  by (auto simp: tx_simps revision_evolves_def split: option.splits intro!: txn_revisions)

subsection \<open>Release of a lease\<close>

definition lets_go :: "unit_row \<Rightarrow> unit_row \<Rightarrow> bool" where
  "lets_go u v \<longleftrightarrow> live_unit u \<and> unit_evolves u v \<and> idle_unit v \<and> u_fence v = u_fence u \<and>
     u_state v \<noteq> U_COMMITTED \<and> u_committed_result v = u_committed_result u"

lemma update_pair_release:
  assumes run: "update_pair PA fa PU fu msg d = Inr d'"
    and unit: "\<And>u. PU u \<Longrightarrow> lets_go u (fu u)"
    and att: "\<And>u a. PU u \<Longrightarrow> PA a \<Longrightarrow> attempt_of u a \<and> a_ended_at a = None"
    and ends: "\<And>a. PA a \<Longrightarrow> attempt_evolves a (fa a) \<and> a_ended_at (fa a) \<noteq> None \<and> \<not> live_attempt (fa a)"
  shows "txn d d'"
proof -
  obtain u a where ua: "u \<in> set (units d)" "PU u" "a \<in> set (attempts d)" "PA a"
    using run count_where_one_ex [of PU "units d"] count_where_one_ex [of PA "attempts d"]
    by (auto simp: update_pair_def split: if_splits)
  then show ?thesis
    using unit [OF ua(2)] att [OF ua(2,4)] ends [OF ua(4)]
    by (intro update_pair_txn [OF run ua(1,3,2,4)])
      (auto simp: lets_go_def pair_step_def live_unit_def)
qed

lemma released_lets_go:
  assumes "live_unit u" and "state \<in> {U_PENDING, U_RETRY_WAIT, U_NEEDS_ATTENTION, U_FAILED_PERMANENT}"
  shows "lets_go u (released_unit t state next e det gen n u)"
  using assms by (auto simp: lets_go_def released_unit_def unit_evolves_def idle_unit_def live_unit_def
      fence_evolves_def TERMINAL_UNIT_STATES_def)

lemma abandoned_lets_go:
  assumes "live_unit u"
  shows "lets_go u (abandoned_unit t (abandon_target av before t) av det gen g u)"
  using assms by (auto simp: lets_go_def abandoned_unit_def abandon_target_def released_unit_def unit_evolves_def
      idle_unit_def live_unit_def fence_evolves_def TERMINAL_UNIT_STATES_def)

lemma ended_attempt_evolves:
  assumes "a_ended_at a = None" and "state \<notin> {A_LEASED, A_RUNNING}"
  shows "attempt_evolves a (ended_attempt t state e m a) \<and> a_ended_at (ended_attempt t state e m a) \<noteq> None \<and>
    \<not> live_attempt (ended_attempt t state e m a)"
  using assms by (auto simp: ended_attempt_def attempt_evolves_def live_attempt_def)

lemma mark_unaccounted_txn:
  "mark_unaccounted_model_usage_unknown_in_transaction u a t d = Inr (b, d') \<Longrightarrow> txn d d'"
  by (auto simp: mark_unaccounted_model_usage_unknown_in_transaction_def tx_simps split: if_splits
      dest: add_revision_usage_txn)

lemma finish_lease_txn: "finish_lease l t d = Inr d' \<Longrightarrow> store_ok d \<Longrightarrow> txn d d'"
  by (auto simp: finish_lease_def tx_simps dest!: advance_revision_clock_txn
      dest: settle_in_transaction_txn intro: txn_trans txn_keeps)

lemma leased_pair_at:
  "leased_unit_at l u \<Longrightarrow> leased_attempt_at l a \<Longrightarrow> attempt_of u a \<and> a_ended_at a = None"
  by (auto simp: leased_unit_at_def leased_attempt_at_def unit_at_def attempt_of_def)

lemma failure_target_state:
  "failure_target sha8 l p r t = Inr (state, status, next) \<Longrightarrow>
     state \<in> {U_RETRY_WAIT, U_NEEDS_ATTENTION, U_FAILED_PERMANENT}"
  by (cases r) (auto simp: failure_target_def tx_simps)

lemma txn_then: "txn d d1 \<Longrightarrow> store_ok d \<Longrightarrow> (store_ok d1 \<Longrightarrow> txn d1 d2) \<Longrightarrow> txn d d2"
  by (blast intro: txn_trans txn_keeps)

lemma failed_pair_txn:
  assumes "update_pair (running_attempt_at l) (ended_attempt t st e m) (running_unit_at l)
      (released_unit t state next c det g n) msg d = Inr d'"
    and "failure_target sha8 l p r t = Inr (state, status, next)" and "st \<notin> {A_LEASED, A_RUNNING}"
  shows "txn d d'"
  using failure_target_state [OF assms(2)] leased_pair_at assms(3)
  by (intro update_pair_release [OF assms(1)] released_lets_go ended_attempt_evolves)
    (auto simp: running_unit_at_def running_attempt_at_def live_unit_def leased_attempt_at_def)

lemma close_failed_txn:
  assumes "close_failed sha8 l row a e dec st unknown reg t d = Inr (r, d')" and ok: "store_ok d"
    and st: "st \<notin> {A_LEASED, A_RUNNING}"
  shows "txn d d'"
  using assms unfolding close_failed_def tx_simps
  by (elim exE conjE) (auto simp: tx_simps simp del: insert_iff split: prod.splits
      intro: txn_then failed_pair_txn finish_lease_txn)

lemma fail_running_txn:
  assumes "fail_running sha8 l row a e dec st t d = Inr (r, d')" and ok: "store_ok d"
    and st: "st \<notin> {A_LEASED, A_RUNNING}"
  shows "txn d d'"
  using assms unfolding fail_running_def Let_def
  by (auto simp: tx_simps simp del: insert_iff split: prod.splits intro: txn_then mark_unaccounted_txn close_failed_txn)

lemma fail_attempt_txn:
  assumes "fail_attempt sha8 l e dec st now d = Inr (r, d')" and ok: "store_ok d"
  shows "txn d d'"
  using assms unfolding fail_attempt_def Let_def
  by (auto simp: tx_simps split: if_splits option.splits prod.splits elim: fail_running_txn)

lemma abandoned_pair_txn:
  assumes "update_pair (live_attempt_at l) (ended_attempt t A_ABANDONED e m) (live_unit_at l)
      (abandoned_unit t (abandon_target av before t) av det gen g) msg d = Inr d'"
  shows "txn d d'"
  using leased_pair_at
  by (intro update_pair_release [OF assms] abandoned_lets_go ended_attempt_evolves)
    (auto simp: live_unit_at_def live_attempt_at_def live_unit_def leased_attempt_at_def)

lemma close_abandoned_txn:
  assumes "close_abandoned l row a reason av unknown reg t d = Inr (st, d')" and ok: "store_ok d"
  shows "txn d d'"
  using assms unfolding close_abandoned_def Let_def tx_simps
  by (elim exE conjE) (auto simp: tx_simps intro: txn_then abandoned_pair_txn finish_lease_txn)

lemma abandon_attempt_txn:
  assumes "abandon_attempt l now reason d = Inr (st, d')" and ok: "store_ok d"
  shows "txn d d'"
  using assms unfolding abandon_attempt_def abandon_live_def Let_def
  by (auto simp: tx_simps split: if_splits option.splits prod.splits
      intro: txn_then mark_unaccounted_txn close_abandoned_txn)

subsection \<open>Expired leases\<close>

lemma expiry_target_state:
  "expiry_target sha8 e unknown reg = Inr (state, next) \<Longrightarrow> state \<in> {U_PENDING, U_RETRY_WAIT, U_NEEDS_ATTENTION}"
  by (auto simp: expiry_target_def Let_def tx_simps split: if_splits)

lemma expired_pair_txn:
  assumes "update_pair (expired_attempt_at e) (ended_attempt t (if before then A_ABANDONED else A_TIMED_OUT) er m)
      (expired_unit_at e) (released_unit t state next c det g n) msg d = Inr d'"
    and "expiry_target sha8 e unknown reg = Inr (state, next)" and "live_unit (er_unit e)"
  shows "txn d d'"
  using expiry_target_state [OF assms(2)] assms(3)
  by (intro update_pair_release [OF assms(1)] released_lets_go ended_attempt_evolves)
    (auto simp: expired_unit_at_def expired_attempt_at_def live_unit_def unit_at_def attempt_of_def)

lemma close_expired_txn:
  assumes "close_expired sha8 t e unknown d = Inr (state, d')" and "live_unit (er_unit e)"
  shows "txn d d'"
  using assms unfolding close_expired_def Let_def tx_simps
  by (elim exE conjE) (auto simp: tx_simps split: prod.splits
      intro: txn_trans [OF expired_pair_txn advance_revision_clock_txn])

lemma reconcile_row_txn:
  assumes "reconcile_row sha8 t e acc = Inr acc'" and "live_unit (er_unit e)"
  shows "txn (snd acc) (snd acc')"
  using assms unfolding reconcile_row_def
  by (auto simp: tx_simps split: if_splits prod.splits
      intro: txn_trans [OF mark_unaccounted_txn close_expired_txn] close_expired_txn)

lemma expired_row_ofD:
  assumes "expired_row_of d t u = Some e"
  shows "er_unit e = u" and "expired_lease t (us_clock_high_water_at (er_usage e)) u"
    and "find (usage_at (u_owner u) (u_revision u)) (revision_usage d) = Some (er_usage e)"
    and "er_attempt e \<in> set (attempts d)" and "er_revision e \<in> set (revisions d)"
  using assms
  by (auto simp: expired_row_of_def split: option.split_asm if_split_asm dest!: find_SomeD)

lemma expired_rows_live: "e \<in> set (expired_rows d t n) \<Longrightarrow> live_unit (er_unit e)"
proof -
  assume "e \<in> set (expired_rows d t n)"
  then have "e \<in> set (concat (map (\<lambda>u. case expired_row_of d t u of None \<Rightarrow> [] | Some e \<Rightarrow> [e]) (units d)))"
    unfolding expired_rows_def by (rule subsetD [OF set_order_limit])
  then obtain u where u: "expired_row_of d t u = Some e"
    by (auto split: option.splits)
  show ?thesis
    using expired_row_ofD(1,2) [OF u] by (auto simp: expired_lease_def live_unit_def)
qed

lemma settle_all_txn:
  assumes "foldE (settle_affected t) ws d = Inr d'" and "store_ok d"
  shows "txn d d'"
  using assms
proof (induction ws arbitrary: d)
  case Nil
  then show ?case by simp
next
  case (Cons w ws)
  then show ?case
    by (auto simp: tx_simps settle_affected_def dest!: settle_in_transaction_txn intro: txn_then)
qed

lemma reconcile_in_transaction_txn:
  assumes "reconcile_in_transaction sha8 t n d = Inr (r, d')" and ok: "store_ok d"
  shows "txn d d'"
proof -
  obtain k d1 p d2 where 1: "foldE (reconcile_row sha8 t) (expired_rows d t n) (no_reconcile, d) = Inr (k, d1)"
    and 2: "promote_due_retries_in_transaction t (max 0 (n - int (length (expired_rows d t n)))) d1 = Inr (p, d2)"
    and 3: "foldE (settle_affected t) (affected_workloads (expired_rows d t n)) d2 = Inr d'"
    using assms(1) by (auto simp: reconcile_in_transaction_def Let_def tx_simps)
  have "txn d d1"
    using foldE_txn [OF 1, where the_db = snd] reconcile_row_txn expired_rows_live by auto
  with promote_due_retries_txn [OF 2] have "txn d d2" by (blast intro: txn_trans)
  then show ?thesis using ok settle_all_txn [OF 3] by (rule txn_then)
qed

lemma reconcile_expired_txn:
  "reconcile_expired sha8 t n d = Inr (r, d') \<Longrightarrow> store_ok d \<Longrightarrow> txn d d'"
  by (auto simp: reconcile_expired_def split: if_splits intro: reconcile_in_transaction_txn)


subsection \<open>Commit\<close>

lemma insert_dependency_effect:
  "insert_dependency owner revision_id rid j acc = Inr acc' \<Longrightarrow> \<exists>ds. snd acc' = snd acc\<lparr>dependencies := ds\<rparr>"
  by (auto simp: insert_dependency_def Let_def split: prod.splits if_splits)

lemma insert_dependencies_effect:
  assumes "insert_result_dependencies_in_transaction owner revision_id rid rows d = Inr d'"
  shows "\<exists>ds. d' = d\<lparr>dependencies := ds\<rparr>"
proof -
  obtain o' where "foldE (insert_dependency owner revision_id rid) rows ([], d) = Inr (o', d')"
    using assms by (auto simp: insert_result_dependencies_in_transaction_def tx_simps)
  then have "\<exists>ds. snd (o', d') = d\<lparr>dependencies := ds\<rparr>"
  proof (rule foldE_invariant [where Q = "\<lambda>s. \<exists>ds. snd s = d\<lparr>dependencies := ds\<rparr>"])
    show "\<exists>ds. snd ([], d) = d\<lparr>dependencies := ds\<rparr>"
      by (intro exI [of _ "dependencies d"]) simp
  next
    fix j s t
    assume "\<exists>ds. snd s = d\<lparr>dependencies := ds\<rparr>" and "insert_dependency owner revision_id rid j s = Inr t"
    then show "\<exists>ds. snd t = d\<lparr>dependencies := ds\<rparr>"
      using insert_dependency_effect [of owner revision_id rid j s t] by auto
  qed
  then show ?thesis by simp
qed

text \<open>The pair a lease holds, as a fact of the two tables alone.\<close>

definition held :: "db \<Rightarrow> lease \<Rightarrow> unit_row \<Rightarrow> attempt_row \<Rightarrow> bool" where
  "held d l u a \<longleftrightarrow> u \<in> set (units d) \<and> a \<in> set (attempts d) \<and> leased_unit_at l u \<and> leased_attempt_at l a"

lemma held_running:
  assumes "store_ok d" and "matched_row d l = Some (row, a)" and "u_state (lr_unit row) = U_RUNNING"
  shows "held d l (lr_unit row) a"
  using matched_rowD [OF assms(2)] held_pair [OF assms(1,2)] assms(3)
  by (auto simp: held_def leased_attempt_at_def)

lemma store_result_effect:
  assumes run: "store_result sha l a v rows t d = Inr (rid, d')" and h: "held d l u a"
    and running: "u_state u = U_RUNNING" "a_state a = A_RUNNING"
  shows "\<exists>m prov det ds. let x = new_result l v rid prov t in
    (\<forall>y \<in> set (results d). x_owner y = l_owner_user_id l \<longrightarrow> x_id y \<noteq> rid \<and> x_unit y \<noteq> l_unit_id l) \<and>
    d' = (put_pair u (committed_unit rid det t u) a (a\<lparr>a_state := A_SUCCEEDED, a_ended_at := Some t, a_metrics := m\<rparr>)
      (d\<lparr>uuid_count := uuid_count d + 1\<rparr>))\<lparr>results := results d @ [x], dependencies := ds\<rparr>"
proof -
  obtain m prov det d2 d3 where
    ins: "insert_result (new_result l v rid prov t) (d\<lparr>uuid_count := uuid_count d + 1\<rparr>) = Inr d2"
    and dep: "insert_result_dependencies_in_transaction (l_owner_user_id l) (l_revision_id l) rid rows d2 = Inr d3"
    and upd: "update_pair (running_attempt_at l) (\<lambda>b. b\<lparr>a_state := A_SUCCEEDED, a_ended_at := Some t, a_metrics := m\<rparr>)
      (running_unit_at l) (committed_unit rid det t) ''result commit compare-and-set failed'' d3 = Inr d'"
    using run unfolding store_result_def new_id_def Let_def tx_simps by (elim exE conjE) (auto simp: tx_simps)
  have d2: "d2 = d\<lparr>uuid_count := uuid_count d + 1, results := results d @ [new_result l v rid prov t]\<rparr>"
    and new: "\<forall>y \<in> set (results d). x_owner y = l_owner_user_id l \<longrightarrow> x_id y \<noteq> rid \<and> x_unit y \<noteq> l_unit_id l"
    using ins by (auto simp: insert_result_def new_result_def split: if_splits)
  obtain ds where d3: "d3 = d2\<lparr>dependencies := ds\<rparr>"
    using insert_dependencies_effect [OF dep] by blast
  have "d' = put_pair u (committed_unit rid det t u) a
      (a\<lparr>a_state := A_SUCCEEDED, a_ended_at := Some t, a_metrics := m\<rparr>) d3"
    by (rule update_pair_effect [OF upd])
      (use h running d2 d3 in \<open>simp_all add: held_def running_unit_at_def running_attempt_at_def\<close>)
  with new show ?thesis
    unfolding d2 d3 by (intro exI [of _ m] exI [of _ prov] exI [of _ det] exI [of _ ds]) (simp add: Let_def)
qed

lemma store_result_txn:
  assumes run: "store_result sha l a v rows t d = Inr (rid, d')" and ok: "store_ok d"
    and h: "held d l u a" and running: "u_state u = U_RUNNING" "a_state a = A_RUNNING"
  shows "txn d d'"
proof -
  let ?e = "d\<lparr>uuid_count := uuid_count d + 1\<rparr>"
  have fresh: "u_committed_result u = None"
    using ok h running by (auto simp: store_ok_def results_ok_def held_def)
  obtain m prov det ds where
    new: "\<forall>y \<in> set (results d). x_owner y = l_owner_user_id l \<longrightarrow> x_id y \<noteq> rid \<and> x_unit y \<noteq> l_unit_id l"
    and d': "d' = (put_pair u (committed_unit rid det t u) a (a\<lparr>a_state := A_SUCCEEDED, a_ended_at := Some t, a_metrics := m\<rparr>) ?e)
      \<lparr>results := results d @ [new_result l v rid prov t], dependencies := ds\<rparr>"
    using store_result_effect [OF run h running] unfolding Let_def by blast
  have "txn ?e ((put_pair u (committed_unit rid det t u) a (a\<lparr>a_state := A_SUCCEEDED, a_ended_at := Some t, a_metrics := m\<rparr>) ?e)
      \<lparr>results := results ?e @ [new_result l v rid prov t]\<rparr>)"
    using h running new fresh leased_pair_at [of l u a]
    by (intro txn_commit_pair)
      (auto simp: held_def pair_step_def committed_unit_def new_result_def unit_evolves_def attempt_evolves_def fence_evolves_def
        live_unit_def live_attempt_def idle_unit_def TERMINAL_UNIT_STATES_def leased_unit_at_def unit_at_def)
  then have "txn d ((put_pair u (committed_unit rid det t u) a (a\<lparr>a_state := A_SUCCEEDED, a_ended_at := Some t, a_metrics := m\<rparr>) ?e)
      \<lparr>results := results d @ [new_result l v rid prov t]\<rparr>)"
    by (auto intro: txn_trans [OF txn_untracked(7)])
  then show ?thesis
    unfolding d' by (rule txn_trans) simp
qed

lemma commit_guard_None:
  "commit_guard l row a t = Inr None \<Longrightarrow> u_state (lr_unit row) = U_RUNNING \<and> a_state a = A_RUNNING"
  by (auto simp: commit_guard_def tx_simps split: if_splits option.splits)

lemma account_result_txn: "account_result l v t d = Inr d' \<Longrightarrow> txn d d'"
  by (auto simp: account_result_def tx_simps split: option.splits
      dest!: add_revision_usage_txn advance_revision_clock_txn intro: txn_trans)

lemma account_result_frame:
  "account_result l v t d = Inr d' \<Longrightarrow>
     units d' = units d \<and> attempts d' = attempts d \<and> stages d' = stages d \<and> workloads d' = workloads d \<and>
     results d' = results d"
  by (auto simp: account_result_def advance_revision_clock_in_transaction_def add_revision_usage_in_transaction_def
      tx_simps Let_def split: option.splits if_splits)


lemma commit_running_txn:
  assumes run: "commit_running sha l row a v ids t d = Inr (r, d')" and ok: "store_ok d"
    and row: "matched_row d l = Some (row, a)" and running: "u_state (lr_unit row) = U_RUNNING" "a_state a = A_RUNNING"
  shows "txn d d'"
proof -
  obtain rows d1 rid d2 x where 1: "account_result l v t d = Inr d1"
    and 2: "store_result sha l a v rows t d1 = Inr (rid, d2)"
    and 3: "settle_workload_in_transaction (l_owner_user_id l) (l_workload_id l) t False UNIT_STATE_BATCH_SIZE d2 = Inr (x, d')"
    using run unfolding commit_running_def tx_simps by (elim exE conjE) (auto simp: tx_simps split: if_splits)
  have "held d1 l (lr_unit row) a"
    using held_running [OF ok row running(1)] account_result_frame [OF 1] by (simp add: held_def)
  moreover have ok1: "store_ok d1" using account_result_txn [OF 1] ok by (rule txn_keeps)
  ultimately have "txn d1 d2" using store_result_txn [OF 2] running by blast
  with account_result_txn [OF 1] have "txn d d2" by (rule txn_trans)
  then show ?thesis using ok settle_in_transaction_txn [OF 3] by (rule txn_then)
qed

lemma commit_result_txn:
  assumes "commit_result sha l v ids now d = Inr (r, d')" and ok: "store_ok d"
  shows "txn d d'"
  using assms unfolding commit_result_def Let_def
  by (auto simp: tx_simps split: if_splits option.splits prod.splits
      dest!: commit_guard_None intro: commit_running_txn)

end
