(* ===== verification/Lease_Properties.thy ===== *)
theory Lease_Properties
  imports Attempts
begin

text \<open>
  What a lease guarantees: a claim hands out a unit that was free, under a fresh fence, to a
  worker able to run it and within every limit of its revision; a lease that is no longer
  held changes nothing; a result is committed once and for all; failures and expired leases
  follow the frozen retry policy.
\<close>

section \<open>What a claim chooses\<close>

lemma choose_candidateD:
  assumes "choose_candidate d caps t = Some c"
  shows "\<exists>w \<in> set (workloads d). workload_candidate d caps t w = Some c"
proof -
  let ?cs = "concat (map (\<lambda>w. case workload_candidate d caps t w of None \<Rightarrow> [] | Some c \<Rightarrow> [c]) (workloads d))"
  obtain cs where "order_limit (candidate_order d) 1 ?cs = c # cs"
    using assms by (auto simp: choose_candidate_def split: list.splits)
  then have "c \<in> set (order_limit (candidate_order d) 1 ?cs)" by simp
  then have "c \<in> set ?cs" by (rule subsetD [OF set_order_limit])
  then show ?thesis by (auto split: option.splits)
qed

lemma candidate_stageD:
  assumes "candidate_stage d caps t r us = Some s"
  shows "s \<in> set (stages d)" and "stage_eligible d caps t r us s"
proof -
  let ?ss = "filter (stage_eligible d caps t r us) (stages d)"
  obtain ss where "order_limit (\<lambda>s. (of_bool (over_limit r us s) :: int, s_position s, s_id s)) 1 ?ss = s # ss"
    using assms by (auto simp: candidate_stage_def split: list.splits)
  then have "s \<in> set (order_limit (\<lambda>s. (of_bool (over_limit r us s) :: int, s_position s, s_id s)) 1 ?ss)" by simp
  then have "s \<in> set ?ss" by (rule subsetD [OF set_order_limit])
  then show "s \<in> set (stages d)" and "stage_eligible d caps t r us s" by simp_all
qed

lemma workload_candidateD:
  assumes "workload_candidate d caps t w = Some c"
  shows "cc_workload c = w" and "w_state w \<in> {W_QUEUED, W_RUNNING}"
    and "w_active_revision w = Some (r_id (cc_revision c))"
    and "find (revision_at (w_owner w) (r_id (cc_revision c))) (revisions d) = Some (cc_revision c)"
    and "r_owner (cc_revision c) = w_owner w"
    and "find (usage_at (w_owner w) (r_id (cc_revision c))) (revision_usage d) = Some (cc_usage c)"
    and "cc_stage c \<in> set (stages d)"
    and "stage_eligible d caps t (cc_revision c) (cc_usage c) (cc_stage c)"
    and "\<not> usage_needs_settlement (r_budgets (cc_revision c)) (cc_usage c) t"
    and "\<forall>u \<in> set (units d). \<not> untolerated_failure (w_owner w) (r_id (cc_revision c)) (cc_revision c) u"
    and "int (active_unit_count_in_transaction (w_owner w) (r_id (cc_revision c)) d)
           < b_max_concurrency (r_budgets (cc_revision c))"
proof -
  from assms obtain rid r us s where w: "w_state w \<in> {W_QUEUED, W_RUNNING}" "w_active_revision w = Some rid"
    and r: "find (revision_at (w_owner w) rid) (revisions d) = Some r"
    and us: "find (usage_at (w_owner w) rid) (revision_usage d) = Some us"
    and s: "candidate_stage d caps t r us = Some s"
    and c: "c = \<lparr>cc_workload = w, cc_revision = r, cc_usage = us, cc_stage = s\<rparr>"
    and limits: "\<not> usage_needs_settlement (r_budgets r) us t"
      "\<not> exists_where (untolerated_failure (w_owner w) rid r) (units d)"
      "int (active_unit_count_in_transaction (w_owner w) rid d) < b_max_concurrency (r_budgets r)"
    by (auto simp: workload_candidate_def split: if_split_asm option.split_asm)
  have rid: "rid = r_id r" and "r_owner r = w_owner w"
    using find_SomeD [OF r] by (auto simp: revision_at_def)
  then show "cc_workload c = w" and "w_state w \<in> {W_QUEUED, W_RUNNING}"
    and "w_active_revision w = Some (r_id (cc_revision c))"
    and "find (revision_at (w_owner w) (r_id (cc_revision c))) (revisions d) = Some (cc_revision c)"
    and "r_owner (cc_revision c) = w_owner w"
    and "find (usage_at (w_owner w) (r_id (cc_revision c))) (revision_usage d) = Some (cc_usage c)"
    and "cc_stage c \<in> set (stages d)"
    and "stage_eligible d caps t (cc_revision c) (cc_usage c) (cc_stage c)"
    and "\<not> usage_needs_settlement (r_budgets (cc_revision c)) (cc_usage c) t"
    and "\<forall>u \<in> set (units d). \<not> untolerated_failure (w_owner w) (r_id (cc_revision c)) (cc_revision c) u"
    and "int (active_unit_count_in_transaction (w_owner w) (r_id (cc_revision c)) d)
           < b_max_concurrency (r_budgets (cc_revision c))"
    using w r us candidate_stageD [OF s] limits rid unfolding c by auto
qed

section \<open>Effect of a claim\<close>

text \<open>Promotion changes only due retries, each into the same pending unit.\<close>

definition promoted :: "instant \<Rightarrow> unit_row \<Rightarrow> unit_row \<Rightarrow> bool" where
  "promoted t u v \<longleftrightarrow> v = u \<or> due_retry t u \<and> v = promote_unit t u"

interpretation promoted_rows: row_preorder "promoted t"
  by unfold_locales (auto simp: promoted_def due_retry_def promote_unit_def)

lemma promote_retry_frame:
  "promote_retry t row d = Inr d' \<Longrightarrow> d' = d\<lparr>units := units d'\<rparr> \<and> rows_evolve (promoted t) (units d) (units d')"
  by (auto simp: promote_retry_def Let_def promoted_def split: if_splits intro!: promoted_rows.update_rows)

lemma promote_due_retries_frame:
  assumes "promote_due_retries_in_transaction t n d = Inr (k, d')"
  shows "d' = d\<lparr>units := units d'\<rparr>" and "rows_evolve (promoted t) (units d) (units d')"
    and "length (units d') = length (units d)"
proof -
  obtain rows where fold: "foldE (promote_retry t) rows d = Inr d'"
    using assms by (auto simp: promote_due_retries_in_transaction_def Let_def tx_simps)
  show "rows_evolve (promoted t) (units d) (units d')"
    using promoted_rows.fold_rows [where tab = units, OF fold] promote_retry_frame by blast
  have "\<exists>us. d = d\<lparr>units := us\<rparr>" by (intro exI [of _ "units d"]) simp
  then have "\<exists>us. d' = d\<lparr>units := us\<rparr>"
    by (rule foldE_invariant [where Q = "\<lambda>e. \<exists>us. e = d\<lparr>units := us\<rparr>", OF fold])
      (auto simp: promote_retry_def Let_def split: if_splits)
  then show "d' = d\<lparr>units := units d'\<rparr>" by auto
  show "length (units d') = length (units d)"
    by (rule foldE_invariant [where Q = "\<lambda>e. length (units e) = length (units d)", OF fold])
      (auto simp: promote_retry_def Let_def split: if_splits)
qed

lemma promoted_source:
  assumes "promote_due_retries_in_transaction t n d = Inr (k, d')" and "v \<in> set (units d')"
  shows "\<exists>u \<in> set (units d). promoted t u v"
  using promote_due_retries_frame(2,3) [OF assms(1)] assms(2)
  by (metis in_set_conv_nth rows_evolve_def)

lemma start_queued_frame:
  assumes "start_queued_workload_in_transaction owner wid state version t reason d = Inr d'"
  shows "units d' = units d" and "attempts d' = attempts d" and "stages d' = stages d"
    and "revisions d' = revisions d" and "revision_usage d' = revision_usage d"
    and "unit_dependencies d' = unit_dependencies d"
  using assms unfolding start_queued_workload_in_transaction_def append_event_in_transaction_def Let_def
  by (auto simp: tx_simps split: if_splits option.splits prod.splits)

lemma start_usage_frame:
  assumes "start_revision_usage owner rid t d = Inr d'"
  shows "units d' = units d" and "attempts d' = attempts d" and "stages d' = stages d"
    and "revisions d' = revisions d" and "workloads d' = workloads d"
    and "unit_dependencies d' = unit_dependencies d"
  using assms by (auto simp: start_revision_usage_def Let_def split: if_splits option.splits)

text \<open>What a claim that returns a lease did, step by step.\<close>

lemma claim_next_effect:
  assumes run: "claim_next worker now duration caps d = Inr (Some l, d')" and ok: "store_ok d"
  obtains d1 c u w aid where "promote_due_retries_in_transaction now 1000 d = Inr (fst d1, snd d1)"
    and "choose_candidate (snd d1) caps now = Some c" and "\<not> over_limit (cc_revision c) (cc_usage c) (cc_stage c)"
    and "claimable_unit (snd d1) (cc_revision c) (cc_stage c) now = Some (u, w)"
    and "l = lease_of u w (cc_stage c) aid worker (now + duration)"
    and "units d' = update_where (\<lambda>v. v = u) (\<lambda>_. claimed_unit u (cc_revision c) aid worker (now + duration) now)
      (units (snd d1))"
    and "attempts d' = attempts d @ [claimed_attempt u (cc_stage c) aid worker now]"
    and "stages d' = stages d" and "revisions d' = revisions d"
    and "\<forall>b \<in> set (attempts d). attempt_pk b \<noteq> (u_owner u, aid)"
    and "store_ok d'"
proof -
  obtain k d1 c where 1: "require_worker_id worker = Inr worker" "require_lease_duration duration = Inr duration"
    and promote: "promote_due_retries_in_transaction now 1000 d = Inr (k, d1)"
    and choose: "choose_candidate d1 caps now = Some c"
    and chosen: "claim_chosen c worker (now + duration) now d1 = Inr (Some l, d')"
    using run by (auto simp: claim_next_def tx_simps require_worker_id_def require_lease_duration_def
        split: option.split_asm if_split_asm)
  then have fits: "\<not> over_limit (cc_revision c) (cc_usage c) (cc_stage c)"
    and lease: "lease_candidate c worker (now + duration) now d1 = Inr (Some l, d')"
    by (auto simp: claim_chosen_def tx_simps split: if_split_asm)
  obtain u w aid d2 d3 d4 where unit: "claimable_unit d1 (cc_revision c) (cc_stage c) now = Some (u, w)"
    and 2: "lease_unit u (cc_revision c) (cc_stage c) worker (now + duration) now d1 = Inr (aid, d2)"
    and 3: "start_revision_usage (u_owner u) (Some (u_revision u)) now d2 = Inr d3"
    and 4: "start_queued_workload_in_transaction (u_owner u) (w_id w) (w_state w) (w_version w) now
      ''first_unit_claimed'' d3 = Inr d4"
    and 5: "lease_post_init (lease_of u w (cc_stage c) aid worker (now + duration)) = Inr l"
    and 6: "d' = d4\<lparr>scheduler_credits := select_credit (u_owner u) (w_id w) now (scheduler_credits d4)\<rparr>"
    using lease unfolding lease_candidate_def Let_def by (auto simp: tx_simps split: prod.splits)
  note u = claimable_unitD [OF unit] and frame = promote_due_retries_frame [OF promote]
  have "attention_retry u \<Longrightarrow> u_manual_retry_generation u < r_manual_retry_generation (cc_revision c)"
    using u(2) by (auto simp: ready_unit_def attention_retry_def)
  note eff = lease_unit_effect [OF 2 u(1) this]
  have same: "attempts d1 = attempts d" "stages d1 = stages d" "revisions d1 = revisions d"
    by (subst frame(1); simp)+
  have "l = lease_of u w (cc_stage c) aid worker (now + duration)"
    using 5 by (auto simp: lease_post_init_def Let_def tx_simps split: if_split_asm)
  moreover have "store_ok d'"
    using txn_keeps [OF claim_next_txn [OF run] ok] .
  ultimately show ?thesis
    using that [of "(k, d1)" c u w aid] promote choose fits unit eff same
      start_usage_frame [OF 3] start_queued_frame [OF 4] by (simp add: 6)
qed

section \<open>The lease that a claim returns\<close>

lemma find_by_key:
  assumes "distinct (map key xs)" and "x \<in> set xs" and "P x" and "\<And>y. P y \<Longrightarrow> key y = key x"
  shows "find P xs = Some x"
proof -
  have "P y \<longleftrightarrow> y = x" if "y \<in> set xs" for y
    using assms that by (auto simp: distinct_map dest: inj_onD)
  then have "find P xs = find (\<lambda>y. key y = key x) xs"
    using assms(1,2) by (intro find_cong_set) (auto simp: distinct_map dest: inj_onD)
  then show ?thesis using find_distinct_key [OF assms(1,2)] by simp
qed

lemma find_exists: "x \<in> set xs \<Longrightarrow> P x \<Longrightarrow> \<exists>y. find P xs = Some y"
  by (metis find_None_iff not_None_eq)

lemma store_keys:
  assumes "store_ok d"
  shows "distinct (map unit_pk (units d))" and "distinct (map attempt_pk (attempts d))"
    and "distinct (map stage_pk (stages d))" and "distinct (map revision_pk (revisions d))"
    and "distinct (map workload_pk (workloads d))" and "distinct (map usage_pk (revision_usage d))"
  using assms by (simp_all add: store_ok_def keys_ok_def)

lemma usage_kept:
  assumes "db_evolves d d'" and "find (usage_at owner rid) (revision_usage d) = Some us"
  shows "\<exists>us'. find (usage_at owner rid) (revision_usage d') = Some us'"
proof -
  obtain us' where "us' \<in> set (revision_usage d')" "usage_evolves us us'"
    using assms find_SomeD [OF assms(2)] rows_evolveD by (fastforce simp: db_evolves_def)
  then show ?thesis
    using find_SomeD [OF assms(2)] by (intro find_exists [of us']) (auto simp: usage_at_def usage_evolves_def)
qed

lemma workload_kept:
  assumes "db_evolves d d'" and "w \<in> set (workloads d)" and "workload_at owner wid w"
  shows "\<exists>w'. find (workload_at owner wid) (workloads d') = Some w'"
proof -
  obtain w' where "w' \<in> set (workloads d')" "workload_evolves w w'"
    using assms(1,2) rows_evolveD by (fastforce simp: db_evolves_def)
  then show ?thesis
    using assms(3) by (intro find_exists [of w']) (auto simp: workload_at_def workload_evolves_def)
qed

lemma claimed_row_matches:
  assumes ok: "store_ok d" and u': "claimed_unit u r aid worker expiry t \<in> set (units d)"
    and a': "claimed_attempt u s aid worker t \<in> set (attempts d)"
    and s: "s \<in> set (stages d)" "s_owner s = u_owner u" "s_revision s = u_revision u" "s_id s = u_stage u"
    and r: "find (revision_at (u_owner u) (u_revision u)) (revisions d) = Some r" "r_workload r = w_id w"
    and us: "\<exists>us. find (usage_at (u_owner u) (u_revision u)) (revision_usage d) = Some us"
    and w: "\<exists>w'. find (workload_at (u_owner u) (w_id w)) (workloads d) = Some w'"
  shows "lease_matches d (lease_of u w s aid worker expiry)" (is "lease_matches d ?l")
proof -
  let ?u = "claimed_unit u r aid worker expiry t" and ?a = "claimed_attempt u s aid worker t"
  have unit: "find (unit_at (u_owner u) (u_id u)) (units d) = Some ?u"
    using u' by (intro find_by_key [OF store_keys(1) [OF ok]]) (auto simp: unit_at_def claimed_unit_def)
  have att: "find (\<lambda>a. a_owner a = u_owner u \<and> a_id a = aid \<and> a_unit a = u_id u) (attempts d) = Some ?a"
    using a' by (intro find_by_key [OF store_keys(2) [OF ok]]) (auto simp: claimed_attempt_def)
  have stage: "stage_of d ?u = Some s"
    unfolding stage_of_def using s
    by (intro find_by_key [OF store_keys(3) [OF ok]]) (auto simp: stage_at_def claimed_unit_def)
  have ids: "u_owner ?u = u_owner u" "u_id ?u = u_id u" "u_revision ?u = u_revision u" "r_owner r = u_owner u"
    using find_SomeD [OF r(1)] by (auto simp: claimed_unit_def revision_at_def)
  obtain us w' where "find (usage_at (u_owner u) (u_revision u)) (revision_usage d) = Some us"
    "find (workload_at (u_owner u) (w_id w)) (workloads d) = Some w'"
    using us w by blast
  then have "select_lease_row d ?l =
      Some \<lparr>lr_unit = ?u, lr_revision = r, lr_workload = w', lr_usage = us, lr_stage = s, lr_attempt = Some ?a\<rparr>"
    using unit stage att r ids by (simp add: select_lease_row_def lease_of_def)
  then show ?thesis
    using r(2) by (simp add: lease_matches_def matched_row_def row_matches_def Let_def lease_of_def
        claimed_unit_def claimed_attempt_def claim_metrics_def manual_retry_of_def jget_def)
qed

text \<open>Every attempt made so far for the unit carries a smaller fence and number.\<close>

definition above_attempts :: "lease \<Rightarrow> attempt_row list \<Rightarrow> bool" where
  "above_attempts l as \<longleftrightarrow> (\<forall>a \<in> set as. a_owner a = l_owner_user_id l \<and> a_unit a = l_unit_id l \<longrightarrow>
     a_fence a < l_fence l \<and> a_number a < l_attempt_number l)"

definition lease_fits :: "worker_capabilities \<Rightarrow> lease \<Rightarrow> bool" where
  "lease_fits caps l \<longleftrightarrow> l_effect_profile l \<in> set (wc_effect_profiles caps) \<and>
     (l_runner_kind l, l_runner_name l) \<in> set (wc_runner_bindings caps) \<and>
     list_all (\<lambda>(key, amount). amount \<le> resource_limit caps key) (l_resource_claims l)"

lemma attempts_below:
  assumes "store_ok d" and "u \<in> set (units d)" and "l_owner_user_id l = u_owner u" "l_unit_id l = u_id u"
    "l_fence l = u_fence u + 1" "l_attempt_number l = u_attempt_count u + 1"
  shows "above_attempts l (attempts d)"
proof -
  have "a_fence a \<le> u_fence u \<and> a_number a \<le> u_attempt_count u"
    if h: "a \<in> set (attempts d)" "a_owner a = u_owner u" "a_unit a = u_id u" for a
  proof -
    have "leases_ok (units d) (attempts d)" using assms(1) by (simp add: store_ok_def)
    then obtain v where "v \<in> set (units d)" "attempt_within v a"
      using leases_okD(3) h(1) by blast
    then show ?thesis
      using h pk_unique(1) [OF store_keys(1) [OF assms(1)] assms(2), of v] by (auto simp: attempt_within_def)
  qed
  then show ?thesis using assms(3-) by (auto simp: above_attempts_def)
qed

section \<open>Reservations across a claim\<close>

lemma sum_where_update:
  assumes "distinct rows" and "u \<in> set rows" and "\<not> P u" and "Q u'"
    and "\<And>v. v \<in> set rows \<Longrightarrow> v \<noteq> u \<Longrightarrow> Q v = P v \<and> g v = f v"
  shows "sum_list (map g (filter Q (update_where (\<lambda>v. v = u) (\<lambda>_. u') rows)))
    = sum_list (map f (filter P rows)) + (g u' :: 'a::comm_monoid_add)"
  using assms
proof (induction rows)
  case (Cons r rows)
  show ?case
  proof (cases "r = u")
    case True
    then have out: "v \<noteq> u" if "v \<in> set rows" for v using Cons.prems(1) that by auto
    have "update_where (\<lambda>v. v = u) (\<lambda>_. u') rows = rows"
      using out by (simp add: update_where_def map_idI)
    moreover have "filter Q rows = filter P rows"
      using out Cons.prems(5) by (intro filter_cong) auto
    moreover have "map g (filter P rows) = map f (filter P rows)"
      using out Cons.prems(5) by (intro map_cong) auto
    ultimately show ?thesis using True Cons.prems by (simp add: add.commute del: map_eq_conv)
  next
    case False
    with Cons show ?thesis by (auto simp: add.assoc)
  qed
qed simp

lemma count_where_sum: "count_where P rows = sum_list (map (\<lambda>_. 1) (filter P rows))"
  by (simp add: count_where_def sum_list_triv)

lemma count_where_update:
  assumes "distinct rows" and "u \<in> set rows" and "\<not> P u" and "Q u'"
    and "\<And>v. v \<in> set rows \<Longrightarrow> v \<noteq> u \<Longrightarrow> Q v = P v"
  shows "count_where Q (update_where (\<lambda>v. v = u) (\<lambda>_. u') rows) = count_where P rows + 1"
  unfolding count_where_sum using assms by (intro sum_where_update) auto

lemma count_where_same:
  assumes "u \<in> set rows" and "\<not> P u" and "\<not> Q u'"
    and "\<And>v. v \<in> set rows \<Longrightarrow> v \<noteq> u \<Longrightarrow> Q v = P v"
  shows "count_where Q (update_where (\<lambda>v. v = u) (\<lambda>_. u') rows) = count_where P rows"
proof -
  have "filter (Q \<circ> (\<lambda>v. if v = u then u' else v)) rows = filter P rows"
    using assms by (intro filter_cong) auto
  then show ?thesis by (simp add: count_where_def update_where_def filter_map)
qed

lemma find_append: "find P (xs @ ys) = (case find P xs of None \<Rightarrow> find P ys | Some x \<Rightarrow> Some x)"
  by (induction xs) auto

text \<open>One free unit claimed: the change a claim makes to the tables that reservations are read from.\<close>

definition claims_row :: "db \<Rightarrow> db \<Rightarrow> unit_row \<Rightarrow> unit_row \<Rightarrow> attempt_row \<Rightarrow> bool" where
  "claims_row d e u u' a \<longleftrightarrow> distinct (map unit_pk (units d)) \<and> u \<in> set (units d) \<and> \<not> live_unit u \<and>
     unit_pk u' = unit_pk u \<and> u_revision u' = u_revision u \<and> u_stage u' = u_stage u \<and>
     u_state u' = U_LEASED \<and> attempt_of u' a \<and> a_state a = A_LEASED \<and> a_ended_at a = None \<and>
     \<not> accounted_attempt a \<and> (\<forall>b \<in> set (attempts d). attempt_pk b \<noteq> attempt_pk a) \<and>
     units e = update_where (\<lambda>v. v = u) (\<lambda>_. u') (units d) \<and> attempts e = attempts d @ [a] \<and> stages e = stages d"

lemma claims_rowD:
  assumes "claims_row d e u u' a"
  shows "distinct (units d)" and "u \<in> set (units d)" and "\<not> reserving_unit d r u"
    and "units e = update_where (\<lambda>v. v = u) (\<lambda>_. u') (units d)" and "attempts e = attempts d @ [a]"
    and "stage_of e v = stage_of d v" and "stage_of d u' = stage_of d u"
    and "\<not> live_unit u" and "live_unit u'"
  using assms by (auto simp: claims_row_def distinct_map stage_of_def reserving_unit_def live_unit_def)

lemma other_reservation_same:
  assumes c: "claims_row d e u u' a" and "v \<in> set (units d)" and "v \<noteq> u"
  shows "reserving_unit e r v = reserving_unit d r v" and "reserved_tokens e r v = reserved_tokens d r v"
    and "unbounded_reservation e r v = unbounded_reservation d r v"
proof -
  have "unit_pk v \<noteq> unit_pk u" using assms pk_unique(1) [of "units d" u v] by (auto simp: claims_row_def)
  then have "\<not> attempt_of v a" using c by (auto simp: attempt_of_def claims_row_def)
  then have "reserving_attempt e v = reserving_attempt d v"
    by (auto simp: reserving_attempt_def claims_rowD(5) [OF c] find_append split: option.split)
  then show "reserving_unit e r v = reserving_unit d r v" "reserved_tokens e r v = reserved_tokens d r v"
    "unbounded_reservation e r v = unbounded_reservation d r v"
    by (simp_all add: reserving_unit_def reserved_tokens_def unbounded_reservation_def unit_max_tokens_def
        claims_rowD(6) [OF c])
qed

lemma claimed_attempt_found:
  assumes c: "claims_row d e u u' a"
  shows "reserving_attempt e u' = Some a"
proof -
  have "find (\<lambda>b. attempt_of u' b \<and> a_state b \<in> {A_LEASED, A_RUNNING} \<and> a_ended_at b = None) (attempts d) = None"
    using c by (auto simp: claims_row_def find_None_iff attempt_of_def)
  then show ?thesis using c by (simp add: reserving_attempt_def claims_row_def find_append)
qed

lemma claimed_tokens:
  assumes c: "claims_row d e u u' a"
  shows "reserved_tokens e r u' = (case unit_max_tokens d r u of None \<Rightarrow> 0 | Some n \<Rightarrow> n)"
  using c by (auto simp: claims_row_def reserved_tokens_def claimed_attempt_found [OF c] unit_max_tokens_def
      claims_rowD(6,7) [OF c])

lemma claimed_reserving:
  assumes c: "claims_row d e u u' a"
  shows "reserving_unit e r u' \<longleftrightarrow> in_revision (r_owner r) (r_id r) u \<and>
     (case stage_of d u of None \<Rightarrow> False | Some s \<Rightarrow> uses_model s)"
  using c by (auto simp: claims_row_def reserving_unit_def in_revision_def claims_rowD(6,7) [OF c])

lemma reservations_after:
  assumes c: "claims_row d e u u' a" and res: "reserving_unit e r u'"
  shows "total_reserved e r = total_reserved d r + reserved_tokens e r u'"
    and "active_models e r = active_models d r + 1"
    and "unit_max_tokens d r u \<noteq> None \<Longrightarrow> unbounded_models e r = unbounded_models d r"
proof -
  note simps = claims_rowD [OF c] other_reservation_same [OF c]
  show "total_reserved e r = total_reserved d r + reserved_tokens e r u'"
    unfolding total_reserved_def simps(4) using simps res by (intro sum_where_update) auto
  show "active_models e r = active_models d r + 1"
    unfolding active_models_def simps(4) using simps res by (intro count_where_update) auto
  show "unbounded_models e r = unbounded_models d r" if "unit_max_tokens d r u \<noteq> None"
    unfolding unbounded_models_def simps(4)
    using simps that claimed_attempt_found [OF c] by (intro count_where_same)
      (auto simp: unbounded_reservation_def unit_max_tokens_def)
qed

lemma active_units_after:
  assumes c: "claims_row d e u u' a" and "in_revision owner rid u"
  shows "active_unit_count_in_transaction owner rid e = active_unit_count_in_transaction owner rid d + 1"
  unfolding active_unit_count_in_transaction_def claims_rowD(4) [OF c]
  using c claims_rowD [OF c] assms(2) by (intro count_where_update)
    (auto simp: claims_row_def in_revision_def live_unit_def)

lemma claimed_row_claims:
  assumes "u \<in> set (units e)" and "ready_unit e r s t u" and "store_ok e"
    and "units d' = update_where (\<lambda>v. v = u) (\<lambda>_. claimed_unit u r aid worker expiry t) (units e)"
    and "attempts d' = attempts e @ [claimed_attempt u s aid worker t]" and "stages d' = stages e"
    and "\<forall>b \<in> set (attempts e). attempt_pk b \<noteq> (u_owner u, aid)"
  shows "claims_row e d' u (claimed_unit u r aid worker expiry t) (claimed_attempt u s aid worker t)"
  using assms store_keys [OF assms(3)]
  by (auto simp: claims_row_def ready_unit_def live_unit_def claimed_unit_def claimed_attempt_def attempt_of_def
      accounted_attempt_def claim_model_snapshot_def jget_def)

text \<open>Everything a claim that returns a lease read and wrote.\<close>

lemma claim_next_view:
  assumes run: "claim_next worker now duration caps d = Inr (Some l, d')" and ok: "store_ok d"
  obtains e c u w w0 aid where "store_ok e" and "store_ok d'" and "db_evolves d d'"
    and "u \<in> set (units e)" and "ready_unit e (cc_revision c) (cc_stage c) now u" and "\<exists>u0 \<in> set (units d). promoted now u0 u"
    and "attempts e = attempts d" and "revision_usage e = revision_usage d" and "stages d' = stages d"
    and "revisions d' = revisions d"
    and "workload_candidate e caps now w0 = Some c" and "\<not> over_limit (cc_revision c) (cc_usage c) (cc_stage c)"
    and "w \<in> set (workloads d)" and "workload_at (u_owner u) (r_workload (cc_revision c)) w"
    and "in_revision (r_owner (cc_revision c)) (r_id (cc_revision c)) u" and "w_owner w0 = u_owner u"
    and "r_owner (cc_revision c) = u_owner u"
    and "cc_stage c \<in> set (stages d)" and "stage_of e u = Some (cc_stage c)"
    and "stage_at (u_owner u) (u_revision u) (u_stage u) (cc_stage c)"
    and "find (revision_at (u_owner u) (u_revision u)) (revisions d) = Some (cc_revision c)"
    and "find (usage_at (u_owner u) (u_revision u)) (revision_usage d) = Some (cc_usage c)"
    and "l = lease_of u w (cc_stage c) aid worker (now + duration)"
    and "claims_row e d' u (claimed_unit u (cc_revision c) aid worker (now + duration) now)
      (claimed_attempt u (cc_stage c) aid worker now)"
proof -
  obtain p c u w aid where promote: "promote_due_retries_in_transaction now 1000 d = Inr (fst p, snd p)"
    and choose: "choose_candidate (snd p) caps now = Some c"
    and fits: "\<not> over_limit (cc_revision c) (cc_usage c) (cc_stage c)"
    and unit: "claimable_unit (snd p) (cc_revision c) (cc_stage c) now = Some (u, w)"
    and l: "l = lease_of u w (cc_stage c) aid worker (now + duration)"
    and d': "units d' = update_where (\<lambda>v. v = u) (\<lambda>_. claimed_unit u (cc_revision c) aid worker (now + duration) now)
      (units (snd p))" "attempts d' = attempts d @ [claimed_attempt u (cc_stage c) aid worker now]"
      "stages d' = stages d" "revisions d' = revisions d"
    and fresh: "\<forall>b \<in> set (attempts d). attempt_pk b \<noteq> (u_owner u, aid)" and ok': "store_ok d'"
    by (rule claim_next_effect [OF run ok])
  note u = claimable_unitD [OF unit] and frame = promote_due_retries_frame [OF promote]
  have same: "attempts (snd p) = attempts d" "stages (snd p) = stages d" "revisions (snd p) = revisions d"
    "revision_usage (snd p) = revision_usage d" "workloads (snd p) = workloads d"
    by (subst frame(1); simp)+
  have ok1: "store_ok (snd p)" and ev: "db_evolves d d'"
    using txn_keeps [OF promote_due_retries_txn [OF promote] ok] claim_next_txn [OF run] by (auto simp: txn_def)
  obtain w0 where w0: "workload_candidate (snd p) caps now w0 = Some c"
    using choose_candidateD [OF choose] by blast
  note c = workload_candidateD [OF w0]
  have ids: "u_owner u = w_owner w0" "u_revision u = r_id (cc_revision c)" "u_stage u = s_id (cc_stage c)"
    "s_owner (cc_stage c) = w_owner w0" "s_revision (cc_stage c) = r_id (cc_revision c)"
    using u(2) c(5,8) by (auto simp: ready_unit_def stage_eligible_def)
  have stage: "stage_of (snd p) u = Some (cc_stage c)"
    unfolding stage_of_def using c(7) ids
    by (intro find_by_key [OF store_keys(3) [OF ok1]]) (auto simp: stage_at_def)
  have row: "claims_row (snd p) d' u (claimed_unit u (cc_revision c) aid worker (now + duration) now)
      (claimed_attempt u (cc_stage c) aid worker now)"
    using claimed_row_claims [OF u(1,2) ok1] d' same fresh by simp
  have more: "workload_at (u_owner u) (r_workload (cc_revision c)) w"
    "in_revision (r_owner (cc_revision c)) (r_id (cc_revision c)) u" "w_owner w0 = u_owner u"
    "r_owner (cc_revision c) = u_owner u" "cc_stage c \<in> set (stages d)"
    using ids c(5,7) u(4) same by (simp_all add: in_revision_def)
  show ?thesis
    by (rule that [OF ok1 ok' ev u(1,2) promoted_source [OF promote u(1)] same(1,4) d'(3,4) w0 fits
          u(3) [unfolded same] more stage])
      (use c(4,6) ids same l row in \<open>simp_all add: stage_at_def\<close>)
qed

section \<open>What a claim guarantees\<close>

text \<open>
  C9. A claim hands out a unit of the store that nobody holds, under a fence and an attempt
  number above those of every attempt made so far, to a worker whose effects, bindings and
  resources cover it, until the requested expiry. The returned lease is the one the store
  then recognises, and it exceeds the attempts of the stage's policy only as an owner's retry.
\<close>

theorem claim_next_sound:
  assumes run: "claim_next worker now duration caps d = Inr (Some l, d')" and ok: "store_ok d"
  shows "l_worker_id l = worker \<and> l_lease_expires_at l = now + duration \<and> lease_matches d' l \<and> store_ok d' \<and>
    lease_fits caps l \<and> above_attempts l (attempts d) \<and>
    (l_attempt_number l \<le> rp_max_attempts (l_retry_policy l) \<or> l_manual_retry l) \<and>
    (\<exists>u \<in> set (units d). unit_at (l_owner_user_id l) (l_unit_id l) u \<and> idle_unit u \<and>
       l_fence l = u_fence u + 1 \<and> l_attempt_number l = u_attempt_count u + 1)"
proof (rule claim_next_view [OF run ok])
  fix e u w w0 aid and c :: claim_candidate
  assume v: "store_ok e" "store_ok d'" "db_evolves d d'" "u \<in> set (units e)"
      "ready_unit e (cc_revision c) (cc_stage c) now u" "\<exists>u0 \<in> set (units d). promoted now u0 u" "attempts e = attempts d"
    and cand: "workload_candidate e caps now w0 = Some c"
    and w: "w \<in> set (workloads d)" "workload_at (u_owner u) (r_workload (cc_revision c)) w"
    and s: "stages d' = stages d" "cc_stage c \<in> set (stages d)" "stage_at (u_owner u) (u_revision u) (u_stage u) (cc_stage c)"
    and r: "revisions d' = revisions d" "find (revision_at (u_owner u) (u_revision u)) (revisions d) = Some (cc_revision c)"
    and us: "find (usage_at (u_owner u) (u_revision u)) (revision_usage d) = Some (cc_usage c)"
    and l: "l = lease_of u w (cc_stage c) aid worker (now + duration)"
    and cl: "claims_row e d' u (claimed_unit u (cc_revision c) aid worker (now + duration) now)
      (claimed_attempt u (cc_stage c) aid worker now)"
  have "lease_matches d' l"
    unfolding l using claims_rowD(2,4,5) [OF cl] s r w v(2) usage_kept [OF v(3) us] workload_kept [OF v(3) w]
    by (intro claimed_row_matches [where r = "cc_revision c" and t = now])
      (auto simp: set_update_where workload_at_def stage_at_def)
  moreover have "lease_fits caps l" and "above_attempts l (attempts d)"
    using workload_candidateD(8) [OF cand] attempts_below [OF v(1,4), of l] v(7)
    by (auto simp: l lease_of_def lease_fits_def stage_eligible_def worker_fits_def)
  moreover have "l_attempt_number l \<le> rp_max_attempts (l_retry_policy l) \<or> l_manual_retry l"
    using v(5) by (auto simp: l lease_of_def ready_unit_def attention_retry_def token_retry_def)
  moreover have "idle_unit u"
    using leases_okD(1) [of "units e" "attempts e" u] v(1,4,5)
    by (auto simp: store_ok_def ready_unit_def leased_alike_def)
  moreover obtain u0 where "u0 \<in> set (units d)" "promoted now u0 u"
    using v(6) by blast
  ultimately show ?thesis
    using v(2) by (intro conjI bexI [of _ u0])
      (auto simp: l lease_of_def unit_at_def promoted_def promote_unit_def idle_unit_def due_retry_def live_unit_def)
qed

definition example_claim :: "workload_state \<Rightarrow> (lease option \<times> db) result" where
  "example_claim s = claim_next ''worker-1'' 2000 60000000
     (example_capabilities\<lparr>wc_runner_bindings := [(R_EXECUTOR, ''read_files'')]\<rparr>) (example_store s)"

theorem claim_next_sound_witness:
  "\<exists>l d'. example_claim W_QUEUED = Inr (Some l, d') \<and> l_fence l = 1 \<and>
     map u_state (units d') = [U_LEASED, U_PENDING] \<and> map w_state (workloads d') = [W_RUNNING] \<and> lease_matches d' l"
proof -
  have ok: "store_ok (example_store W_QUEUED)" by code_simp
  have "succeeds_with (example_claim W_QUEUED) (\<lambda>(l, d'). l \<noteq> None \<and> l_fence (the l) = 1 \<and>
      map u_state (units d') = [U_LEASED, U_PENDING] \<and> map w_state (workloads d') = [W_RUNNING])"
    by code_simp
  then obtain l d' where run: "example_claim W_QUEUED = Inr (Some l, d')" and seen: "l_fence l = 1"
      "map u_state (units d') = [U_LEASED, U_PENDING]" "map w_state (workloads d') = [W_RUNNING]"
    by (auto elim!: succeeds_withE)
  have "lease_matches d' l"
    using claim_next_sound [OF run [unfolded example_claim_def] ok] by blast
  with run seen show ?thesis by (intro exI conjI)
qed

lemma no_models_no_tokens: "active_models d r = 0 \<Longrightarrow> total_reserved d r = 0"
  by (auto simp: active_models_def total_reserved_def count_where_def)

lemma model_reservation_bound:
  assumes "model_allowed d r us s" and "\<not> over_limit r us s" and "model_max_tokens r s = Some n"
  shows "unbounded_models d r = 0" and "n + total_reserved d r \<le> remaining_tokens r us"
  using assms no_models_no_tokens [of d r]
  by (auto simp: model_allowed_def over_limit_def model_max_tokens_def uses_model_def split: if_split_asm)

lemma model_tokens_after:
  assumes cl: "claims_row e d' u u' a" and stage: "stage_of e u = Some s" and rev: "in_revision (r_owner r) (r_id r) u"
    and allowed: "model_allowed e r us s" and fits: "\<not> over_limit r us s"
  shows "case model_max_tokens r s of
       Some n \<Rightarrow> unbounded_models d' r = 0 \<and>
         us_input_tokens us + us_output_tokens us + total_reserved d' r \<le> b_max_tokens (r_budgets r)
     | None \<Rightarrow> uses_model s \<longrightarrow> active_models d' r = 1"
proof (cases "uses_model s")
  case True
  then have res: "reserving_unit d' r u'"
    using claimed_reserving [OF cl, of r] rev stage by simp
  show ?thesis
  proof (cases "model_max_tokens r s")
    case None
    then show ?thesis using allowed True reservations_after(2) [OF cl res]
      by (auto simp: model_allowed_def uses_model_def)
  next
    case (Some n)
    then have "unit_max_tokens e r u = Some n" by (simp add: unit_max_tokens_def stage)
    then show ?thesis
      using Some model_reservation_bound [OF allowed fits Some] reservations_after [OF cl res]
        claimed_tokens [OF cl, of r]
      by (simp add: remaining_tokens_def)
  qed
qed (simp add: model_max_tokens_def)



section \<open>Progress of retries\<close>

lemma promote_unit_pk: "map unit_pk (update_where P (promote_unit t) us) = map unit_pk us"
  by (rule map_update_where) (simp add: promote_unit_def)

lemma promote_retry_eq:
  assumes "distinct (map unit_pk (units d))" and "r \<in> set (units d)" and "due_retry t r"
  shows "promote_retry t r d = Inr (d\<lparr>units := update_where (\<lambda>u. u = r) (promote_unit t) (units d)\<rparr>)"
proof -
  have here: "(unit_at (u_owner r) (u_id r) u \<and> due_retry t u) \<longleftrightarrow> u = r" if "u \<in> set (units d)" for u
    using pk_unique(1) [OF assms(1,2) that] assms(3) by (auto simp: unit_at_def)
  have "distinct (units d)" using assms(1) by (simp add: distinct_map)
  then have "count_where (\<lambda>u. unit_at (u_owner r) (u_id r) u \<and> due_retry t u) (units d) = 1"
    using count_where_single [OF _ assms(2)] here
      count_where_cong [of "units d" "\<lambda>u. unit_at (u_owner r) (u_id r) u \<and> due_retry t u" "\<lambda>u. u = r"] by simp
  moreover have "update_where (\<lambda>u. unit_at (u_owner r) (u_id r) u \<and> due_retry t u) (promote_unit t) (units d)
      = update_where (\<lambda>u. u = r) (promote_unit t) (units d)"
    using here by (intro update_where_cong) auto
  ultimately show ?thesis by (simp add: promote_retry_def Let_def)
qed

lemma promote_retries_eq:
  assumes "distinct (map unit_pk (units d))" and "set rs \<subseteq> set (units d)" and "distinct rs" and "list_all (due_retry t) rs"
  shows "foldE (promote_retry t) rs d = Inr (d\<lparr>units := update_where (\<lambda>u. u \<in> set rs) (promote_unit t) (units d)\<rparr>)"
  using assms
proof (induction rs arbitrary: d)
  case Nil
  then show ?case by (simp add: update_where_def)
next
  case (Cons r rs)
  let ?d = "d\<lparr>units := update_where (\<lambda>u. u = r) (promote_unit t) (units d)\<rparr>"
  have r: "promote_retry t r d = Inr ?d" using Cons.prems by (intro promote_retry_eq) auto
  have new: "promote_unit t r \<notin> set rs"
  proof
    assume "promote_unit t r \<in> set rs"
    then have "promote_unit t r = r"
      using Cons.prems by (intro pk_unique(1) [OF Cons.prems(1)]) (auto simp: promote_unit_def)
    with \<open>promote_unit t r \<in> set rs\<close> Cons.prems(3) show False by simp
  qed
  have "set rs \<subseteq> set (units ?d)"
    using Cons.prems(2,3) by (auto simp: set_update_where)
  then have "foldE (promote_retry t) rs ?d
      = Inr (?d\<lparr>units := update_where (\<lambda>u. u \<in> set rs) (promote_unit t) (units ?d)\<rparr>)"
    using Cons.prems by (intro Cons.IH) (auto simp: promote_unit_pk)
  moreover have "update_where (\<lambda>u. u \<in> set rs) (promote_unit t) (update_where (\<lambda>u. u = r) (promote_unit t) (units d))
      = update_where (\<lambda>u. u \<in> set (r # rs)) (promote_unit t) (units d)"
    using new Cons.prems(3) by (auto simp: update_where_def)
  ultimately show ?case using r by simp
qed

lemma filter_update_gone:
  "(\<And>u. P u \<Longrightarrow> \<not> Q (f u)) \<Longrightarrow> filter Q (update_where P f us) = filter (\<lambda>u. Q u \<and> \<not> P u) us"
  by (induction us) (auto simp: update_where_def)

lemma filter_member_length:
  assumes "distinct xs" and "distinct ys" and "set ys \<subseteq> set xs"
  shows "length (filter (\<lambda>x. x \<in> set ys) xs) = length ys"
proof -
  have "set (filter (\<lambda>x. x \<in> set ys) xs) = set ys" using assms(3) by auto
  then show ?thesis using assms(1,2) distinct_card [of ys] distinct_card [of "filter (\<lambda>x. x \<in> set ys) xs"] by simp
qed

lemma order_limit_least:
  assumes "x \<in> set (order_limit k n rows)" and "y \<in> set rows" and "y \<notin> set (order_limit k n rows)"
  shows "k x \<le> k y"
proof -
  let ?s = "sort_key k rows"
  have "sorted (map k (take n ?s @ drop n ?s))" by simp
  moreover have "y \<in> set (drop n ?s)"
    using assms(2,3) append_take_drop_id [of n ?s] by (metis Un_iff order_limit_def set_append set_sort)
  ultimately show ?thesis
    using assms(1) unfolding order_limit_def map_append sorted_append by auto
qed

text \<open>
  Due retries are always promoted. On a consistent store the promotion never fails: one
  call turns as many due retries as the limit allows into pending units, oldest first, reports
  their number, leaves that many fewer due, and changes no other unit. Repeated calls
  therefore reach every due retry.
\<close>

theorem promote_due_retries_progress:
  assumes ok: "store_ok d"
  shows "\<exists>n d'. promote_due_retries_in_transaction t limit d = Inr (n, d') \<and>
    n = min (nat limit) (count_where (due_retry t) (units d)) \<and>
    count_where (due_retry t) (units d') + n = count_where (due_retry t) (units d) \<and>
    (\<forall>i < length (units d). units d' ! i = units d ! i \<or>
       due_retry t (units d ! i) \<and> units d' ! i = promote_unit t (units d ! i)) \<and>
    (\<forall>i < length (units d). \<forall>j < length (units d).
       due_retry t (units d ! i) \<and> units d' ! i \<noteq> units d ! i \<and> due_retry t (units d ! j) \<and> units d' ! j = units d ! j \<longrightarrow>
       u_next_attempt_at (units d ! i) \<le> u_next_attempt_at (units d ! j))"
proof -
  let ?key = "\<lambda>u. (u_next_attempt_at u, u_owner u, u_id u)" and ?due = "filter (due_retry t) (units d)"
  let ?rows = "order_limit ?key (nat limit) ?due"
  let ?us = "update_where (\<lambda>u. u \<in> set ?rows) (promote_unit t) (units d)"
  have keys: "distinct (map unit_pk (units d))" using ok by (simp add: store_ok_def keys_ok_def)
  then have dist: "distinct (units d)" by (simp add: distinct_map)
  have rows: "set ?rows \<subseteq> set ?due" by (rule set_order_limit)
  then have "foldE (promote_retry t) ?rows d = Inr (d\<lparr>units := ?us\<rparr>)"
    using keys dist by (intro promote_retries_eq) (auto simp: distinct_order_limit list_all_iff)
  then have run: "promote_due_retries_in_transaction t limit d = Inr (length ?rows, d\<lparr>units := ?us\<rparr>)"
    by (simp add: promote_due_retries_in_transaction_def Let_def)
  have len: "length ?rows = min (nat limit) (count_where (due_retry t) (units d))"
    by (simp add: order_limit_def count_where_def min.commute)
  have nth: "?us ! i = (if units d ! i \<in> set ?rows then promote_unit t (units d ! i) else units d ! i)"
    if "i < length (units d)" for i using that by simp
  have left: "filter (due_retry t) ?us = filter (\<lambda>u. u \<notin> set ?rows) ?due"
    by (subst filter_update_gone) (auto simp: promote_unit_def due_retry_def intro: filter_cong)
  have "length (filter (\<lambda>u. u \<in> set ?rows) ?due) = length ?rows"
    using rows dist by (intro filter_member_length) (auto simp: distinct_order_limit)
  then have "count_where (due_retry t) ?us + length ?rows = count_where (due_retry t) (units d)"
    using sum_length_filter_compl [of "\<lambda>u. u \<in> set ?rows" ?due] by (simp add: count_where_def left)
  moreover have "u_next_attempt_at (units d ! i) \<le> u_next_attempt_at (units d ! j)"
    if "i < length (units d)" "j < length (units d)" "due_retry t (units d ! j)" "?us ! i \<noteq> units d ! i" "?us ! j = units d ! j" for i j
  proof -
    have "units d ! i \<in> set ?rows" "units d ! j \<notin> set ?rows"
      using that nth by (auto simp: promote_unit_def due_retry_def dest: arg_cong [of _ _ u_state] split: if_splits)
    from order_limit_least [OF this(1) _ this(2)] that show ?thesis by auto
  qed
  ultimately show ?thesis
    using run len nth rows by (intro exI [of _ "length ?rows"] exI [of _ "d\<lparr>units := ?us\<rparr>"]) auto
qed

definition example_retries :: db where
  "example_retries = (example_store W_RUNNING)\<lparr>units :=
     [(example_unit ''unt_00000001'')\<lparr>u_state := U_RETRY_WAIT, u_next_attempt_at := Some 1500\<rparr>,
      (example_unit ''unt_00000002'')\<lparr>u_state := U_RETRY_WAIT, u_next_attempt_at := Some 1000\<rparr>]\<rparr>"

theorem promote_due_retries_progress_witness:
  "\<exists>d'. promote_due_retries_in_transaction 2000 1 example_retries = Inr (1, d') \<and>
     count_where (due_retry 2000) (units d') = 1 \<and> map u_state (units d') = [U_RETRY_WAIT, U_PENDING]"
proof -
  have ok: "store_ok example_retries" and due: "count_where (due_retry 2000) (units example_retries) = 2"
    and seen: "succeeds_with (promote_due_retries_in_transaction 2000 1 example_retries)
      (\<lambda>(n, d'). map u_state (units d') = [U_RETRY_WAIT, U_PENDING])"
    by code_simp+
  from promote_due_retries_progress [OF ok, of 2000 1] obtain n d'
    where run: "promote_due_retries_in_transaction 2000 1 example_retries = Inr (n, d')"
      and "n = min (nat 1) 2" and "count_where (due_retry 2000) (units d') + n = 2"
    unfolding due by blast
  moreover from this have "n = 1" by simp
  moreover have "map u_state (units d') = [U_RETRY_WAIT, U_PENDING]"
    using seen run by (auto elim!: succeeds_withE)
  ultimately show ?thesis by auto
qed

end
