(* ===== verification/Commands.thy ===== *)
theory Commands
  imports Workload_Properties
begin

text \<open>
  The owner's commands in \<open>storage.py\<close>: pause, resume and cancel with their idempotency
  keys, the resolution of attention, and the dismissal of finished workloads. The stored
  result of a command (\<open>commands.result_json\<close>) is kept decoded.
\<close>

section \<open>Recorded commands\<close>

definition command_at :: "string \<Rightarrow> ident \<Rightarrow> string \<Rightarrow> command_row \<Rightarrow> bool" where
  "command_at owner wid key k \<longleftrightarrow> k_owner k = owner \<and> k_workload k = wid \<and> k_idempotency_key k = key"

definition existing_command ::
  "string \<Rightarrow> ident \<Rightarrow> string \<Rightarrow> string \<Rightarrow> string \<Rightarrow> db \<Rightarrow> workload_record option result" where
  "existing_command owner workload_id idempotency_key command payload_digest d =
     (case find (command_at owner workload_id idempotency_key) (commands d) of
        None \<Rightarrow> Inr None
      | Some row \<Rightarrow>
          if k_command row \<noteq> command \<or> k_payload_digest row \<noteq> payload_digest
          then Inl IdempotencyConflictError else Inr (Some (k_result row)))"

definition workload_snapshot :: "workload_record \<Rightarrow> jobj" where
  "workload_snapshot r =
     [(''schema_version'', JStr ''metnos.durable-command-result/1''),
      (''owner_user_id'', JStr (wr_owner_user_id r)), (''workload_id'', JStr (wr_workload_id r)),
      (''request_key'', JStr (wr_request_key r)), (''state'', JStr (workload_state_value (wr_state r))),
      (''priority'', JStr (wr_priority r)),
      (''active_revision_id'', case wr_active_revision_id r of None \<Rightarrow> JNull | Some i \<Rightarrow> JStr i),
      (''version'', JInt (wr_version r)), (''created_at'', JInstant (wr_created_at r)),
      (''updated_at'', JInstant (wr_updated_at r)),
      (''terminal_reason_json'', case wr_terminal_reason r of None \<Rightarrow> JNull
         | Some reason \<Rightarrow> JStr (encode_json (JObj reason)))]"

definition record_command ::
  "string \<Rightarrow> ident \<Rightarrow> string \<Rightarrow> string \<Rightarrow> string \<Rightarrow> workload_record \<Rightarrow> instant \<Rightarrow> db \<Rightarrow> db result" where
  "record_command owner workload_id idempotency_key command payload_digest result now_text d =
     bindE (canonical_json (JObj (workload_snapshot result)) max_event_json_bytes) (\<lambda>_.
     if exists_where (command_at owner workload_id idempotency_key) (commands d) then Inl IntegrityError
     else Inr (d\<lparr>commands := commands d @
       [\<lparr>k_owner = owner, k_workload = workload_id, k_idempotency_key = idempotency_key,
         k_command = command, k_payload_digest = payload_digest, k_result = result,
         k_created_at = now_text\<rparr>]\<rparr>))"

section \<open>Pause, resume, cancel\<close>

definition command_digest :: "(string \<Rightarrow> string) \<Rightarrow> string \<Rightarrow> int \<Rightarrow> string result" where
  "command_digest sha command expected =
     digest_json sha ''durable-command''
       (JObj [(''command'', JStr command), (''expected_version'', JInt expected)]) max_event_json_bytes"

definition cancel_reason :: "string \<Rightarrow> jobj" where
  "cancel_reason reason = [(''reason'', JStr reason), (''unresolved_unit_attention'', JInt 0)]"

text \<open>The state change of a command, when the control matrix names a target.\<close>

definition control_change ::
  "string \<Rightarrow> ident \<Rightarrow> workload_row \<Rightarrow> workload_state option \<Rightarrow> int \<Rightarrow> instant \<Rightarrow> db
     \<Rightarrow> (workload_record \<times> db) result" where
  "control_change owner workload_id row target expected current d =
     (case target of
        None \<Rightarrow> Inr (row_to_workload row, d)
      | Some t \<Rightarrow>
          if \<not> can_transition_workload (workload_state_value (w_state row)) (workload_state_value t)
          then Inl InvalidTransitionError else
          bindE (update_state_in_transaction owner workload_id (w_state row) t expected
                   (if t \<in> {W_CANCEL_REQUESTED, W_CANCELLED} then Some (cancel_reason ''owner_cancelled'')
                    else None) (Some current) d) (\<lambda>(result, d1).
          bindE (optE (EVENT_BY_TARGET t) TypeError) (\<lambda>event_type.
          bindE (append_event_in_transaction owner workload_id event_type
                   [(''previous_state'', JStr (workload_state_value (w_state row))),
                    (''new_state'', JStr (workload_state_value t)),
                    (''new_version'', JInt (wr_version result))] d1) (\<lambda>(_, d2).
          Inr (result, d2)))))"

text \<open>What follows it in the same transaction: settlement, or the end of the waiting units.\<close>

definition control_settle ::
  "string \<Rightarrow> ident \<Rightarrow> instant \<Rightarrow> workload_record \<Rightarrow> db \<Rightarrow> (workload_record \<times> db) result" where
  "control_settle owner workload_id current result d =
     (case wr_active_revision_id result of
        None \<Rightarrow> Inr (result, d)
      | Some revision_id \<Rightarrow>
          if wr_state result \<in> {W_PAUSE_REQUESTED, W_CANCEL_REQUESTED}
          then bindE (settle_workload_in_transaction owner workload_id current False
                        UNIT_STATE_BATCH_SIZE d) (\<lambda>((settled, _), d1). Inr (settled, d1))
          else if wr_state result = W_CANCELLED
          then bindE (cancel_waiting_units_in_transaction owner revision_id current
                        UNIT_STATE_BATCH_SIZE d) (\<lambda>(_, d1). Inr (result, d1))
          else Inr (result, d))"

definition control_target :: "string \<Rightarrow> workload_state \<Rightarrow> workload_state option result" where
  "control_target command state =
     (case control_transition command state of
        Inl _ \<Rightarrow> Inl InvalidTransitionError | Inr target \<Rightarrow> Inr target)"

lemma control_target_Inr [simp]:
  "control_target command state = Inr target \<longleftrightarrow> control_transition command state = Inr target"
  by (simp add: control_target_def split: sum.splits)

definition control ::
  "(string \<Rightarrow> string) \<Rightarrow> string \<Rightarrow> ident \<Rightarrow> string \<Rightarrow> string \<Rightarrow> int \<Rightarrow> instant option \<Rightarrow> db
     \<Rightarrow> (workload_record \<times> db) result" where
  "control sha owner_user_id workload_id command idempotency_key expected_version now d =
     bindE (require_owner owner_user_id) (\<lambda>owner.
     bindE (require_key idempotency_key 256) (\<lambda>key.
     bindE (require_version expected_version) (\<lambda>expected.
     bindE (command_digest sha command expected) (\<lambda>payload_digest.
     let current = operation_now d now in
     bindE (existing_command owner workload_id key command payload_digest d) (\<lambda>replay.
     case replay of
       Some result \<Rightarrow> Inr (result, d)
     | None \<Rightarrow>
         bindE (select_workload d owner workload_id) (\<lambda>row.
         if w_version row \<noteq> expected then Inl VersionConflictError else
         bindE (control_target command (w_state row)) (\<lambda>target.
         bindE (control_change owner workload_id row target expected current d) (\<lambda>(changed, d1).
         bindE (control_settle owner workload_id current changed d1) (\<lambda>(result, d2).
         bindE (record_command owner workload_id key command payload_digest result current d2) (\<lambda>d3.
         Inr (result, d3)))))))))))"

definition request_pause ::
  "(string \<Rightarrow> string) \<Rightarrow> string \<Rightarrow> ident \<Rightarrow> int \<Rightarrow> string \<Rightarrow> instant option \<Rightarrow> db
     \<Rightarrow> (workload_record \<times> db) result" where
  "request_pause sha owner_user_id workload_id expected_version idempotency_key now =
     control sha owner_user_id workload_id ''pause'' idempotency_key expected_version now"

definition request_resume ::
  "(string \<Rightarrow> string) \<Rightarrow> string \<Rightarrow> ident \<Rightarrow> int \<Rightarrow> string \<Rightarrow> instant option \<Rightarrow> db
     \<Rightarrow> (workload_record \<times> db) result" where
  "request_resume sha owner_user_id workload_id expected_version idempotency_key now =
     control sha owner_user_id workload_id ''resume'' idempotency_key expected_version now"

definition request_cancel ::
  "(string \<Rightarrow> string) \<Rightarrow> string \<Rightarrow> ident \<Rightarrow> int \<Rightarrow> string \<Rightarrow> instant option \<Rightarrow> db
     \<Rightarrow> (workload_record \<times> db) result" where
  "request_cancel sha owner_user_id workload_id expected_version idempotency_key now =
     control sha owner_user_id workload_id ''cancel'' idempotency_key expected_version now"

section \<open>Dismissal\<close>

text \<open>\<open>temporary_storage.reports\<close>: a terminal workload whose workspace is known to be clean.\<close>

definition can_dismiss :: "db \<Rightarrow> workload_row \<Rightarrow> bool" where
  "can_dismiss d w \<longleftrightarrow> terminal_workload (w_state w) \<and>
     (case find (\<lambda>t. ts_owner t = w_owner w \<and> ts_workload t = w_id w) (temporary_storage d) of
        Some t \<Rightarrow> if ts_version t = w_version w then ts_status t = ''clean'' else w_active_revision w = None
      | None \<Rightarrow> w_active_revision w = None)"

definition live_attempts_of :: "string \<Rightarrow> ident \<Rightarrow> db \<Rightarrow> bool" where
  "live_attempts_of owner workload_id d \<longleftrightarrow>
     exists_where (\<lambda>a. a_state a \<in> {A_LEASED, A_RUNNING} \<and> exists_where (\<lambda>u. u_owner u = a_owner a \<and> u_id u = a_unit a \<and>
       exists_where (\<lambda>r. r_owner r = u_owner u \<and> r_id r = u_revision u \<and> r_owner r = owner \<and>
         r_workload r = workload_id) (revisions d)) (units d)) (attempts d)"

definition dismiss_terminal_workload ::
  "string \<Rightarrow> ident \<Rightarrow> int \<Rightarrow> string \<Rightarrow> instant option \<Rightarrow> db \<Rightarrow> (workload_record \<times> db) result" where
  "dismiss_terminal_workload owner_user_id workload_id expected_version idempotency_key now d =
     bindE (require_owner owner_user_id) (\<lambda>owner.
     bindE (require_version expected_version) (\<lambda>expected.
     bindE (require_key idempotency_key 256) (\<lambda>key.
     let current = operation_now d now in
     bindE (select_workload d owner workload_id) (\<lambda>row.
     if w_version row \<noteq> expected then Inl VersionConflictError
     else if \<not> terminal_workload (w_state row) then Inl InvalidTransitionError
     else if live_attempts_of owner workload_id d then Inl InvalidTransitionError
     else if \<not> can_dismiss d row then Inl InvalidTransitionError
     else Inr (row_to_workload row,
       if exists_where (\<lambda>m. dm_owner m = owner \<and> dm_workload m = workload_id) (workload_dismissals d)
       then d
       else d\<lparr>workload_dismissals := workload_dismissals d @
         [\<lparr>dm_owner = owner, dm_workload = workload_id, dm_expected_version = expected,
           dm_idempotency_key = key, dm_dismissed_at = current\<rparr>]\<rparr>)))))"

section \<open>Resolution of attention\<close>

definition blocked_attention_classes :: "string list" where
  "blocked_attention_classes =
     [''budget_exhausted'', ''dependency_fan_in_exceeded'', ''dependency_result_missing'',
      ''dependency_result_unavailable'']"

definition blocked_attention :: "string \<Rightarrow> ident \<Rightarrow> unit_row \<Rightarrow> bool" where
  "blocked_attention owner revision_id u \<longleftrightarrow> in_revision owner revision_id u \<and>
     u_state u = U_NEEDS_ATTENTION \<and>
     (case u_error_class u of None \<Rightarrow> False | Some c \<Rightarrow> c \<in> set blocked_attention_classes)"

definition attention_digest ::
  "(string \<Rightarrow> string) \<Rightarrow> string \<Rightarrow> int \<Rightarrow> string option \<Rightarrow> string result" where
  "attention_digest sha decision expected note =
     digest_json sha ''durable-command''
       (JObj [(''command'', JStr ''resolve_attention''), (''decision'', JStr decision),
              (''expected_version'', JInt expected),
              (''note_redacted'', case note of None \<Rightarrow> JNull | Some n \<Rightarrow> JStr n)]) max_event_json_bytes"

text \<open>
  The owner's \<open>retry\<close>: refused while artifacts, dependencies, materialization or budgets
  block it; otherwise it raises the revision's retry generation by one.
\<close>

definition grant_retry ::
  "string \<Rightarrow> ident \<Rightarrow> ident \<Rightarrow> instant \<Rightarrow> db \<Rightarrow> (workload_state \<times> db) result" where
  "grant_retry owner workload_id revision_id current d =
     (if artifact_attention_count_in_transaction owner revision_id d \<noteq> 0 then Inl InvalidTransitionError
      else if count_where (blocked_attention owner revision_id) (units d) \<noteq> 0 then Inl InvalidTransitionError
      else if materialization_attention_count owner revision_id d \<noteq> 0 then Inl InvalidTransitionError
      else if budget_violation_in_transaction owner workload_id revision_id current d \<noteq> None
      then Inl InvalidTransitionError
      else
      bindE (optE (revision_of owner workload_id revision_id d)
               (DurableStoreError ''active revision is missing'')) (\<lambda>authority.
      if r_manual_retry_generation authority \<ge> 1000000 then Inl InvalidTransitionError else
      let here = (\<lambda>r. revision_at owner revision_id r \<and> r_workload r = workload_id \<and>
            r_manual_retry_generation r = r_manual_retry_generation authority)
      in if count_where here (revisions d) \<noteq> 1
         then Inl (DurableStoreError ''manual retry authority compare-and-set failed'')
         else Inr (if active_unit_count_in_transaction owner revision_id d \<noteq> 0 then W_RUNNING else W_QUEUED,
           d\<lparr>revisions := update_where here
              (\<lambda>r. r\<lparr>r_manual_retry_generation := r_manual_retry_generation r + 1\<rparr>) (revisions d)\<rparr>)))"

definition ATTENTION_DECISIONS :: "string list" where
  "ATTENTION_DECISIONS = [''retry'', ''cancel'']"

text \<open>The change of state, its event, and the settlement of a cancellation.\<close>

definition resolve_change ::
  "string \<Rightarrow> ident \<Rightarrow> workload_row \<Rightarrow> string \<Rightarrow> workload_state \<Rightarrow> int \<Rightarrow> instant \<Rightarrow> db
     \<Rightarrow> (workload_record \<times> db) result" where
  "resolve_change owner workload_id row decision target expected current d =
     bindE (update_state_in_transaction owner workload_id (w_state row) target expected
              (if decision = ''cancel'' then Some (cancel_reason ''attention_cancelled'') else None)
              (Some current) d) (\<lambda>(changed, d1).
     bindE (append_event_in_transaction owner workload_id Ev_ATTENTION_RESOLVED
              [(''decision'', JStr decision), (''new_state'', JStr (workload_state_value target)),
               (''new_version'', JInt (wr_version changed))] d1) (\<lambda>(_, d2).
     if wr_state changed = W_CANCEL_REQUESTED
     then bindE (settle_workload_in_transaction owner workload_id current False
                   UNIT_STATE_BATCH_SIZE d2) (\<lambda>((settled, _), d3). Inr (settled, d3))
     else Inr (changed, d2)))"

definition resolve_attention_in_transaction ::
  "string \<Rightarrow> ident \<Rightarrow> string \<Rightarrow> int \<Rightarrow> string \<Rightarrow> string option \<Rightarrow> string \<Rightarrow> instant \<Rightarrow> db
     \<Rightarrow> (workload_record \<times> db) result" where
  "resolve_attention_in_transaction owner workload_id decision expected key note_redacted payload_digest
       current d =
     bindE (select_workload d owner workload_id) (\<lambda>row.
     if w_version row \<noteq> expected then Inl VersionConflictError
     else if w_state row \<noteq> W_NEEDS_ATTENTION then Inl InvalidTransitionError else
     bindE (optE (w_active_revision row) InvalidTransitionError) (\<lambda>revision_id.
     bindE (if decision = ''retry'' then grant_retry owner workload_id revision_id current d
            else Inr (W_CANCEL_REQUESTED, d)) (\<lambda>(target, d1).
     bindE (resolve_change owner workload_id row decision target expected current d1) (\<lambda>(result, d2).
     bindE (record_command owner workload_id key ''resolve_attention'' payload_digest result current d2) (\<lambda>d3.
     if exists_where (\<lambda>n. n_owner n = owner \<and> n_workload n = workload_id \<and> n_idempotency_key n = key)
          (attention_resolutions d3) then Inl IntegrityError
     else Inr (result, d3\<lparr>attention_resolutions := attention_resolutions d3 @
       [\<lparr>n_owner = owner, n_workload = workload_id, n_idempotency_key = key, n_decision = decision,
         n_note = note_redacted, n_created_at = current\<rparr>]\<rparr>))))))"

definition record_attention_resolution ::
  "(string \<Rightarrow> string) \<Rightarrow> string \<Rightarrow> ident \<Rightarrow> string \<Rightarrow> int \<Rightarrow> string \<Rightarrow> string option \<Rightarrow> instant option \<Rightarrow> db
     \<Rightarrow> (workload_record \<times> db) result" where
  "record_attention_resolution sha owner_user_id workload_id decision expected_version idempotency_key
       note_redacted now d =
     bindE (require_owner owner_user_id) (\<lambda>owner.
     bindE (require_key idempotency_key 256) (\<lambda>key.
     bindE (require_version expected_version) (\<lambda>expected.
     if decision \<notin> set ATTENTION_DECISIONS then Inl ValueError
     else if (case note_redacted of None \<Rightarrow> False | Some n \<Rightarrow> length n > 2048) then Inl ValueError else
     bindE (attention_digest sha decision expected note_redacted) (\<lambda>payload_digest.
     bindE (existing_command owner workload_id key ''resolve_attention'' payload_digest d) (\<lambda>replay.
     case replay of
       Some result \<Rightarrow> Inr (result, d)
     | None \<Rightarrow> resolve_attention_in_transaction owner workload_id decision expected key note_redacted
                 payload_digest (operation_now d now) d)))))"

section \<open>Transactions\<close>

lemma record_command_txn: "record_command owner wid key c dg r t d = Inr d' \<Longrightarrow> txn d d'"
  by (auto simp: record_command_def tx_simps)

lemma control_change_txn:
  assumes "control_change owner wid row target expected t d = Inr (r, d')"
  shows "txn d d'"
proof (cases target)
  case None
  with assms show ?thesis by (simp add: control_change_def)
next
  case (Some s)
  with assms show ?thesis
    unfolding control_change_def
    by (auto simp: tx_simps can_transition_edge simp del: can_transition_workload_value
        split: if_splits prod.splits dest!: update_state_txn append_event_txn intro: txn_trans)
qed

lemma control_settle_txn:
  assumes "control_settle owner wid t r d = Inr (r', d')" and "store_ok d"
  shows "txn d d'"
proof (cases "wr_active_revision_id r")
  case None
  with assms show ?thesis by (simp add: control_settle_def)
next
  case (Some rid)
  with assms show ?thesis
    unfolding control_settle_def
    by (auto simp: tx_simps split: if_splits
        dest: settle_in_transaction_txn cancel_waiting_units_txn)
qed

lemma control_cases:
  assumes "control sha owner wid command key expected now d = Inr (r, d')"
  obtains (replay) digest where "command_digest sha command expected = Inr digest"
      and "existing_command owner wid key command digest d = Inr (Some r)" and "d' = d"
  | (fresh) digest row target changed d1 d2 where "command_digest sha command expected = Inr digest"
      and "existing_command owner wid key command digest d = Inr None"
      and "select_workload d owner wid = Inr row" and "w_version row = expected"
      and "control_transition command (w_state row) = Inr target"
      and "control_change owner wid row target expected (operation_now d now) d = Inr (changed, d1)"
      and "control_settle owner wid (operation_now d now) changed d1 = Inr (r, d2)"
      and "record_command owner wid key command digest r (operation_now d now) d2 = Inr d'"
proof -
  have own: "require_owner owner = Inr o1 \<Longrightarrow> o1 = owner" for o1
    by (auto simp: require_owner_def split: if_splits)
  have ky: "require_key key 256 = Inr k1 \<Longrightarrow> k1 = key" for k1
    by (auto simp: require_key_def split: if_splits)
  have ex: "require_version expected = Inr v1 \<Longrightarrow> v1 = expected" for v1
    by (auto simp: require_version_def split: if_splits)
  show ?thesis
    using assms unfolding control_def Let_def tx_simps
    by (elim exE conjE)
      (auto simp: tx_simps split: option.splits if_splits prod.splits sum.splits
        dest!: own ky ex intro: that)
qed

lemma control_txn:
  assumes "control sha owner wid command key expected now d = Inr (r, d')" and ok: "store_ok d"
  shows "txn d d'"
  using assms(1)
proof (cases rule: control_cases)
  case (fresh digest row target changed d1 d2)
  have "txn d d1" using control_change_txn [OF fresh(6)] .
  moreover have "txn d1 d2"
    using control_settle_txn [OF fresh(7)] txn_keeps [OF calculation ok] .
  moreover have "txn d2 d'" using record_command_txn [OF fresh(8)] .
  ultimately show ?thesis by (blast intro: txn_trans)
qed simp

lemma dismiss_txn:
  assumes "dismiss_terminal_workload owner wid expected key now d = Inr (r, d')"
  shows "txn d d'"
proof -
  have "d' = d \<or> (\<exists>ms. d' = d\<lparr>workload_dismissals := ms\<rparr>)"
    using assms unfolding dismiss_terminal_workload_def Let_def tx_simps
    by (elim exE conjE) (simp split: if_splits, blast)
  then show ?thesis by auto
qed

lemma grant_retry_txn:
  assumes "grant_retry owner wid rid t d = Inr (s, d')"
  shows "txn d d'" and "s = W_RUNNING \<or> s = W_QUEUED"
proof -
  have "txn d (d\<lparr>revisions := update_where P
      (\<lambda>r. r\<lparr>r_manual_retry_generation := r_manual_retry_generation r + 1\<rparr>) (revisions d)\<rparr>)" for P
    by (rule txn_revisions) (simp add: revision_evolves_def)
  then show "txn d d'" "s = W_RUNNING \<or> s = W_QUEUED"
    using assms by (auto simp: grant_retry_def Let_def tx_simps split: if_splits)
qed

lemma attention_edges:
  "workload_edge W_NEEDS_ATTENTION W_RUNNING" "workload_edge W_NEEDS_ATTENTION W_QUEUED"
  "workload_edge W_NEEDS_ATTENTION W_CANCEL_REQUESTED"
  by (simp_all add: workload_edge_def)

lemma resolve_change_txn:
  assumes "resolve_change owner wid row decision target expected t d = Inr (r, d')" and ok: "store_ok d"
    and edge: "workload_edge (w_state row) target"
  shows "txn d d'"
proof -
  obtain changed d1 e d2 where
    "update_state_in_transaction owner wid (w_state row) target expected
       (if decision = ''cancel'' then Some (cancel_reason ''attention_cancelled'') else None) (Some t) d = Inr (changed, d1)"
    and "append_event_in_transaction owner wid Ev_ATTENTION_RESOLVED
       [(''decision'', JStr decision), (''new_state'', JStr (workload_state_value target)),
        (''new_version'', JInt (wr_version changed))] d1 = Inr (e, d2)"
    and last: "d' = d2 \<or> (\<exists>x. settle_workload_in_transaction owner wid t False UNIT_STATE_BATCH_SIZE d2 = Inr (x, d'))"
    using assms(1) unfolding resolve_change_def by (auto simp: tx_simps split: if_splits)
  then have "txn d d2"
    using edge by (blast intro: txn_trans dest: update_state_txn append_event_txn)
  moreover from this have "store_ok d2" using ok by (rule txn_keeps)
  ultimately show ?thesis
    using last by (auto dest: settle_in_transaction_txn intro: txn_trans)
qed

lemma resolve_attention_txn:
  assumes "resolve_attention_in_transaction owner wid decision expected key note digest t d = Inr (r, d')"
    and ok: "store_ok d"
  shows "txn d d'"
proof -
  obtain row rid target d1 d2 d3 ns where state: "w_state row = W_NEEDS_ATTENTION"
    and grant: "(if decision = ''retry'' then grant_retry owner wid rid t d else Inr (W_CANCEL_REQUESTED, d)) = Inr (target, d1)"
    and change: "resolve_change owner wid row decision target expected t d1 = Inr (r, d2)"
    and saved: "record_command owner wid key ''resolve_attention'' digest r t d2 = Inr d3"
    and d': "d' = d3\<lparr>attention_resolutions := ns\<rparr>"
    using assms(1) unfolding resolve_attention_in_transaction_def tx_simps
    by (elim exE conjE) (auto simp: tx_simps split: prod.splits)
  have "txn d d1" and "workload_edge (w_state row) target"
    using grant attention_edges state by (auto split: if_splits dest: grant_retry_txn)
  moreover from this have "txn d1 d2"
    using resolve_change_txn [OF change] txn_keeps [OF _ ok] by blast
  moreover have "txn d2 d'"
    unfolding d' using record_command_txn [OF saved] by (blast intro: txn_trans txn_untracked)
  ultimately show ?thesis by (blast intro: txn_trans)
qed

lemma resolution_txn:
  assumes "record_attention_resolution sha owner wid decision expected key note now d = Inr (r, d')"
    and ok: "store_ok d"
  shows "txn d d'"
proof -
  have "d' = d \<or> (\<exists>o1 e1 k1 dg.
      resolve_attention_in_transaction o1 wid decision e1 k1 note dg (operation_now d now) d = Inr (r, d'))"
    using assms(1) unfolding record_attention_resolution_def Let_def tx_simps
    by (elim exE conjE) (auto simp: tx_simps split: option.splits)
  then show ?thesis
    using ok by (auto dest: resolve_attention_txn)
qed

section \<open>Properties\<close>

lemma frozen_prefix: "rows_evolve (=) xs ys \<Longrightarrow> \<exists>zs. ys = xs @ zs"
proof -
  assume "rows_evolve (=) xs ys"
  then have "take (length xs) ys = xs"
    by (intro nth_equalityI) (auto simp: rows_evolve_def)
  then show ?thesis by (metis append_take_drop_id)
qed

lemma find_frozen: "rows_evolve (=) xs ys \<Longrightarrow> find P xs = Some x \<Longrightarrow> find P ys = Some x"
proof -
  assume "rows_evolve (=) xs ys" and found: "find P xs = Some x"
  then obtain zs where ys: "ys = xs @ zs" using frozen_prefix by blast
  from found show "find P ys = Some x" unfolding ys by (induction xs) (auto split: if_splits)
qed

lemma control_recorded:
  assumes "control sha owner wid command key expected now d = Inr (r, d1)"
  shows "\<exists>digest row. command_digest sha command expected = Inr digest \<and>
    find (command_at owner wid key) (commands d1) = Some row \<and> k_command row = command \<and>
    k_payload_digest row = digest \<and> k_result row = r"
  using assms
proof (cases rule: control_cases)
  case (replay digest)
  then show ?thesis by (auto simp: existing_command_def split: option.splits if_splits)
next
  case (fresh digest row target changed d' d2)
  have "find (command_at owner wid key) (commands d2) = None"
    using fresh(8) by (auto simp: record_command_def tx_simps find_None_iff)
  then have "find (command_at owner wid key) (commands d2 @ [row]) = Some row"
    if "command_at owner wid key row" for row
    using that by (rule find_append_new)
  then show ?thesis
    using fresh(1,8) by (auto simp: record_command_def tx_simps command_at_def)
qed

lemma control_args:
  "control sha owner wid command key expected now d = Inr x \<Longrightarrow> require_owner owner = Inr owner \<and>
     require_key key 256 = Inr key"
  unfolding control_def tx_simps
  by (auto simp: require_owner_def require_key_def split: if_splits)

end
