(* ===== verification/Attempt_Properties.thy ===== *)
theory Attempt_Properties
  imports Lease_Properties Commands
begin

text \<open>
  What the operations of a lease guarantee: a lease that is no longer held changes nothing; a
  result is committed once, within its deadlines, and for good; a failure follows the frozen
  retry policy; recorded model usage stays within the contract it was reserved under; the
  read-only probe of the reconciliation misses nothing.
\<close>

section \<open>Lost leases\<close>

text \<open>
  C11. A worker whose lease the store no longer recognises cannot change anything: starting,
  extending, recording facts or usage, committing, failing and abandoning all report it and
  leave the store as it was, and none of them reports success.
\<close>

theorem stale_lease_is_inert:
  assumes stale: "\<not> lease_matches d l"
  shows "mark_running l now d = Inr (LM_STALE_FENCE, d) \<and>
    (\<forall>r. heartbeat l expiry now d = Inr r \<longrightarrow> r = (LM_STALE_FENCE, d)) \<and>
    (\<forall>r. record_execution_facts l executor model device invocation now d = Inr r \<longrightarrow> r = (LM_STALE_FENCE, d)) \<and>
    (\<forall>r. record_attempt_usage l usage now d = Inr r \<longrightarrow> r = (LM_STALE_FENCE, d)) \<and>
    (\<forall>out d'. commit_result sha l v deps now d = Inr (out, d') \<longrightarrow> co_status out \<noteq> CS_COMMITTED \<and> d' = d) \<and>
    (\<forall>r. fail_attempt sha8 l err decision st now d = Inr r \<longrightarrow> r = ((FS_STALE_FENCE, None), d)) \<and>
    (\<forall>m d'. abandon_attempt l now reason d = Inr (m, d') \<longrightarrow>
       m \<in> {LM_ALREADY_APPLIED, LM_STALE_FENCE} \<and> d' = d)"
proof -
  have row: "matched_row d l = None"
    using stale unfolding lease_matches_def by blast
  have "co_status out \<noteq> CS_COMMITTED \<and> d' = d" if "commit_result sha l v deps now d = Inr (out, d')" for out d'
    using that by (auto simp: commit_result_def Let_def row existing_commit_def refused_commit_def
        split: if_split_asm option.split_asm)
  moreover have "mark_running l now d = Inr (LM_STALE_FENCE, d)"
    by (simp add: mark_running_def row)
  moreover have "r = (LM_STALE_FENCE, d)" if "heartbeat l expiry now d = Inr r" for r
    using that by (auto simp: heartbeat_def Let_def tx_simps row)
  moreover have "r = (LM_STALE_FENCE, d)"
    if "record_execution_facts l executor model device invocation now d = Inr r" for r
    using that by (auto simp: record_execution_facts_def Let_def tx_simps row split: if_split_asm)
  moreover have "r = (LM_STALE_FENCE, d)" if "record_attempt_usage l usage now d = Inr r" for r
    using that by (auto simp: record_attempt_usage_def Let_def tx_simps row)
  moreover have "r = ((FS_STALE_FENCE, None), d)" if "fail_attempt sha8 l err decision st now d = Inr r" for r
    using that by (auto simp: fail_attempt_def Let_def row split: if_split_asm)
  moreover have "m \<in> {LM_ALREADY_APPLIED, LM_STALE_FENCE} \<and> d' = d"
    if "abandon_attempt l now reason d = Inr (m, d')" for m d'
    using that by (auto simp: abandon_attempt_def Let_def row split: if_split_asm)
  ultimately show ?thesis by blast
qed

section \<open>Commit of a result\<close>

definition example_running :: "(lease \<times> db) result" where
  "example_running =
     bindE (example_claim W_QUEUED) (\<lambda>(l, d).
     bindE (optE l ValueError) (\<lambda>l.
     bindE (mark_running l (Some 3000) d) (\<lambda>(_, d'). Inr (l, d'))))"

definition example_result :: validated_result where
  "example_result = \<lparr>vr_schema_version = ''metnos.output/1'', vr_payload = [(''entries'', JArr [])],
     vr_digest = ''sha256:0''\<rparr>"

theorem stale_lease_is_inert_witness:
  "\<exists>l d r. example_running = Inr (l, d) \<and>
     commit_result example_sha (l\<lparr>l_fence := 0\<rparr>) example_result [] (Some 4000) d = Inr r \<and>
     co_status (fst r) \<noteq> CS_COMMITTED \<and> snd r = d"
proof -
  have "succeeds_with example_running (\<lambda>(l, d). \<not> lease_matches d (l\<lparr>l_fence := 0\<rparr>) \<and>
      succeeds_with (commit_result example_sha (l\<lparr>l_fence := 0\<rparr>) example_result [] (Some 4000) d) (\<lambda>_. True))"
    by code_simp
  then obtain l d r where run: "example_running = Inr (l, d)" and stale: "\<not> lease_matches d (l\<lparr>l_fence := 0\<rparr>)"
    and out: "commit_result example_sha (l\<lparr>l_fence := 0\<rparr>) example_result [] (Some 4000) d = Inr r"
    by (auto elim!: succeeds_withE)
  have "co_status (fst r) \<noteq> CS_COMMITTED \<and> snd r = d"
    using stale_lease_is_inert [OF stale] out by (cases r) fastforce
  with run out show ?thesis by (intro exI [of _ l] exI [of _ d] exI [of _ r]) simp
qed

lemma commit_guard_status [simp]: "commit_guard l row a t \<noteq> Inr (Some CS_COMMITTED)"
  by (auto simp: commit_guard_def tx_simps split: if_split_asm option.split_asm)

lemma commit_guard_open:
  assumes "commit_guard l row a t = Inr None"
  shows "u_state (lr_unit row) = U_RUNNING" and "a_state a = A_RUNNING"
    and "\<exists>started expiry. execution_started_at a = Inr (Some started) \<and> t < execution_deadline l started \<and>
      u_lease_expires_at (lr_unit row) = Some expiry \<and> t < expiry"
  using assms by (auto simp: commit_guard_def tx_simps not_le split: if_split_asm option.split_asm)

lemma filter_single: "distinct xs \<Longrightarrow> x \<in> set xs \<Longrightarrow> filter (\<lambda>y. y = x) xs = [x]"
  by (induction xs) (auto simp: filter_empty_conv)

lemma filter_by_key:
  assumes "distinct (map key xs)" and "x \<in> set xs" and "P x" and "\<And>y. P y \<Longrightarrow> key y = key x"
  shows "filter P xs = [x]"
proof -
  have "filter P xs = filter (\<lambda>y. y = x) xs"
    using assms by (intro filter_cong) (auto simp: distinct_map dest: inj_onD)
  then show ?thesis using assms(1,2) filter_single [of xs x] by (simp add: distinct_map)
qed

text \<open>What a commit that reports success wrote.\<close>

lemma commit_result_cases:
  assumes "commit_result sha l v deps now d = Inr (out, d')" and "co_status out = CS_COMMITTED"
  obtains row a where "find (\<lambda>x. x_owner x = l_owner_user_id l \<and> x_unit x = l_unit_id l) (results d) = None"
    and "matched_row d l = Some (row, a)" and "commit_guard l row a (operation_now d now) = Inr None"
    and "commit_running sha l row a v deps (operation_now d now) d = Inr (out, d')"
  using assms unfolding commit_result_def Let_def
  by (auto simp: tx_simps existing_commit_def refused_commit_def
      split: if_split_asm option.split_asm)

lemma commit_stores_result:
  assumes run: "commit_result sha l v deps now d = Inr (out, d')" and status: "co_status out = CS_COMMITTED"
    and ok: "store_ok d"
  obtains x where "find (\<lambda>x. x_owner x = l_owner_user_id l \<and> x_unit x = l_unit_id l) (results d') = Some x"
    and "x_attempt x = l_attempt_id l" and "x_fence x = l_fence l" and "x_digest x = vr_digest v"
    and "x_payload x = vr_payload v" and "co_result_id out = Some (x_id x)"
proof -
  obtain row a where none: "find (\<lambda>x. x_owner x = l_owner_user_id l \<and> x_unit x = l_unit_id l) (results d) = None"
    and row: "matched_row d l = Some (row, a)" and guard: "commit_guard l row a (operation_now d now) = Inr None"
    and running: "commit_running sha l row a v deps (operation_now d now) d = Inr (out, d')"
    by (rule commit_result_cases [OF run status])
  let ?t = "operation_now d now"
  note states = commit_guard_None [OF guard]
  obtain rows d1 rid d2 y where 1: "account_result l v ?t d = Inr d1"
    and 2: "store_result sha l a v rows ?t d1 = Inr (rid, d2)"
    and 3: "settle_workload_in_transaction (l_owner_user_id l) (l_workload_id l) ?t False UNIT_STATE_BATCH_SIZE d2 = Inr (y, d')"
    and out: "co_result_id out = Some rid"
    using running unfolding commit_running_def tx_simps by (elim exE conjE) (auto simp: tx_simps split: if_splits)
  note frame = account_result_frame [OF 1]
  have h: "held d1 l (lr_unit row) a"
    using held_running [OF ok row conjunct1 [OF states]] frame by (simp add: held_def)
  obtain prov where res: "results d2 = results d @ [new_result l v rid prov ?t]"
    using store_result_effect [OF 2 h conjunct1 [OF states] conjunct2 [OF states]] frame by (auto simp: Let_def)
  have "store_ok d2"
    using txn_keeps [OF store_result_txn [OF 2 _ h]] txn_keeps [OF account_result_txn [OF 1] ok] states by blast
  then have ev: "rows_evolve (=) (results d2) (results d')"
    using settle_in_transaction_txn [OF 3] by (auto simp: txn_def db_evolves_def)
  have "find (\<lambda>x. x_owner x = l_owner_user_id l \<and> x_unit x = l_unit_id l) (results d2) = Some (new_result l v rid prov ?t)"
    using none by (simp add: res find_append new_result_def)
  from find_frozen [OF ev this] show ?thesis
    by (rule that) (simp_all add: new_result_def out)
qed

definition example_commit :: "(lease \<times> db \<times> commit_outcome \<times> db) result" where
  "example_commit =
     bindE example_running (\<lambda>(l, d).
     bindE (commit_result example_sha l example_result [] (Some 4000) d) (\<lambda>(out, d'). Inr (l, d, out, d')))"

lemma example_commit_run:
  obtains l d out d' where "example_commit = Inr (l, d, out, d')" and "store_ok d" and "store_ok d'"
    and "commit_result example_sha l example_result [] (Some 4000) d = Inr (out, d')"
    and "co_status out = CS_COMMITTED" and "map u_state (units d') = [U_COMMITTED, U_PENDING]"
proof -
  have "succeeds_with example_commit (\<lambda>(l, d, out, d'). store_ok d \<and> store_ok d' \<and> co_status out = CS_COMMITTED \<and>
      map u_state (units d') = [U_COMMITTED, U_PENDING])"
    by code_simp
  then obtain l d out d' where run: "example_commit = Inr (l, d, out, d')" and ok: "store_ok d" "store_ok d'"
    and out: "co_status out = CS_COMMITTED" "map u_state (units d') = [U_COMMITTED, U_PENDING]"
    by (auto elim!: succeeds_withE)
  moreover have "commit_result example_sha l example_result [] (Some 4000) d = Inr (out, d')"
    using run unfolding example_commit_def by (auto simp: tx_simps split: prod.splits)
  ultimately show ?thesis using that [OF run ok] by simp
qed

text \<open>
  C13. A commit succeeds only for the holder of the unit's running attempt, before the
  execution deadline and before the lease expires, with the output schema and the dependency
  set frozen for the stage, with complete model accounting, and with the revision still
  within every budget after the result's bytes are counted.
\<close>

theorem commit_within_contract:
  assumes run: "commit_result sha l v deps now d = Inr (out, d')" and status: "co_status out = CS_COMMITTED"
  shows "\<exists>row a started expiry rows d1. matched_row d l = Some (row, a) \<and>
    u_state (lr_unit row) = U_RUNNING \<and> a_state a = A_RUNNING \<and>
    execution_started_at a = Inr (Some started) \<and> operation_now d now < execution_deadline l started \<and>
    u_lease_expires_at (lr_unit row) = Some expiry \<and> operation_now d now < expiry \<and>
    s_output_schema (lr_stage row) = vr_schema_version v \<and>
    lease_dependencies l row d = Inr rows \<and>
    set deps = set (map dj_result rows) \<and> model_usage_is_complete row a = Inr True \<and>
    add_revision_usage_in_transaction (l_owner_user_id l) (l_revision_id l)
      (no_increments\<lparr>inc_output_bytes := payload_bytes v\<rparr>) False (operation_now d now) d = Inr d1 \<and>
    budget_violation_in_transaction (l_owner_user_id l) (l_workload_id l) (l_revision_id l) (operation_now d now) d1 = None"
proof -
  obtain row a where row: "matched_row d l = Some (row, a)"
    and guard: "commit_guard l row a (operation_now d now) = Inr None"
    and running: "commit_running sha l row a v deps (operation_now d now) d = Inr (out, d')"
    by (rule commit_result_cases [OF run status])
  obtain rows d1 where "s_output_schema (lr_stage row) = vr_schema_version v"
    "lease_dependencies l row d = Inr rows"
    "set deps = set (map dj_result rows)" "model_usage_is_complete row a = Inr True"
    "account_result l v (operation_now d now) d = Inr d1"
    using running unfolding commit_running_def tx_simps
    by (elim exE conjE) (auto simp: tx_simps split: if_split_asm)
  then show ?thesis
    using row commit_guard_open [OF guard] by (auto simp: account_result_def tx_simps split: option.split_asm)
qed

theorem commit_within_contract_witness:
  "\<exists>l d out d' row a expiry. example_commit = Inr (l, d, out, d') \<and> matched_row d l = Some (row, a) \<and>
     u_lease_expires_at (lr_unit row) = Some expiry \<and> 4000 < expiry"
proof -
  obtain l d out d' where run: "example_commit = Inr (l, d, out, d')"
    and commit: "commit_result example_sha l example_result [] (Some 4000) d = Inr (out, d')"
    and out: "co_status out = CS_COMMITTED"
    by (rule example_commit_run)
  show ?thesis
    using run commit_within_contract [OF commit out] by (auto simp: operation_now_def)
qed

section \<open>Recorded model usage\<close>

lemma sum_counter_bound:
  "(\<And>i. i \<in> set items \<Longrightarrow> counter_of i k \<le> b) \<Longrightarrow> sum_counter k items \<le> int (length items) * b"
  by (induction items) (auto simp: sum_counter_def algebra_simps intro: add_mono)

lemma usage_within_snapshot:
  assumes valid: "validated_attempt_usage usage l = Inr usage"
    and snapshot: "validate_usage_against_model_snapshot usage model = Inr ()"
  shows "counter_of usage ''input_tokens'' \<le> jint_value model ''max_calls'' * jint_value model ''max_input_tokens''"
    and "counter_of usage ''output_tokens'' \<le> jint_value model ''max_calls'' * jint_value model ''max_output_tokens''"
    and "counter_of usage ''cost_micros'' = 0"
proof -
  let ?rs = "records_of usage" and ?n = "jint_value model ''max_calls''"
  have calls: "list_all (call_within_snapshot model) ?rs" "int (length ?rs) + counter_of usage ''dropped'' \<le> ?n"
    and pos: "1 \<le> jint_value model ''max_input_tokens''" "1 \<le> jint_value model ''max_output_tokens''"
    using snapshot by (auto simp: validate_usage_against_model_snapshot_def jint_between_def jint_value_def
        split: if_split_asm option.split_asm jval.split_asm)
  have sums: "counter_of usage ''input_tokens'' = sum_counter ''in_tokens'' ?rs"
    "counter_of usage ''output_tokens'' = sum_counter ''out_tokens'' ?rs"
    "counter_of usage ''cost_micros'' = sum_counter ''cost_micros'' ?rs"
    and dropped: "0 \<le> counter_of usage ''dropped''"
    using valid by (auto simp: validated_attempt_usage_def usage_aggregates_ok_def usage_summary_ok_def Let_def
        jint_between_def counter_of_def split: if_split_asm option.split_asm jval.split_asm)
  have len: "int (length ?rs) \<le> ?n" using calls(2) dropped by simp
  have "sum_counter ''in_tokens'' ?rs \<le> int (length ?rs) * jint_value model ''max_input_tokens''"
    "sum_counter ''out_tokens'' ?rs \<le> int (length ?rs) * jint_value model ''max_output_tokens''"
    using calls(1) by (auto simp: list_all_iff call_within_snapshot_def intro!: sum_counter_bound)
  moreover have "int (length ?rs) * b \<le> ?n * b" if "1 \<le> b" for b
    using len that by (intro mult_right_mono) auto
  ultimately show "counter_of usage ''input_tokens'' \<le> ?n * jint_value model ''max_input_tokens''"
    "counter_of usage ''output_tokens'' \<le> ?n * jint_value model ''max_output_tokens''"
    using sums pos by (fastforce intro: order_trans)+
  have "map (\<lambda>i. counter_of i ''cost_micros'') ?rs = map (\<lambda>_. 0) ?rs"
    using calls(1) by (auto simp: list_all_iff call_within_snapshot_def counter_of_def)
  then have "sum_counter ''cost_micros'' ?rs = 0"
    by (simp add: sum_counter_def del: map_eq_conv)
  then show "counter_of usage ''cost_micros'' = 0" using sums by simp
qed

lemma find_usage_update:
  assumes "\<And>u. usage_at owner rid (f u) = usage_at owner rid u"
  shows "find (usage_at owner rid) (update_where (usage_at owner rid) f rows)
    = map_option f (find (usage_at owner rid) rows)"
  using assms by (induction rows) auto

lemma add_usage_found:
  assumes "add_revision_usage_in_transaction owner rid i unknown t d = Inr d'"
  shows "\<exists>u. find (usage_at owner rid) (revision_usage d) = Some u \<and>
    find (usage_at owner rid) (revision_usage d') = Some (add_usage i unknown t u) \<and>
    (\<forall>v \<in> set (increment_list i). 0 \<le> v)"
  using assms by (auto simp: add_revision_usage_in_transaction_def tx_simps Let_def usage_at_def add_usage_def
      find_usage_update not_less split: if_split_asm)

lemma advance_clock_found:
  assumes "advance_revision_clock_in_transaction owner rid t d = Inr d'"
  shows "find (usage_at owner rid) (revision_usage d')
    = map_option (advance_usage_clock t) (find (usage_at owner rid) (revision_usage d))"
  using assms by (auto simp: advance_revision_clock_in_transaction_def usage_at_def advance_usage_clock_def
      find_usage_update split: if_split_asm)

text \<open>
  Usage that a running attempt has accepted is bounded by the contract its model was
  frozen under: at most the frozen number of calls times the token limits of one call, the
  amount a claim reserves for the stage, and no cost. It is accepted only from an attempt that
  has recorded none before.
\<close>

theorem recorded_usage_bounded:
  assumes run: "record_attempt_usage l usage now d = Inr (LM_APPLIED, d')"
  shows "\<exists>row a us us'. matched_row d l = Some (row, a) \<and>
    find (usage_at (l_owner_user_id l) (l_revision_id l)) (revision_usage d) = Some us \<and>
    find (usage_at (l_owner_user_id l) (l_revision_id l)) (revision_usage d') = Some us' \<and>
    us_input_tokens us \<le> us_input_tokens us' \<and> us_output_tokens us \<le> us_output_tokens us' \<and>
    us_input_tokens us' \<le> us_input_tokens us
      + jint_value (a_model_snapshot a) ''max_calls'' * jint_value (a_model_snapshot a) ''max_input_tokens'' \<and>
    us_output_tokens us' \<le> us_output_tokens us
      + jint_value (a_model_snapshot a) ''max_calls'' * jint_value (a_model_snapshot a) ''max_output_tokens'' \<and>
    us_cost_micros us' = us_cost_micros us \<and> existing_usage a = None"
proof -
  obtain row a where row: "matched_row d l = Some (row, a)" and valid: "validated_attempt_usage usage l = Inr usage"
    and freeze: "freeze_usage l a usage (operation_now d now) d = Inr (LM_APPLIED, d')"
    using run by (auto simp: record_attempt_usage_def Let_def tx_simps running_guard_def validated_attempt_usage_def
        split: if_split_asm option.split_asm)
  obtain m d1 d2 where snapshot: "validate_usage_against_model_snapshot usage (a_model_snapshot a) = Inr ()"
    and none: "existing_usage a = None"
    and 1: "update_running_attempt l (\<lambda>b. b\<lparr>a_metrics := m\<rparr>) ''attempt usage compare-and-set failed'' d = Inr d1"
    and 2: "add_revision_usage_in_transaction (l_owner_user_id l) (l_revision_id l) (usage_increment usage)
      (usage_uncertain usage) (operation_now d now) d1 = Inr d2"
    and 3: "advance_revision_clock_in_transaction (l_owner_user_id l) (l_revision_id l) (operation_now d now) d2 = Inr d'"
    using freeze by (auto simp: freeze_usage_def tx_simps split: if_split_asm option.split_asm)
  have same: "revision_usage d1 = revision_usage d"
    using 1 by (auto simp: update_running_attempt_def Let_def split: if_split_asm)
  show ?thesis
    using row none add_usage_found [OF 2] advance_clock_found [OF 3] usage_within_snapshot [OF valid snapshot]
    by (auto simp: same advance_usage_clock_def add_usage_def usage_increment_def no_increments_def increment_list_def)
qed

definition example_digest :: string where
  "example_digest = ''sha256:'' @ replicate 64 (CHR ''a'')"

definition example_model :: jobj where
  "example_model =
     [(''schema_version'', JStr ''metnos.durable-model-snapshot/2''), (''mode'', JStr ''llm''),
      (''runner_name'', JStr ''read_files''), (''binding_digest'', JStr example_digest),
      (''prompt_digest'', JStr example_digest), (''prompt_language'', JStr ''en''), (''provider'', JStr ''local''),
      (''model_digest'', JStr example_digest), (''tier'', JStr []), (''kind'', JStr ''chat''), (''max_calls'', JInt 2),
      (''max_input_tokens'', JInt 100), (''max_output_tokens'', JInt 50), (''cost_policy'', JStr ''zero'')]"

definition example_call :: "lease \<Rightarrow> jobj" where
  "example_call l =
     [(''schema_version'', JStr ''metnos.durable-llm-call/1''), (''workload_id'', JStr (l_workload_id l)),
      (''stage_id'', JStr (l_stage_id l)), (''unit_key'', JStr (l_unit_key l)), (''attempt_id'', JStr (l_attempt_id l)),
      (''provider'', JStr ''local''), (''model_digest'', JStr example_digest), (''tier'', JStr []), (''kind'', JStr ''chat''),
      (''in_tokens'', JInt 40), (''out_tokens'', JInt 7), (''latency_ms'', JNull), (''cost_micros'', JInt 0)]"

definition example_usage_report :: "lease \<Rightarrow> jobj" where
  "example_usage_report l =
     [(''schema_version'', JStr ''metnos.durable-model-usage/2''), (''records'', JArr [JObj (example_call l)]),
      (''dropped'', JInt 0), (''input_tokens'', JInt 40), (''output_tokens'', JInt 7), (''cost_micros'', JInt 0),
      (''usage_missing'', JBool False), (''cost_unknown'', JBool False), (''zero_calls_verified'', JBool False)]"

definition example_model_running :: "(lease \<times> db) result" where
  "example_model_running =
     bindE example_running (\<lambda>(l, d).
     bindE (record_execution_facts l [(''mode'', JStr ''worker'')] example_model None None (Some 3500) d) (\<lambda>(_, d').
     Inr (l, d')))"

theorem recorded_usage_bounded_witness:
  "\<exists>l d d' us'. example_model_running = Inr (l, d) \<and>
     record_attempt_usage l (example_usage_report l) (Some 4000) d = Inr (LM_APPLIED, d') \<and>
     find (usage_at (l_owner_user_id l) (l_revision_id l)) (revision_usage d') = Some us' \<and>
     us_cost_micros us' = 0 \<and> us_input_tokens us' = 40"
proof -
  have "succeeds_with example_model_running (\<lambda>(l, d). map us_cost_micros (revision_usage d) = [0] \<and>
      succeeds_with (record_attempt_usage l (example_usage_report l) (Some 4000) d)
        (\<lambda>(st, d'). st = LM_APPLIED \<and> map us_input_tokens (revision_usage d') = [40]))"
    by code_simp
  then obtain l d d' where run: "example_model_running = Inr (l, d)"
    and rec: "record_attempt_usage l (example_usage_report l) (Some 4000) d = Inr (LM_APPLIED, d')"
    and seen: "map us_cost_micros (revision_usage d) = [0]" "map us_input_tokens (revision_usage d') = [40]"
    by (auto elim!: succeeds_withE)
  obtain us us' where us: "find (usage_at (l_owner_user_id l) (l_revision_id l)) (revision_usage d) = Some us"
    "find (usage_at (l_owner_user_id l) (l_revision_id l)) (revision_usage d') = Some us'"
    "us_cost_micros us' = us_cost_micros us"
    using recorded_usage_bounded [OF rec] by blast
  have "us_cost_micros us \<in> set (map us_cost_micros (revision_usage d))"
    "us_input_tokens us' \<in> set (map us_input_tokens (revision_usage d'))"
    using find_SomeD [OF us(1)] find_SomeD [OF us(2)] by simp_all
  with run rec us seen show ?thesis by (auto intro!: exI)
qed

section \<open>The probe of the reconciliation\<close>

text \<open>
  The read-only probe before a reconciliation only saves work: on every batch size the
  code admits, reconciling is the same as running its transaction unconditionally, so no
  expired lease and no due retry is ever missed by the probe.
\<close>

theorem reconcile_probe_exact:
  assumes "1 \<le> batch_size" and "batch_size \<le> 1000"
  shows "reconcile_expired sha8 now batch_size d = reconcile_in_transaction sha8 now batch_size d"
proof (cases "possibly_expired d now")
  case False
  have "expired_row_of d now u = None" if "u \<in> set (units d)" for u
  proof (rule ccontr)
    assume "expired_row_of d now u \<noteq> None"
    then obtain us where "find (usage_at (u_owner u) (u_revision u)) (revision_usage d) = Some us"
      "expired_lease now (us_clock_high_water_at us) u"
      by (auto simp: expired_row_of_def split: option.split_asm if_split_asm)
    then show False using False that find_SomeD by (fastforce simp: possibly_expired_def)
  qed
  then have none: "concat (map (\<lambda>u. case expired_row_of d now u of None \<Rightarrow> [] | Some e \<Rightarrow> [e]) (units d)) = []"
    by simp
  have "expired_rows d now batch_size = []"
    unfolding expired_rows_def none by (simp add: order_limit_def)
  moreover have "filter (due_retry now) (units d) = []"
    using False by (auto simp: possibly_expired_def filter_empty_conv)
  ultimately have "reconcile_in_transaction sha8 now batch_size d = Inr (no_reconcile\<lparr>ro_retry_promoted := 0\<rparr>, d)"
    by (simp add: reconcile_in_transaction_def promote_due_retries_in_transaction_def order_limit_def
        affected_workloads_def tx_simps)
  with assms False show ?thesis by (simp add: reconcile_expired_def no_reconcile_def)
qed (use assms in \<open>simp add: reconcile_expired_def\<close>)

theorem reconcile_probe_exact_witness:
  "reconcile_expired (\<lambda>_. 0) 2000 10 (example_store W_RUNNING) = Inr (no_reconcile, example_store W_RUNNING)"
proof -
  have "reconcile_in_transaction (\<lambda>_. 0) 2000 10 (example_store W_RUNNING) = Inr (no_reconcile, example_store W_RUNNING)"
    by code_simp
  then show ?thesis using reconcile_probe_exact [of 10] by simp
qed

section \<open>Failure of an attempt\<close>

text \<open>A lease ends for good with its attempt.\<close>

lemma ended_lease_lost:
  assumes ok: "store_ok d" and a: "a \<in> set (attempts d)" "attempt_pk a = (l_owner_user_id l, l_attempt_id l)"
    and ended: "a_ended_at a \<noteq> None"
  shows "\<not> lease_matches d l"
proof
  assume "lease_matches d l"
  then obtain row b where row: "matched_row d l = Some (row, b)"
    unfolding lease_matches_def by (cases "matched_row d l") auto
  note r = matched_rowD [OF row]
  have "b = a"
    using r(2,6,7) a pk_unique(2) [OF store_keys(2) [OF ok] a(1), of b] by simp
  moreover obtain c where c: "c \<in> set (attempts d)" "attempt_of (lr_unit row) c" "leased_alike (lr_unit row) c"
    using ok leases_okD(1) [of "units d" "attempts d" "lr_unit row"] r(1,4)
    by (auto simp: store_ok_def idle_unit_def leased_unit_at_def)
  moreover have "c = a"
    using c(1,2) r(3) \<open>b = a\<close> pk_unique(2) [OF store_keys(2) [OF ok] a(1), of c] by (auto simp: attempt_of_def)
  ultimately have "live_attempt a" using leased_alike_live by blast
  then show False using ok a(1) ended by (auto simp: store_ok_def attempts_ok_def)
qed

lemma ended_attempt_kept:
  assumes "rows_evolve attempt_evolves (attempts d) (attempts e)" and "a \<in> set (attempts d)" and "a_ended_at a \<noteq> None"
  shows "a \<in> set (attempts e)"
  using assms rows_evolveD [of attempt_evolves "attempts d" "attempts e" a] by (auto simp: attempt_evolves_def)

lemma close_failed_effect:
  assumes run: "close_failed sha8 l row a err dec st unknown reg t d = Inr ((status, next), d')" and ok: "store_ok d"
    and h: "held d l u a" and states: "u_state u = U_RUNNING" "a_state a = A_RUNNING" "st \<notin> {A_LEASED, A_RUNNING}"
  shows "\<exists>state a'. failure_target sha8 l (s_retry (lr_stage row)) dec t = Inr (state, status, next) \<and>
    a' \<in> set (attempts d') \<and> attempt_pk a' = attempt_pk a \<and> a_state a' = st \<and> a_ended_at a' = Some t"
proof -
  obtain e :: structured_error and state m d1 where target: "failure_target sha8 l (s_retry (lr_stage row)) dec t = Inr (state, status, next)"
    and upd: "update_pair (running_attempt_at l) (ended_attempt t st (se_payload e) m) (running_unit_at l)
      (released_unit t state next (Some (se_error_class e)) (Some (se_payload e))
        (r_manual_retry_generation (lr_revision row)) 0) ''attempt failure compare-and-set failed'' d = Inr d1"
    and fin: "finish_lease l t d1 = Inr d'"
    using run unfolding close_failed_def tx_simps by (elim exE conjE) (auto simp: tx_simps)
  let ?a = "ended_attempt t st (se_payload e) m a"
  have "d1 = put_pair u (released_unit t state next (Some (se_error_class e)) (Some (se_payload e))
      (r_manual_retry_generation (lr_revision row)) 0 u) a ?a d"
    using h states by (intro update_pair_effect [OF upd])
      (auto simp: held_def running_unit_at_def running_attempt_at_def)
  then have "?a \<in> set (attempts d1)"
    using h by (auto simp: held_def set_update_where)
  moreover have "rows_evolve attempt_evolves (attempts d1) (attempts d')"
    using finish_lease_txn [OF fin txn_keeps [OF failed_pair_txn [OF upd target states(3)] ok]]
    by (simp add: txn_def db_evolves_def)
  moreover have "a_ended_at ?a \<noteq> None" by (simp add: ended_attempt_def)
  ultimately have "?a \<in> set (attempts d')" by (blast intro: ended_attempt_kept)
  then show ?thesis
    using target by (intro exI [of _ state] exI [of _ ?a]) (simp add: ended_attempt_def)
qed

text \<open>A failure that is recorded ends the attempt.\<close>

lemma fail_attempt_ends:
  assumes run: "fail_attempt sha8 l err decision st now d = Inr ((status, next), d')" and ok: "store_ok d"
    and closed: "status \<in> {FS_RETRY_SCHEDULED, FS_NEEDS_ATTENTION, FS_FAILED_PERMANENT}"
  obtains row a state a' where "matched_row d l = Some (row, a)"
    and "decide_retry (l_effect_profile l) (s_retry (lr_stage row)) (l_attempt_number l) (se_error_class err) (l_manual_retry l) = Inr decision"
    and "failure_target sha8 l (s_retry (lr_stage row))
      (if model_attempt a \<and> \<not> llm_usage_complete a \<or> clock_regressed (us_clock_high_water_at (lr_usage row)) (operation_now d now)
       then RD_NEEDS_ATTENTION else decision) (operation_now d now) = Inr (state, status, next)"
    and "a' \<in> set (attempts d')" "attempt_pk a' = attempt_pk a" "a_state a' = st" "a_ended_at a' = Some (operation_now d now)"
proof -
  let ?t = "operation_now d now"
  obtain row a where row: "matched_row d l = Some (row, a)"
    and states: "u_state (lr_unit row) = U_RUNNING" "a_state a = A_RUNNING" "st \<notin> {A_LEASED, A_RUNNING}"
    and dec: "decide_retry (l_effect_profile l) (s_retry (lr_stage row)) (l_attempt_number l) (se_error_class err)
      (l_manual_retry l) = Inr decision"
    and fail: "fail_running sha8 l row a err decision st ?t d = Inr ((status, next), d')"
    using run closed by (auto simp: fail_attempt_def Let_def tx_simps split: if_split_asm option.split_asm)
  let ?reg = "clock_regressed (us_clock_high_water_at (lr_usage row)) ?t"
  obtain unknown d1 where mark: "mark_unaccounted_model_usage_unknown_in_transaction (lr_unit row) a ?t d = Inr (unknown, d1)"
    and close: "close_failed sha8 l row a err (if unknown \<or> ?reg then RD_NEEDS_ATTENTION else decision) st unknown ?reg ?t d1
      = Inr ((status, next), d')"
    using fail by (auto simp: fail_running_def Let_def tx_simps)
  have unk: "unknown \<longleftrightarrow> model_attempt a \<and> \<not> llm_usage_complete a" "units d1 = units d" "attempts d1 = attempts d"
    using mark by (auto simp: mark_unaccounted_model_usage_unknown_in_transaction_def add_revision_usage_in_transaction_def
        tx_simps Let_def split: if_split_asm)
  have "held d1 l (lr_unit row) a"
    using held_running [OF ok row states(1)] unk by (simp add: held_def)
  with close_failed_effect [OF close txn_keeps [OF mark_unaccounted_txn [OF mark] ok] _ states] obtain state a'
    where "failure_target sha8 l (s_retry (lr_stage row)) (if unknown \<or> ?reg then RD_NEEDS_ATTENTION else decision) ?t
        = Inr (state, status, next)"
      and "a' \<in> set (attempts d')" "attempt_pk a' = attempt_pk a" "a_state a' = st" "a_ended_at a' = Some ?t"
    by blast
  with that [OF row dec] unk(1) show thesis by simp
qed

text \<open>So does an abandonment, and an attempt that was abandoned before has ended.\<close>

lemma abandon_attempt_ends:
  assumes run: "abandon_attempt l now reason d = Inr (status, d')" and ok: "store_ok d"
    and applied: "status \<in> {LM_APPLIED, LM_ALREADY_APPLIED}"
  obtains a where "a \<in> set (attempts d')" "attempt_pk a = (l_owner_user_id l, l_attempt_id l)" "a_ended_at a \<noteq> None"
proof (cases "already_abandoned d l")
  case True
  then obtain row a where row: "select_lease_row d l = Some row" "lr_attempt row = Some a" "a_state a = A_ABANDONED"
    by (auto simp: already_abandoned_def split: option.split_asm)
  then have a: "a \<in> set (attempts d)" "attempt_pk a = (l_owner_user_id l, l_attempt_id l)"
    by (auto simp: select_lease_row_def unit_at_def split: option.split_asm dest!: find_SomeD)
  moreover have "a_ended_at a \<noteq> None" using ok a(1) row(3) by (auto simp: store_ok_def attempts_ok_def live_attempt_def)
  moreover have "d' = d" using run True by (auto simp: abandon_attempt_def Let_def split: if_split_asm)
  ultimately show thesis using that by simp
next
  case False
  let ?t = "operation_now d now"
  obtain row a where row: "matched_row d l = Some (row, a)" and states: "u_state (lr_unit row) \<in> {U_LEASED, U_RUNNING}"
    and live: "abandon_live l row a reason ?t d = Inr (status, d')"
    using run applied False by (auto simp: abandon_attempt_def Let_def tx_simps split: if_split_asm option.split_asm)
  obtain unknown d1 av where mark: "(if u_state (lr_unit row) = U_LEASED then Inr (False, d)
        else mark_unaccounted_model_usage_unknown_in_transaction (lr_unit row) a ?t d) = Inr (unknown, d1)"
    and close: "close_abandoned l row a reason av unknown (clock_regressed (us_clock_high_water_at (lr_usage row)) ?t) ?t d1 = Inr (status, d')"
    using live unfolding abandon_live_def Let_def by (auto simp: tx_simps)
  have same: "units d1 = units d" "attempts d1 = attempts d" and txn: "txn d d1"
    using mark mark_unaccounted_txn [of "lr_unit row" a ?t d unknown d1]
    by (auto simp: mark_unaccounted_model_usage_unknown_in_transaction_def add_revision_usage_in_transaction_def
        tx_simps Let_def split: if_split_asm)
  obtain e :: structured_error and m d2 where
    upd: "update_pair (live_attempt_at l) (ended_attempt ?t A_ABANDONED (se_payload e) m) (live_unit_at l)
        (abandoned_unit ?t (abandon_target av (u_state (lr_unit row) = U_LEASED) ?t) av (se_payload e)
          (r_manual_retry_generation (lr_revision row)) (l_manual_retry l \<and> u_state (lr_unit row) = U_LEASED))
        ''attempt abandonment compare-and-set failed'' d1 = Inr d2"
    and fin: "finish_lease l ?t d2 = Inr d'"
    using close unfolding close_abandoned_def Let_def tx_simps by (elim exE conjE) (auto simp: tx_simps)
  have "count_where (live_attempt_at l) (attempts d1) = 1"
    using upd by (auto simp: update_pair_def tx_simps Let_def split: if_split_asm)
  then obtain b where b: "b \<in> set (attempts d1)" "live_attempt_at l b" using count_where_one_ex by blast
  let ?b = "ended_attempt ?t A_ABANDONED (se_payload e) m b"
  have "?b \<in> set (attempts d2)"
    using upd b by (auto simp: update_pair_def tx_simps Let_def set_update_where split: if_split_asm)
  moreover have "rows_evolve attempt_evolves (attempts d2) (attempts d')"
    using finish_lease_txn [OF fin txn_keeps [OF abandoned_pair_txn [OF upd] txn_keeps [OF txn ok]]]
    by (simp add: txn_def db_evolves_def)
  moreover have ended: "a_ended_at ?b \<noteq> None" by (simp add: ended_attempt_def)
  ultimately have "?b \<in> set (attempts d')" by (blast intro: ended_attempt_kept)
  moreover have "attempt_pk ?b = (l_owner_user_id l, l_attempt_id l)"
    using b(2) by (simp add: ended_attempt_def live_attempt_at_def leased_attempt_at_def)
  ultimately show thesis using ended that by blast
qed

text \<open>And a commit.\<close>

lemma commit_attempt_ends:
  assumes run: "commit_result sha l v deps now d = Inr (out, d')" and status: "co_status out = CS_COMMITTED" and ok: "store_ok d"
  obtains a where "a \<in> set (attempts d')" "attempt_pk a = (l_owner_user_id l, l_attempt_id l)" "a_ended_at a \<noteq> None"
proof -
  obtain row a where row: "matched_row d l = Some (row, a)" and guard: "commit_guard l row a (operation_now d now) = Inr None"
    and running: "commit_running sha l row a v deps (operation_now d now) d = Inr (out, d')"
    by (rule commit_result_cases [OF run status])
  let ?t = "operation_now d now"
  note states = commit_guard_None [OF guard]
  obtain rows d1 rid d2 y where 1: "account_result l v ?t d = Inr d1"
    and 2: "store_result sha l a v rows ?t d1 = Inr (rid, d2)"
    and 3: "settle_workload_in_transaction (l_owner_user_id l) (l_workload_id l) ?t False UNIT_STATE_BATCH_SIZE d2 = Inr (y, d')"
    using running unfolding commit_running_def tx_simps by (elim exE conjE) (auto simp: tx_simps split: if_splits)
  have h: "held d1 l (lr_unit row) a"
    using held_running [OF ok row conjunct1 [OF states]] account_result_frame [OF 1] by (simp add: held_def)
  obtain m where "attempts d2 = update_where (\<lambda>b. b = a) (\<lambda>_. a\<lparr>a_state := A_SUCCEEDED, a_ended_at := Some ?t, a_metrics := m\<rparr>)
      (attempts d1)"
    using store_result_effect [OF 2 h conjunct1 [OF states] conjunct2 [OF states]] by (auto simp: Let_def)
  then have a': "a\<lparr>a_state := A_SUCCEEDED, a_ended_at := Some ?t, a_metrics := m\<rparr> \<in> set (attempts d2)"
    using h by (auto simp: held_def set_update_where)
  have "store_ok d2"
    using txn_keeps [OF store_result_txn [OF 2 _ h]] txn_keeps [OF account_result_txn [OF 1] ok] states by blast
  then have "rows_evolve attempt_evolves (attempts d2) (attempts d')"
    using settle_in_transaction_txn [OF 3] by (auto simp: txn_def db_evolves_def)
  then show thesis using matched_rowD(6,7) [OF row] that [OF ended_attempt_kept [OF _ a']] by simp
qed

definition example_failure :: "(lease \<times> db \<times> failure_outcome \<times> db) result" where
  "example_failure =
     bindE example_running (\<lambda>(l, d).
     bindE (structured_error_create ''executor_transient'' ''runner.timeout'' ''ERR_TIMEOUT'' ''automatic'' 4000 []) (\<lambda>err.
     bindE (fail_attempt (\<lambda>_. 0) l err RD_RETRY A_FAILED (Some 4000) d) (\<lambda>(r, d'). Inr (l, d, r, d'))))"

end
