(* ===== verification/Completion.thy ===== *)
theory Completion
  imports Attempts
begin

text \<open>
  Completion of a workload (\<open>storage.py\<close>: \<open>unit_counters\<close>, \<open>_domain_errors\<close>,
  \<open>evaluate_completion\<close>, \<open>materialization_complete\<close>, \<open>complete_ready_workloads\<close>): the
  nine checks made in one transaction, the reasons that block completion in the order the
  code finds them, and the terminal event, its notification and the guarded state change.
\<close>

section \<open>Counters\<close>

definition state_count :: "string \<Rightarrow> ident option \<Rightarrow> unit_state list \<Rightarrow> db \<Rightarrow> nat" where
  "state_count owner revision states d =
     count_where (\<lambda>u. u_owner u = owner \<and> revision = Some (u_revision u) \<and> u_state u \<in> set states) (units d)"

definition workload_counters :: "db \<Rightarrow> workload_row \<Rightarrow> unit_counters" where
  "workload_counters d w =
     (let units_in = (\<lambda>states. state_count (w_owner w) (w_active_revision w) states d) in
      \<lparr>uc_discovered = count_where (\<lambda>s. src_owner s = w_owner w \<and> w_active_revision w = Some (src_revision s)) (sources d),
       uc_committed = units_in [U_COMMITTED], uc_failed = units_in [U_FAILED_PERMANENT, U_CANCELLED],
       uc_skipped = units_in [U_SKIPPED], uc_attention = units_in [U_NEEDS_ATTENTION],
       uc_pending = units_in [U_PENDING, U_LEASED, U_RUNNING, U_RETRY_WAIT]\<rparr>)"

definition unit_counters_many :: "string \<Rightarrow> ident list \<Rightarrow> db \<Rightarrow> ((ident \<times> unit_counters) list) result" where
  "unit_counters_many owner_user_id workload_ids d =
     bindE (require_owner owner_user_id) (\<lambda>owner.
     if length workload_ids > 200 then Inl ValueError
     else if \<not> list_all id_re workload_ids \<or> \<not> distinct workload_ids then Inl ValueError
     else if workload_ids = [] then Inr []
     else
       let rows = filter (\<lambda>w. w_owner w = owner \<and> w_id w \<in> set workload_ids) (workloads d) in
       if length rows \<noteq> length workload_ids then Inl WorkloadNotFoundError
       else Inr (map (\<lambda>w. (w_id w, workload_counters d w)) rows))"

text \<open>\<open>unit_counters\<close>; every selected row has the one identifier asked for, so the lookup finds it.\<close>

definition unit_counters_of :: "string \<Rightarrow> ident \<Rightarrow> db \<Rightarrow> unit_counters result" where
  "unit_counters_of owner_user_id workload_id d =
     bindE (unit_counters_many owner_user_id [workload_id] d) (\<lambda>counters.
     optE (map_of counters workload_id) WorkloadNotFoundError)"

section \<open>Domain errors\<close>

text \<open>
  \<open>json_each(terminal_detail_json, '$.domain_outcome.error_counts')\<close>: the details of a
  committed unit are the ones \<open>domain_terminal_detail\<close> wrote, an object of counts.
\<close>

definition unit_error_counts :: "unit_row \<Rightarrow> (string \<times> int) list" where
  "unit_error_counts u =
     (case u_terminal_detail u of
        None \<Rightarrow> []
      | Some detail \<Rightarrow> (case jpath detail [''domain_outcome'', ''error_counts''] of
          Some (JObj counts) \<Rightarrow> map (\<lambda>(code, v). (code, count_value v)) counts | _ \<Rightarrow> []))"

definition revision_error_counts :: "string \<Rightarrow> ident \<Rightarrow> db \<Rightarrow> (string \<times> int) list" where
  "revision_error_counts owner revision_id d =
     concat (map unit_error_counts
       (filter (\<lambda>u. in_revision owner revision_id u \<and> u_state u = U_COMMITTED) (units d)))"

definition category_counts :: "(string \<times> int) list \<Rightarrow> (string \<times> int) list" where
  "category_counts counts =
     map (\<lambda>code. (code, sum_list (map snd (filter (\<lambda>(c, _). c = code) counts)))) (remdups (map fst counts))"

record domain_errors_summary =
  de_nitems :: int
  de_categories :: "(string \<times> int) list"
  de_truncated :: bool

definition domain_errors :: "string \<Rightarrow> ident \<Rightarrow> db \<Rightarrow> domain_errors_summary" where
  "domain_errors owner revision_id d =
     (let categories = category_counts (revision_error_counts owner revision_id d);
          rows = order_limit (\<lambda>(code, n). (- n, code)) 20 categories
      in \<lparr>de_nitems = sum_list (map snd categories), de_categories = rows,
          de_truncated = length categories > length rows\<rparr>)"

section \<open>The nine checks\<close>

record completion_assessment =
  ca_eligible :: bool
  ca_target_state :: "workload_state option"
  ca_reasons :: "string list"
  ca_counters :: unit_counters
  ca_event_id :: "int option"
  ca_workload_version :: "int option"

definition block :: "string \<Rightarrow> string list \<Rightarrow> string list" where
  "block reason reasons = (if reason \<in> set reasons then reasons else reasons @ [reason])"

text \<open>The reasons of a list of conditions, in order and without repetition.\<close>

definition blocked :: "(bool \<times> string) list \<Rightarrow> string list \<Rightarrow> string list" where
  "blocked checks reasons = fold (\<lambda>(failed, reason) rs. if failed then block reason rs else rs) checks reasons"

definition revision_sources :: "string \<Rightarrow> ident \<Rightarrow> db \<Rightarrow> source_row list" where
  "revision_sources owner revision_id d =
     filter (\<lambda>s. src_owner s = owner \<and> src_revision s = revision_id) (sources d)"

definition source_skipped :: "string \<Rightarrow> ident \<Rightarrow> db \<Rightarrow> bool" where
  "source_skipped owner revision_id d =
     exists_where (\<lambda>s. src_state s = Src_SKIPPED) (revision_sources owner revision_id d)"

definition inventory_sealed :: "revision_row \<Rightarrow> bool" where
  "inventory_sealed r \<longleftrightarrow> r_inventory_sealed r \<and>
     (case r_inventory_digest r of None \<Rightarrow> False | Some digest \<Rightarrow> digest \<noteq> [])"

definition source_checks :: "string \<Rightarrow> ident \<Rightarrow> revision_row \<Rightarrow> db \<Rightarrow> (bool \<times> string) list" where
  "source_checks owner revision_id r d =
     (let rows = revision_sources owner revision_id d in
      [(\<not> inventory_sealed r, ''inventory_not_sealed''),
       (int (length rows) \<noteq> r_expected_source_count r, ''source_count_mismatch''),
       (exists_where (\<lambda>s. \<not> src_accounted s) rows, ''sources_unaccounted''),
       (exists_where (\<lambda>s. src_state s \<in> {Src_UNSTABLE, Src_MISSING}) rows, ''source_unstable_or_missing''),
       (source_skipped owner revision_id d \<and> \<not> r_partial_output_accepted r, ''source_skip_unaccepted'')])"

definition materialization_pending :: "string \<Rightarrow> ident \<Rightarrow> db \<Rightarrow> bool" where
  "materialization_pending owner revision_id d =
     exists_where (\<lambda>m. m_owner m = owner \<and> m_revision m = revision_id \<and>
       (\<not> m_completed m \<or> m_attention_code m \<noteq> None)) (stage_materialization d)"

definition revision_stages :: "string \<Rightarrow> ident \<Rightarrow> db \<Rightarrow> stage_row list" where
  "revision_stages owner revision_id d = filter (\<lambda>s. s_owner s = owner \<and> s_revision s = revision_id) (stages d)"

definition stage_units_missing :: "revision_row \<Rightarrow> db \<Rightarrow> stage_row \<Rightarrow> bool" where
  "stage_units_missing r d s \<longleftrightarrow> s_required s \<and> s_type s \<noteq> S_INVENTORY \<and>
     int (count_where (\<lambda>u. u_owner u = s_owner s \<and> u_revision u = s_revision s \<and> u_stage u = s_id s) (units d))
       < (if s_cardinality s = ''per_source'' then r_expected_source_count r
          else if s_cardinality s = ''singleton'' then 1 else 0)"

text \<open>\<open>unit_facts\<close>: the units of the revision joined with their stage.\<close>

definition unit_facts :: "string \<Rightarrow> ident \<Rightarrow> db \<Rightarrow> (unit_row \<times> stage_row) list" where
  "unit_facts owner revision_id d =
     concat (map (\<lambda>u. case stage_of d u of None \<Rightarrow> [] | Some s \<Rightarrow> [(u, s)])
       (filter (in_revision owner revision_id) (units d)))"

definition accepted_failure :: "revision_row \<Rightarrow> unit_row \<Rightarrow> bool" where
  "accepted_failure r u \<longleftrightarrow> u_state u = U_FAILED_PERMANENT \<and> r_failure_policy r = ''declared'' \<and>
     (case u_error_class u of None \<Rightarrow> False | Some c \<Rightarrow> c \<in> set (r_tolerated_error_classes r))"

definition result_dependency_count :: "db \<Rightarrow> unit_row \<Rightarrow> int" where
  "result_dependency_count d u =
     (case u_committed_result u of
        None \<Rightarrow> 0
      | Some result_id \<Rightarrow> int (count_where (\<lambda>x. d_owner x = u_owner u \<and> d_revision x = u_revision u \<and>
          d_child_result x = result_id) (dependencies d)))"

definition required_skip :: "string \<Rightarrow> ident \<Rightarrow> db \<Rightarrow> bool" where
  "required_skip owner revision_id d =
     exists_where (\<lambda>(u, s). u_state u = U_SKIPPED \<and> s_required s) (unit_facts owner revision_id d)"

definition partial_unit :: "string \<Rightarrow> ident \<Rightarrow> db \<Rightarrow> bool" where
  "partial_unit owner revision_id d = exists_where (\<lambda>(u, _). u_partial_output u) (unit_facts owner revision_id d)"

definition unit_checks :: "string \<Rightarrow> ident \<Rightarrow> revision_row \<Rightarrow> db \<Rightarrow> (bool \<times> string) list" where
  "unit_checks owner revision_id r d =
     (let facts = unit_facts owner revision_id d; some_unit = (\<lambda>P. exists_where (\<lambda>(u, _). P u) facts) in
      [(some_unit (\<lambda>u. \<not> terminal_unit (u_state u)), ''units_not_terminal''),
       (some_unit (\<lambda>u. u_state u = U_CANCELLED), ''cancelled_unit''),
       (required_skip owner revision_id d \<and> \<not> r_partial_output_accepted r, ''required_unit_skipped''),
       (some_unit (\<lambda>u. u_state u = U_FAILED_PERMANENT \<and> \<not> accepted_failure r u), ''untolerated_unit_failure''),
       (some_unit (\<lambda>u. u_state u = U_COMMITTED \<and> u_committed_result u = None), ''committed_unit_without_result''),
       (some_unit (\<lambda>u. u_state u = U_COMMITTED \<and> u_committed_result u \<noteq> None \<and>
          result_dependency_count d u \<noteq> u_expected_dependency_count u), ''result_dependencies_unresolved''),
       (partial_unit owner revision_id d \<and> \<not> r_partial_output_accepted r, ''partial_output_unaccepted''),
       (r_caps_truncated r \<and> \<not> r_partial_output_accepted r, ''cap_or_truncation_unaccepted'')])"

text \<open>
  A recorded dependency outside the declared graph. The comparison of reduction levels is
  SQL's: with a missing level it is neither true nor false, and the row is not counted.
\<close>

definition not_recursive :: "stage_row \<Rightarrow> stage_row \<Rightarrow> unit_row \<Rightarrow> unit_row \<Rightarrow> bool" where
  "not_recursive child_stage source_stage child_unit source_unit \<longleftrightarrow>
     s_reduction_fan_in child_stage = None \<or> s_id source_stage \<noteq> s_id child_stage \<or>
     (case (u_reduction_level child_unit, u_reduction_level source_unit) of
        (Some c, Some s) \<Rightarrow> \<not> (c > 0 \<and> s = c - 1)
      | (Some c, None) \<Rightarrow> \<not> c > 0
      | (None, _) \<Rightarrow> False)"

text \<open>A result of the revision with its unit and the unit's stage, when all three rows are there.\<close>

definition result_origin :: "db \<Rightarrow> string \<Rightarrow> ident \<Rightarrow> ident \<Rightarrow> (unit_row \<times> stage_row) option" where
  "result_origin d owner revision_id result_id =
     (case find (\<lambda>x. x_owner x = owner \<and> x_id x = result_id \<and> x_revision x = revision_id) (results d) of
        None \<Rightarrow> None
      | Some x \<Rightarrow> (case find (unit_at (x_owner x) (x_unit x)) (units d) of
          None \<Rightarrow> None
        | Some u \<Rightarrow> (case stage_of d u of None \<Rightarrow> None | Some s \<Rightarrow> Some (u, s))))"

definition undeclared_dependency :: "db \<Rightarrow> dependency_row \<Rightarrow> bool" where
  "undeclared_dependency d x =
     (case (result_origin d (d_owner x) (d_revision x) (d_child_result x),
            result_origin d (d_owner x) (d_revision x) (d_source_result x)) of
        (Some (child_unit, child_stage), Some (source_unit, source_stage)) \<Rightarrow>
          (case find (\<lambda>s. s_owner s = d_owner x \<and> s_revision s = d_revision x \<and> s_key s = d_role x) (stages d) of
             None \<Rightarrow> True
           | Some role_stage \<Rightarrow>
               \<not> exists_where (\<lambda>p. sd_owner p = d_owner x \<and> sd_revision p = d_revision x \<and>
                   sd_stage p = u_stage child_unit \<and> sd_depends_on p = s_id role_stage) (stage_dependencies d) \<or>
               s_id source_stage \<noteq> s_id role_stage \<and> not_recursive child_stage source_stage child_unit source_unit)
      | _ \<Rightarrow> False)"

definition dependency_undeclared :: "string \<Rightarrow> ident \<Rightarrow> db \<Rightarrow> bool" where
  "dependency_undeclared owner revision_id d =
     exists_where (\<lambda>x. d_owner x = owner \<and> d_revision x = revision_id \<and> undeclared_dependency d x) (dependencies d)"

text \<open>\<open>artifacts_by_name\<close>: the last artifact of a name.\<close>

definition artifact_named :: "string \<Rightarrow> ident \<Rightarrow> db \<Rightarrow> string \<Rightarrow> artifact_row option" where
  "artifact_named owner revision_id d name =
     find (\<lambda>x. art_owner x = owner \<and> art_revision x = revision_id \<and> art_logical_name x = name) (rev (artifacts d))"

definition artifact_checks :: "artifact_row option \<Rightarrow> artifact_requirement \<Rightarrow> (bool \<times> string) list" where
  "artifact_checks found q =
     (case found of
        None \<Rightarrow> [(True, ''required_artifact_missing'')]
      | Some x \<Rightarrow>
          [(art_state x \<notin> {Art_COMMITTED, Art_PUBLISHED}, ''required_artifact_not_committed''),
           (art_schema_version x \<noteq> ar_schema_version q, ''artifact_schema_version_mismatch''),
           (art_mime_type x \<noteq> ar_mime_type q, ''artifact_mime_type_mismatch''),
           (\<not> (art_digest_verified x \<and> art_schema_valid x \<and> art_postconditions_valid x),
            ''artifact_validation_incomplete'')])"

definition violation_code :: "jobj \<Rightarrow> string" where
  "violation_code v = (case jget v ''reason_code'' of Some (JStr code) \<Rightarrow> code | _ \<Rightarrow> [])"

definition completion_checks ::
  "string \<Rightarrow> ident \<Rightarrow> ident \<Rightarrow> revision_row \<Rightarrow> instant \<Rightarrow> db \<Rightarrow> (bool \<times> string) list" where
  "completion_checks owner workload_id revision_id r current d =
     source_checks owner revision_id r d @
     [(materialization_pending owner revision_id d, ''materialization_incomplete''),
      (exists_where (stage_units_missing r d) (revision_stages owner revision_id d), ''required_units_missing'')] @
     unit_checks owner revision_id r d @
     [(dependency_undeclared owner revision_id d, ''result_dependency_not_declared'')] @
     concat (map (\<lambda>q. artifact_checks (artifact_named owner revision_id d (ar_name q)) q) (r_required_artifacts r)) @
     [(\<not> r_usage_complete r, ''usage_not_materialized'')] @
     (case budget_violation_in_transaction owner workload_id revision_id current d of
        None \<Rightarrow> [] | Some v \<Rightarrow> [(True, violation_code v)])"

section \<open>The verdict\<close>

definition accepted_failures :: "string \<Rightarrow> ident \<Rightarrow> revision_row \<Rightarrow> db \<Rightarrow> nat" where
  "accepted_failures owner revision_id r d =
     count_where (\<lambda>(u, _). accepted_failure r u) (unit_facts owner revision_id d)"

definition accepted_partial :: "string \<Rightarrow> ident \<Rightarrow> revision_row \<Rightarrow> db \<Rightarrow> bool" where
  "accepted_partial owner revision_id r d \<longleftrightarrow> r_partial_output_accepted r \<and>
     (required_skip owner revision_id d \<or> partial_unit owner revision_id d \<or> r_caps_truncated r)"

definition has_errors :: "string \<Rightarrow> ident \<Rightarrow> revision_row \<Rightarrow> unit_counters \<Rightarrow> db \<Rightarrow> bool" where
  "has_errors owner revision_id r counters d \<longleftrightarrow>
     accepted_failures owner revision_id r d \<noteq> 0 \<or> accepted_partial owner revision_id r d \<or>
     (source_skipped owner revision_id d \<and> r_partial_output_accepted r) \<or> uc_skipped counters \<noteq> 0 \<or>
     de_nitems (domain_errors owner revision_id d) \<noteq> 0"

definition blocked_assessment :: "string list \<Rightarrow> unit_counters \<Rightarrow> workload_row \<Rightarrow> completion_assessment" where
  "blocked_assessment reasons counters w =
     \<lparr>ca_eligible = False, ca_target_state = None, ca_reasons = reasons, ca_counters = counters,
      ca_event_id = None, ca_workload_version = Some (w_version w)\<rparr>"

definition completion_payload ::
  "ident \<Rightarrow> workload_state \<Rightarrow> unit_counters \<Rightarrow> nat \<Rightarrow> bool \<Rightarrow> jobj" where
  "completion_payload revision_id target c failures partial =
     [(''revision_id'', JStr revision_id), (''target_state'', JStr (workload_state_value target)),
      (''coverage'', JObj [(''discovered'', JInt (int (uc_discovered c))), (''committed'', JInt (int (uc_committed c))),
         (''failed'', JInt (int (uc_failed c))), (''skipped'', JInt (int (uc_skipped c))),
         (''attention'', JInt (int (uc_attention c))), (''pending'', JInt (int (uc_pending c)))]),
      (''accepted_failures'', JInt (int failures)), (''partial_accepted'', JBool partial)]"

text \<open>
  The trigger \<open>workloads_terminal_event_guard\<close>: a workload may enter a completed state only
  when an event of that name has its row in the owner's outbox channel.
\<close>

definition terminal_event_guard :: "string \<Rightarrow> ident \<Rightarrow> event_type \<Rightarrow> db \<Rightarrow> bool" where
  "terminal_event_guard owner workload_id type d =
     exists_where (\<lambda>e. e_owner e = owner \<and> e_workload e = workload_id \<and> e_type e = type \<and>
       exists_where (\<lambda>b. o_owner b = owner \<and> o_workload b = workload_id \<and> o_event b = e_id e \<and>
         o_channel b = ''owner_event'') (outbox d)) (events d)"

definition completed_row :: "workload_state \<Rightarrow> bool \<Rightarrow> instant \<Rightarrow> workload_row \<Rightarrow> workload_row" where
  "completed_row target errors t w =
     w\<lparr>w_state := target, w_version := w_version w + 1, w_updated_at := t,
       w_terminal_reason := Some [(''completion'', JStr ''verified''), (''with_errors'', JBool errors)]\<rparr>"

definition completion_target :: "bool \<Rightarrow> workload_state" where
  "completion_target errors = (if errors then W_COMPLETED_WITH_ERRORS else W_COMPLETED)"

definition completion_event :: "bool \<Rightarrow> event_type" where
  "completion_event errors = (if errors then Ev_COMPLETED_WITH_ERRORS else Ev_COMPLETED)"

definition completing :: "string \<Rightarrow> ident \<Rightarrow> int \<Rightarrow> workload_row \<Rightarrow> bool" where
  "completing owner workload_id version v \<longleftrightarrow>
     workload_at owner workload_id v \<and> w_state v = W_RUNNING \<and> w_version v = version"

definition complete_workload ::
  "string \<Rightarrow> ident \<Rightarrow> ident \<Rightarrow> revision_row \<Rightarrow> unit_counters \<Rightarrow> workload_row \<Rightarrow> instant \<Rightarrow> db
     \<Rightarrow> (completion_assessment \<times> db) result" where
  "complete_workload owner workload_id revision_id r counters w current d =
     (let errors = has_errors owner revision_id r counters d; target = completion_target errors in
      bindE (append_event_in_transaction owner workload_id (completion_event errors)
               (completion_payload revision_id target counters (accepted_failures owner revision_id r d)
                  (accepted_partial owner revision_id r d)) d) (\<lambda>(event, d1).
      bindE (enqueue_notification_in_transaction owner workload_id (e_id event) d1) (\<lambda>d2.
      if count_where (completing owner workload_id (w_version w)) (workloads d2) \<noteq> 1 then Inl VersionConflictError
      else if \<not> terminal_event_guard owner workload_id (completion_event errors) d2 then Inl IntegrityError
      else Inr (\<lparr>ca_eligible = True, ca_target_state = Some target, ca_reasons = [], ca_counters = counters,
                 ca_event_id = Some (e_id event), ca_workload_version = Some (w_version w + 1)\<rparr>,
             d2\<lparr>workloads := update_where (completing owner workload_id (w_version w))
                  (completed_row target errors current) (workloads d2),
                scheduler_credits := filter (\<lambda>c. \<not> (c_owner c = owner \<and> c_workload c = workload_id))
                  (scheduler_credits d2)\<rparr>))))"

definition evaluate_completion ::
  "string \<Rightarrow> ident \<Rightarrow> instant option \<Rightarrow> db \<Rightarrow> (completion_assessment \<times> db) result" where
  "evaluate_completion owner_user_id workload_id now d =
     bindE (require_owner owner_user_id) (\<lambda>owner.
     let current = operation_now d now in
     bindE (select_workload d owner workload_id) (\<lambda>w.
     bindE (unit_counters_of owner workload_id d) (\<lambda>counters.
     if w_state w \<in> {W_COMPLETED, W_COMPLETED_WITH_ERRORS}
     then Inr (\<lparr>ca_eligible = True, ca_target_state = Some (w_state w), ca_reasons = [], ca_counters = counters,
                ca_event_id = None, ca_workload_version = Some (w_version w)\<rparr>, d)
     else
       let started = blocked [(w_state w \<noteq> W_RUNNING, ''workload_not_running'')] [] in
       case w_active_revision w of
         None \<Rightarrow> Inr (blocked_assessment (block ''inventory_not_sealed'' started) counters w, d)
       | Some revision_id \<Rightarrow>
           (case revision_of owner workload_id revision_id d of
              None \<Rightarrow> Inr (blocked_assessment (block ''inventory_not_sealed'' started) counters w, d)
            | Some r \<Rightarrow>
                let reasons = blocked (completion_checks owner workload_id revision_id r current d) started in
                if reasons \<noteq> [] then Inr (blocked_assessment reasons counters w, d)
                else complete_workload owner workload_id revision_id r counters w current d))))"

section \<open>Completion of ready workloads\<close>

definition materialization_complete :: "string \<Rightarrow> ident \<Rightarrow> db \<Rightarrow> bool result" where
  "materialization_complete owner_user_id workload_id d =
     bindE (require_owner owner_user_id) (\<lambda>owner.
     bindE (select_workload d owner workload_id) (\<lambda>w.
     case w_active_revision w of
       None \<Rightarrow> Inr False
     | Some revision_id \<Rightarrow> Inr (\<not> materialization_pending owner revision_id d)))"

definition artifact_ready :: "string \<Rightarrow> ident \<Rightarrow> db \<Rightarrow> artifact_requirement \<Rightarrow> bool" where
  "artifact_ready owner revision_id d q =
     exists_where (\<lambda>x. art_owner x = owner \<and> art_revision x = revision_id \<and> art_logical_name x = ar_name q \<and>
       art_mime_type x = ar_mime_type q \<and> art_schema_version x = ar_schema_version q \<and>
       art_state x \<in> {Art_COMMITTED, Art_PUBLISHED} \<and> art_digest_verified x \<and> art_schema_valid x \<and>
       art_postconditions_valid x) (artifacts d)"

definition completion_candidate :: "db \<Rightarrow> workload_row \<Rightarrow> bool" where
  "completion_candidate d w \<longleftrightarrow> w_state w = W_RUNNING \<and>
     (case w_active_revision w of
        None \<Rightarrow> False
      | Some rid \<Rightarrow> exists_where (\<lambda>r. revision_at (w_owner w) rid r \<and>
          \<not> materialization_pending (w_owner w) rid d \<and>
          \<not> exists_where (\<lambda>u. in_revision (w_owner w) rid u \<and> \<not> terminal_unit (u_state u)) (units d) \<and>
          list_all (artifact_ready (w_owner w) rid d) (r_required_artifacts r)) (revisions d))"

text \<open>
  Each workload is refreshed and evaluated in transactions of its own: what was done before a
  failure stays.
\<close>

fun complete_rows :: "workload_row list \<Rightarrow> int \<Rightarrow> db \<Rightarrow> int result \<times> db" where
  "complete_rows [] completed d = (Inr completed, d)"
| "complete_rows (row # rows) completed d =
     (case refresh_usage_complete (w_owner row) (w_id row) d of
        Inl e \<Rightarrow> (Inl e, d)
      | Inr (_, d1) \<Rightarrow>
          (case evaluate_completion (w_owner row) (w_id row) None d1 of
             Inl e \<Rightarrow> (Inl e, d1)
           | Inr (assessment, d2) \<Rightarrow>
               complete_rows rows (if ca_eligible assessment then completed + 1 else completed) d2))"

definition complete_ready_workloads :: "int \<Rightarrow> db \<Rightarrow> int result \<times> db" where
  "complete_ready_workloads limit d =
     (case require_limit limit 1000 of
        Inl e \<Rightarrow> (Inl e, d)
      | Inr _ \<Rightarrow>
          complete_rows (order_limit (\<lambda>w. (w_updated_at w, w_owner w, w_id w)) (nat limit)
            (filter (completion_candidate d) (workloads d))) 0 d)"

section \<open>Transactions\<close>

lemma complete_workload_effect:
  assumes "complete_workload owner wid rid r counters w t d = Inr (ca, d')"
    and "errors = has_errors owner rid r counters d"
  obtains e d1 d2 payload where "append_event_in_transaction owner wid (completion_event errors) payload d = Inr (e, d1)"
    and "enqueue_notification_in_transaction owner wid (e_id e) d1 = Inr d2"
    and "count_where (completing owner wid (w_version w)) (workloads d2) = 1"
    and "terminal_event_guard owner wid (completion_event errors) d2"
    and "d' = d2\<lparr>workloads := update_where (completing owner wid (w_version w))
             (completed_row (completion_target errors) errors t) (workloads d2),
           scheduler_credits := filter (\<lambda>c. \<not> (c_owner c = owner \<and> c_workload c = wid)) (scheduler_credits d2)\<rparr>"
    and "ca = \<lparr>ca_eligible = True, ca_target_state = Some (completion_target errors), ca_reasons = [], ca_counters = counters,
           ca_event_id = Some (e_id e), ca_workload_version = Some (w_version w + 1)\<rparr>"
  using assms(1) unfolding assms(2) complete_workload_def Let_def tx_simps
  by (elim exE conjE) (auto simp: tx_simps split: if_split_asm)

lemma complete_workload_txn:
  assumes "complete_workload owner wid rid r counters w t d = Inr (ca, d')"
  shows "txn d d'"
proof (rule complete_workload_effect [OF assms refl])
  let ?errors = "has_errors owner rid r counters d" and ?here = "completing owner wid (w_version w)"
  fix e d1 d2 payload
  assume 1: "append_event_in_transaction owner wid (completion_event ?errors) payload d = Inr (e, d1)"
    and 2: "enqueue_notification_in_transaction owner wid (e_id e) d1 = Inr d2"
    and d': "d' = d2\<lparr>workloads := update_where ?here
             (completed_row (completion_target ?errors) ?errors t) (workloads d2),
           scheduler_credits := filter (\<lambda>c. \<not> (c_owner c = owner \<and> c_workload c = wid)) (scheduler_credits d2)\<rparr>"
  have "txn d2 (d2\<lparr>workloads := update_where ?here (completed_row (completion_target ?errors) ?errors t) (workloads d2)\<rparr>)"
    by (intro txn_workloads)
      (auto simp: completed_row_def completing_def completion_target_def workload_evolves_def workload_edge_def)
  with append_event_txn [OF 1] enqueue_notification_txn [OF 2] show ?thesis
    unfolding d' by (blast intro: txn_trans txn_untracked(1))
qed

lemma evaluate_completion_txn: "evaluate_completion owner wid now d = Inr (ca, d') \<Longrightarrow> txn d d'"
  unfolding evaluate_completion_def Let_def tx_simps
  by (elim exE conjE) (auto simp: tx_simps Let_def split: if_split_asm option.split_asm dest: complete_workload_txn)

lemma complete_rows_txn: "complete_rows rows n d = (r, d') \<Longrightarrow> txn d d'"
proof (induction rows arbitrary: n d)
  case (Cons row rows)
  then show ?case
    by (auto split: sum.split_asm prod.split_asm
        dest!: refresh_usage_complete_txn evaluate_completion_txn intro: txn_trans)
qed simp

lemma complete_ready_workloads_txn: "complete_ready_workloads limit d = (r, d') \<Longrightarrow> txn d d'"
  by (auto simp: complete_ready_workloads_def split: sum.split_asm dest: complete_rows_txn)

section \<open>What completion guarantees\<close>

lemma block_not_Nil [simp]: "block reason rs \<noteq> []"
  by (auto simp: block_def)

definition passed :: "(bool \<times> string) list \<Rightarrow> bool" where
  "passed checks \<longleftrightarrow> list_all (\<lambda>c. \<not> fst c) checks"

lemma passed_simps [simp]:
  "passed []" "passed (c # cs) \<longleftrightarrow> \<not> fst c \<and> passed cs" "passed (cs @ cs') \<longleftrightarrow> passed cs \<and> passed cs'"
  "passed (concat css) \<longleftrightarrow> (\<forall>cs \<in> set css. passed cs)"
  by (auto simp: passed_def list_all_iff)

lemma blocked_Nil_iff: "blocked checks rs = [] \<longleftrightarrow> rs = [] \<and> passed checks"
proof (induction checks arbitrary: rs)
  case (Cons c checks)
  have "blocked (c # checks) rs = blocked checks (if fst c then block (snd c) rs else rs)"
    by (simp add: blocked_def split_beta)
  then show ?case using Cons.IH by simp
qed (simp add: blocked_def)

lemma evaluate_completion_cases:
  assumes run: "evaluate_completion owner wid now d = Inr (ca, d')" and sel: "select_workload d owner wid = Inr w"
    and open_state: "w_state w \<notin> {W_COMPLETED, W_COMPLETED_WITH_ERRORS}"
  obtains (blocked) "\<not> ca_eligible ca" and "ca_reasons ca \<noteq> []" and "d' = d"
  | (complete) rid r counters where "w_state w = W_RUNNING" and "w_active_revision w = Some rid"
      and "revision_of owner wid rid d = Some r" and "unit_counters_of owner wid d = Inr counters"
      and "passed (completion_checks owner wid rid r (operation_now d now) d)"
      and "complete_workload owner wid rid r counters w (operation_now d now) d = Inr (ca, d')"
proof -
  obtain counters where counters: "unit_counters_of owner wid d = Inr counters"
    and verdict: "(let started = blocked [(w_state w \<noteq> W_RUNNING, ''workload_not_running'')] [] in
       case w_active_revision w of
         None \<Rightarrow> Inr (blocked_assessment (block ''inventory_not_sealed'' started) counters w, d)
       | Some revision_id \<Rightarrow>
           (case revision_of owner wid revision_id d of
              None \<Rightarrow> Inr (blocked_assessment (block ''inventory_not_sealed'' started) counters w, d)
            | Some r \<Rightarrow>
                let reasons = blocked (completion_checks owner wid revision_id r (operation_now d now) d) started in
                if reasons \<noteq> [] then Inr (blocked_assessment reasons counters w, d)
                else complete_workload owner wid revision_id r counters w (operation_now d now) d)) = Inr (ca, d')"
    using run sel open_state by (auto simp: evaluate_completion_def require_owner_def Let_def tx_simps split: if_split_asm)
  show ?thesis
  proof (cases "\<exists>rid r. w_active_revision w = Some rid \<and> revision_of owner wid rid d = Some r \<and> w_state w = W_RUNNING \<and>
      (passed (completion_checks owner wid rid r (operation_now d now) d))")
    case True
    with verdict counters that(2) show ?thesis by (auto simp: Let_def blocked_Nil_iff)
  next
    case False
    with verdict have "\<not> ca_eligible ca \<and> ca_reasons ca \<noteq> [] \<and> d' = d"
      by (auto simp: Let_def blocked_Nil_iff blocked_assessment_def split: option.split_asm if_split_asm)
    then show ?thesis using that(1) by blast
  qed
qed

text \<open>A unit that no longer counts against completion, and every condition of the code.\<close>

definition unit_accounted :: "revision_row \<Rightarrow> db \<Rightarrow> unit_row \<Rightarrow> stage_row \<Rightarrow> bool" where
  "unit_accounted r d u s \<longleftrightarrow>
     (u_state u = U_COMMITTED \<and> u_committed_result u \<noteq> None \<and>
        result_dependency_count d u = u_expected_dependency_count u \<or>
      u_state u = U_SKIPPED \<and> (s_required s \<longrightarrow> r_partial_output_accepted r) \<or> accepted_failure r u) \<and>
     (u_partial_output u \<longrightarrow> r_partial_output_accepted r)"

definition completion_facts :: "string \<Rightarrow> ident \<Rightarrow> ident \<Rightarrow> revision_row \<Rightarrow> instant \<Rightarrow> db \<Rightarrow> bool" where
  "completion_facts owner wid rid r t d \<longleftrightarrow>
     inventory_sealed r \<and> int (length (revision_sources owner rid d)) = r_expected_source_count r \<and>
     (\<forall>s \<in> set (revision_sources owner rid d). src_accounted s \<and>
        (src_state s = Src_READY \<or> src_state s = Src_SKIPPED \<and> r_partial_output_accepted r)) \<and>
     \<not> materialization_pending owner rid d \<and>
     (\<forall>s \<in> set (revision_stages owner rid d). \<not> stage_units_missing r d s) \<and>
     (\<forall>(u, s) \<in> set (unit_facts owner rid d). unit_accounted r d u s) \<and>
     (r_caps_truncated r \<longrightarrow> r_partial_output_accepted r) \<and> \<not> dependency_undeclared owner rid d \<and>
     (\<forall>q \<in> set (r_required_artifacts r). artifact_ready owner rid d q) \<and>
     r_usage_complete r \<and> budget_violation_in_transaction owner wid rid t d = None"

lemma artifact_checks_ready:
  assumes "passed (artifact_checks (artifact_named owner rid d (ar_name q)) q)"
  shows "artifact_ready owner rid d q"
proof -
  obtain x where found: "artifact_named owner rid d (ar_name q) = Some x"
    using assms by (cases "artifact_named owner rid d (ar_name q)") (auto simp: artifact_checks_def)
  have "x \<in> set (artifacts d)" "art_owner x = owner" "art_revision x = rid" "art_logical_name x = ar_name q"
    using find_SomeD [OF found [unfolded artifact_named_def]] by auto
  with assms show ?thesis by (auto simp: found artifact_checks_def artifact_ready_def)
qed

lemma completion_checks_facts:
  assumes "passed (completion_checks owner wid rid r t d)"
  shows "completion_facts owner wid rid r t d"
proof -
  have parts: "passed (source_checks owner rid r d)" "passed (unit_checks owner rid r d)"
    "\<not> materialization_pending owner rid d" "\<not> dependency_undeclared owner rid d" "r_usage_complete r"
    "\<forall>s \<in> set (revision_stages owner rid d). \<not> stage_units_missing r d s"
    "\<And>q. q \<in> set (r_required_artifacts r) \<Longrightarrow>
       passed (artifact_checks (artifact_named owner rid d (ar_name q)) q)"
    using assms unfolding completion_checks_def by auto
  have budget: "budget_violation_in_transaction owner wid rid t d = None"
    using assms unfolding completion_checks_def
    by (cases "budget_violation_in_transaction owner wid rid t d") auto
  have src: "src_accounted s \<and> (src_state s = Src_READY \<or> src_state s = Src_SKIPPED \<and> r_partial_output_accepted r)"
    if "s \<in> set (revision_sources owner rid d)" for s
    using parts(1) that by (cases "src_state s") (auto simp: source_checks_def Let_def source_skipped_def)
  have inv: "inventory_sealed r" "int (length (revision_sources owner rid d)) = r_expected_source_count r"
    using parts(1) by (simp_all add: source_checks_def Let_def)
  have unit: "unit_accounted r d u s"
    if "(u, s) \<in> set (unit_facts owner rid d)" for u s
    using parts(2) that
    by (cases "u_state u") (fastforce simp: unit_checks_def Let_def required_skip_def partial_unit_def
        unit_accounted_def TERMINAL_UNIT_STATES_def)+
  have caps: "r_caps_truncated r \<longrightarrow> r_partial_output_accepted r"
    using parts(2) by (simp add: unit_checks_def Let_def)
  show ?thesis
    unfolding completion_facts_def
    by (intro conjI ballI) (use parts budget artifact_checks_ready inv caps src unit in \<open>auto split: prod.split\<close>)
qed

lemma complete_workload_stored:
  assumes run: "complete_workload owner wid rid r counters w t d = Inr (ca, d')" and ok: "store_ok d"
    and sel: "select_workload d owner wid = Inr w" and running: "w_state w = W_RUNNING"
    and errors: "errors = has_errors owner rid r counters d"
  shows "ca_eligible ca" and "ca_target_state ca = Some (completion_target errors)"
    and "\<exists>v. select_workload d' owner wid = Inr v \<and> w_state v = completion_target errors \<and> w_version v = w_version w + 1"
    and "terminal_event_guard owner wid (completion_event errors) d'"
    and "units d' = units d" and "results d' = results d"
proof -
  obtain e d1 d2 payload where 1: "append_event_in_transaction owner wid (completion_event errors) payload d = Inr (e, d1)"
    and 2: "enqueue_notification_in_transaction owner wid (e_id e) d1 = Inr d2"
    and guard: "terminal_event_guard owner wid (completion_event errors) d2"
    and d': "d' = d2\<lparr>workloads := update_where (completing owner wid (w_version w))
             (completed_row (completion_target errors) errors t) (workloads d2),
           scheduler_credits := filter (\<lambda>c. \<not> (c_owner c = owner \<and> c_workload c = wid)) (scheduler_credits d2)\<rparr>"
    and ca: "ca = \<lparr>ca_eligible = True, ca_target_state = Some (completion_target errors), ca_reasons = [], ca_counters = counters,
           ca_event_id = Some (e_id e), ca_workload_version = Some (w_version w + 1)\<rparr>"
    by (rule complete_workload_effect [OF run errors])
  have dist: "distinct (map workload_pk (workloads d))" using ok by (simp add: store_ok_def keys_ok_def)
  have found: "find (workload_at owner wid) (workloads d) = Some w"
    using sel by (simp add: select_workload_def tx_simps)
  note ev = append_event_frame [OF 1 dist found]
    and nt = notify_frame [of True, simplified, OF 2]
  let ?v = "w\<lparr>w_next_event_id := w_next_event_id w + 1\<rparr>"
  have found2: "find (workload_at owner wid) (workloads d2) = Some ?v"
    unfolding conjunct1 [OF nt] ev(7) using found by (intro find_workload_update) auto
  have ok2: "store_ok d2"
    using txn_keeps [OF enqueue_notification_txn [OF 2] txn_keeps [OF append_event_txn [OF 1] ok]] .
  have "v \<in> set (workloads d2) \<Longrightarrow> completing owner wid (w_version w) v \<longleftrightarrow> v = ?v" for v
    using find_SomeD [OF found2] running ok2 workload_pk_unique [of "workloads d2" ?v v]
    by (auto simp: completing_def store_ok_def keys_ok_def)
  then have "find (workload_at owner wid) (workloads d') = Some (completed_row (completion_target errors) errors t ?v)"
    unfolding d' using found2 by (simp add: find_workload_update completed_row_def)
  then show "\<exists>v. select_workload d' owner wid = Inr v \<and> w_state v = completion_target errors \<and> w_version v = w_version w + 1"
    by (simp add: select_workload_def completed_row_def)
  show "ca_eligible ca" "ca_target_state ca = Some (completion_target errors)"
    "terminal_event_guard owner wid (completion_event errors) d'" "units d' = units d" "results d' = results d"
    using ca guard nt ev by (simp_all add: d' terminal_event_guard_def)
qed

text \<open>
  C15. A workload is completed only when every completion check of the code holds on the
  store: a sealed inventory with exactly the expected, accounted and available sources, no
  pending materialization, every required stage with its units, every unit committed with
  all its declared dependencies, accepted as skipped, or failed with a tolerated error, every
  required artifact validated, and usage accounted and within budget. It then moves from
  running to completed, or to completed with errors exactly when something was accepted, with
  one more version, and with its terminal event and the owner's delivery row already stored.
  When a check fails, the reasons are reported and nothing changes.
\<close>

theorem completion_sound:
  assumes run: "evaluate_completion owner wid now d = Inr (ca, d')" and ok: "store_ok d"
    and sel: "select_workload d owner wid = Inr w"
    and open_state: "w_state w \<notin> {W_COMPLETED, W_COMPLETED_WITH_ERRORS}"
  shows "if ca_eligible ca then
      \<exists>rid r counters v. w_state w = W_RUNNING \<and> w_active_revision w = Some rid \<and> revision_of owner wid rid d = Some r \<and>
        completion_facts owner wid rid r (operation_now d now) d \<and> unit_counters_of owner wid d = Inr counters \<and>
        select_workload d' owner wid = Inr v \<and> w_version v = w_version w + 1 \<and> ca_target_state ca = Some (w_state v) \<and>
        w_state v = (if has_errors owner rid r counters d then W_COMPLETED_WITH_ERRORS else W_COMPLETED) \<and>
        terminal_event_guard owner wid
          (if has_errors owner rid r counters d then Ev_COMPLETED_WITH_ERRORS else Ev_COMPLETED) d' \<and>
        units d' = units d \<and> results d' = results d
    else ca_reasons ca \<noteq> [] \<and> d' = d"
  using run sel open_state
proof (cases rule: evaluate_completion_cases)
  case blocked
  then show ?thesis by simp
next
  case (complete rid r counters)
  note stored = complete_workload_stored [OF complete(6) ok sel complete(1) refl]
  show ?thesis
    using complete completion_checks_facts [OF complete(5)] stored
    by (auto simp: completion_target_def completion_event_def)
qed

definition example_done_store :: db where
  "example_done_store = (example_store W_RUNNING)
     \<lparr>revisions := [example_revision\<lparr>r_inventory_digest := Some ''digest'', r_partial_output_accepted := True\<rparr>],
      units := [(example_unit ''unt_00000001'')\<lparr>u_state := U_SKIPPED\<rparr>]\<rparr>"

lemma example_done:
  obtains ca d' w where "store_ok example_done_store"
    and "evaluate_completion ''owner'' ''wkl_00000001'' (Some 3000) example_done_store = Inr (ca, d')"
    and "ca_eligible ca" and "map w_state (workloads d') = [W_COMPLETED_WITH_ERRORS]"
    and "select_workload example_done_store ''owner'' ''wkl_00000001'' = Inr w" and "w_state w = W_RUNNING"
proof -
  have ok: "store_ok example_done_store" by code_simp
  have "succeeds_with (evaluate_completion ''owner'' ''wkl_00000001'' (Some 3000) example_done_store)
      (\<lambda>(ca, d'). ca_eligible ca \<and> map w_state (workloads d') = [W_COMPLETED_WITH_ERRORS])"
    by code_simp
  then obtain ca d' where run: "evaluate_completion ''owner'' ''wkl_00000001'' (Some 3000) example_done_store = Inr (ca, d')"
    "ca_eligible ca" and seen: "map w_state (workloads d') = [W_COMPLETED_WITH_ERRORS]"
    by (auto elim!: succeeds_withE)
  have "succeeds_with (select_workload example_done_store ''owner'' ''wkl_00000001'') (\<lambda>w. w_state w = W_RUNNING)"
    by code_simp
  then obtain w where w: "select_workload example_done_store ''owner'' ''wkl_00000001'' = Inr w" "w_state w = W_RUNNING"
    by (auto elim!: succeeds_withE)
  show ?thesis by (rule that [OF ok run seen w])
qed

theorem completion_sound_witness:
  "\<exists>ca d'. evaluate_completion ''owner'' ''wkl_00000001'' (Some 3000) example_done_store = Inr (ca, d') \<and>
     ca_eligible ca \<and> units d' = units example_done_store \<and> map w_state (workloads d') = [W_COMPLETED_WITH_ERRORS]"
proof -
  obtain ca d' w where ok: "store_ok example_done_store"
    and run: "evaluate_completion ''owner'' ''wkl_00000001'' (Some 3000) example_done_store = Inr (ca, d')"
    and el: "ca_eligible ca" and seen: "map w_state (workloads d') = [W_COMPLETED_WITH_ERRORS]"
    and w: "select_workload example_done_store ''owner'' ''wkl_00000001'' = Inr w" "w_state w = W_RUNNING"
    by (rule example_done)
  have "w_state w \<notin> {W_COMPLETED, W_COMPLETED_WITH_ERRORS}" using w(2) by simp
  from completion_sound [OF run ok w(1) this] el have "units d' = units example_done_store" by auto
  with run el seen show ?thesis by (intro exI conjI)
qed

text \<open>
  The query behind the periodic completion misses nothing: every workload that an
  evaluation would complete satisfies its cheaper condition, provided every unit has the
  stage its foreign key names.
\<close>

theorem completion_query_complete:
  assumes run: "evaluate_completion owner wid now d = Inr (ca, d')" and el: "ca_eligible ca"
    and sel: "select_workload d owner wid = Inr w"
    and open_state: "w_state w \<notin> {W_COMPLETED, W_COMPLETED_WITH_ERRORS}"
    and keys: "\<forall>u \<in> set (units d). stage_of d u \<noteq> None"
  shows "completion_candidate d w"
  using run sel open_state
proof (cases rule: evaluate_completion_cases)
  case blocked
  with el show ?thesis by simp
next
  case (complete rid r counters)
  have facts: "completion_facts owner wid rid r (operation_now d now) d"
    by (rule completion_checks_facts [OF complete(5)])
  have w: "w_owner w = owner" and r: "r \<in> set (revisions d)" "revision_at owner rid r"
    using select_workload_Inr [OF sel] complete(3) by (auto simp: revision_of_def dest!: find_SomeD)
  have "terminal_unit (u_state u)" if u: "u \<in> set (units d)" "in_revision owner rid u" for u
  proof -
    obtain s where "stage_of d u = Some s" using keys u(1) by auto
    with u have "(u, s) \<in> set (unit_facts owner rid d)" by (auto simp: unit_facts_def intro!: bexI [of _ u])
    then show ?thesis
      using facts by (auto simp: completion_facts_def unit_accounted_def accepted_failure_def TERMINAL_UNIT_STATES_def)
  qed
  then show ?thesis
    using complete(1,2) r facts by (auto simp: completion_candidate_def completion_facts_def w list_all_iff)
qed

theorem completion_query_complete_witness:
  "\<exists>w. select_workload example_done_store ''owner'' ''wkl_00000001'' = Inr w \<and> completion_candidate example_done_store w"
proof -
  obtain ca d' w where run: "evaluate_completion ''owner'' ''wkl_00000001'' (Some 3000) example_done_store = Inr (ca, d')"
    and el: "ca_eligible ca"
    and w: "select_workload example_done_store ''owner'' ''wkl_00000001'' = Inr w" "w_state w = W_RUNNING"
    by (rule example_done)
  have "w_state w \<notin> {W_COMPLETED, W_COMPLETED_WITH_ERRORS}" using w(2) by simp
  moreover have "\<forall>u \<in> set (units example_done_store). stage_of example_done_store u \<noteq> None" by code_simp
  ultimately show ?thesis using completion_query_complete [OF run el w(1)] w(1) by blast
qed

end
