(* ===== verification/Plan.thy ===== *)
theory Plan
  imports Store_State
begin

text \<open>
  The plan contract of \<open>durable_workloads/schema.py\<close>: the checks of \<open>validate_plan\<close> on an
  arbitrary JSON value, in the order of the code. A validated plan is returned as a record of
  the fields the store reads afterwards, next to the object itself. A Python dictionary is a
  list of members with distinct keys. Every refusal is \<open>SchemaValidationError\<close>, except that
  looking an array or an object up in a set raises \<open>TypeError\<close>.
\<close>

section \<open>Checks on one value\<close>

text \<open>\<open>d[k]\<close> after the key was required, and \<open>d.get(k)\<close>.\<close>

definition field :: "jobj \<Rightarrow> string \<Rightarrow> jval" where
  "field obj k = (case jget obj k of None \<Rightarrow> JNull | Some v \<Rightarrow> v)"

definition has_field :: "jobj \<Rightarrow> string \<Rightarrow> bool" where
  "has_field obj k \<longleftrightarrow> jget obj k \<noteq> None"

text \<open>The text of a value that is a Python string.\<close>

definition jtext :: "jval \<Rightarrow> string option" where
  "jtext v = (case v of JStr s \<Rightarrow> Some s | JInstant t \<Rightarrow> Some (instant_text t) | _ \<Rightarrow> None)"

definition schema_check :: "bool \<Rightarrow> unit result" where
  "schema_check ok = (if ok then Inr () else Inl SchemaValidationError)"

text \<open>\<open>v in {...}\<close> on a set of strings: arrays and objects are not hashable.\<close>

definition text_in :: "jval \<Rightarrow> string list \<Rightarrow> bool result" where
  "text_in v options =
     (case v of
        JArr _ \<Rightarrow> Inl TypeError
      | JObj _ \<Rightarrow> Inl TypeError
      | _ \<Rightarrow> Inr (case jtext v of None \<Rightarrow> False | Some s \<Rightarrow> s \<in> set options))"

definition json_object :: "string list \<Rightarrow> string list \<Rightarrow> jval \<Rightarrow> jobj result" where
  "json_object required allowed value =
     (case value of
        JObj obj \<Rightarrow>
          if list_all (has_field obj) required \<and> list_all (\<lambda>(k, _). k \<in> set allowed) obj
          then Inr obj else Inl SchemaValidationError
      | _ \<Rightarrow> Inl SchemaValidationError)"

definition json_integer :: "int \<Rightarrow> int option \<Rightarrow> jval \<Rightarrow> int result" where
  "json_integer minimum maximum value =
     (case value of
        JInt i \<Rightarrow> if i < minimum \<or> (case maximum of None \<Rightarrow> False | Some m \<Rightarrow> i > m)
                  then Inl SchemaValidationError else Inr i
      | _ \<Rightarrow> Inl SchemaValidationError)"

definition json_string :: "int \<Rightarrow> int \<Rightarrow> jval \<Rightarrow> string result" where
  "json_string minimum maximum value =
     (case jtext value of
        None \<Rightarrow> Inl SchemaValidationError
      | Some s \<Rightarrow> if minimum \<le> int (length s) \<and> int (length s) \<le> maximum then Inr s else Inl SchemaValidationError)"

definition json_boolean :: "jval \<Rightarrow> bool result" where
  "json_boolean value = (case value of JBool b \<Rightarrow> Inr b | _ \<Rightarrow> Inl SchemaValidationError)"

definition json_array :: "jval \<Rightarrow> jval list result" where
  "json_array value = (case value of JArr vs \<Rightarrow> Inr vs | _ \<Rightarrow> Inl SchemaValidationError)"

text \<open>A comprehension whose body may raise.\<close>

fun mapE :: "('a \<Rightarrow> 'b result) \<Rightarrow> 'a list \<Rightarrow> 'b list result" where
  "mapE f [] = Inr []"
| "mapE f (x # xs) = bindE (f x) (\<lambda>y. bindE (mapE f xs) (\<lambda>ys. Inr (y # ys)))"

section \<open>The regular expressions\<close>

definition key_re :: "string \<Rightarrow> bool" where
  "key_re = matches_class is_lower closed_char 0 63"

definition plan_id_re :: "string \<Rightarrow> bool" where
  "plan_id_re = matches_class is_lower closed_char 2 63"

definition input_name_re :: "string \<Rightarrow> bool" where
  "input_name_re = matches_class is_lower (\<lambda>c. is_lower c \<or> is_digit c \<or> c = CHR ''_'') 0 63"

definition field_re :: "string \<Rightarrow> bool" where
  "field_re s \<longleftrightarrow> s \<noteq> [] \<and> list_all (\<lambda>c. is_alnum c \<or> c \<in> {CHR ''_'', CHR ''.'', CHR ''-''}) s"

text \<open>\<open>^metnos\.[a-z0-9_.-]+/[1-9][0-9]*$\<close>\<close>

definition artifact_schema_re :: "string \<Rightarrow> bool" where
  "artifact_schema_re s =
     (let name = takeWhile (\<lambda>c. c \<noteq> CHR ''/'') s; rest = dropWhile (\<lambda>c. c \<noteq> CHR ''/'') s in
      take 7 name = ''metnos.'' \<and> drop 7 name \<noteq> [] \<and> list_all closed_char (drop 7 name) \<and>
      (case rest of _ # d # ds \<Rightarrow> is_digit d \<and> d \<noteq> CHR ''0'' \<and> list_all is_digit ds | _ \<Rightarrow> False))"

definition mime_char :: "char \<Rightarrow> bool" where
  "mime_char c \<longleftrightarrow> is_lower c \<or> is_digit c \<or> c \<in> {CHR ''.'', CHR ''+'', CHR ''-''}"

definition mime_re :: "string \<Rightarrow> bool" where
  "mime_re s =
     (let name = takeWhile (\<lambda>c. c \<noteq> CHR ''/'') s; rest = dropWhile (\<lambda>c. c \<noteq> CHR ''/'') s in
      name \<noteq> [] \<and> list_all mime_char name \<and> drop 1 rest \<noteq> [] \<and> list_all mime_char (drop 1 rest))"

definition closed_strings :: "nat \<Rightarrow> jval \<Rightarrow> string list result" where
  "closed_strings maximum value =
     bindE (json_array value) (\<lambda>items.
     if length items > maximum then Inl SchemaValidationError
     else bindE (mapE (\<lambda>item. bindE (json_string 1 96 item) (\<lambda>s.
            if key_re s then Inr s else Inl SchemaValidationError)) items) (\<lambda>names.
       if distinct names then Inr names else Inl SchemaValidationError))"

section \<open>The inventory contract\<close>

record inventory_contract =
  ic_max_sources :: int
  ic_max_total_bytes :: int

definition inventory_fields :: "string list" where
  "inventory_fields = [''mode'', ''dynamic'', ''max_sources'', ''max_total_bytes'', ''max_depth'',
     ''symlink_policy'', ''unstable_policy'', ''missing_policy'']"

definition validate_inventory_contract :: "jval \<Rightarrow> inventory_contract result" where
  "validate_inventory_contract value =
     bindE (json_object inventory_fields inventory_fields value) (\<lambda>contract.
     bindE (schema_check (jtext (field contract ''mode'') = Some ''sealed'' \<and> field contract ''dynamic'' = JBool False)) (\<lambda>_.
     bindE (json_integer 0 (Some 1000000) (field contract ''max_sources'')) (\<lambda>max_sources.
     bindE (json_integer 0 None (field contract ''max_total_bytes'')) (\<lambda>max_total_bytes.
     bindE (json_integer 0 (Some 128) (field contract ''max_depth'')) (\<lambda>_.
     bindE (schema_check (jtext (field contract ''symlink_policy'') = Some ''ignore'')) (\<lambda>_.
     bindE (schema_check (jtext (field contract ''unstable_policy'') = Some ''reject'')) (\<lambda>_.
     bindE (schema_check (jtext (field contract ''missing_policy'') = Some ''needs_attention'')) (\<lambda>_.
     Inr \<lparr>ic_max_sources = max_sources, ic_max_total_bytes = max_total_bytes\<rparr>))))))))"

section \<open>A stage\<close>

record cardinality_contract =
  cc_mode :: string
  cc_max_units :: int
  cc_entry_identity_field :: "string option"
  cc_fan_in :: "int option"
  cc_reduction_input :: "string option"
  cc_max_input_bytes :: "int option"

definition CARDINALITY_MODES :: "string list" where
  "CARDINALITY_MODES = [''singleton'', ''per_source'', ''per_dependency'']"

definition INTERNAL_RUNNERS :: "string list" where
  "INTERNAL_RUNNERS = [''committed_entries'', ''sealed_inventory'', ''schema_and_coverage_validator'', ''artifact_store_publish'']"

definition REFERENCE_KINDS :: "string list" where
  "REFERENCE_KINDS = [''literal'', ''revision.inventory'', ''source.path'', ''source.record'', ''dependency.result'',
     ''dependency.entries'']"

definition INVALIDATION_KEYS :: "string list" where
  "INVALIDATION_KEYS = [''source.digest'', ''dependencies.digest'', ''runner.contract_digest'', ''semantic_args.digest'',
     ''model_binding.digest'', ''prompt.digest'', ''reduction.order'', ''reduction.fan_in'']"

text \<open>The value of an enumeration from its text.\<close>

definition choice :: "('a \<Rightarrow> string) \<Rightarrow> 'a list \<Rightarrow> jval \<Rightarrow> 'a result" where
  "choice text_of options v =
     (case find (\<lambda>x. jtext v = Some (text_of x)) options of None \<Rightarrow> Inl SchemaValidationError | Some x \<Rightarrow> Inr x)"

fun stage_type_value :: "stage_type \<Rightarrow> string" where
  "stage_type_value S_INVENTORY = ''inventory''"
| "stage_type_value S_MAP = ''map''"
| "stage_type_value S_REDUCE = ''reduce''"
| "stage_type_value S_VALIDATE = ''validate''"
| "stage_type_value S_PUBLISH = ''publish''"

fun source_state_value :: "source_state \<Rightarrow> string" where
  "source_state_value Src_READY = ''ready''"
| "source_state_value Src_UNSTABLE = ''unstable''"
| "source_state_value Src_MISSING = ''missing''"
| "source_state_value Src_SKIPPED = ''skipped''"

definition validate_runner :: "jval \<Rightarrow> (runner_kind \<times> string) result" where
  "validate_runner value =
     bindE (json_object [''kind'', ''name''] [''kind'', ''name''] value) (\<lambda>runner.
     bindE (choice runner_kind_value [R_INTERNAL, R_EXECUTOR, R_WORKLOAD] (field runner ''kind'')) (\<lambda>kind.
     bindE (json_string 1 96 (field runner ''name'')) (\<lambda>name.
     bindE (schema_check (runner_re name)) (\<lambda>_.
     bindE (schema_check (kind = R_INTERNAL \<longrightarrow> name \<in> set INTERNAL_RUNNERS)) (\<lambda>_.
     Inr (kind, name))))))"

text \<open>The three fields of a hierarchical reduction: all or none.\<close>

definition validate_reduction ::
  "stage_type \<Rightarrow> string \<Rightarrow> jobj \<Rightarrow> (int \<times> string \<times> int) option result" where
  "validate_reduction stage_type mode cardinality =
     (let fan_in = field cardinality ''fan_in''; reduction_input = field cardinality ''reduction_input'';
          max_input_bytes = field cardinality ''max_input_bytes'' in
      if fan_in = JNull \<and> reduction_input = JNull \<and> max_input_bytes = JNull then Inr None
      else
        bindE (schema_check (fan_in \<noteq> JNull \<and> reduction_input \<noteq> JNull \<and> max_input_bytes \<noteq> JNull)) (\<lambda>_.
        bindE (schema_check (stage_type = S_REDUCE \<and> mode = ''singleton'')) (\<lambda>_.
        bindE (json_integer 2 (Some 1024) fan_in) (\<lambda>fan_in.
        bindE (json_string 1 64 reduction_input) (\<lambda>reduction_input.
        bindE (schema_check (input_name_re reduction_input)) (\<lambda>_.
        bindE (json_integer 1024 (Some 16777216) max_input_bytes) (\<lambda>max_input_bytes.
        Inr (Some (fan_in, reduction_input, max_input_bytes)))))))))"

definition validate_cardinality :: "stage_type \<Rightarrow> jval \<Rightarrow> cardinality_contract result" where
  "validate_cardinality stage_type value =
     bindE (json_object [''mode'', ''max_units'']
       [''mode'', ''max_units'', ''entry_identity_field'', ''fan_in'', ''reduction_input'', ''max_input_bytes''] value) (\<lambda>cardinality.
     bindE (text_in (field cardinality ''mode'') CARDINALITY_MODES) (\<lambda>known.
     bindE (schema_check known) (\<lambda>_.
     let mode = the (jtext (field cardinality ''mode'')) in
     bindE (json_integer 1 (Some 10000000) (field cardinality ''max_units'')) (\<lambda>max_units.
     bindE (if field cardinality ''entry_identity_field'' = JNull then Inr None
            else if mode \<noteq> ''per_dependency'' then Inl SchemaValidationError
            else bindE (json_string 1 64 (field cardinality ''entry_identity_field'')) (\<lambda>name.
              bindE (schema_check (input_name_re name)) (\<lambda>_. Inr (Some name)))) (\<lambda>identity.
     bindE (validate_reduction stage_type mode cardinality) (\<lambda>reduction.
     Inr \<lparr>cc_mode = mode, cc_max_units = max_units, cc_entry_identity_field = identity,
          cc_fan_in = map_option fst reduction, cc_reduction_input = map_option (fst \<circ> snd) reduction,
          cc_max_input_bytes = map_option (snd \<circ> snd) reduction\<rparr>))))))"

definition validate_reference :: "string list \<Rightarrow> jval \<Rightarrow> jobj result" where
  "validate_reference depends value =
     bindE (json_object [''ref''] [''ref'', ''stage'', ''field'', ''value''] value) (\<lambda>reference.
     let ref = field reference ''ref'' in
     bindE (text_in ref REFERENCE_KINDS) (\<lambda>known.
     bindE (schema_check known) (\<lambda>_.
     bindE (if jtext ref = Some ''literal'' then
              (if \<not> has_field reference ''value'' \<or> has_field reference ''stage'' \<or> has_field reference ''field''
               then Inl SchemaValidationError
               else bindE (canonical_json (field reference ''value'') max_plan_json_bytes) (\<lambda>_. Inr ()))
            else if has_field reference ''value'' then Inl SchemaValidationError
            else if take 11 (the (jtext ref)) = ''dependency.'' then
              schema_check (case jtext (field reference ''stage'') of None \<Rightarrow> False | Some stage \<Rightarrow> stage \<in> set depends)
            else schema_check (\<not> has_field reference ''stage'')) (\<lambda>_.
     bindE (if \<not> has_field reference ''field'' then Inr ()
            else bindE (json_string 1 128 (field reference ''field'')) (\<lambda>name. schema_check (field_re name))) (\<lambda>_.
     Inr reference)))))"

definition validate_bindings :: "string list \<Rightarrow> jval \<Rightarrow> (string \<times> jobj) list result" where
  "validate_bindings depends value =
     (case value of
        JObj bindings \<Rightarrow>
          if length bindings > 64 then Inl SchemaValidationError
          else mapE (\<lambda>(name, raw).
            if \<not> input_name_re name then Inl SchemaValidationError
            else bindE (validate_reference depends raw) (\<lambda>reference. Inr (name, reference))) bindings
      | _ \<Rightarrow> Inl SchemaValidationError)"

text \<open>The input of a reduction is bound to the entries of the one stage it depends on.\<close>

definition reduction_bound :: "string list \<Rightarrow> (string \<times> jobj) list \<Rightarrow> string \<Rightarrow> bool" where
  "reduction_bound depends bindings reduction_input \<longleftrightarrow>
     (case (depends, map_of bindings reduction_input) of
        ([dependency], Some reference) \<Rightarrow>
          jtext (field reference ''ref'') = Some ''dependency.entries'' \<and>
          jtext (field reference ''stage'') = Some dependency \<and> field reference ''field'' = JNull
      | _ \<Rightarrow> False)"

definition validate_output_schema :: "jval \<Rightarrow> string result" where
  "validate_output_schema value =
     bindE (json_object [''schema_version'', ''name''] [''schema_version'', ''name''] value) (\<lambda>output.
     bindE (schema_check (jtext (field output ''schema_version'') = Some ''metnos.output-schema-ref/1'')) (\<lambda>_.
     case jtext (field output ''name'') of
       None \<Rightarrow> Inl SchemaValidationError
     | Some name \<Rightarrow> if schema_re name then Inr name else Inl SchemaValidationError))"

definition validate_retry :: "durable_effect \<Rightarrow> jval \<Rightarrow> retry_policy result" where
  "validate_retry effect value =
     bindE (json_object retry_policy_fields retry_policy_fields value) (\<lambda>retry.
     bindE (json_integer 1 (Some 32) (field retry ''max_attempts'')) (\<lambda>attempts.
     bindE (json_integer 0 (Some 86400000) (field retry ''base_delay_ms'')) (\<lambda>base_delay.
     bindE (json_integer 0 (Some 86400000) (field retry ''max_delay_ms'')) (\<lambda>max_delay.
     bindE (schema_check (base_delay \<le> max_delay)) (\<lambda>_.
     bindE (closed_strings 32 (field retry ''retryable_error_classes'')) (\<lambda>errors.
     bindE (schema_check (list_all error_class_re errors)) (\<lambda>_.
     bindE (schema_check (effect = E_MANUAL_ONLY \<longrightarrow> attempts = 1)) (\<lambda>_.
     Inr \<lparr>rp_max_attempts = attempts, rp_base_delay_ms = base_delay, rp_max_delay_ms = max_delay,
          rp_retryable_error_classes = errors\<rparr>))))))))"

definition validate_resources :: "jval \<Rightarrow> resources result" where
  "validate_resources value =
     bindE (json_object RESOURCE_KEYS RESOURCE_KEYS value) (\<lambda>obj.
     let amount = (\<lambda>name. json_integer 0 (Some (if name \<in> {''llm'', ''vlm''} then 32 else 64)) (field obj name)) in
     bindE (amount ''cpu'') (\<lambda>cpu. bindE (amount ''device'') (\<lambda>device. bindE (amount ''llm'') (\<lambda>llm.
     bindE (amount ''local_io'') (\<lambda>local_io. bindE (amount ''network_io'') (\<lambda>network_io. bindE (amount ''vlm'') (\<lambda>vlm.
     Inr \<lparr>res_cpu = cpu, res_device = device, res_llm = llm, res_local_io = local_io, res_network_io = network_io,
          res_vlm = vlm\<rparr>)))))))"

definition validate_placement :: "jval \<Rightarrow> (string \<times> string option) result" where
  "validate_placement value =
     bindE (json_object [''target''] [''target'', ''device''] value) (\<lambda>placement.
     if jtext (field placement ''target'') = Some ''server'' then
       (if has_field placement ''device'' then Inl SchemaValidationError else Inr (''server'', None))
     else if jtext (field placement ''target'') = Some ''device'' then
       bindE (json_string 1 128 (field placement ''device'')) (\<lambda>device.
       if CHR 0x00 \<in> set device then Inl SchemaValidationError else Inr (''device'', Some device))
     else Inl SchemaValidationError)"

record plan_stage =
  ps_object :: jobj
  ps_key :: string
  ps_type :: stage_type
  ps_depends_on :: "string list"
  ps_runner :: "runner_kind \<times> string"
  ps_effect :: durable_effect
  ps_cardinality :: cardinality_contract
  ps_bindings :: "(string \<times> jobj) list"
  ps_output_schema :: string
  ps_retry :: retry_policy
  ps_timeout_s :: int
  ps_invalidation_keys :: "string list"
  ps_resources :: resources
  ps_required :: bool
  ps_placement :: "(string \<times> string option) option"

definition stage_fields :: "string list" where
  "stage_fields = [''key'', ''type'', ''depends_on'', ''runner'', ''effect_profile'', ''cardinality'', ''input_bindings'',
     ''output_schema'', ''retry'', ''timeout_s'', ''invalidation_keys'', ''resources'', ''required'']"

text \<open>What the type of a stage demands of its runner.\<close>

definition stage_type_ok :: "plan_stage \<Rightarrow> bool" where
  "stage_type_ok ps \<longleftrightarrow>
     (ps_type ps = S_INVENTORY \<longrightarrow> ps_depends_on ps = [] \<and> ps_runner ps = (R_INTERNAL, ''sealed_inventory'') \<and>
        cc_mode (ps_cardinality ps) = ''singleton'') \<and>
     (ps_type ps = S_PUBLISH \<and> fst (ps_runner ps) = R_INTERNAL \<longrightarrow>
        snd (ps_runner ps) = ''artifact_store_publish'' \<and> ps_effect ps = E_IDEMPOTENT)"

definition validate_stage :: "jval \<Rightarrow> plan_stage result" where
  "validate_stage value =
     bindE (json_object stage_fields (''placement'' # stage_fields) value) (\<lambda>item.
     bindE (json_string 1 64 (field item ''key'')) (\<lambda>key.
     bindE (schema_check (key_re key)) (\<lambda>_.
     bindE (choice stage_type_value [S_INVENTORY, S_MAP, S_REDUCE, S_VALIDATE, S_PUBLISH] (field item ''type'')) (\<lambda>stage_type.
     bindE (closed_strings 32 (field item ''depends_on'')) (\<lambda>depends.
     bindE (schema_check (key \<notin> set depends)) (\<lambda>_.
     bindE (validate_runner (field item ''runner'')) (\<lambda>runner.
     bindE (choice durable_effect_value [E_PURE, E_IDEMPOTENT, E_RECONCILABLE, E_MANUAL_ONLY] (field item ''effect_profile'')) (\<lambda>effect.
     bindE (validate_cardinality stage_type (field item ''cardinality'')) (\<lambda>cardinality.
     bindE (validate_bindings depends (field item ''input_bindings'')) (\<lambda>bindings.
     bindE (schema_check (case cc_reduction_input cardinality of None \<Rightarrow> True
              | Some name \<Rightarrow> reduction_bound depends bindings name)) (\<lambda>_.
     bindE (validate_output_schema (field item ''output_schema'')) (\<lambda>output_schema.
     bindE (validate_retry effect (field item ''retry'')) (\<lambda>retry.
     bindE (json_integer 1 (Some 86400) (field item ''timeout_s'')) (\<lambda>timeout_s.
     bindE (closed_strings 16 (field item ''invalidation_keys'')) (\<lambda>invalidation.
     bindE (schema_check (invalidation \<noteq> [] \<and> set invalidation \<subseteq> set INVALIDATION_KEYS)) (\<lambda>_.
     bindE (validate_resources (field item ''resources'')) (\<lambda>resources.
     bindE (json_boolean (field item ''required'')) (\<lambda>required.
     bindE (if \<not> has_field item ''placement'' then Inr None
            else bindE (validate_placement (field item ''placement'')) (\<lambda>p. Inr (Some p))) (\<lambda>placement.
     let ps = \<lparr>ps_object = item, ps_key = key, ps_type = stage_type, ps_depends_on = depends, ps_runner = runner,
       ps_effect = effect, ps_cardinality = cardinality, ps_bindings = bindings, ps_output_schema = output_schema,
       ps_retry = retry, ps_timeout_s = timeout_s, ps_invalidation_keys = invalidation, ps_resources = resources,
       ps_required = required, ps_placement = placement\<rparr> in
     if stage_type_ok ps then Inr ps else Inl SchemaValidationError)))))))))))))))))))"

section \<open>The graph of stages\<close>

type_synonym graph = "(string \<times> string list) list"

definition stage_graph :: "plan_stage list \<Rightarrow> graph" where
  "stage_graph stage_list = map (\<lambda>ps. (ps_key ps, ps_depends_on ps)) stage_list"

text \<open>
  \<open>visit\<close> on the nodes of a list: \<open>visiting\<close> holds the nodes on the way from the root, which the
  code adds to its set and removes again, and the result is the new \<open>visited\<close>.
\<close>

function visit_all :: "graph \<Rightarrow> string list \<Rightarrow> string list \<Rightarrow> string list \<Rightarrow> string list result" where
  "visit_all graph visiting visited [] = Inr visited"
| "visit_all graph visiting visited (node # nodes) =
     (if node \<in> set visiting then Inl SchemaValidationError
      else if node \<in> set visited then visit_all graph visiting visited nodes
      else case map_of graph node of
        None \<Rightarrow> Inl (DurableStoreError ''KeyError'')
      | Some depends \<Rightarrow>
          (case visit_all graph (node # visiting) visited depends of
             Inl e \<Rightarrow> Inl e
           | Inr visited' \<Rightarrow> visit_all graph visiting (node # visited') nodes))"
  by pat_completeness auto
termination
proof (relation "measures [\<lambda>(graph, visiting, _, _). card (fst ` set graph - set visiting), \<lambda>(_, _, _, nodes). length nodes]")
  fix graph :: graph and visiting visited :: "string list" and node nodes depends
  assume "node \<notin> set visiting" and "map_of graph node = Some depends"
  then have "node \<in> fst ` set graph - set visiting" by (auto dest!: map_of_SomeD intro: rev_image_eqI)
  then have "fst ` set graph - set (node # visiting) \<subset> fst ` set graph - set visiting" by auto
  then have "card (fst ` set graph - set (node # visiting)) < card (fst ` set graph - set visiting)"
    by (rule psubset_card_mono [rotated]) simp
  then show "((graph, node # visiting, visited, depends), (graph, visiting, visited, node # nodes))
    \<in> measures [\<lambda>(graph, visiting, _, _). card (fst ` set graph - set visiting), \<lambda>(_, _, _, nodes). length nodes]"
    by simp
qed auto

definition known_dependencies :: "graph \<Rightarrow> bool" where
  "known_dependencies graph \<longleftrightarrow> list_all (\<lambda>(_, depends). set depends \<subseteq> set (map fst graph)) graph"

definition assert_acyclic :: "plan_stage list \<Rightarrow> unit result" where
  "assert_acyclic stage_list =
     (let graph = stage_graph stage_list in
      if \<not> known_dependencies graph then Inl SchemaValidationError
      else bindE (visit_all graph [] [] (map fst graph)) (\<lambda>_. Inr ()))"

section \<open>A plan\<close>

record plan =
  pl_text :: string
  pl_inventory :: inventory_contract
  pl_error_mode :: string
  pl_allowed_errors :: "string list"
  pl_budgets :: budgets
  pl_stages :: "plan_stage list"
  pl_artifacts :: "artifact_requirement list"

definition plan_fields :: "string list" where
  "plan_fields = [''schema_version'', ''plan_id'', ''objective_redacted'', ''inventory'', ''terminal_criteria'', ''error_policy'',
     ''budgets'', ''stages'', ''required_artifacts'']"

definition validate_terminal_criteria :: "jval \<Rightarrow> unit result" where
  "validate_terminal_criteria value =
     (let names = [''require_inventory_sealed'', ''require_usage_complete'', ''reject_unaccepted_truncation''] in
      bindE (json_object names names value) (\<lambda>terminal.
      schema_check (list_all (\<lambda>name. field terminal name = JBool True) names)))"

definition validate_error_policy :: "jval \<Rightarrow> (string \<times> string list) result" where
  "validate_error_policy value =
     bindE (json_object [''mode'', ''allowed_error_classes''] [''mode'', ''allowed_error_classes''] value) (\<lambda>policy.
     bindE (text_in (field policy ''mode'') [''strict'', ''declared'']) (\<lambda>known.
     bindE (schema_check known) (\<lambda>_.
     let mode = the (jtext (field policy ''mode'')) in
     bindE (closed_strings 32 (field policy ''allowed_error_classes'')) (\<lambda>allowed.
     bindE (schema_check (list_all error_class_re allowed)) (\<lambda>_.
     bindE (schema_check (mode = ''strict'' \<longrightarrow> allowed = [])) (\<lambda>_.
     bindE (schema_check (mode = ''declared'' \<longrightarrow> allowed \<noteq> [])) (\<lambda>_.
     Inr (mode, allowed))))))))"

definition budget_keys :: "string list" where
  "budget_keys = [''max_units'', ''max_attempts_per_unit'', ''max_wall_time_s'', ''max_bytes_read'', ''max_bytes_written'',
     ''max_tokens'', ''max_cost_micros'', ''max_artifacts'', ''max_concurrency'']"

definition validate_budgets :: "jval \<Rightarrow> budgets result" where
  "validate_budgets value =
     bindE (json_object budget_keys budget_keys value) (\<lambda>budgets.
     let amount = (\<lambda>name minimum maximum. json_integer minimum (Some maximum) (field budgets name)) in
     bindE (amount ''max_units'' 1 10000000) (\<lambda>max_units.
     bindE (amount ''max_attempts_per_unit'' 1 32) (\<lambda>max_attempts.
     bindE (amount ''max_wall_time_s'' 1 2592000) (\<lambda>max_wall_time.
     bindE (amount ''max_bytes_read'' 0 9223372036854775807) (\<lambda>max_bytes_read.
     bindE (amount ''max_bytes_written'' 0 9223372036854775807) (\<lambda>max_bytes_written.
     bindE (amount ''max_tokens'' 0 9223372036854775807) (\<lambda>max_tokens.
     bindE (amount ''max_cost_micros'' 0 9223372036854775807) (\<lambda>max_cost_micros.
     bindE (amount ''max_artifacts'' 0 1024) (\<lambda>max_artifacts.
     bindE (amount ''max_concurrency'' 1 256) (\<lambda>max_concurrency.
     Inr \<lparr>b_max_units = max_units, b_max_attempts_per_unit = max_attempts, b_max_wall_time_s = max_wall_time,
          b_max_bytes_read = max_bytes_read, b_max_bytes_written = max_bytes_written, b_max_tokens = max_tokens,
          b_max_cost_micros = max_cost_micros, b_max_artifacts = max_artifacts, b_max_concurrency = max_concurrency\<rparr>))))))))))"

definition validate_artifact :: "jval \<Rightarrow> artifact_requirement result" where
  "validate_artifact value =
     (let fields = [''name'', ''mime_type'', ''schema_version'', ''publication''] in
      bindE (json_object fields fields value) (\<lambda>artifact.
      bindE (json_string 1 64 (field artifact ''name'')) (\<lambda>name.
      bindE (schema_check (key_re name)) (\<lambda>_.
      case (jtext (field artifact ''mime_type''), jtext (field artifact ''schema_version'')) of
        (Some mime_type, Some schema_version) \<Rightarrow>
          if mime_re mime_type \<and> artifact_schema_re schema_version \<and>
             jtext (field artifact ''publication'') = Some ''internal_store''
          then Inr \<lparr>ar_name = name, ar_mime_type = mime_type, ar_schema_version = schema_version\<rparr>
          else Inl SchemaValidationError
      | _ \<Rightarrow> Inl SchemaValidationError))))"

definition validate_stages :: "budgets \<Rightarrow> jval \<Rightarrow> plan_stage list result" where
  "validate_stages budgets value =
     bindE (json_array value) (\<lambda>raw_stages.
     bindE (schema_check (1 \<le> length raw_stages \<and> length raw_stages \<le> 64)) (\<lambda>_.
     bindE (mapE validate_stage raw_stages) (\<lambda>stage_list.
     bindE (schema_check (distinct (map ps_key stage_list))) (\<lambda>_.
     bindE (schema_check (count_where (\<lambda>ps. ps_type ps = S_INVENTORY) stage_list = 1)) (\<lambda>_.
     bindE (assert_acyclic stage_list) (\<lambda>_.
     bindE (schema_check (sum_list (map (\<lambda>ps. cc_max_units (ps_cardinality ps)) stage_list) \<le> b_max_units budgets)) (\<lambda>_.
     bindE (schema_check (list_all (\<lambda>ps. rp_max_attempts (ps_retry ps) \<le> b_max_attempts_per_unit budgets) stage_list)) (\<lambda>_.
     Inr stage_list))))))))"

definition validate_artifacts :: "budgets \<Rightarrow> jval \<Rightarrow> artifact_requirement list result" where
  "validate_artifacts budgets value =
     bindE (json_array value) (\<lambda>raw_artifacts.
     bindE (schema_check (length raw_artifacts \<le> 32)) (\<lambda>_.
     bindE (mapE validate_artifact raw_artifacts) (\<lambda>artifacts.
     bindE (schema_check (distinct (map ar_name artifacts))) (\<lambda>_.
     bindE (schema_check (int (length artifacts) \<le> b_max_artifacts budgets)) (\<lambda>_.
     Inr artifacts)))))"

text \<open>All of \<open>validate_plan\<close> but the text it returns.\<close>

definition validate_contents :: "jval \<Rightarrow> plan result" where
  "validate_contents value =
     bindE (json_object plan_fields plan_fields value) (\<lambda>plan.
     bindE (schema_check (jtext (field plan ''schema_version'') = Some ''metnos.durable-plan/1'')) (\<lambda>_.
     bindE (json_string 1 64 (field plan ''plan_id'')) (\<lambda>plan_id.
     bindE (schema_check (plan_id_re plan_id)) (\<lambda>_.
     bindE (json_string 1 2048 (field plan ''objective_redacted'')) (\<lambda>_.
     bindE (validate_inventory_contract (field plan ''inventory'')) (\<lambda>inventory.
     bindE (validate_terminal_criteria (field plan ''terminal_criteria'')) (\<lambda>_.
     bindE (validate_error_policy (field plan ''error_policy'')) (\<lambda>(mode, allowed).
     bindE (validate_budgets (field plan ''budgets'')) (\<lambda>budgets.
     bindE (validate_stages budgets (field plan ''stages'')) (\<lambda>stage_list.
     bindE (validate_artifacts budgets (field plan ''required_artifacts'')) (\<lambda>artifact_list.
     Inr \<lparr>pl_text = [], pl_inventory = inventory, pl_error_mode = mode, pl_allowed_errors = allowed,
          pl_budgets = budgets, pl_stages = stage_list, pl_artifacts = artifact_list\<rparr>)))))))))))"

definition validate_plan :: "jval \<Rightarrow> plan result" where
  "validate_plan value =
     bindE (validate_contents value) (\<lambda>p.
     bindE (canonical_json value max_plan_json_bytes) (\<lambda>encoded.
     Inr (p\<lparr>pl_text := encoded\<rparr>)))"

definition plan_digest :: "(string \<Rightarrow> string) \<Rightarrow> jval \<Rightarrow> string result" where
  "plan_digest sha value =
     bindE (validate_plan value) (\<lambda>_. digest_json sha ''durable-plan'' value max_plan_json_bytes)"

end
