(* ===== verification/Plan_Properties.thy ===== *)
theory Plan_Properties
  imports Plan
begin

text \<open>
  What a validated plan is: the depth-first search accepts exactly the acyclic graphs whose
  dependencies are all declared, and every plan that passes is well formed.
\<close>

section \<open>The depth-first search\<close>

definition edges :: "graph \<Rightarrow> (string \<times> string) set" where
  "edges graph = {(a, b). \<exists>depends. map_of graph a = Some depends \<and> b \<in> set depends}"

text \<open>Every node is followed by the nodes it depends on.\<close>

fun topological :: "graph \<Rightarrow> string list \<Rightarrow> bool" where
  "topological graph [] = True"
| "topological graph (node # visited) \<longleftrightarrow>
     node \<notin> set visited \<and> edges graph `` {node} \<subseteq> set visited \<and> topological graph visited"

lemma visit_all_topological:
  assumes "visit_all graph visiting visited nodes = Inr visited'"
    and "topological graph visited" and "set visiting \<inter> set visited = {}"
  shows "topological graph visited' \<and> set visited \<subseteq> set visited' \<and> set nodes \<subseteq> set visited' \<and>
    set visiting \<inter> set visited' = {}"
  using assms
proof (induction graph visiting visited nodes arbitrary: visited' rule: visit_all.induct)
  case (1 graph visiting visited)
  then show ?case by simp
next
  case (2 graph visiting visited node nodes)
  show ?case
  proof (cases "node \<in> set visited")
    case True
    then show ?thesis using 2 by (auto split: if_split_asm)
  next
    case False
    have new: "node \<notin> set visiting" using "2.prems"(1) by (auto split: if_split_asm)
    then obtain depends mid where depends: "map_of graph node = Some depends"
      and deep: "visit_all graph (node # visiting) visited depends = Inr mid"
      and rest: "visit_all graph visiting (node # mid) nodes = Inr visited'"
      using "2.prems"(1) False by (auto split: option.split_asm sum.split_asm)
    have mid: "topological graph mid" "set visited \<subseteq> set mid" "set depends \<subseteq> set mid" "set (node # visiting) \<inter> set mid = {}"
      using "2.IH"(2) [OF new False depends deep] "2.prems"(2,3) False by auto
    have "edges graph `` {node} \<subseteq> set mid" using mid(3) depends by (auto simp: edges_def)
    then have "topological graph (node # mid)" "set visiting \<inter> set (node # mid) = {}" using mid new by auto
    from "2.IH"(3) [OF new False depends deep rest this] show ?thesis using mid(2) by auto
  qed
qed

text \<open>A topological list is closed under the edges and has no cycle.\<close>

lemma topological_edge: "topological graph visited \<Longrightarrow> a \<in> set visited \<Longrightarrow> (a, b) \<in> edges graph \<Longrightarrow> b \<in> set visited"
  by (induction visited) auto

lemma topological_no_cycle: "topological graph visited \<Longrightarrow> a \<in> set visited \<Longrightarrow> (a, a) \<notin> (edges graph)\<^sup>+"
proof (induction visited)
  case (Cons node visited)
  show ?case
  proof (cases "a = node")
    case True
    have "b \<in> set visited" if "(node, b) \<in> (edges graph)\<^sup>+" for b
      using that Cons.prems(1) by (induction rule: trancl_induct) (auto intro: topological_edge)
    then show ?thesis using Cons.prems(1) True by auto
  next
    case False
    then show ?thesis using Cons by simp
  qed
qed simp

text \<open>On an acyclic graph with declared dependencies the search does not fail.\<close>

lemma visit_all_succeeds:
  assumes "acyclic (edges graph)" and "known_dependencies graph"
    and "\<forall>a \<in> set visiting. \<forall>b \<in> set nodes. (a, b) \<in> (edges graph)\<^sup>+" and "set nodes \<subseteq> fst ` set graph"
  shows "\<exists>visited'. visit_all graph visiting visited nodes = Inr visited'"
  using assms
proof (induction graph visiting visited nodes rule: visit_all.induct)
  case (1 graph visiting visited)
  then show ?case by simp
next
  case (2 graph visiting visited node nodes)
  have new: "node \<notin> set visiting" using "2.prems"(1,3) unfolding acyclic_def by auto
  show ?case
  proof (cases "node \<in> set visited")
    case True
    then show ?thesis using 2 new by auto
  next
    case False
    obtain depends where depends: "map_of graph node = Some depends"
      using "2.prems"(4) by (cases "map_of graph node") (auto simp: map_of_eq_None_iff)
    have step: "(node, b) \<in> edges graph" if "b \<in> set depends" for b using that depends by (auto simp: edges_def)
    have "set depends \<subseteq> fst ` set graph"
      using "2.prems"(2) map_of_SomeD [OF depends] by (auto simp: known_dependencies_def list_all_iff)
    moreover have "\<forall>a \<in> set (node # visiting). \<forall>b \<in> set depends. (a, b) \<in> (edges graph)\<^sup>+"
      using "2.prems"(3) step by (auto intro: trancl.trancl_into_trancl)
    ultimately obtain mid where mid: "visit_all graph (node # visiting) visited depends = Inr mid"
      using "2.IH"(2) [OF new False depends] "2.prems"(1,2) by blast
    show ?thesis using "2.IH"(3) [OF new False depends mid] "2.prems" new False depends mid by auto
  qed
qed

text \<open>
  C26. The graph of a plan is checked exactly. The search for cycles always ends, and it
  accepts a list of stages with distinct keys if and only if every dependency is a declared
  stage and no stage depends on itself through others.
\<close>

theorem assert_acyclic_exact:
  assumes "distinct (map ps_key pss)"
  shows "assert_acyclic pss = Inr () \<longleftrightarrow>
    (\<forall>ps \<in> set pss. set (ps_depends_on ps) \<subseteq> ps_key ` set pss) \<and>
    acyclic {(ps_key ps, key) | ps key. ps \<in> set pss \<and> key \<in> set (ps_depends_on ps)}"
proof -
  let ?g = "stage_graph pss"
  have keys: "map fst ?g = map ps_key pss" by (simp add: stage_graph_def comp_def)
  have lookup: "map_of ?g a = Some depends \<longleftrightarrow> (\<exists>ps \<in> set pss. ps_key ps = a \<and> ps_depends_on ps = depends)" for a depends
    by (subst map_of_eq_Some_iff) (use assms keys in \<open>auto simp: stage_graph_def comp_def\<close>)
  have known: "known_dependencies ?g \<longleftrightarrow> (\<forall>ps \<in> set pss. set (ps_depends_on ps) \<subseteq> ps_key ` set pss)"
    unfolding known_dependencies_def keys by (auto simp: stage_graph_def list_all_iff)
  have edges: "edges ?g = {(ps_key ps, key) | ps key. ps \<in> set pss \<and> key \<in> set (ps_depends_on ps)}"
    by (auto simp: edges_def lookup)
  have accepts: "(\<exists>visited. visit_all ?g [] [] (map fst ?g) = Inr visited) \<longleftrightarrow> acyclic (edges ?g)" if "known_dependencies ?g"
  proof
    assume "\<exists>visited. visit_all ?g [] [] (map fst ?g) = Inr visited"
    then obtain visited where "topological ?g visited" "set (map fst ?g) \<subseteq> set visited"
      using visit_all_topological by fastforce
    moreover have "a \<in> set (map fst ?g)" if "(a, a) \<in> (edges ?g)\<^sup>+" for a
      using tranclD [OF that] by (auto simp: edges_def intro: rev_image_eqI dest!: map_of_SomeD)
    ultimately show "acyclic (edges ?g)" unfolding acyclic_def using topological_no_cycle by blast
  qed (use that in \<open>auto intro!: visit_all_succeeds\<close>)
  show ?thesis
    unfolding assert_acyclic_def Let_def known [symmetric] edges [symmetric] using accepts by (auto simp: tx_simps)
qed

section \<open>Well-formed plans\<close>

named_theorems check_simps \<open>when a check of one value passes\<close>

lemma schema_check_Inr [check_simps]: "schema_check ok = Inr u \<longleftrightarrow> ok"
  by (simp add: schema_check_def)

lemma json_integer_Inr [check_simps]:
  "json_integer minimum maximum v = Inr i \<longleftrightarrow> v = JInt i \<and> minimum \<le> i \<and> (\<forall>m. maximum = Some m \<longrightarrow> i \<le> m)"
  by (auto simp: json_integer_def split: jval.splits option.splits)

lemma json_string_Inr [check_simps]:
  "json_string minimum maximum v = Inr s \<longleftrightarrow> jtext v = Some s \<and> minimum \<le> int (length s) \<and> int (length s) \<le> maximum"
  by (auto simp: json_string_def split: option.splits)

lemma mapE_Inr: "mapE f xs = Inr ys \<longleftrightarrow> list_all2 (\<lambda>x y. f x = Inr y) xs ys"
proof (induction xs arbitrary: ys)
  case (Cons x xs)
  then show ?case by (cases ys) (auto simp: tx_simps)
qed (auto simp: list_all2_Nil)

lemma mapE_each: "mapE f xs = Inr ys \<Longrightarrow> (\<And>x y. f x = Inr y \<Longrightarrow> P y) \<Longrightarrow> list_all P ys"
  unfolding mapE_Inr by (induction rule: list_all2_induct) auto

lemma closed_strings_ok: "closed_strings maximum v = Inr names \<Longrightarrow> length names \<le> maximum \<and> distinct names \<and> list_all key_re names"
  unfolding closed_strings_def tx_simps
  by (elim exE conjE) (auto simp: tx_simps mapE_Inr list_all2_conv_all_nth list_all_length split: if_split_asm)

lemma validate_retry_ok:
  "validate_retry effect v = Inr p \<Longrightarrow> retry_policy_ok p \<and> (effect = E_MANUAL_ONLY \<longrightarrow> rp_max_attempts p = 1)"
  unfolding validate_retry_def tx_simps check_simps
  by (elim exE conjE) (auto simp: retry_policy_ok_def dest!: closed_strings_ok)

definition cardinality_ok :: "stage_type \<Rightarrow> cardinality_contract \<Rightarrow> bool" where
  "cardinality_ok stage_type cc \<longleftrightarrow>
     cc_mode cc \<in> set CARDINALITY_MODES \<and> 1 \<le> cc_max_units cc \<and> cc_max_units cc \<le> 10000000 \<and>
     (cc_entry_identity_field cc \<noteq> None \<longrightarrow> cc_mode cc = ''per_dependency'') \<and>
     (if cc_fan_in cc = None then cc_reduction_input cc = None \<and> cc_max_input_bytes cc = None
      else stage_type = S_REDUCE \<and> cc_mode cc = ''singleton'' \<and> cc_reduction_input cc \<noteq> None \<and>
        (\<exists>fan_in limit. cc_fan_in cc = Some fan_in \<and> cc_max_input_bytes cc = Some limit \<and>
           2 \<le> fan_in \<and> fan_in \<le> 1024 \<and> 1024 \<le> limit \<and> limit \<le> 16777216))"

lemma text_in_Inr: "text_in v options = Inr True \<Longrightarrow> \<exists>s. jtext v = Some s \<and> s \<in> set options"
  by (auto simp: text_in_def split: jval.split_asm option.split_asm)

lemma validate_reduction_ok:
  "validate_reduction stage_type mode cc = Inr red \<Longrightarrow>
     (case red of None \<Rightarrow> True | Some (fan_in, name, limit) \<Rightarrow>
        stage_type = S_REDUCE \<and> mode = ''singleton'' \<and> 2 \<le> fan_in \<and> fan_in \<le> 1024 \<and> 1024 \<le> limit \<and> limit \<le> 16777216)"
  unfolding validate_reduction_def Let_def
  by (auto simp: tx_simps check_simps split: if_split_asm)

lemma validate_cardinality_ok:
  assumes "validate_cardinality stage_type v = Inr cc"
  shows "cardinality_ok stage_type cc"
proof -
  obtain obj max_units identity red mode where mode: "jtext (field obj ''mode'') = Some mode" "mode \<in> set CARDINALITY_MODES"
    and bounds: "1 \<le> max_units" "max_units \<le> 10000000"
    and identity: "identity \<noteq> None \<longrightarrow> mode = ''per_dependency''"
    and red: "validate_reduction stage_type mode obj = Inr red"
    and cc: "cc = \<lparr>cc_mode = mode, cc_max_units = max_units, cc_entry_identity_field = identity,
          cc_fan_in = map_option fst red, cc_reduction_input = map_option (fst \<circ> snd) red,
          cc_max_input_bytes = map_option (snd \<circ> snd) red\<rparr>"
    using assms unfolding validate_cardinality_def Let_def tx_simps check_simps
    by (elim exE conjE) (auto simp: tx_simps check_simps dest!: text_in_Inr split: if_split_asm)
  show ?thesis
    using validate_reduction_ok [OF red] mode(2) bounds identity by (cases red) (auto simp: cardinality_ok_def cc)
qed

definition resources_ok :: "resources \<Rightarrow> bool" where
  "resources_ok r \<longleftrightarrow> list_all (\<lambda>n. 0 \<le> n \<and> n \<le> 64) [res_cpu r, res_device r, res_local_io r, res_network_io r] \<and>
     list_all (\<lambda>n. 0 \<le> n \<and> n \<le> 32) [res_llm r, res_vlm r]"

lemma validate_resources_ok: "validate_resources v = Inr r \<Longrightarrow> resources_ok r"
  unfolding validate_resources_def Let_def tx_simps check_simps by (elim exE conjE) (auto simp: resources_ok_def)

definition plan_stage_ok :: "plan_stage \<Rightarrow> bool" where
  "plan_stage_ok ps \<longleftrightarrow>
     key_re (ps_key ps) \<and> ps_key ps \<notin> set (ps_depends_on ps) \<and> length (ps_depends_on ps) \<le> 32 \<and> distinct (ps_depends_on ps) \<and>
     cardinality_ok (ps_type ps) (ps_cardinality ps) \<and>
     (cc_fan_in (ps_cardinality ps) \<noteq> None \<longrightarrow> length (ps_depends_on ps) = 1) \<and>
     retry_policy_ok (ps_retry ps) \<and> (ps_effect ps = E_MANUAL_ONLY \<longrightarrow> rp_max_attempts (ps_retry ps) = 1) \<and>
     1 \<le> ps_timeout_s ps \<and> ps_timeout_s ps \<le> 86400 \<and> resources_ok (ps_resources ps) \<and> stage_type_ok ps"

lemma reduction_bound_one: "reduction_bound depends bindings name \<Longrightarrow> length depends = 1"
  by (auto simp: reduction_bound_def split: list.split_asm option.split_asm)

lemma validate_stage_ok:
  assumes "validate_stage v = Inr ps"
  shows "plan_stage_ok ps"
proof -
  obtain item key stage_type depends effect cardinality bindings retry resources where
    parts: "key_re key" "closed_strings 32 (field item ''depends_on'') = Inr depends" "key \<notin> set depends"
      "validate_cardinality stage_type (field item ''cardinality'') = Inr cardinality"
      "case cc_reduction_input cardinality of None \<Rightarrow> True | Some name \<Rightarrow> reduction_bound depends bindings name"
      "validate_retry effect (field item ''retry'') = Inr retry" "validate_resources (field item ''resources'') = Inr resources"
    and ps: "ps_key ps = key" "ps_type ps = stage_type" "ps_depends_on ps = depends" "ps_effect ps = effect"
      "ps_cardinality ps = cardinality" "ps_retry ps = retry" "1 \<le> ps_timeout_s ps" "ps_timeout_s ps \<le> 86400"
      "ps_resources ps = resources" "stage_type_ok ps"
    using assms unfolding validate_stage_def Let_def tx_simps check_simps
    by (elim exE conjE) (auto split: if_split_asm)
  have card: "cardinality_ok stage_type cardinality" by (rule validate_cardinality_ok [OF parts(4)])
  then have "cc_fan_in cardinality \<noteq> None \<longrightarrow> length depends = 1"
    using parts(5) reduction_bound_one by (auto simp: cardinality_ok_def split: option.split_asm if_split_asm)
  then show ?thesis
    using parts(1,3) ps card closed_strings_ok [OF parts(2)] validate_retry_ok [OF parts(6)] validate_resources_ok [OF parts(7)]
    by (simp add: plan_stage_ok_def)
qed

definition plan_ok :: "plan \<Rightarrow> bool" where
  "plan_ok p \<longleftrightarrow>
     1 \<le> length (pl_stages p) \<and> length (pl_stages p) \<le> 64 \<and> list_all plan_stage_ok (pl_stages p) \<and>
     distinct (map ps_key (pl_stages p)) \<and> count_where (\<lambda>ps. ps_type ps = S_INVENTORY) (pl_stages p) = 1 \<and>
     assert_acyclic (pl_stages p) = Inr () \<and>
     sum_list (map (\<lambda>ps. cc_max_units (ps_cardinality ps)) (pl_stages p)) \<le> b_max_units (pl_budgets p) \<and>
     list_all (\<lambda>ps. rp_max_attempts (ps_retry ps) \<le> b_max_attempts_per_unit (pl_budgets p)) (pl_stages p) \<and>
     1 \<le> b_max_wall_time_s (pl_budgets p) \<and> 1 \<le> b_max_concurrency (pl_budgets p) \<and>
     distinct (map ar_name (pl_artifacts p)) \<and> int (length (pl_artifacts p)) \<le> b_max_artifacts (pl_budgets p) \<and>
     (pl_error_mode p = ''strict'' \<longleftrightarrow> pl_allowed_errors p = []) \<and> list_all error_class_re (pl_allowed_errors p) \<and>
     utf8_size (pl_text p) \<le> max_plan_json_bytes"

lemma validate_stages_ok:
  "validate_stages budgets v = Inr pss \<Longrightarrow>
     1 \<le> length pss \<and> length pss \<le> 64 \<and> list_all plan_stage_ok pss \<and> distinct (map ps_key pss) \<and>
     count_where (\<lambda>ps. ps_type ps = S_INVENTORY) pss = 1 \<and> assert_acyclic pss = Inr () \<and>
     sum_list (map (\<lambda>ps. cc_max_units (ps_cardinality ps)) pss) \<le> b_max_units budgets \<and>
     list_all (\<lambda>ps. rp_max_attempts (ps_retry ps) \<le> b_max_attempts_per_unit budgets) pss"
  unfolding validate_stages_def tx_simps check_simps
  by (elim exE conjE) (auto simp: mapE_Inr [THEN iffD1, THEN list_all2_lengthD] intro: mapE_each validate_stage_ok)

lemma validate_artifacts_ok:
  "validate_artifacts budgets v = Inr as \<Longrightarrow> distinct (map ar_name as) \<and> int (length as) \<le> b_max_artifacts budgets"
  unfolding validate_artifacts_def tx_simps check_simps by (elim exE conjE) auto

lemma validate_error_policy_ok:
  "validate_error_policy v = Inr (mode, allowed) \<Longrightarrow> (mode = ''strict'' \<longleftrightarrow> allowed = []) \<and> list_all error_class_re allowed"
  unfolding validate_error_policy_def Let_def tx_simps check_simps
  by (elim exE conjE) (auto dest!: text_in_Inr)

lemma validate_budgets_ok: "validate_budgets v = Inr b \<Longrightarrow> 1 \<le> b_max_wall_time_s b \<and> 1 \<le> b_max_concurrency b"
  unfolding validate_budgets_def Let_def tx_simps check_simps by (elim exE conjE) auto

lemma validate_plan_parts:
  assumes "validate_plan v = Inr p"
  obtains obj where "validate_error_policy (field obj ''error_policy'') = Inr (pl_error_mode p, pl_allowed_errors p)"
    and "validate_budgets (field obj ''budgets'') = Inr (pl_budgets p)"
    and "validate_stages (pl_budgets p) (field obj ''stages'') = Inr (pl_stages p)"
    and "validate_artifacts (pl_budgets p) (field obj ''required_artifacts'') = Inr (pl_artifacts p)"
    and "canonical_json v max_plan_json_bytes = Inr (pl_text p)"
proof -
  obtain q where q: "validate_contents v = Inr q" and enc: "canonical_json v max_plan_json_bytes = Inr (pl_text p)"
    and p: "p = q\<lparr>pl_text := pl_text p\<rparr>"
    using assms by (auto simp: validate_plan_def tx_simps)
  obtain obj where "validate_error_policy (field obj ''error_policy'') = Inr (pl_error_mode q, pl_allowed_errors q)"
      "validate_budgets (field obj ''budgets'') = Inr (pl_budgets q)"
      "validate_stages (pl_budgets q) (field obj ''stages'') = Inr (pl_stages q)"
      "validate_artifacts (pl_budgets q) (field obj ''required_artifacts'') = Inr (pl_artifacts q)"
    using q unfolding validate_contents_def tx_simps check_simps by (elim exE conjE) (auto simp: tx_simps)
  moreover have "pl_error_mode p = pl_error_mode q" "pl_allowed_errors p = pl_allowed_errors q" "pl_budgets p = pl_budgets q"
    "pl_stages p = pl_stages q" "pl_artifacts p = pl_artifacts q"
    by (subst p, simp)+
  ultimately show thesis using that [of obj] enc by simp
qed

text \<open>
  C27. A plan that validates is well formed. It has between one and sixty-four stages with
  distinct keys, exactly one of them the inventory, an acyclic graph of declared dependencies,
  caps that add up within the budget and retries within it; a hierarchical reduction has
  exactly one dependency, and a fan-in and a byte limit within their bounds; a manual stage has
  one attempt; required artifacts have distinct names and fit the budget; errors are allowed
  only under the declared policy; and its canonical text is within the limit.
\<close>

theorem validate_plan_ok:
  assumes "validate_plan v = Inr p"
  shows "plan_ok p \<and> pl_text p = encode_json v"
  using assms
proof (rule validate_plan_parts)
  fix obj
  assume parts: "validate_error_policy (field obj ''error_policy'') = Inr (pl_error_mode p, pl_allowed_errors p)"
    "validate_budgets (field obj ''budgets'') = Inr (pl_budgets p)"
    "validate_stages (pl_budgets p) (field obj ''stages'') = Inr (pl_stages p)"
    "validate_artifacts (pl_budgets p) (field obj ''required_artifacts'') = Inr (pl_artifacts p)"
  assume "canonical_json v max_plan_json_bytes = Inr (pl_text p)"
  then have "utf8_size (pl_text p) \<le> max_plan_json_bytes" "pl_text p = encode_json v"
    by (auto simp: canonical_json_def Let_def split: if_split_asm)
  then show ?thesis
    using validate_error_policy_ok [OF parts(1)] validate_budgets_ok [OF parts(2)] validate_stages_ok [OF parts(3)]
      validate_artifacts_ok [OF parts(4)] by (simp add: plan_ok_def)
qed

text \<open>
  A member that is looked up in a set of texts must be hashable: an array there is not reported
  as a schema error.
\<close>

theorem cardinality_mode_unhashable:
  "validate_cardinality stage_type (JObj [(''mode'', JArr vs), (''max_units'', JInt n)]) = Inl TypeError"
  by (simp add: validate_cardinality_def json_object_def has_field_def field_def jget_def text_in_def)

section \<open>An example plan\<close>

definition example_stage_json :: "string \<Rightarrow> string \<Rightarrow> string list \<Rightarrow> jobj \<Rightarrow> jval \<Rightarrow> jobj \<Rightarrow> jval" where
  "example_stage_json key type depends runner cardinality bindings = JObj
     [(''key'', JStr key), (''type'', JStr type), (''depends_on'', JArr (map JStr depends)), (''runner'', JObj runner),
      (''effect_profile'', JStr ''pure''), (''cardinality'', cardinality), (''input_bindings'', JObj bindings),
      (''output_schema'', JObj [(''schema_version'', JStr ''metnos.output-schema-ref/1''), (''name'', JStr ''metnos.output/1'')]),
      (''retry'', example_policy_json), (''timeout_s'', JInt 60),
      (''invalidation_keys'', JArr [JStr ''source.digest'']),
      (''resources'', JObj (map (\<lambda>k. (k, JInt 1)) RESOURCE_KEYS)), (''required'', JBool True)]"

definition example_plan :: "jval list \<Rightarrow> jval" where
  "example_plan stage_list = JObj
     [(''schema_version'', JStr ''metnos.durable-plan/1''), (''plan_id'', JStr ''example''), (''objective_redacted'', JStr ''index''),
      (''inventory'', JObj [(''mode'', JStr ''sealed''), (''dynamic'', JBool False), (''max_sources'', JInt 10),
         (''max_total_bytes'', JInt 1000), (''max_depth'', JInt 3), (''symlink_policy'', JStr ''ignore''),
         (''unstable_policy'', JStr ''reject''), (''missing_policy'', JStr ''needs_attention'')]),
      (''terminal_criteria'', JObj [(''require_inventory_sealed'', JBool True), (''require_usage_complete'', JBool True),
         (''reject_unaccepted_truncation'', JBool True)]),
      (''error_policy'', JObj [(''mode'', JStr ''strict''), (''allowed_error_classes'', JArr [])]),
      (''budgets'', JObj [(''max_units'', JInt 100), (''max_attempts_per_unit'', JInt 8), (''max_wall_time_s'', JInt 3600),
         (''max_bytes_read'', JInt 1000), (''max_bytes_written'', JInt 1000), (''max_tokens'', JInt 1000),
         (''max_cost_micros'', JInt 0), (''max_artifacts'', JInt 1), (''max_concurrency'', JInt 2)]),
      (''stages'', JArr stage_list), (''required_artifacts'', JArr [])]"

definition example_inventory_stage :: jval where
  "example_inventory_stage = example_stage_json ''files'' ''inventory'' []
     [(''kind'', JStr ''internal''), (''name'', JStr ''sealed_inventory'')]
     (JObj [(''mode'', JStr ''singleton''), (''max_units'', JInt 1)]) []"

definition example_map_stage :: "int \<Rightarrow> jval" where
  "example_map_stage cap = example_stage_json ''map'' ''map'' [''files''] [(''kind'', JStr ''executor''), (''name'', JStr ''read_files'')]
     (JObj [(''mode'', JStr ''per_source''), (''max_units'', JInt cap)]) [(''path'', JObj [(''ref'', JStr ''source.path'')])]"

definition example_reduce_stage :: jval where
  "example_reduce_stage = example_stage_json ''merge'' ''reduce'' [''map''] [(''kind'', JStr ''executor''), (''name'', JStr ''merge'')]
     (JObj [(''mode'', JStr ''singleton''), (''max_units'', JInt 9), (''fan_in'', JInt 2), (''reduction_input'', JStr ''parts''),
        (''max_input_bytes'', JInt 4096)])
     [(''parts'', JObj [(''ref'', JStr ''dependency.entries''), (''stage'', JStr ''map'')])]"

abbreviation example_stages :: "jval list" where
  "example_stages \<equiv> [example_inventory_stage, example_map_stage 10, example_reduce_stage]"

text \<open>A bound on the size of a canonical text that does not encode it.\<close>

fun json_weight :: "jval \<Rightarrow> int" where
  "json_weight JNull = 4"
| "json_weight (JBool b) = 5"
| "json_weight (JInt i) = utf8_size (show_int i)"
| "json_weight (JStr s) = 2 + 12 * int (length s)"
| "json_weight (JArr vs) = 2 + sum_list (map (\<lambda>v. json_weight v + 1) vs)"
| "json_weight (JObj kvs) = 2 + sum_list (map (\<lambda>(k, v). 4 + 12 * int (length k) + json_weight v) kvs)"
| "json_weight (JInstant t) = 2 + 12 * int (length (instant_text t))"

lemma utf8_size_join_le: "utf8_size (join_with '','' xs) \<le> sum_list (map (\<lambda>x. utf8_size x + 1) xs)"
  by (induction "'',''" xs rule: join_with.induct) (auto simp: utf8_size_def code_of_def)

lemma utf8_size_quote: "utf8_size (quote_string s) \<le> 2 + 12 * int (length s)"
proof -
  have "length (escape_char c) \<le> 6" for c by (simp add: escape_char_def Let_def)
  then have "int (length (concat (map escape_char s))) \<le> 6 * int (length s)"
    by (induction s) (auto intro: add_mono)
  then show ?thesis
    using utf8_size_le_length [of "concat (map escape_char s)"]
    by (simp add: quote_string_def utf8_size_Cons code_of_def)
qed

lemma sum_list_sort_key: "sum_list (map f (sort_key g xs)) = sum_list (map f xs)" for f :: "'a \<Rightarrow> int"
proof -
  have "sum_list (map f (insort_key g x xs)) = f x + sum_list (map f xs)" for x xs by (induction xs) auto
  then show ?thesis by (induction xs) (auto simp: sort_key_def)
qed

lemma encode_weight: "utf8_size (encode_json v) \<le> json_weight v"
proof (induction v)
  case (JArr vs)
  have "sum_list (map (\<lambda>x. utf8_size x + 1) (map encode_json vs)) \<le> sum_list (map (\<lambda>v. json_weight v + 1) vs)"
    unfolding map_map comp_def using JArr by (intro sum_list_mono) simp
  then show ?case
    using utf8_size_join_le [of "map encode_json vs"] by (simp add: utf8_size_Cons code_of_def)
next
  case (JObj kvs)
  let ?es = "map (\<lambda>(k, v). (k, encode_json v)) kvs" and ?f = "\<lambda>(k, e). quote_string k @ '':'' @ e"
  have one: "utf8_size (?f (k, encode_json v)) + 1 \<le> 4 + 12 * int (length k) + json_weight v" if "(k, v) \<in> set kvs" for k v
    using JObj that utf8_size_quote [of k] by (fastforce simp: utf8_size_Cons code_of_def)
  have "utf8_size (join_with '','' (map ?f (sort_key fst ?es))) \<le> sum_list (map (\<lambda>x. utf8_size (?f x) + 1) (sort_key fst ?es))"
    using utf8_size_join_le [of "map ?f (sort_key fst ?es)"] by (simp add: comp_def)
  also have "\<dots> = sum_list (map (\<lambda>x. utf8_size (?f x) + 1) ?es)" by (rule sum_list_sort_key)
  also have "\<dots> \<le> sum_list (map (\<lambda>(k, v). 4 + 12 * int (length k) + json_weight v) kvs)"
    unfolding map_map using one by (intro sum_list_mono) auto
  finally show ?case by (simp add: utf8_size_Cons code_of_def)
qed (use utf8_size_quote in \<open>auto simp: utf8_size_Cons code_of_def\<close>)

lemma canonical_json_light: "json_weight v \<le> max_bytes \<Longrightarrow> canonical_json v max_bytes = Inr (encode_json v)"
  using encode_weight [of v] by (simp add: canonical_json_def)

lemma example_plan_contents:
  "succeeds_with (validate_contents (example_plan example_stages)) (\<lambda>p. map ps_key (pl_stages p) = [''files'', ''map'', ''merge''])"
  by code_simp

lemma example_plan_light: "json_weight (example_plan example_stages) \<le> max_plan_json_bytes"
  by code_simp

theorem validate_plan_ok_witness:
  "\<exists>p. validate_plan (example_plan example_stages) = Inr p \<and> plan_ok p \<and> map ps_key (pl_stages p) = [''files'', ''map'', ''merge'']"
proof -
  obtain q where q: "validate_contents (example_plan example_stages) = Inr q" "map ps_key (pl_stages q) = [''files'', ''map'', ''merge'']"
    by (rule succeeds_withE [OF example_plan_contents])
  define p where "p = q\<lparr>pl_text := encode_json (example_plan example_stages)\<rparr>"
  have p: "validate_plan (example_plan example_stages) = Inr p"
    unfolding validate_plan_def q(1) bindE_simps canonical_json_light [OF example_plan_light] p_def ..
  have keys: "map ps_key (pl_stages p) = [''files'', ''map'', ''merge'']" using q(2) by (simp add: p_def)
  show ?thesis by (intro exI [of _ p] conjI p keys conjunct1 [OF validate_plan_ok [OF p]])
qed

lemma example_stages_acyclic:
  "succeeds_with (mapE validate_stage example_stages)
     (\<lambda>pss. map ps_key pss = [''files'', ''map'', ''merge''] \<and> assert_acyclic pss = Inr ())"
  by code_simp

theorem assert_acyclic_exact_witness:
  "\<exists>pss :: plan_stage list. map ps_key pss = [''files'', ''map'', ''merge''] \<and>
     acyclic {(ps_key ps, key) | ps key. ps \<in> set pss \<and> key \<in> set (ps_depends_on ps)}"
proof -
  obtain pss where "mapE validate_stage example_stages = Inr pss"
    and pss: "map ps_key pss = [''files'', ''map'', ''merge''] \<and> assert_acyclic pss = Inr ()"
    by (rule succeeds_withE [OF example_stages_acyclic])
  have "distinct (map ps_key pss)" unfolding conjunct1 [OF pss] by simp
  from assert_acyclic_exact [OF this] have "acyclic {(ps_key ps, key) | ps key. ps \<in> set pss \<and> key \<in> set (ps_depends_on ps)}"
    using pss by simp
  with conjunct1 [OF pss] show ?thesis by (intro exI [of _ pss] conjI)
qed

end
