(* ===== verification/Inventory.thy ===== *)
theory Inventory
  imports Plan_Properties
begin

text \<open>
  The sealed inventory (\<open>validate_inventory\<close> of \<open>schema.py\<close>): the sources are read once, in
  order; their canonical texts are hashed and copied to an optional inline text as they are
  read, without ever building the whole array. \<open>retain_inline\<close> says whether the sources came as
  a list or a tuple rather than as a view on disk. A hash object is the text it was fed.
\<close>

section \<open>Unique values\<close>

definition MEMORY_LIMIT :: int where "MEMORY_LIMIT = 4096"

text \<open>The values seen, in memory, or in the table of a temporary database.\<close>

datatype unique_values = InMemory "string list" | Spilled "string list"

fun unique_add :: "string \<Rightarrow> unique_values \<Rightarrow> bool \<times> unique_values" where
  "unique_add value (InMemory memory) =
     (if value \<in> set memory then (False, InMemory memory)
      else if int (length (value # memory)) \<le> MEMORY_LIMIT then (True, InMemory (value # memory))
      else (True, Spilled (value # memory)))"
| "unique_add value (Spilled values_seen) =
     (if value \<in> set values_seen then (False, Spilled values_seen) else (True, Spilled (value # values_seen)))"

section \<open>One source\<close>

record inventory_source =
  is_object :: jobj
  is_source_id :: string
  is_ordinal :: int
  is_device_id :: string
  is_locator_redacted :: string
  is_kind :: string
  is_size_bytes :: int
  is_mtime_ns :: int
  is_content_digest :: string
  is_state :: source_state
  is_accounted :: bool

definition source_fields :: "string list" where
  "source_fields = [''source_id'', ''ordinal'', ''device_id'', ''locator_redacted'', ''kind'', ''size_bytes'', ''mtime_ns'',
     ''content_digest'', ''state'', ''accounted'']"

text \<open>\<open>v == n\<close> for an integer: Python counts \<open>True\<close> as 1 and \<open>False\<close> as 0.\<close>

definition equals_int :: "jval \<Rightarrow> int \<Rightarrow> bool" where
  "equals_int v n \<longleftrightarrow> (case v of JInt i \<Rightarrow> i = n | JBool b \<Rightarrow> of_bool b = n | _ \<Rightarrow> False)"

definition json_digest :: "jval \<Rightarrow> string result" where
  "json_digest v =
     (case jtext v of None \<Rightarrow> Inl SchemaValidationError | Some s \<Rightarrow> if sha256_re s then Inr s else Inl SchemaValidationError)"

definition validate_source :: "nat \<Rightarrow> jval \<Rightarrow> inventory_source result" where
  "validate_source index raw_source =
     bindE (json_object source_fields source_fields raw_source) (\<lambda>source.
     bindE (json_string 8 160 (field source ''source_id'')) (\<lambda>source_id.
     bindE (schema_check (equals_int (field source ''ordinal'') (int index))) (\<lambda>_.
     bindE (json_string 1 128 (field source ''device_id'')) (\<lambda>device_id.
     bindE (json_string 1 1024 (field source ''locator_redacted'')) (\<lambda>locator.
     bindE (json_string 1 64 (field source ''kind'')) (\<lambda>kind.
     bindE (json_integer 0 None (field source ''size_bytes'')) (\<lambda>size_bytes.
     bindE (json_integer 0 None (field source ''mtime_ns'')) (\<lambda>mtime_ns.
     bindE (json_digest (field source ''content_digest'')) (\<lambda>content_digest.
     bindE (choice source_state_value [Src_READY, Src_UNSTABLE, Src_MISSING, Src_SKIPPED] (field source ''state'')) (\<lambda>state.
     bindE (json_boolean (field source ''accounted'')) (\<lambda>accounted.
     Inr \<lparr>is_object = source, is_source_id = source_id, is_ordinal = int index, is_device_id = device_id,
          is_locator_redacted = locator, is_kind = kind, is_size_bytes = size_bytes, is_mtime_ns = mtime_ns,
          is_content_digest = content_digest, is_state = state, is_accounted = accounted\<rparr>)))))))))))"

section \<open>The inventory\<close>

definition max_inventory_json_bytes :: int where "max_inventory_json_bytes = 16777216"

definition inventory_source_json :: "jobj \<Rightarrow> string result" where
  "inventory_source_json source = canonical_json (JObj source) max_inventory_json_bytes"

definition inventory_hasher :: string where
  "inventory_hasher = ''metnos:durable-inventory:1'' @ [CHR 0x00, CHR ''['']"

record scan =
  sc_ids :: unique_values
  sc_hasher :: string
  sc_inline :: "string option"
  sc_inline_bytes :: int
  sc_sources :: "inventory_source list"

definition separator :: "nat \<Rightarrow> string" where
  "separator index = (if index > 0 then '','' else [])"

text \<open>The inline copy with its byte count; it is dropped for good once it would exceed the limit.\<close>

definition copy_inline :: "nat \<Rightarrow> string \<Rightarrow> scan \<Rightarrow> string option \<times> int" where
  "copy_inline index source_json st =
     (case sc_inline st of
        None \<Rightarrow> (None, sc_inline_bytes st)
      | Some buffer \<Rightarrow>
          let inline_bytes = sc_inline_bytes st + utf8_size (separator index) + utf8_size source_json in
          if inline_bytes > max_inventory_json_bytes then (None, sc_inline_bytes st)
          else (Some (buffer @ separator index @ source_json), inline_bytes))"

definition scan_source :: "nat \<Rightarrow> jval \<Rightarrow> scan \<Rightarrow> scan result" where
  "scan_source index raw_source st =
     bindE (validate_source index raw_source) (\<lambda>source.
     let added = unique_add (is_source_id source) (sc_ids st) in
     bindE (schema_check (fst added)) (\<lambda>_.
     bindE (inventory_source_json (is_object source)) (\<lambda>source_json.
     let copied = copy_inline index source_json st in
     Inr \<lparr>sc_ids = snd added, sc_hasher = sc_hasher st @ separator index @ source_json,
          sc_inline = fst copied, sc_inline_bytes = snd copied, sc_sources = sc_sources st @ [source]\<rparr>)))"

fun scan_sources :: "nat \<Rightarrow> jval list \<Rightarrow> scan \<Rightarrow> scan result" where
  "scan_sources index [] st = Inr st"
| "scan_sources index (raw # raws) st = bindE (scan_source index raw st) (scan_sources (index + 1) raws)"

definition INVENTORY_SCHEMA_VERSION :: string where "INVENTORY_SCHEMA_VERSION = ''metnos.durable-inventory/1''"

definition inline_prefix :: "string \<Rightarrow> string" where
  "inline_prefix declared_digest =
     [CHR 0x7B] @ quote_string ''digest'' @ '':'' @ quote_string declared_digest @ '','' @
     quote_string ''schema_version'' @ '':'' @ quote_string INVENTORY_SCHEMA_VERSION @ '','' @
     quote_string ''sealed'' @ '':true,'' @ quote_string ''sources'' @ '':[''"

definition validate_inventory ::
  "(string \<Rightarrow> string) \<Rightarrow> bool \<Rightarrow> jval \<Rightarrow> (string \<times> string option \<times> inventory_source list) result" where
  "validate_inventory sha retain_inline value =
     bindE (json_object [''schema_version'', ''sealed'', ''digest'', ''sources'']
       [''schema_version'', ''sealed'', ''digest'', ''sources''] value) (\<lambda>inventory.
     bindE (schema_check (jtext (field inventory ''schema_version'') = Some INVENTORY_SCHEMA_VERSION)) (\<lambda>_.
     bindE (schema_check (field inventory ''sealed'' = JBool True)) (\<lambda>_.
     bindE (json_array (field inventory ''sources'')) (\<lambda>raw_sources.
     bindE (schema_check (int (length raw_sources) \<le> 1000000)) (\<lambda>_.
     bindE (json_digest (field inventory ''digest'')) (\<lambda>declared_digest.
     let prefix = inline_prefix declared_digest in
     bindE (scan_sources 0 raw_sources
       \<lparr>sc_ids = InMemory [], sc_hasher = inventory_hasher, sc_inline = (if retain_inline then Some prefix else None),
        sc_inline_bytes = utf8_size prefix + 2, sc_sources = []\<rparr>) (\<lambda>st.
     bindE (schema_check (declared_digest = ''sha256:'' @ sha (sc_hasher st @ '']''))) (\<lambda>_.
     Inr (declared_digest, map_option (\<lambda>buffer. buffer @ '']'' @ [CHR 0x7D]) (sc_inline st), sc_sources st)))))))))"

definition inventory_digest :: "(string \<Rightarrow> string) \<Rightarrow> jobj list \<Rightarrow> string result" where
  "inventory_digest sha objects =
     bindE (mapE inventory_source_json objects) (\<lambda>texts.
     Inr (''sha256:'' @ sha (inventory_hasher @ join_with '','' texts @ '']'')))"

section \<open>The scan is the encoding of the whole\<close>

definition seen_values :: "unique_values \<Rightarrow> string set" where
  "seen_values u = (case u of InMemory xs \<Rightarrow> set xs | Spilled xs \<Rightarrow> set xs)"

lemma unique_add_exact: "fst (unique_add v u) \<longleftrightarrow> v \<notin> seen_values u" "seen_values (snd (unique_add v u)) = insert v (seen_values u)"
  by (cases u; auto simp: seen_values_def insert_absorb)+

lemma join_snoc: "join_with sep (xs @ [x]) = join_with sep xs @ (if xs = [] then [] else sep) @ x"
  by (induction sep xs rule: join_with.induct) auto

definition source_texts :: "inventory_source list \<Rightarrow> string" where
  "source_texts srcs = join_with '','' (map (\<lambda>s. encode_json (JObj (is_object s))) srcs)"

text \<open>What the state holds after the sources read so far.\<close>

definition scanned :: "bool \<Rightarrow> string \<Rightarrow> jval list \<Rightarrow> scan \<Rightarrow> bool" where
  "scanned retain_inline prefix raws st \<longleftrightarrow>
     raws = map (JObj \<circ> is_object) (sc_sources st) \<and> map is_ordinal (sc_sources st) = map int [0..<length raws] \<and>
     seen_values (sc_ids st) = is_source_id ` set (sc_sources st) \<and> distinct (map is_source_id (sc_sources st)) \<and>
     sc_hasher st = inventory_hasher @ source_texts (sc_sources st) \<and>
     sc_inline st = (if retain_inline \<and> utf8_size prefix + 2 + utf8_size (source_texts (sc_sources st)) \<le> max_inventory_json_bytes
                     then Some (prefix @ source_texts (sc_sources st)) else None) \<and>
     (sc_inline st \<noteq> None \<longrightarrow> sc_inline_bytes st = utf8_size prefix + 2 + utf8_size (source_texts (sc_sources st)))"

lemma validate_source_facts:
  "validate_source index raw = Inr s \<Longrightarrow> raw = JObj (is_object s) \<and> is_ordinal s = int index"
  unfolding validate_source_def tx_simps check_simps
  by (elim exE conjE) (auto simp: json_object_def split: jval.split_asm if_split_asm)

lemma copy_inline_exact:
  fixes i e st
  defines "grown \<equiv> utf8_size (separator i) + utf8_size e"
  assumes before: "sc_inline st = (if keep \<and> old \<le> max_inventory_json_bytes then Some buffer else None)"
    and bytes: "sc_inline st \<noteq> None \<longrightarrow> sc_inline_bytes st = old"
  shows "fst (copy_inline i e st) = (if keep \<and> old + grown \<le> max_inventory_json_bytes then Some (buffer @ separator i @ e) else None)"
    and "fst (copy_inline i e st) \<noteq> None \<longrightarrow> snd (copy_inline i e st) = old + grown"
proof -
  have more: "0 \<le> grown" unfolding grown_def using utf8_size_nonneg [of "separator i"] utf8_size_nonneg [of e] by simp
  show "fst (copy_inline i e st) = (if keep \<and> old + grown \<le> max_inventory_json_bytes then Some (buffer @ separator i @ e) else None)"
  proof (cases "sc_inline st")
    case None
    then have "\<not> (keep \<and> old + grown \<le> max_inventory_json_bytes)" using before more by (auto split: if_split_asm)
    then show ?thesis by (simp add: copy_inline_def None)
  next
    case (Some b)
    then have "keep" "b = buffer" "sc_inline_bytes st = old" using before bytes by (auto split: if_split_asm)
    then show ?thesis by (simp add: copy_inline_def Some Let_def grown_def)
  qed
  show "fst (copy_inline i e st) \<noteq> None \<longrightarrow> snd (copy_inline i e st) = old + grown"
    using bytes by (cases "sc_inline st") (simp_all add: copy_inline_def Let_def grown_def)
qed

lemma scan_source_keeps:
  assumes run: "scan_source (length raws) raw st = Inr st'" and st: "scanned retain_inline prefix raws st"
  shows "scanned retain_inline prefix (raws @ [raw]) st'"
proof -
  obtain s e where s: "validate_source (length raws) raw = Inr s" and fresh: "is_source_id s \<notin> seen_values (sc_ids st)"
    and e: "inventory_source_json (is_object s) = Inr e"
    and st': "st' = \<lparr>sc_ids = snd (unique_add (is_source_id s) (sc_ids st)), sc_hasher = sc_hasher st @ separator (length raws) @ e,
      sc_inline = fst (copy_inline (length raws) e st), sc_inline_bytes = snd (copy_inline (length raws) e st),
      sc_sources = sc_sources st @ [s]\<rparr>"
    using run by (auto simp: scan_source_def Let_def tx_simps check_simps unique_add_exact)
  have e_def: "e = encode_json (JObj (is_object s))"
    using e by (auto simp: inventory_source_json_def canonical_json_def Let_def split: if_split_asm)
  have raws: "raws = [] \<longleftrightarrow> sc_sources st = []" using st by (auto simp: scanned_def)
  have texts: "source_texts (sc_sources st @ [s]) = source_texts (sc_sources st) @ separator (length raws) @ e"
    using raws by (auto simp: source_texts_def join_snoc separator_def e_def)
  define old where "old = utf8_size prefix + 2 + utf8_size (source_texts (sc_sources st))"
  have sources': "source_texts (sc_sources st') = source_texts (sc_sources st) @ separator (length raws) @ e"
    by (simp add: st' texts)
  have new: "utf8_size prefix + 2 + utf8_size (source_texts (sc_sources st')) = old + (utf8_size (separator (length raws)) + utf8_size e)"
    by (simp add: sources' old_def)
  have before: "sc_inline st = (if retain_inline \<and> old \<le> max_inventory_json_bytes then Some (prefix @ source_texts (sc_sources st)) else None)"
    "sc_inline st \<noteq> None \<longrightarrow> sc_inline_bytes st = old"
    using st unfolding scanned_def old_def by blast+
  have inline: "sc_inline st' = (if retain_inline \<and> old + (utf8_size (separator (length raws)) + utf8_size e) \<le> max_inventory_json_bytes
         then Some (prefix @ source_texts (sc_sources st')) else None)"
    "sc_inline st' \<noteq> None \<longrightarrow> sc_inline_bytes st' = old + (utf8_size (separator (length raws)) + utf8_size e)"
    using copy_inline_exact [OF before, of "length raws" e] unfolding sources' by (simp_all add: st')
  have parts: "raws = map (JObj \<circ> is_object) (sc_sources st)" "map is_ordinal (sc_sources st) = map int [0..<length raws]"
    "seen_values (sc_ids st) = is_source_id ` set (sc_sources st)" "distinct (map is_source_id (sc_sources st))"
    "sc_hasher st = inventory_hasher @ source_texts (sc_sources st)"
    using st unfolding scanned_def by blast+
  have "raws @ [raw] = map (JObj \<circ> is_object) (sc_sources st')"
    using parts(1) validate_source_facts [OF s] by (simp add: st')
  moreover have "map is_ordinal (sc_sources st') = map int [0..<length (raws @ [raw])]"
    using parts(2) validate_source_facts [OF s] by (simp add: st')
  moreover have "seen_values (sc_ids st') = is_source_id ` set (sc_sources st')"
    using parts(3) by (simp add: st' unique_add_exact)
  moreover have "distinct (map is_source_id (sc_sources st'))"
    using parts(3,4) fresh by (simp add: st')
  moreover have "sc_hasher st' = inventory_hasher @ source_texts (sc_sources st')"
    using parts(5) by (simp add: st' texts)
  ultimately show ?thesis using inline unfolding scanned_def new by blast
qed

lemma scan_sources_keeps:
  "scan_sources (length done_raws) raws st = Inr st' \<Longrightarrow> scanned retain_inline prefix done_raws st \<Longrightarrow>
     scanned retain_inline prefix (done_raws @ raws) st'"
proof (induction raws arbitrary: done_raws st)
  case (Cons raw raws)
  then obtain st1 where one: "scan_source (length done_raws) raw st = Inr st1"
    and rest: "scan_sources (length (done_raws @ [raw])) raws st1 = Inr st'"
    by (auto simp: tx_simps)
  show ?case using Cons.IH [OF rest scan_source_keeps [OF one Cons.prems(2)]] by simp
qed simp

text \<open>The canonical text of the envelope: its four keys are already in order.\<close>

lemma sort_four:
  assumes keys: "distinct (map fst kvs)" and kvs: "set kvs = {(''digest'', a), (''schema_version'', b), (''sealed'', c), (''sources'', d)}"
  shows "sort_key fst kvs = [(''digest'', a), (''schema_version'', b), (''sealed'', c), (''sources'', d)]" (is "_ = ?four")
proof (rule map_sorted_distinct_set_unique [where f = fst])
  show "inj_on fst (set (sort_key fst kvs) \<union> set ?four)" using keys kvs by (simp add: distinct_map)
  show "sorted (map fst (sort_key fst kvs))" by (rule sorted_sort_key)
  show "distinct (map fst (sort_key fst kvs))" using keys by (simp add: distinct_map)
  show "sorted (map fst ?four)" "distinct (map fst ?four)" by code_simp+
  show "set (sort_key fst kvs) = set ?four" using kvs by simp
qed

lemma json_object_members:
  assumes "json_object names names value = Inr obj" and "distinct (map fst obj)"
  shows "value = JObj obj" and "set obj = (\<lambda>k. (k, field obj k)) ` set names"
proof -
  show "value = JObj obj" using assms(1) by (auto simp: json_object_def split: jval.split_asm if_split_asm)
  have keys: "fst ` set obj = set names"
    using assms(1) by (force simp: json_object_def list_all_iff has_field_def jget_def map_of_eq_None_iff
        split: jval.split_asm if_split_asm)
  have "field obj k = v" if "(k, v) \<in> set obj" for k v
    using assms(2) that by (simp add: field_def jget_def)
  then show "set obj = (\<lambda>k. (k, field obj k)) ` set names"
    unfolding keys [symmetric] by (force simp: image_iff)
qed

lemma envelope_text:
  assumes obj: "json_object [''schema_version'', ''sealed'', ''digest'', ''sources'']
       [''schema_version'', ''sealed'', ''digest'', ''sources''] value = Inr obj" and keys: "distinct (map fst obj)"
    and parts: "jtext (field obj ''digest'') = Some digest" "jtext (field obj ''schema_version'') = Some INVENTORY_SCHEMA_VERSION"
      "field obj ''sealed'' = JBool True" "field obj ''sources'' = JArr raws"
  shows "encode_json value = inline_prefix digest @ join_with '','' (map encode_json raws) @ '']'' @ [CHR 0x7D]"
proof -
  have enc: "encode_json v = quote_string s" if "jtext v = Some s" for v s
    using that by (auto simp: jtext_def split: jval.split_asm)
  let ?es = "map (\<lambda>(k, v). (k, encode_json v)) obj"
  have "set ?es = {(''digest'', quote_string digest), (''schema_version'', quote_string INVENTORY_SCHEMA_VERSION), (''sealed'', ''true''),
      (''sources'', ''['' @ join_with '','' (map encode_json raws) @ '']'')}"
    using enc [OF parts(1)] enc [OF parts(2)] parts(3,4) unfolding set_map json_object_members(2) [OF obj keys] by auto
  moreover have "distinct (map fst ?es)" using keys by (simp add: comp_def split_beta)
  ultimately have "sort_key fst ?es = [(''digest'', quote_string digest), (''schema_version'', quote_string INVENTORY_SCHEMA_VERSION),
      (''sealed'', ''true''), (''sources'', ''['' @ join_with '','' (map encode_json raws) @ '']'')]"
    by (intro sort_four)
  then show ?thesis unfolding json_object_members(1) [OF obj keys] encode_json.simps inline_prefix_def by simp
qed

lemma inline_prefix_small: "sha256_re digest \<Longrightarrow> utf8_size (inline_prefix digest) + 2 \<le> max_inventory_json_bytes"
proof -
  assume "sha256_re digest"
  then have "length digest = 71" by (simp add: sha256_re_def)
  then have "utf8_size (quote_string digest) \<le> 1000" using utf8_size_quote [of digest] by simp
  moreover have "utf8_size (quote_string ''digest'') \<le> 1000" "utf8_size (quote_string ''schema_version'') \<le> 1000"
    "utf8_size (quote_string INVENTORY_SCHEMA_VERSION) \<le> 1000" "utf8_size (quote_string ''sealed'') \<le> 1000"
    "utf8_size (quote_string ''sources'') \<le> 1000"
    using utf8_size_quote [of "''digest''"] utf8_size_quote [of "''schema_version''"] utf8_size_quote [of INVENTORY_SCHEMA_VERSION]
      utf8_size_quote [of "''sealed''"] utf8_size_quote [of "''sources''"] by (simp_all add: INVENTORY_SCHEMA_VERSION_def)
  ultimately show ?thesis
    unfolding inline_prefix_def utf8_size_append by (simp add: utf8_size_Cons code_of_def max_inventory_json_bytes_def)
qed

text \<open>
  C28. Reading an inventory as a stream loses nothing. For every inventory that validates,
  the digest it declares is the hash of the canonical text of its whole array of sources; the
  sources come back in order, numbered from zero and with distinct identifiers, however many
  spilled out of memory; and the inline text, counted and copied source by source, is the
  canonical text of the whole inventory exactly when the sources were in memory and that text
  is within the limit, and is absent otherwise.
\<close>

theorem inventory_streaming:
  assumes "validate_inventory sha retain_inline (JObj obj) = Inr (digest, inline, srcs)" and "distinct (map fst obj)"
  shows "digest = ''sha256:'' @ sha (''metnos:durable-inventory:1'' @ [CHR 0x00] @ encode_json (JArr (map (JObj \<circ> is_object) srcs))) \<and>
    field obj ''sources'' = JArr (map (JObj \<circ> is_object) srcs) \<and>
    map is_ordinal srcs = map int [0..<length srcs] \<and> distinct (map is_source_id srcs) \<and>
    inline = (if retain_inline \<and> utf8_size (encode_json (JObj obj)) \<le> max_inventory_json_bytes
              then Some (encode_json (JObj obj)) else None)"
proof -
  obtain raws st where obj: "json_object [''schema_version'', ''sealed'', ''digest'', ''sources'']
       [''schema_version'', ''sealed'', ''digest'', ''sources''] (JObj obj) = Inr obj"
    and members: "jtext (field obj ''schema_version'') = Some INVENTORY_SCHEMA_VERSION" "field obj ''sealed'' = JBool True"
      "field obj ''sources'' = JArr raws" "json_digest (field obj ''digest'') = Inr digest"
    and scan: "scan_sources 0 raws \<lparr>sc_ids = InMemory [], sc_hasher = inventory_hasher,
        sc_inline = (if retain_inline then Some (inline_prefix digest) else None),
        sc_inline_bytes = utf8_size (inline_prefix digest) + 2, sc_sources = []\<rparr> = Inr st"
    and digest: "digest = ''sha256:'' @ sha (sc_hasher st @ '']'')" and srcs: "srcs = sc_sources st"
    and inline: "inline = map_option (\<lambda>buffer. buffer @ '']'' @ [CHR 0x7D]) (sc_inline st)"
    using assms(1) unfolding validate_inventory_def Let_def tx_simps check_simps
    by (elim exE conjE) (auto simp: json_object_def json_array_def split: jval.split_asm if_split_asm)
  have d: "jtext (field obj ''digest'') = Some digest" "sha256_re digest"
    using members(4) by (auto simp: json_digest_def split: option.split_asm if_split_asm)
  have "scanned retain_inline (inline_prefix digest) []
      \<lparr>sc_ids = InMemory [], sc_hasher = inventory_hasher, sc_inline = (if retain_inline then Some (inline_prefix digest) else None),
        sc_inline_bytes = utf8_size (inline_prefix digest) + 2, sc_sources = []\<rparr>"
    using inline_prefix_small [OF d(2)] by (simp add: scanned_def source_texts_def seen_values_def)
  from scan_sources_keeps [OF _ this] scan have "scanned retain_inline (inline_prefix digest) raws st" by simp
  then have raws: "raws = map (JObj \<circ> is_object) srcs" and "map is_ordinal srcs = map int [0..<length raws]" "distinct (map is_source_id srcs)"
    and hasher: "sc_hasher st = inventory_hasher @ source_texts srcs"
    and kept: "sc_inline st = (if retain_inline \<and> utf8_size (inline_prefix digest) + 2 + utf8_size (source_texts srcs) \<le> max_inventory_json_bytes
                     then Some (inline_prefix digest @ source_texts srcs) else None)"
    unfolding scanned_def srcs by blast+
  moreover have texts: "join_with '','' (map encode_json raws) = source_texts srcs"
    unfolding raws source_texts_def by (simp add: comp_def)
  have whole: "encode_json (JObj obj) = inline_prefix digest @ source_texts srcs @ '']'' @ [CHR 0x7D]"
    using envelope_text [OF obj assms(2) d(1) members(1-3)] unfolding texts .
  have "utf8_size (encode_json (JObj obj)) = utf8_size (inline_prefix digest) + 2 + utf8_size (source_texts srcs)"
    unfolding whole utf8_size_append by (simp add: utf8_size_Cons code_of_def)
  then have "inline = (if retain_inline \<and> utf8_size (encode_json (JObj obj)) \<le> max_inventory_json_bytes
              then Some (encode_json (JObj obj)) else None)"
    unfolding inline kept by (simp add: whole del: encode_json.simps)
  moreover have "encode_json (JArr (map (JObj \<circ> is_object) srcs)) = ''['' @ source_texts srcs @ '']''"
    unfolding raws [symmetric] encode_json.simps texts ..
  ultimately show ?thesis
    using digest members(3) unfolding hasher inventory_hasher_def by (simp del: encode_json.simps)
qed

definition zero_digest :: string where
  "zero_digest = ''sha256:'' @ replicate 64 (CHR ''0'')"

definition zero_sha :: "string \<Rightarrow> string" where
  "zero_sha _ = replicate 64 (CHR ''0'')"

definition example_source_json :: "int \<Rightarrow> string \<Rightarrow> jval" where
  "example_source_json ordinal source_id = JObj
     [(''source_id'', JStr source_id), (''ordinal'', JInt ordinal), (''device_id'', JStr ''server''), (''locator_redacted'', JStr ''a''),
      (''kind'', JStr ''file''), (''size_bytes'', JInt 10), (''mtime_ns'', JInt 5), (''content_digest'', JStr zero_digest),
      (''state'', JStr ''ready''), (''accounted'', JBool True)]"

definition example_inventory :: jobj where
  "example_inventory =
     [(''schema_version'', JStr ''metnos.durable-inventory/1''), (''sealed'', JBool True), (''digest'', JStr zero_digest),
      (''sources'', JArr [example_source_json 0 ''source-a'', example_source_json 1 ''source-b''])]"

lemma example_inventory_valid:
  "succeeds_with (validate_inventory zero_sha True (JObj example_inventory))
     (\<lambda>(digest, inline, srcs). map is_source_id srcs = [''source-a'', ''source-b''] \<and> inline \<noteq> None)"
  by code_simp

theorem inventory_streaming_witness:
  "\<exists>digest srcs. validate_inventory zero_sha True (JObj example_inventory) = Inr (digest, Some (encode_json (JObj example_inventory)), srcs) \<and>
     map is_source_id srcs = [''source-a'', ''source-b'']"
proof -
  obtain r where "validate_inventory zero_sha True (JObj example_inventory) = Inr r"
    and seen: "(\<lambda>(digest, inline, srcs). map is_source_id srcs = [''source-a'', ''source-b''] \<and> inline \<noteq> None) r"
    by (rule succeeds_withE [OF example_inventory_valid])
  moreover obtain digest inline srcs where r: "r = (digest, inline, srcs)" by (cases r)
  ultimately have run: "validate_inventory zero_sha True (JObj example_inventory) = Inr (digest, inline, srcs)" by simp
  have keys: "distinct (map fst example_inventory)" by (simp add: example_inventory_def)
  have "inline = Some (encode_json (JObj example_inventory))"
    using inventory_streaming [OF run keys] seen r by (auto split: if_split_asm simp del: encode_json.simps)
  then show ?thesis using run seen r by (intro exI [of _ digest] exI [of _ srcs]) (simp del: encode_json.simps)
qed

end
