(* ===== verification/Admission.thy ===== *)
theory Admission
  imports Inventory Workloads
begin

text \<open>
  The admission of a revision (\<open>admit_revision\<close> of \<open>storage.py\<close>): the plan and the inventory
  are validated and checked against each other, the policy names the invalidation digests of
  the stages, and one transaction inserts the revision with its usage, stages, placements,
  dependencies, sources, initial units and progress rows, seals it, and moves the draft to
  admitted. The rows of an admission that was already made are found again by their digests.
\<close>

section \<open>Before the transaction\<close>

record revision_record =
  rr_owner :: string
  rr_id :: ident
  rr_workload :: ident
  rr_number :: int
  rr_plan_digest :: string
  rr_inventory_digest :: "string option"
  rr_inventory_sealed :: bool
  rr_expected_source_count :: int
  rr_admitted_at :: "instant option"

definition row_to_revision :: "revision_row \<Rightarrow> revision_record" where
  "row_to_revision r =
     \<lparr>rr_owner = r_owner r, rr_id = r_id r, rr_workload = r_workload r, rr_number = r_number r, rr_plan_digest = r_plan_digest r,
      rr_inventory_digest = r_inventory_digest r, rr_inventory_sealed = r_inventory_sealed r,
      rr_expected_source_count = r_expected_source_count r, rr_admitted_at = r_admitted_at r\<rparr>"

record admission =
  ad_plan :: plan
  ad_digest :: string
  ad_inventory_hash :: string
  ad_inventory_text :: "string option"
  ad_sources :: "inventory_source list"
  ad_catalog :: jobj
  ad_policy :: jobj
  ad_invalidation :: "(string \<times> string) list"
  ad_caps_truncated :: bool
  ad_partial_output_accepted :: bool
  ad_usage_complete :: bool

definition binds_inventory :: "plan_stage \<Rightarrow> bool" where
  "binds_inventory ps \<longleftrightarrow> list_ex (\<lambda>(_, reference). jtext (field reference ''ref'') = Some ''revision.inventory'') (ps_bindings ps)"

definition undersized :: "int \<Rightarrow> plan_stage \<Rightarrow> bool" where
  "undersized source_count ps \<longleftrightarrow>
     ps_required ps \<and> cc_mode (ps_cardinality ps) = ''per_source'' \<and> cc_max_units (ps_cardinality ps) < source_count"

text \<open>The sealed inventory against the plan.\<close>

definition check_inventory :: "plan \<Rightarrow> string option \<Rightarrow> inventory_source list \<Rightarrow> unit result" where
  "check_inventory p inline srcs =
     bindE (schema_check (int (length srcs) \<le> ic_max_sources (pl_inventory p))) (\<lambda>_.
     bindE (schema_check (sum_list (map is_size_bytes srcs) \<le> ic_max_total_bytes (pl_inventory p))) (\<lambda>_.
     bindE (schema_check (\<not> (inline = None \<and> list_ex (\<lambda>ps. ps_type ps \<noteq> S_INVENTORY \<and> binds_inventory ps) (pl_stages p)))) (\<lambda>_.
     schema_check (\<not> list_ex (undersized (int (length srcs))) (pl_stages p)))))"

fun invalidation_rules :: "jval list \<Rightarrow> (string \<times> string) list \<Rightarrow> (string \<times> string) list result" where
  "invalidation_rules [] by_stage = Inr by_stage"
| "invalidation_rules (rule # rules) by_stage =
     (case rule of
        JObj obj \<Rightarrow>
          if field obj ''invalidation_digest'' = JNull then invalidation_rules rules by_stage
          else (case (jtext (field obj ''stage_key''), jtext (field obj ''invalidation_digest'')) of
             (Some stage_key, Some digest) \<Rightarrow>
               if sha256_re digest \<and> stage_key \<notin> fst ` set by_stage
               then invalidation_rules rules (by_stage @ [(stage_key, digest)])
               else Inl SchemaValidationError
           | _ \<Rightarrow> Inl SchemaValidationError)
      | _ \<Rightarrow> Inl SchemaValidationError)"

definition default_snapshot :: "string \<Rightarrow> string \<Rightarrow> jval" where
  "default_snapshot version key = JObj [(''schema_version'', JStr version), (key, JArr [])]"

definition snapshot :: "string \<Rightarrow> string \<Rightarrow> jval option \<Rightarrow> jobj result" where
  "snapshot version key given_value =
     (case (case given_value of None \<Rightarrow> default_snapshot version key | Some v \<Rightarrow> v) of
        JObj obj \<Rightarrow> if jtext (field obj ''schema_version'') = Some version then Inr obj else Inl SchemaValidationError
      | _ \<Rightarrow> Inl SchemaValidationError)"

definition policy_rules :: "jobj \<Rightarrow> jval list result" where
  "policy_rules policy =
     (case jget policy ''rules'' of
        None \<Rightarrow> Inr []
      | Some (JArr rules) \<Rightarrow> if length rules > 64 then Inl SchemaValidationError else Inr rules
      | _ \<Rightarrow> Inl SchemaValidationError)"

text \<open>After the validations: the checks across them and the snapshots.\<close>

definition assemble_admission ::
  "plan \<Rightarrow> string \<Rightarrow> string \<times> string option \<times> inventory_source list \<Rightarrow> jval option \<Rightarrow> jval option
     \<Rightarrow> bool \<Rightarrow> bool \<Rightarrow> bool \<Rightarrow> admission result" where
  "assemble_admission p digest sealed catalog_snapshot policy_snapshot caps_truncated partial_output usage_complete =
     (case sealed of (inventory_hash, inline, srcs) \<Rightarrow>
     bindE (check_inventory p inline srcs) (\<lambda>_.
     bindE (snapshot ''metnos.catalog-snapshot/1'' ''entries'' catalog_snapshot) (\<lambda>catalog.
     bindE (snapshot ''metnos.policy-snapshot/1'' ''rules'' policy_snapshot) (\<lambda>policy.
     bindE (policy_rules policy) (\<lambda>rules.
     bindE (invalidation_rules rules []) (\<lambda>by_stage.
     bindE (canonical_json (JObj catalog) max_snapshot_json_bytes) (\<lambda>_.
     bindE (canonical_json (JObj policy) max_snapshot_json_bytes) (\<lambda>_.
     Inr \<lparr>ad_plan = p, ad_digest = digest, ad_inventory_hash = inventory_hash, ad_inventory_text = inline, ad_sources = srcs,
          ad_catalog = catalog, ad_policy = policy, ad_invalidation = by_stage, ad_caps_truncated = caps_truncated,
          ad_partial_output_accepted = partial_output, ad_usage_complete = usage_complete\<rparr>))))))))"

definition prepare_admission ::
  "(string \<Rightarrow> string) \<Rightarrow> bool \<Rightarrow> jval \<Rightarrow> jval \<Rightarrow> jval option \<Rightarrow> jval option \<Rightarrow> bool \<Rightarrow> bool \<Rightarrow> bool \<Rightarrow> admission result" where
  "prepare_admission sha retain_inline plan inventory catalog_snapshot policy_snapshot caps_truncated partial_output usage_complete =
     bindE (validate_plan plan) (\<lambda>p.
     bindE (plan_digest sha plan) (\<lambda>digest.
     bindE (validate_inventory sha retain_inline inventory) (\<lambda>sealed.
     assemble_admission p digest sealed catalog_snapshot policy_snapshot caps_truncated partial_output usage_complete)))"

text \<open>Two more columns of the revision are encoded after its identifier is chosen.\<close>

definition revision_columns :: "jval \<Rightarrow> plan \<Rightarrow> unit result" where
  "revision_columns plan p =
     bindE (canonical_json (JArr (map JStr (pl_allowed_errors p))) max_event_json_bytes) (\<lambda>_.
     bindE (canonical_json (case plan of JObj obj \<Rightarrow> field obj ''required_artifacts'' | _ \<Rightarrow> JNull) max_event_json_bytes) (\<lambda>_. Inr ()))"

section \<open>The rows\<close>

definition new_revision :: "string \<Rightarrow> ident \<Rightarrow> ident \<Rightarrow> int \<Rightarrow> admission \<Rightarrow> revision_row" where
  "new_revision owner workload_id revision_id number ad =
     \<lparr>r_owner = owner, r_id = revision_id, r_workload = workload_id, r_number = number, r_budgets = pl_budgets (ad_plan ad),
      r_plan_digest = ad_digest ad, r_catalog = ad_catalog ad, r_inventory_digest = Some (ad_inventory_hash ad),
      r_inventory_sealed = True, r_expected_source_count = int (length (ad_sources ad)), r_caps_truncated = ad_caps_truncated ad,
      r_partial_output_accepted = ad_partial_output_accepted ad, r_usage_complete = ad_usage_complete ad,
      r_failure_policy = pl_error_mode (ad_plan ad), r_tolerated_error_classes = pl_allowed_errors (ad_plan ad),
      r_required_artifacts = pl_artifacts (ad_plan ad), r_admitted_at = None, r_manual_retry_generation = 0,
      r_policy = ad_policy ad, r_inventory_text = ad_inventory_text ad\<rparr>"

definition new_usage :: "string \<Rightarrow> ident \<Rightarrow> instant \<Rightarrow> usage_row" where
  "new_usage owner revision_id t =
     \<lparr>us_owner = owner, us_revision = revision_id, us_input_bytes = 0, us_output_bytes = 0, us_input_tokens = 0,
      us_output_tokens = 0, us_cost_micros = 0, us_usage_unknown = False, us_artifact_count = 0, us_started_at = None,
      us_clock_high_water_at = None, us_updated_at = t\<rparr>"

definition new_stage :: "string \<Rightarrow> ident \<Rightarrow> ident \<Rightarrow> int \<Rightarrow> string \<Rightarrow> plan_stage \<Rightarrow> stage_row" where
  "new_stage owner revision_id stage_id position digest ps =
     \<lparr>s_owner = owner, s_id = stage_id, s_revision = revision_id, s_key = ps_key ps, s_position = position, s_type = ps_type ps,
      s_runner_kind = fst (ps_runner ps), s_runner_name = snd (ps_runner ps), s_effect = ps_effect ps,
      s_cardinality = cc_mode (ps_cardinality ps), s_max_units = cc_max_units (ps_cardinality ps),
      s_output_schema = ps_output_schema ps, s_retry = ps_retry ps, s_timeout_s = ps_timeout_s ps,
      s_resources = ps_resources ps, s_required = ps_required ps, s_reduction_fan_in = cc_fan_in (ps_cardinality ps),
      s_invalidation_digest = digest, s_reduction_max_input_bytes = cc_max_input_bytes (ps_cardinality ps),
      s_entry_identity_field = cc_entry_identity_field (ps_cardinality ps), s_bindings = ps_bindings ps,
      s_reduction_input = cc_reduction_input (ps_cardinality ps)\<rparr>"

definition new_placement :: "string \<Rightarrow> ident \<Rightarrow> ident \<Rightarrow> plan_stage \<Rightarrow> placement_row list" where
  "new_placement owner revision_id stage_id ps =
     (case ps_placement ps of
        None \<Rightarrow> []
      | Some (target, device) \<Rightarrow>
          [\<lparr>pm_owner = owner, pm_revision = revision_id, pm_stage = stage_id, pm_target = target, pm_device = device\<rparr>])"

text \<open>The JSON columns of a stage are encoded on the way.\<close>

definition stage_columns :: "plan_stage \<Rightarrow> unit result" where
  "stage_columns ps =
     bindE (canonical_json (field (ps_object ps) ''input_bindings'') max_plan_json_bytes) (\<lambda>_.
     bindE (canonical_json (field (ps_object ps) ''output_schema'') max_event_json_bytes) (\<lambda>_.
     bindE (canonical_json (field (ps_object ps) ''retry'') max_event_json_bytes) (\<lambda>_.
     bindE (canonical_json (field (ps_object ps) ''invalidation_keys'') max_event_json_bytes) (\<lambda>_.
     bindE (canonical_json (field (ps_object ps) ''resources'') max_event_json_bytes) (\<lambda>_. Inr ())))))"

text \<open>\<open>stage_ids\<close> and \<open>stage_invalidation_digests\<close>, by stage key.\<close>

type_synonym stage_names = "(string \<times> ident \<times> string) list"

definition stage_id_of :: "stage_names \<Rightarrow> string \<Rightarrow> ident" where
  "stage_id_of names key = (case map_of names key of None \<Rightarrow> [] | Some (stage_id, _) \<Rightarrow> stage_id)"

definition stage_digest_of :: "stage_names \<Rightarrow> string \<Rightarrow> string" where
  "stage_digest_of names key = (case map_of names key of None \<Rightarrow> [] | Some (_, digest) \<Rightarrow> digest)"

definition insert_stage ::
  "(string \<Rightarrow> string) \<Rightarrow> string \<Rightarrow> ident \<Rightarrow> (string \<times> string) list \<Rightarrow> int \<Rightarrow> plan_stage \<Rightarrow> db
     \<Rightarrow> ((ident \<times> string) \<times> db) result" where
  "insert_stage sha owner revision_id by_stage position ps d =
     (let (stage_id, d1) = new_id ''stg'' d in
      bindE (case map_of by_stage (ps_key ps) of
          Some digest \<Rightarrow> Inr digest
        | None \<Rightarrow> digest_json sha ''durable-stage-invalidation'' (JObj [(''stage'', JObj (ps_object ps))]) max_plan_json_bytes) (\<lambda>digest.
      bindE (stage_columns ps) (\<lambda>_.
      if exists_where (\<lambda>s. s_owner s = owner \<and> s_id s = stage_id) (stages d1) then Inl IntegrityError
      else Inr ((stage_id, digest),
        d1\<lparr>stages := stages d1 @ [new_stage owner revision_id stage_id position digest ps],
           stage_placements := stage_placements d1 @ new_placement owner revision_id stage_id ps\<rparr>))))"

fun insert_stages ::
  "(string \<Rightarrow> string) \<Rightarrow> string \<Rightarrow> ident \<Rightarrow> (string \<times> string) list \<Rightarrow> nat \<Rightarrow> plan_stage list \<Rightarrow> db \<Rightarrow> (stage_names \<times> db) result" where
  "insert_stages sha owner revision_id by_stage position [] d = Inr ([], d)"
| "insert_stages sha owner revision_id by_stage position (ps # pss) d =
     bindE (insert_stage sha owner revision_id by_stage (int position) ps d) (\<lambda>(row, d1).
     bindE (insert_stages sha owner revision_id by_stage (position + 1) pss d1) (\<lambda>(names, d2).
     Inr ((ps_key ps, row) # names, d2)))"

definition new_stage_dependencies :: "string \<Rightarrow> ident \<Rightarrow> stage_names \<Rightarrow> plan_stage \<Rightarrow> stage_dependency_row list" where
  "new_stage_dependencies owner revision_id names ps =
     map (\<lambda>(ordinal, key). \<lparr>sd_owner = owner, sd_revision = revision_id, sd_stage = stage_id_of names (ps_key ps),
         sd_depends_on = stage_id_of names key, sd_ordinal = int ordinal\<rparr>)
       (enumerate 0 (ps_depends_on ps))"

section \<open>Initial units\<close>

definition inventory_stage_key :: "plan_stage list \<Rightarrow> string" where
  "inventory_stage_key pss = (case find (\<lambda>ps. ps_type ps = S_INVENTORY) pss of None \<Rightarrow> [] | Some ps \<Rightarrow> ps_key ps)"

text \<open>A stage that depends on nothing but the inventory.\<close>

definition depends_on_inventory :: "plan_stage list \<Rightarrow> plan_stage \<Rightarrow> bool" where
  "depends_on_inventory pss ps \<longleftrightarrow> set (ps_depends_on ps) - {inventory_stage_key pss} = {}"

definition initial_stages :: "plan_stage list \<Rightarrow> plan_stage list" where
  "initial_stages pss = filter (\<lambda>ps. ps_type ps \<noteq> S_INVENTORY \<and> depends_on_inventory pss ps) pss"

definition initial_semantic :: "stage_names \<Rightarrow> plan_stage \<Rightarrow> inventory_source option \<Rightarrow> jval" where
  "initial_semantic names ps source =
     JObj [(''stage_key'', JStr (ps_key ps)), (''stage_invalidation_digest'', JStr (stage_digest_of names (ps_key ps))),
       (''source_digest'', case source of None \<Rightarrow> JNull | Some s \<Rightarrow> JStr (is_content_digest s)),
       (''source_id'', case source of None \<Rightarrow> JNull | Some s \<Rightarrow> JStr (is_source_id s))]"

definition initial_unit :: "string \<Rightarrow> ident \<Rightarrow> ident \<Rightarrow> ident \<Rightarrow> string \<Rightarrow> ident option \<Rightarrow> instant \<Rightarrow> unit_row" where
  "initial_unit owner revision_id stage_id unit_id key source_row t =
     \<lparr>u_owner = owner, u_id = unit_id, u_revision = revision_id, u_stage = stage_id, u_key = key, u_state = U_PENDING,
      u_attempt_count = 0, u_expected_dependency_count = 0, u_next_attempt_at = None, u_lease_worker = None,
      u_active_attempt = None, u_fence = 0, u_lease_expires_at = None, u_committed_result = None, u_error_class = None,
      u_partial_output = False, u_terminal_detail = None, u_manual_retry_tokens = 0, u_manual_retry_generation = 0,
      u_reduction_level = None, u_created_at = t, u_updated_at = t, u_source_row = source_row, u_shard_key = None,
      u_reduction_ordinal = None, u_reduction_root = False\<rparr>"

text \<open>
  \<open>stage_unit_counts\<close> is kept as the list of the stage keys counted so far.
\<close>

definition insert_initial_unit ::
  "(string \<Rightarrow> string) \<Rightarrow> string \<Rightarrow> ident \<Rightarrow> stage_names \<Rightarrow> instant \<Rightarrow> inventory_source option \<Rightarrow> ident option \<Rightarrow> plan_stage
     \<Rightarrow> string list \<times> db \<Rightarrow> (string list \<times> db) result" where
  "insert_initial_unit sha owner revision_id names t source source_row ps st =
     (case st of (counts, d) \<Rightarrow>
      bindE (digest_json sha ''durable-unit-key'' (initial_semantic names ps source) max_plan_json_bytes) (\<lambda>key.
      let (unit_id, d1) = new_id ''unt'' d; stage_id = stage_id_of names (ps_key ps) in
      if exists_where (\<lambda>u. unit_at owner unit_id u \<or>
           u_owner u = owner \<and> u_revision u = revision_id \<and> u_stage u = stage_id \<and> u_key u = key) (units d1)
      then Inl IntegrityError
      else Inr (ps_key ps # counts,
        d1\<lparr>units := units d1 @ [initial_unit owner revision_id stage_id unit_id key source_row t]\<rparr>)))"

definition max_sqlite_integer :: int where "max_sqlite_integer = 9223372036854775807"

definition new_source :: "string \<Rightarrow> ident \<Rightarrow> ident \<Rightarrow> inventory_source \<Rightarrow> source_row" where
  "new_source owner revision_id source_row s =
     \<lparr>src_owner = owner, src_id = source_row, src_revision = revision_id, src_state = is_state s, src_accounted = is_accounted s,
      src_source_id = is_source_id s, src_ordinal = is_ordinal s, src_content_digest = is_content_digest s,
      src_device_id = is_device_id s, src_locator_redacted = is_locator_redacted s, src_kind = is_kind s,
      src_size_bytes = is_size_bytes s, src_mtime_ns = is_mtime_ns s\<rparr>"

text \<open>The loop body over the sources: the row, then a unit for every initial stage with one unit per source.\<close>

definition insert_source ::
  "(string \<Rightarrow> string) \<Rightarrow> string \<Rightarrow> ident \<Rightarrow> stage_names \<Rightarrow> instant \<Rightarrow> plan_stage list \<Rightarrow> inventory_source
     \<Rightarrow> string list \<times> db \<Rightarrow> (string list \<times> db) result" where
  "insert_source sha owner revision_id names t per_source s st =
     (case st of (counts, d) \<Rightarrow>
      let (source_row, d1) = new_id ''src'' d in
      if is_size_bytes s > max_sqlite_integer \<or> is_mtime_ns s > max_sqlite_integer then Inl OverflowError
      else if exists_where (\<lambda>x. src_owner x = owner \<and> src_id x = source_row) (sources d1) then Inl IntegrityError
      else foldE (insert_initial_unit sha owner revision_id names t (Some s) (Some source_row)) per_source
             (counts, d1\<lparr>sources := sources d1 @ [new_source owner revision_id source_row s]\<rparr>))"

definition new_progress :: "string \<Rightarrow> ident \<Rightarrow> ident \<Rightarrow> bool \<Rightarrow> int \<Rightarrow> instant \<Rightarrow> materialization_row" where
  "new_progress owner revision_id stage_id completed unit_count t =
     \<lparr>m_owner = owner, m_revision = revision_id, m_stage = stage_id, m_completed = completed, m_attention_code = None,
      m_source_ordinal = - 1, m_parent_position = - 1, m_parent_unit = None, m_entry_offset = - 1, m_legacy_replay = False,
      m_unit_count = unit_count, m_reduction_level = 0, m_reduction_ordinal = - 1, m_reduction_waiting = False,
      m_reduction_input_count = - 1, m_updated_at = t\<rparr>"

definition insert_progress ::
  "string \<Rightarrow> ident \<Rightarrow> stage_names \<Rightarrow> string list \<Rightarrow> instant \<Rightarrow> plan_stage list \<Rightarrow> db \<Rightarrow> db result" where
  "insert_progress owner revision_id names counts t pss d =
     (let rows = map (\<lambda>ps. new_progress owner revision_id (stage_id_of names (ps_key ps))
            (ps_type ps = S_INVENTORY \<or> depends_on_inventory pss ps) (int (count_list counts (ps_key ps))) t) pss
      in if exists_where (\<lambda>m. m_owner m = owner \<and> m_revision m = revision_id \<and> m_stage m \<in> set (map m_stage rows))
              (stage_materialization d)
         then Inl IntegrityError
         else Inr (d\<lparr>stage_materialization := stage_materialization d @ rows\<rparr>))"

section \<open>The transaction\<close>

definition same_admission :: "string \<Rightarrow> ident \<Rightarrow> admission \<Rightarrow> revision_row \<Rightarrow> bool" where
  "same_admission owner workload_id ad r \<longleftrightarrow>
     r_owner r = owner \<and> r_workload r = workload_id \<and> r_plan_digest r = ad_digest ad \<and>
     r_inventory_digest r = Some (ad_inventory_hash ad)"

definition same_inputs :: "admission \<Rightarrow> revision_row \<Rightarrow> bool" where
  "same_inputs ad r \<longleftrightarrow>
     encode_json (JObj (r_catalog r)) = encode_json (JObj (ad_catalog ad)) \<and>
     encode_json (JObj (r_policy r)) = encode_json (JObj (ad_policy ad)) \<and> r_caps_truncated r = ad_caps_truncated ad \<and>
     r_partial_output_accepted r = ad_partial_output_accepted ad \<and> r_usage_complete r = ad_usage_complete ad"

definition next_number :: "string \<Rightarrow> ident \<Rightarrow> db \<Rightarrow> int" where
  "next_number owner workload_id d =
     (case map r_number (filter (\<lambda>r. r_owner r = owner \<and> r_workload r = workload_id) (revisions d)) of
        [] \<Rightarrow> 1 | n # ns \<Rightarrow> fold max ns n + 1)"

text \<open>The insertion of all the rows of a new revision.\<close>

definition insert_revision ::
  "(string \<Rightarrow> string) \<Rightarrow> string \<Rightarrow> ident \<Rightarrow> ident \<Rightarrow> int \<Rightarrow> instant \<Rightarrow> admission \<Rightarrow> db \<Rightarrow> db result" where
  "insert_revision sha owner workload_id revision_id number t ad d =
     (let pss = pl_stages (ad_plan ad) in
      if exists_where (usage_at owner revision_id) (revision_usage d) then Inl IntegrityError
      else
        bindE (insert_stages sha owner revision_id (ad_invalidation ad) 0 pss
          (d\<lparr>revisions := revisions d @ [new_revision owner workload_id revision_id number ad],
             revision_usage := revision_usage d @ [new_usage owner revision_id t]\<rparr>)) (\<lambda>(names, d1).
        bindE (foldE (insert_source sha owner revision_id names t
                 (filter (\<lambda>ps. cc_mode (ps_cardinality ps) = ''per_source'') (initial_stages pss))) (ad_sources ad)
          ([], d1\<lparr>stage_dependencies := stage_dependencies d1 @ concat (map (new_stage_dependencies owner revision_id names) pss)\<rparr>)) (\<lambda>st.
        bindE (foldE (insert_initial_unit sha owner revision_id names t None None)
                 (filter (\<lambda>ps. cc_mode (ps_cardinality ps) = ''singleton'') (initial_stages pss)) st) (\<lambda>(counts, d2).
        insert_progress owner revision_id names counts t pss d2))))"

definition seal_revision :: "string \<Rightarrow> ident \<Rightarrow> ident \<Rightarrow> instant \<Rightarrow> db \<Rightarrow> db result" where
  "seal_revision owner workload_id revision_id t d =
     (let here = (\<lambda>r. revision_at owner revision_id r \<and> r_workload r = workload_id \<and> r_admitted_at r = None) in
      if count_where here (revisions d) \<noteq> 1 then Inl (DurableStoreError ''revision admission seal failed'')
      else Inr (d\<lparr>revisions := update_where here (\<lambda>r. r\<lparr>r_admitted_at := Some t\<rparr>) (revisions d)\<rparr>))"

definition activate_revision :: "string \<Rightarrow> ident \<Rightarrow> ident \<Rightarrow> int \<Rightarrow> instant \<Rightarrow> db \<Rightarrow> db result" where
  "activate_revision owner workload_id revision_id expected t d =
     (let here = (\<lambda>w. workload_at owner workload_id w \<and> w_version w = expected \<and> w_state w = W_DRAFT) in
      if count_where here (workloads d) \<noteq> 1 then Inl VersionConflictError
      else Inr (d\<lparr>workloads := update_where here
        (\<lambda>w. w\<lparr>w_active_revision := Some revision_id, w_state := W_ADMITTED, w_version := w_version w + 1, w_updated_at := t\<rparr>)
        (workloads d)\<rparr>))"

definition admitted_payload :: "ident \<Rightarrow> int \<Rightarrow> admission \<Rightarrow> int \<Rightarrow> jobj" where
  "admitted_payload revision_id number ad expected =
     [(''revision_id'', JStr revision_id), (''revision_number'', JInt number), (''plan_digest'', JStr (ad_digest ad)),
      (''inventory_digest'', JStr (ad_inventory_hash ad)), (''source_count'', JInt (int (length (ad_sources ad)))),
      (''new_version'', JInt (expected + 1))]"

definition admit_in_transaction ::
  "(string \<Rightarrow> string) \<Rightarrow> string \<Rightarrow> ident \<Rightarrow> ident \<Rightarrow> int \<Rightarrow> instant \<Rightarrow> admission \<Rightarrow> db \<Rightarrow> (revision_record \<times> db) result" where
  "admit_in_transaction sha owner workload_id revision_id expected t ad d =
     bindE (select_workload d owner workload_id) (\<lambda>w.
     case find (same_admission owner workload_id ad) (revisions d) of
       Some r \<Rightarrow> if same_inputs ad r then Inr (row_to_revision r, d) else Inl IdempotencyConflictError
     | None \<Rightarrow>
         if w_version w \<noteq> expected then Inl VersionConflictError
         else if w_state w \<noteq> W_DRAFT then Inl InvalidTransitionError
         else if exists_where (revision_at owner revision_id) (revisions d) then Inl IdentifierConflictError
         else
           let number = next_number owner workload_id d in
           bindE (insert_revision sha owner workload_id revision_id number t ad d) (\<lambda>d1.
           bindE (seal_revision owner workload_id revision_id t d1) (\<lambda>d2.
           bindE (activate_revision owner workload_id revision_id expected t d2) (\<lambda>d3.
           bindE (append_event_in_transaction owner workload_id Ev_REVISION_ADMITTED
                    (admitted_payload revision_id number ad expected) d3) (\<lambda>(event, d4).
           bindE (enqueue_notification_in_transaction owner workload_id (e_id event) d4) (\<lambda>d5.
           bindE (optE (find (revision_at owner revision_id) (revisions d5)) (DurableStoreError ''assert row is not None'')) (\<lambda>r.
           Inr (row_to_revision r, d5))))))))"

definition admit_revision ::
  "(string \<Rightarrow> string) \<Rightarrow> string \<Rightarrow> ident \<Rightarrow> bool \<Rightarrow> jval \<Rightarrow> jval \<Rightarrow> int \<Rightarrow> jval option \<Rightarrow> jval option \<Rightarrow> bool \<Rightarrow> bool \<Rightarrow> bool
     \<Rightarrow> ident option \<Rightarrow> db \<Rightarrow> (revision_record \<times> db) result" where
  "admit_revision sha owner_user_id workload_id retain_inline plan inventory expected_version catalog_snapshot policy_snapshot
     caps_truncated partial_output_accepted usage_complete revision_id d =
     bindE (require_owner owner_user_id) (\<lambda>owner.
     bindE (require_version expected_version) (\<lambda>expected.
     bindE (prepare_admission sha retain_inline plan inventory catalog_snapshot policy_snapshot caps_truncated
              partial_output_accepted usage_complete) (\<lambda>ad.
     bindE (chosen_id revision_id ''rev'' d) (\<lambda>(chosen_revision, d1).
     bindE (revision_columns plan (ad_plan ad)) (\<lambda>_.
     admit_in_transaction sha owner workload_id chosen_revision expected (utc_now d) ad d1)))))"

end
