(* ===== verification/Json_Decoder.thy ===== *)
theory Json_Decoder
  imports Schema
begin

text \<open>
  Python's \<open>json.JSONDecoder.raw_decode\<close>, which the kernel uses on stored payloads, and the
  round trip with the canonical encoder. The model covers the texts the canonical encoder can
  write: numbers are integers and characters lie below code point 256. A fraction, an exponent,
  \<open>NaN\<close>, an infinity or a wider escape is refused here where Python returns a value outside
  the model.
\<close>

section \<open>Strings and numbers\<close>

definition hex_value :: "char \<Rightarrow> int option" where
  "hex_value c =
     (if is_digit c then Some (code_of c - 48)
      else if 97 \<le> code_of c \<and> code_of c \<le> 102 then Some (code_of c - 87)
      else if 65 \<le> code_of c \<and> code_of c \<le> 70 then Some (code_of c - 55)
      else None)"

definition unescape :: "char \<Rightarrow> char option" where
  "unescape c =
     (if c \<in> {CHR 0x22, CHR 0x5C, CHR ''/''} then Some c
      else if c = CHR ''b'' then Some (CHR 0x08)
      else if c = CHR ''f'' then Some (CHR 0x0C)
      else if c = CHR ''n'' then Some (CHR 0x0A)
      else if c = CHR ''r'' then Some (CHR 0x0D)
      else if c = CHR ''t'' then Some (CHR 0x09)
      else None)"

text \<open>\<open>scanstring\<close> in strict mode, after the opening quote: the text and what follows the closing quote.\<close>

fun scan_string :: "string \<Rightarrow> (string \<times> string) option" where
  "scan_string [] = None"
| "scan_string (c # cs) =
     (if c = CHR 0x22 then Some ([], cs)
      else if c = CHR 0x5C then
        (case cs of
           [] \<Rightarrow> None
         | e # es \<Rightarrow>
             if e = CHR ''u'' then
               (case es of
                  z1 # z2 # h # l # rest \<Rightarrow>
                    (case (hex_value h, hex_value l) of
                       (Some hi, Some lo) \<Rightarrow>
                         if z1 = CHR ''0'' \<and> z2 = CHR ''0''
                         then map_option (\<lambda>(s, r). (char_of (16 * hi + lo) # s, r)) (scan_string rest)
                         else None
                     | _ \<Rightarrow> None)
                | _ \<Rightarrow> None)
             else
               (case unescape e of
                  None \<Rightarrow> None
                | Some x \<Rightarrow> map_option (\<lambda>(s, r). (x # s, r)) (scan_string es)))
      else if code_of c < 32 then None
      else map_option (\<lambda>(s, r). (c # s, r)) (scan_string cs))"

definition digits_value :: "string \<Rightarrow> int" where
  "digits_value ds = foldl (\<lambda>n c. 10 * n + (code_of c - 48)) 0 ds"

text \<open>The number expression: \<open>0\<close> or digits without a leading zero, with no fraction and no exponent.\<close>

definition digit_first :: "string \<Rightarrow> bool" where
  "digit_first s \<longleftrightarrow> s \<noteq> [] \<and> is_digit (hd s)"

definition float_tail :: "string \<Rightarrow> bool" where
  "float_tail s =
     (case s of
        [] \<Rightarrow> False
      | c # r \<Rightarrow> c = CHR ''.'' \<and> digit_first r \<or>
          c \<in> {CHR ''e'', CHR ''E''} \<and> (digit_first r \<or> r \<noteq> [] \<and> hd r \<in> {CHR ''-'', CHR ''+''} \<and> digit_first (tl r)))"

definition scan_natural :: "string \<Rightarrow> (int \<times> string) option" where
  "scan_natural s =
     (let ds = (if take 1 s = ''0'' then ''0'' else takeWhile is_digit s); rest = drop (length ds) s in
      if ds = [] \<or> float_tail rest then None
      else Some (digits_value ds, rest))"

definition scan_number :: "string \<Rightarrow> (int \<times> string) option" where
  "scan_number s =
     (if take 1 s = ''-'' then map_option (\<lambda>(n, r). (- n, r)) (scan_natural (drop 1 s)) else scan_natural s)"

section \<open>Values\<close>

definition json_blank :: "char \<Rightarrow> bool" where
  "json_blank c \<longleftrightarrow> c \<in> {CHR '' '', CHR 0x09, CHR 0x0A, CHR 0x0D}"

abbreviation skip_blank :: "string \<Rightarrow> string" where
  "skip_blank \<equiv> dropWhile json_blank"

lemma length_skip_blank: "length (skip_blank s) \<le> length s"
  by (rule length_dropWhile_le)

text \<open>
  \<open>scan_once\<close> with the array and the object parsers. The comparisons of lengths only make the
  recursion plainly well founded: a value that was scanned always shortens the text.
\<close>

function (sequential) scan_value :: "string \<Rightarrow> (jval \<times> string) option"
  and scan_items :: "string \<Rightarrow> (jval list \<times> string) option"
  and scan_members :: "string \<Rightarrow> ((string \<times> jval) list \<times> string) option" where
  "scan_value [] = None"
| "scan_value (c # cs) =
     (if c = CHR 0x22 then map_option (\<lambda>(s, r). (JStr s, r)) (scan_string cs)
      else if c = CHR 0x7B then
        (if take 1 (skip_blank cs) = [CHR 0x7D] then Some (JObj [], drop 1 (skip_blank cs))
         else map_option (\<lambda>(kvs, r). (JObj (jupdate [] kvs), r)) (scan_members (skip_blank cs)))
      else if c = CHR ''['' then
        (if take 1 (skip_blank cs) = '']'' then Some (JArr [], drop 1 (skip_blank cs))
         else map_option (\<lambda>(vs, r). (JArr vs, r)) (scan_items (skip_blank cs)))
      else if c = CHR ''n'' \<and> take 3 cs = ''ull'' then Some (JNull, drop 3 cs)
      else if c = CHR ''t'' \<and> take 3 cs = ''rue'' then Some (JBool True, drop 3 cs)
      else if c = CHR ''f'' \<and> take 4 cs = ''alse'' then Some (JBool False, drop 4 cs)
      else map_option (\<lambda>(n, r). (JInt n, r)) (scan_number (c # cs)))"
| "scan_items s =
     (case scan_value s of
        None \<Rightarrow> None
      | Some (v, rest) \<Rightarrow>
          (case skip_blank rest of
             [] \<Rightarrow> None
           | c # r \<Rightarrow>
               if c = CHR '']'' then Some ([v], r)
               else if c = CHR '','' \<and> length (skip_blank r) < length s
               then map_option (\<lambda>(vs, r'). (v # vs, r')) (scan_items (skip_blank r))
               else None))"
| "scan_members s =
     (case s of
        [] \<Rightarrow> None
      | q # cs \<Rightarrow>
          if q \<noteq> CHR 0x22 then None
          else (case scan_string cs of
             None \<Rightarrow> None
           | Some (k, rest) \<Rightarrow>
               (case skip_blank rest of
                  [] \<Rightarrow> None
                | colon # r \<Rightarrow>
                    if colon \<noteq> CHR '':'' \<or> \<not> length (skip_blank r) < length s then None
                    else (case scan_value (skip_blank r) of
                       None \<Rightarrow> None
                     | Some (v, rest') \<Rightarrow>
                         (case skip_blank rest' of
                            [] \<Rightarrow> None
                          | c # r' \<Rightarrow>
                              if c = CHR 0x7D then Some ([(k, v)], r')
                              else if c = CHR '','' \<and> length (skip_blank r') < length s
                              then map_option (\<lambda>(kvs, r''). ((k, v) # kvs, r'')) (scan_members (skip_blank r'))
                              else None)))))"
  by pat_completeness auto

termination
  by (relation "measures [case_sum length (case_sum length length), case_sum (\<lambda>_. 0) (\<lambda>_. 1)]")
    (auto simp: le_less_trans [OF length_skip_blank])

declare scan_value.simps [simp del] scan_items.simps [simp del] scan_members.simps [simp del]

text \<open>\<open>raw_decode(text, offset)\<close>: the value and the offset after it.\<close>

definition raw_decode :: "string \<Rightarrow> nat \<Rightarrow> (jval \<times> nat) option" where
  "raw_decode text offset =
     map_option (\<lambda>(v, rest). (v, length text - length rest)) (scan_value (drop offset text))"

section \<open>The round trip\<close>

text \<open>What decoding gives back: instants are their text, and members come in the order of their keys.\<close>

fun decoded :: "jval \<Rightarrow> jval" where
  "decoded (JArr vs) = JArr (map decoded vs)"
| "decoded (JObj kvs) = JObj (sort_key fst (map (\<lambda>(k, v). (k, decoded v)) kvs))"
| "decoded (JInstant t) = JStr (instant_text t)"
| "decoded v = v"

text \<open>Python's dictionaries have each key once, at every level.\<close>

fun json_ok :: "jval \<Rightarrow> bool" where
  "json_ok (JArr vs) = list_all json_ok vs"
| "json_ok (JObj kvs) = (distinct (map fst kvs) \<and> list_all (\<lambda>(k, v). json_ok v) kvs)"
| "json_ok v = True"

lemma is_digit_char_of: "0 \<le> n \<Longrightarrow> n < 10 \<Longrightarrow> is_digit (char_of (48 + n)) \<and> code_of (char_of (48 + n)) = 48 + n"
  for n :: int
  by (simp add: is_digit_def code_of_def)

lemma char_of_zero: "char_of (48 :: int) = CHR ''0''"
  by (simp add: char_of_def)

lemma dec_digits_not_Nil: "dec_digits n \<noteq> []"
  by (subst dec_digits.simps) simp

lemma dec_digits_digits: "0 \<le> n \<Longrightarrow> list_all is_digit (dec_digits n)"
  by (induction n rule: dec_digits.induct)
    (subst dec_digits.simps, auto simp: is_digit_char_of)

lemma digits_value_snoc: "digits_value (ds @ [c]) = 10 * digits_value ds + (code_of c - 48)"
  by (simp add: digits_value_def)

lemma digits_value_dec: "0 \<le> n \<Longrightarrow> digits_value (dec_digits n) = n"
proof (induction n rule: dec_digits.induct)
  case (1 n)
  show ?case
  proof (cases "n < 10")
    case True
    then show ?thesis using 1 by (subst dec_digits.simps) (simp add: digits_value_def is_digit_char_of)
  next
    case False
    then show ?thesis using 1 by (subst dec_digits.simps) (simp add: digits_value_snoc is_digit_char_of)
  qed
qed

lemma dec_digits_zero: "0 \<le> n \<Longrightarrow> hd (dec_digits n) = CHR ''0'' \<longleftrightarrow> n = 0"
proof (induction n rule: dec_digits.induct)
  case (1 n)
  show ?case
  proof (cases "n < 10")
    case True
    then show ?thesis using 1(2) is_digit_char_of [of n]
      by (subst dec_digits.simps) (auto simp: code_of_def char_of_zero dest: arg_cong [of _ _ "of_char :: char \<Rightarrow> int"])
  next
    case False
    then show ?thesis using 1 dec_digits_not_Nil [of "n div 10"] by (subst dec_digits.simps) auto
  qed
qed

text \<open>A text after which a number must end.\<close>

definition delimited :: "string \<Rightarrow> bool" where
  "delimited s \<longleftrightarrow> \<not> digit_first s \<and> \<not> float_tail s"

lemma scan_natural_digits:
  assumes "0 \<le> n" and "delimited rest"
  shows "scan_natural (dec_digits n @ rest) = Some (n, rest)"
proof (cases "n = 0")
  case True
  then have "dec_digits n = ''0''" by (simp add: dec_digits.simps char_of_def)
  then show ?thesis using assms True by (simp add: scan_natural_def delimited_def digits_value_def code_of_def)
next
  case False
  obtain c cs where ds: "dec_digits n = c # cs" using dec_digits_not_Nil by (cases "dec_digits n") auto
  have "c \<noteq> CHR ''0''" using dec_digits_zero [OF assms(1)] False ds by simp
  moreover have "takeWhile is_digit (dec_digits n @ rest) = dec_digits n"
    using assms dec_digits_digits [OF assms(1)]
    by (cases rest) (auto simp: takeWhile_append delimited_def digit_first_def list_all_iff)
  ultimately show ?thesis
    using assms digits_value_dec [OF assms(1)] ds by (simp add: scan_natural_def delimited_def Let_def)
qed

lemma scan_number_show:
  assumes "delimited rest"
  shows "scan_number (show_int i @ rest) = Some (i, rest)"
proof (cases "i < 0")
  case True
  then show ?thesis using scan_natural_digits [OF _ assms, of "- i"] by (simp add: scan_number_def show_int_def)
next
  case False
  obtain c cs where ds: "dec_digits i = c # cs" "is_digit c"
    using dec_digits_digits [of i] dec_digits_not_Nil [of i] False by (cases "dec_digits i") auto
  then have "c \<noteq> CHR ''-''" by (auto simp: is_digit_def code_of_def)
  then show ?thesis
    using scan_natural_digits [OF _ assms, of i] ds False by (simp add: scan_number_def show_int_def)
qed

lemma hex_value_digit: "0 \<le> n \<Longrightarrow> n < 16 \<Longrightarrow> hex_value (hex_digit n) = Some n"
  by (auto simp: hex_value_def hex_digit_def is_digit_def code_of_def)

lemma code_of_char: "0 \<le> code_of c" "char_of (code_of c) = c"
proof -
  have "code_of c = int (of_char c)" unfolding code_of_def by (metis of_nat_of_char)
  then show "0 \<le> code_of c" "char_of (code_of c) = c" by (simp_all add: code_of_def)
qed

lemma scan_hex_escape:
  assumes "code_of c < 32"
  shows "scan_string ([CHR 0x5C, CHR ''u'', CHR ''0'', CHR ''0'', hex_digit (code_of c div 16), hex_digit (code_of c mod 16)] @ t)
    = map_option (\<lambda>(s, r). (c # s, r)) (scan_string t)"
  using assms code_of_char [of c] by (simp add: hex_value_digit)

lemma scan_escaped:
  "scan_string (escape_char c @ t) = map_option (\<lambda>(s, r). (c # s, r)) (scan_string t)"
proof (cases "c \<in> {CHR 0x22, CHR 0x5C, CHR 0x0A, CHR 0x0D, CHR 0x09, CHR 0x0C, CHR 0x08}")
  case True
  then show ?thesis
    by (elim insertE emptyE) (simp_all add: escape_char_def code_of_def unescape_def Let_def)
next
  case False
  then have codes: "code_of c \<notin> {34, 92, 10, 13, 9, 12, 8}"
    using code_of_char(2) [of c] by (auto simp: char_of_def)
  show ?thesis
  proof (cases "code_of c < 32")
    case True
    then have "escape_char c = [CHR 0x5C, CHR ''u'', CHR ''0'', CHR ''0'', hex_digit (code_of c div 16), hex_digit (code_of c mod 16)]"
      using codes by (simp add: escape_char_def Let_def)
    then show ?thesis using scan_hex_escape [OF True] by simp
  next
    case wide: False
    then have "escape_char c = [c]" using codes by (simp add: escape_char_def)
    then show ?thesis using wide False by simp
  qed
qed

lemma scan_quoted: "scan_string (concat (map escape_char s) @ CHR 0x22 # rest) = Some (s, rest)"
  by (induction s) (simp_all add: scan_escaped)

text \<open>The text of a value starts with a character that is neither blank nor a closing bracket.\<close>

definition value_first :: "char \<Rightarrow> bool" where
  "value_first c \<longleftrightarrow> c \<in> {CHR 0x22, CHR 0x7B, CHR ''['', CHR ''n'', CHR ''t'', CHR ''f'', CHR ''-''} \<or> is_digit c"

lemma encode_first: "\<exists>c cs. encode_json v = c # cs \<and> value_first c"
proof (cases v)
  case (JInt i)
  show ?thesis
  proof (cases "i < 0")
    case True
    then show ?thesis using JInt by (simp add: show_int_def value_first_def)
  next
    case False
    then show ?thesis
      using JInt dec_digits_digits [of i] dec_digits_not_Nil [of i]
      by (cases "dec_digits i") (auto simp: show_int_def value_first_def)
  qed
qed (auto simp: quote_string_def value_first_def)

lemma value_first_facts:
  "value_first c \<Longrightarrow> \<not> json_blank c \<and> c \<noteq> CHR '']'' \<and> c \<noteq> CHR 0x7D \<and> \<not> is_space c \<and> c \<noteq> CHR '',''"
  by (auto simp: value_first_def json_blank_def is_digit_def is_space_def code_of_def Let_def)

lemma skip_blank_encode: "skip_blank (encode_json v @ rest) = encode_json v @ rest"
  using encode_first [of v] value_first_facts by auto

lemma scan_value_number:
  assumes "is_digit c \<or> c = CHR ''-''"
  shows "scan_value (c # cs) = map_option (\<lambda>(n, r). (JInt n, r)) (scan_number (c # cs))"
proof -
  have "c \<notin> {CHR 0x22, CHR 0x7B, CHR ''['', CHR ''n'', CHR ''t'', CHR ''f''}"
    using assms by (auto simp: is_digit_def code_of_def)
  then show ?thesis by (subst scan_value.simps) simp
qed

lemma scan_int:
  assumes "delimited rest"
  shows "scan_value (show_int i @ rest) = Some (JInt i, rest)"
proof -
  obtain c cs where "show_int i = c # cs" and "is_digit c \<or> c = CHR ''-''"
    using dec_digits_digits [of i] dec_digits_not_Nil [of i]
    by (cases "i < 0"; cases "dec_digits i") (auto simp: show_int_def)
  then show ?thesis using scan_number_show [OF assms, of i] scan_value_number [of c "cs @ rest"] by simp
qed

lemma delimited_simps [simp]: "delimited (CHR '','' # s)" "delimited (CHR '']'' # s)" "delimited (CHR 0x7D # s)"
  by (simp_all add: delimited_def digit_first_def float_tail_def is_digit_def code_of_def)

lemma json_blank_simps [simp]: "\<not> json_blank (CHR '','')" "\<not> json_blank (CHR '']'')" "\<not> json_blank (CHR 0x7D)"
  "\<not> json_blank (CHR 0x22)" "\<not> json_blank (CHR '':'')"
  by (simp_all add: json_blank_def)

text \<open>The items of an array and the members of an object, given the round trip of each value.\<close>

lemma scan_items_join:
  assumes "\<And>v r. v \<in> set vs \<Longrightarrow> delimited r \<Longrightarrow> scan_value (encode_json v @ r) = Some (decoded v, r)" and "vs \<noteq> []"
  shows "scan_items (join_with '','' (map encode_json vs) @ CHR '']'' # rest) = Some (map decoded vs, rest)"
  using assms
proof (induction vs)
  case (Cons v vs)
  show ?case
  proof (cases vs)
    case Nil
    then show ?thesis using Cons.prems(1) [of v] by (subst scan_items.simps) simp
  next
    case (Cons w ws)
    let ?tail = "join_with '','' (map encode_json vs) @ CHR '']'' # rest"
    have join: "join_with '','' (map encode_json (v # vs)) @ CHR '']'' # rest = encode_json v @ CHR '','' # ?tail"
      by (simp add: Cons)
    obtain t where t: "?tail = encode_json w @ t" by (cases ws) (simp_all add: Cons)
    then have skip: "skip_blank ?tail = ?tail" by (simp add: skip_blank_encode)
    have "scan_items ?tail = Some (map decoded vs, rest)"
      by (rule Cons.IH) (use Cons.prems(1) Cons in auto)
    then show ?thesis
      unfolding join using Cons.prems(1) [of v] skip by (subst scan_items.simps) simp
  qed
qed simp

definition member_text :: "string \<times> jval \<Rightarrow> string" where
  "member_text kv = quote_string (fst kv) @ CHR '':'' # encode_json (snd kv)"

lemma scan_member:
  assumes "scan_value (encode_json v @ r) = Some (w, r)" and "r = c # r'" and "\<not> json_blank c"
  shows "scan_members (member_text (k, v) @ r) =
    (if c = CHR 0x7D then Some ([(k, w)], r')
     else if c = CHR '','' then map_option (\<lambda>(kvs, r''). ((k, w) # kvs, r'')) (scan_members (skip_blank r')) else None)"
proof -
  have "length (skip_blank r') < length (member_text (k, v) @ r)"
    using assms(2) le_less_trans [OF length_skip_blank, of r'] by (simp add: member_text_def)
  then show ?thesis
    using assms
    by (subst scan_members.simps)
      (simp add: member_text_def quote_string_def scan_quoted skip_blank_encode)
qed

lemma scan_members_join:
  assumes "\<And>k v r. (k, v) \<in> set kvs \<Longrightarrow> delimited r \<Longrightarrow> scan_value (encode_json v @ r) = Some (decoded v, r)" and "kvs \<noteq> []"
  shows "scan_members (join_with '','' (map member_text kvs) @ CHR 0x7D # rest)
    = Some (map (\<lambda>(k, v). (k, decoded v)) kvs, rest)"
  using assms
proof (induction kvs)
  case (Cons kv kvs)
  obtain k v where kv: "kv = (k, v)" by (cases kv)
  show ?case
  proof (cases kvs)
    case Nil
    then show ?thesis using Cons.prems(1) [of k v] by (simp add: kv scan_member)
  next
    case (Cons kw kws)
    let ?tail = "join_with '','' (map member_text kvs) @ CHR 0x7D # rest"
    have join: "join_with '','' (map member_text (kv # kvs)) @ CHR 0x7D # rest = member_text (k, v) @ CHR '','' # ?tail"
      by (simp add: Cons kv)
    obtain t where "?tail = CHR 0x22 # t" by (cases kws) (simp_all add: Cons member_text_def quote_string_def)
    then have skip: "skip_blank ?tail = ?tail" by simp
    have "scan_members ?tail = Some (map (\<lambda>(k, v). (k, decoded v)) kvs, rest)"
      by (rule Cons.IH) (use Cons.prems(1) Cons in auto)
    then show ?thesis
      unfolding join using Cons.prems(1) [of k v] skip by (simp add: kv scan_member)
  qed
qed simp

lemma insort_key_map: "insort_key fst (k, f v) (map (\<lambda>(k, v). (k, f v)) kvs) = map (\<lambda>(k, v). (k, f v)) (insort_key fst (k, v) kvs)"
  by (induction kvs) auto

lemma sort_key_map: "sort_key fst (map (\<lambda>(k, v). (k, f v)) kvs) = map (\<lambda>(k, v). (k, f v)) (sort_key fst kvs)"
  by (induction kvs) (auto simp: insort_key_map)

lemma encode_object:
  "encode_json (JObj kvs) = CHR 0x7B # join_with '','' (map member_text (sort_key fst kvs)) @ [CHR 0x7D]"
proof -
  have "sort_key fst (map (\<lambda>(k, v). (k, encode_json v)) kvs) = map (\<lambda>(k, v). (k, encode_json v)) (sort_key fst kvs)"
    by (rule sort_key_map)
  then show ?thesis by (simp add: comp_def member_text_def [abs_def] split_beta')
qed

lemma jset_new: "k \<notin> fst ` set obj \<Longrightarrow> jset k v obj = obj @ [(k, v)]"
  by (induction k v obj rule: jset.induct) auto

lemma jupdate_distinct: "distinct (map fst (obj @ kvs)) \<Longrightarrow> jupdate obj kvs = obj @ kvs"
  by (induction kvs arbitrary: obj) (auto simp: jupdate_def jset_new)

text \<open>Decoding the canonical text of a value gives the value back and stops right after it.\<close>

lemma scan_encode: "json_ok v \<Longrightarrow> delimited rest \<Longrightarrow> scan_value (encode_json v @ rest) = Some (decoded v, rest)"
proof (induction v arbitrary: rest)
  case (JArr vs)
  show ?case
  proof (cases vs)
    case Nil
    then show ?thesis by (simp add: scan_value.simps)
  next
    case (Cons v ws)
    have "skip_blank (join_with '','' (map encode_json vs) @ CHR '']'' # rest) = join_with '','' (map encode_json vs) @ CHR '']'' # rest"
      by (cases ws) (simp_all add: Cons skip_blank_encode)
    moreover have "take 1 (join_with '','' (map encode_json vs) @ CHR '']'' # rest) \<noteq> '']''"
      using encode_first [of v] value_first_facts by (cases ws) (auto simp: Cons)
    moreover have "scan_items (join_with '','' (map encode_json vs) @ CHR '']'' # rest) = Some (map decoded vs, rest)"
      using JArr Cons by (intro scan_items_join) (auto simp: list_all_iff)
    ultimately show ?thesis by (simp add: scan_value.simps)
  qed
next
  case (JObj kvs)
  let ?s = "sort_key fst kvs" and ?text = "\<lambda>kvs. join_with '','' (map member_text kvs) @ CHR 0x7D # rest"
  show ?case
  proof (cases kvs)
    case Nil
    then show ?thesis by (simp add: scan_value.simps)
  next
    case (Cons kv ws)
    then have ne: "?s \<noteq> []" by (metis length_0_conv length_sort list.distinct(1))
    then obtain t where "?text ?s = CHR 0x22 # t"
      by (cases ?s; cases "tl ?s") (auto simp: member_text_def quote_string_def)
    moreover have "scan_members (?text ?s) = Some (map (\<lambda>(k, v). (k, decoded v)) ?s, rest)"
      using JObj ne by (intro scan_members_join) (auto simp: list_all_iff)
    moreover have "jupdate [] (map (\<lambda>(k, v). (k, decoded v)) ?s) = map (\<lambda>(k, v). (k, decoded v)) ?s"
      using JObj.prems by (intro jupdate_distinct [of "[]", simplified])
        (simp add: comp_def split_beta' distinct_map)
    ultimately show ?thesis
      unfolding encode_object by (simp add: scan_value.simps sort_key_map)
  qed
qed (simp_all add: scan_value.simps scan_int quote_string_def scan_quoted)

section \<open>Progress\<close>

text \<open>Whatever was scanned, less of the text is left.\<close>

lemma scan_string_shorter: "scan_string s = Some (t, rest) \<Longrightarrow> length rest < length s"
  by (induction s arbitrary: t rest rule: scan_string.induct)
    (force split: if_split_asm list.split_asm option.split_asm)+

lemma scan_natural_shorter: "scan_natural s = Some (n, rest) \<Longrightarrow> length rest < length s"
  by (cases s) (auto simp: scan_natural_def Let_def split: if_split_asm)

lemma scan_number_shorter: "scan_number s = Some (n, rest) \<Longrightarrow> length rest < length s"
  by (cases s) (auto simp: scan_number_def split: if_split_asm dest: scan_natural_shorter)

lemma scan_shorter:
  "\<forall>v rest. scan_value s = Some (v, rest) \<longrightarrow> length rest < length s"
  "\<forall>vs rest. scan_items s = Some (vs, rest) \<longrightarrow> length rest < length s"
  "\<forall>kvs rest. scan_members s = Some (kvs, rest) \<longrightarrow> length rest < length s"
proof (induction s and s and s rule: scan_value_scan_items_scan_members.induct)
  case (2 c cs)
  show ?case
  proof (intro allI impI)
    fix v rest
    assume run: "scan_value (c # cs) = Some (v, rest)"
    have short: "length (skip_blank cs) < length (c # cs)" using length_skip_blank [of cs] by simp
    consider (string) t where "scan_string cs = Some (t, rest)"
      | (empty) "rest = drop 1 (skip_blank cs)"
      | (members) kvs where "c \<noteq> CHR 0x22" "c = CHR 0x7B" "take 1 (skip_blank cs) \<noteq> [CHR 0x7D]"
          "scan_members (skip_blank cs) = Some (kvs, rest)"
      | (items) vs where "c \<noteq> CHR 0x22" "c \<noteq> CHR 0x7B" "c = CHR ''[''" "take 1 (skip_blank cs) \<noteq> '']''"
          "scan_items (skip_blank cs) = Some (vs, rest)"
      | (keyword) n where "rest = drop n cs"
      | (number) n where "scan_number (c # cs) = Some (n, rest)"
      using run unfolding scan_value.simps(2) by (simp split: if_split_asm) (auto split: if_split_asm)
    then show "length rest < length (c # cs)"
    proof cases
      case members
      then show ?thesis using 2(1) short by (meson less_trans)
    next
      case items
      then show ?thesis using 2(2) short by (meson less_trans)
    qed (use short in \<open>auto dest: scan_string_shorter scan_number_shorter\<close>)
  qed
next
  case (3 s)
  show ?case
  proof (intro allI impI)
    fix vs rest
    assume "scan_items s = Some (vs, rest)"
    then obtain v r c r' where v: "scan_value s = Some (v, r)" and blank: "skip_blank r = c # r'"
      and tail: "rest = r' \<or> (\<exists>ws. scan_items (skip_blank r') = Some (ws, rest) \<and> c = CHR '','' \<and> length (skip_blank r') < length s)"
      by (subst (asm) scan_items.simps) (auto split: option.split_asm list.split_asm if_split_asm)
    have "length r < length s" using 3(1) v by blast
    moreover have "length r' < length r" using blank length_skip_blank [of r] by simp
    moreover have "length rest < length (skip_blank r')" if "scan_items (skip_blank r') = Some (ws, rest)" "c = CHR '',''"
      "length (skip_blank r') < length s" for ws
      using 3(2) [OF v _ blank] that by simp
    ultimately show "length rest < length s" using tail by auto
  qed
next
  case (4 s)
  show ?case
  proof (intro allI impI)
    fix kvs rest
    assume "scan_members s = Some (kvs, rest)"
    then obtain q cs k r1 r2 v r3 c r4 where s: "s = q # cs" and k: "scan_string cs = Some (k, r1)"
      and r2: "skip_blank r1 = CHR '':'' # r2" and v: "scan_value (skip_blank r2) = Some (v, r3)"
      and r4: "skip_blank r3 = c # r4"
      and small: "length (skip_blank r2) < length s" and q: "q = CHR 0x22"
      and tail: "rest = r4 \<or> (\<exists>ws. scan_members (skip_blank r4) = Some (ws, rest) \<and> c = CHR '','' \<and> length (skip_blank r4) < length s)"
      by (subst (asm) scan_members.simps) (auto split: option.split_asm list.split_asm if_split_asm)
    have "length r3 < length (skip_blank r2)" using 4(1) [OF s _ k _ r2] v small q by simp
    moreover have "length r4 < length r3" using r4 length_skip_blank [of r3] by simp
    moreover have "length rest < length (skip_blank r4)" if "scan_members (skip_blank r4) = Some (ws, rest)" "c = CHR '',''"
      "length (skip_blank r4) < length s" for ws
      using 4(2) [OF s _ k _ r2 _ v _ r4] that small q by simp
    ultimately show "length rest < length s" using tail small by auto
  qed
qed (simp_all add: scan_value.simps)

lemma raw_decode_forward:
  assumes "raw_decode text offset = Some (v, end_at)"
  shows "offset < end_at" and "end_at \<le> length text"
proof -
  obtain rest where "scan_value (drop offset text) = Some (v, rest)" and e: "end_at = length text - length rest"
    using assms by (auto simp: raw_decode_def)
  then have "length rest < length (drop offset text)" using scan_shorter(1) by blast
  then show "offset < end_at" "end_at \<le> length text" using e by auto
qed

lemma sorted_sort_key_id: "sort_key fst (sort_key fst kvs) = sort_key fst kvs"
  by (rule sort_key_id_if_sorted) simp

lemma encode_decoded: "encode_json (decoded v) = encode_json v"
proof (induction v)
  case (JObj kvs)
  have "member_text (k, decoded v) = member_text (k, v)" if "(k, v) \<in> set kvs" for k v
    using JObj [OF that] by (simp add: member_text_def)
  then have "map member_text (map (\<lambda>(k, v). (k, decoded v)) (sort_key fst kvs)) = map member_text (sort_key fst kvs)"
    by auto
  then show ?case by (simp only: decoded.simps encode_object sorted_sort_key_id sort_key_map)
qed (simp_all cong: map_cong)

text \<open>
  C20. Decoding inverts the canonical encoding. At the start of the canonical text of a value,
  whatever stands before it and whatever delimiter follows, the decoder returns the value, with
  instants as their texts and members in the order of their keys, and stops right after it; and
  encoding that result again gives the same text, so that digests of stored payloads are stable.
\<close>

theorem json_roundtrip:
  assumes "json_ok v" and "delimited rest"
  shows "raw_decode (pre @ encode_json v @ rest) (length pre) = Some (decoded v, length pre + length (encode_json v)) \<and>
    encode_json (decoded v) = encode_json v"
  using scan_encode [OF assms] by (simp add: raw_decode_def encode_decoded)

theorem json_roundtrip_witness:
  "raw_decode ''[1,{}] '' 1 = Some (JInt 1, 2) \<and> encode_json (decoded (JInt 1)) = ''1''"
  using json_roundtrip [of "JInt 1" "'',{}] ''" "''[''"]
  by (simp add: show_int_def dec_digits.simps char_of_def delimited_def digit_first_def float_tail_def is_digit_def code_of_def)

end
