(* ===== verification/Entries.thy ===== *)
theory Entries
  imports Json_Decoder
begin

text \<open>
  The scanner of committed payloads (\<open>storage.py\<close>): it finds the top-level \<open>entries\<close> array of
  a stored result and reads its items one at a time from a cursor, without decoding the whole
  payload. Offsets are character positions; each loop of the source is a recursion on the payload
  from its current position.
\<close>

section \<open>Skipping values\<close>

fun space_end :: "string \<Rightarrow> nat \<Rightarrow> nat" where
  "space_end [] offset = offset"
| "space_end (c # cs) offset = (if is_space c then space_end cs (offset + 1) else offset)"

definition json_space_end :: "string \<Rightarrow> nat \<Rightarrow> nat" where
  "json_space_end payload offset = space_end (drop offset payload) offset"

text \<open>The loop over the characters of a string, from the one after the opening quote.\<close>

fun string_end :: "string \<Rightarrow> nat \<Rightarrow> bool \<Rightarrow> nat result" where
  "string_end [] index escaped = Inl (DurableStoreError ''committed dependency string is unterminated'')"
| "string_end (c # cs) index escaped =
     (if escaped then string_end cs (index + 1) False
      else if c = CHR 0x5C then string_end cs (index + 1) True
      else if c = CHR 0x22 then Inr (index + 1)
      else string_end cs (index + 1) False)"

text \<open>The loop over a bracketed value; \<open>closers\<close> is the stack with its top first.\<close>

fun nested_end :: "string \<Rightarrow> nat \<Rightarrow> bool \<Rightarrow> bool \<Rightarrow> char list \<Rightarrow> nat result" where
  "nested_end [] index in_string escaped closers =
     Inl (DurableStoreError ''committed dependency payload is unterminated'')"
| "nested_end (c # cs) index in_string escaped closers =
     (if in_string then
        (if escaped then nested_end cs (index + 1) True False closers
         else if c = CHR 0x5C then nested_end cs (index + 1) True True closers
         else if c = CHR 0x22 then nested_end cs (index + 1) False False closers
         else nested_end cs (index + 1) True False closers)
      else if c = CHR 0x22 then nested_end cs (index + 1) True escaped closers
      else if c = CHR ''['' then nested_end cs (index + 1) False escaped (CHR '']'' # closers)
      else if c = CHR 0x7B then nested_end cs (index + 1) False escaped (CHR 0x7D # closers)
      else if c = CHR '']'' \<or> c = CHR 0x7D then
        (case closers of
           [] \<Rightarrow> Inl (DurableStoreError ''committed dependency payload has invalid nesting'')
         | closer # rest \<Rightarrow>
             if c \<noteq> closer then Inl (DurableStoreError ''committed dependency payload has invalid nesting'')
             else if rest = [] then Inr (index + 1)
             else nested_end cs (index + 1) False escaped rest)
      else nested_end cs (index + 1) False escaped closers)"

definition scalar_stop :: "char \<Rightarrow> bool" where
  "scalar_stop c \<longleftrightarrow> c \<in> {CHR '','', CHR '']'', CHR 0x7D, CHR '' '', CHR 0x09, CHR 0x0D, CHR 0x0A}"

fun scalar_end :: "string \<Rightarrow> nat \<Rightarrow> nat" where
  "scalar_end [] index = index"
| "scalar_end (c # cs) index = (if scalar_stop c then index else scalar_end cs (index + 1))"

definition json_value_end :: "string \<Rightarrow> nat \<Rightarrow> nat result" where
  "json_value_end payload start =
     (let offset = json_space_end payload start in
      case drop offset payload of
        [] \<Rightarrow> Inl (DurableStoreError ''committed dependency payload ended unexpectedly'')
      | first # rest \<Rightarrow>
          if first = CHR 0x22 then string_end rest (offset + 1) False
          else if first = CHR ''['' \<or> first = CHR 0x7B then
            nested_end rest (offset + 1) False False [if first = CHR ''['' then CHR '']'' else CHR 0x7D]
          else
            let index = scalar_end (first # rest) offset in
            if index = offset then Inl (DurableStoreError ''committed dependency payload has an empty value'')
            else Inr index)"

section \<open>The entries array\<close>

abbreviation no_entries :: durable_error where
  "no_entries \<equiv> DurableStoreError ''entry identity fan-out requires dependency entries''"

definition char_at :: "string \<Rightarrow> nat \<Rightarrow> char option" where
  "char_at payload offset = (if offset < length payload then Some (payload ! offset) else None)"

lemma space_end_ge: "i \<le> space_end s i"
  by (induction s i rule: space_end.induct) auto

lemma json_space_end_ge: "i \<le> json_space_end payload i"
  by (simp add: json_space_end_def space_end_ge)

lemma string_end_gt: "string_end s i escaped = Inr e \<Longrightarrow> i < e"
  by (induction s i escaped rule: string_end.induct) (auto split: if_split_asm)

lemma nested_end_gt: "nested_end s i in_string escaped closers = Inr e \<Longrightarrow> i < e"
proof (induction s arbitrary: i in_string escaped closers)
  case (Cons c cs)
  from Cons.prems show ?case
    by (auto split: if_split_asm list.split_asm dest!: Cons.IH)
qed simp

lemma scalar_end_ge: "i \<le> scalar_end s i"
  by (induction s i rule: scalar_end.induct) auto

lemma json_value_end_gt:
  assumes "json_value_end payload i = Inr e"
  shows "i < e"
proof -
  let ?o = "json_space_end payload i"
  have "?o < e"
    using assms scalar_end_ge [of ?o "drop ?o payload"]
    by (auto simp: json_value_end_def Let_def le_less split: list.split_asm if_split_asm
        dest!: string_end_gt nested_end_gt)
  then show ?thesis using json_space_end_ge [of i payload] by simp
qed

lemma member_forward:
  assumes "char_at payload offset = Some c" and key: "raw_decode payload offset = Some (v, key_end)"
    and "json_value_end payload (json_space_end payload (Suc (json_space_end payload key_end))) = Inr value_end"
  shows "length payload - json_space_end payload (Suc (json_space_end payload value_end)) < length payload - offset"
proof -
  have "offset < length payload" using assms(1) by (simp add: char_at_def split: if_split_asm)
  moreover have "offset < key_end" by (rule raw_decode_forward(1) [OF key])
  ultimately show ?thesis
    using json_value_end_gt [OF assms(3)] json_space_end_ge [of key_end payload] json_space_end_ge [of value_end payload]
      json_space_end_ge [of "Suc (json_space_end payload key_end)" payload]
      json_space_end_ge [of "Suc (json_space_end payload value_end)" payload]
    by linarith
qed

text \<open>The loop over the members of the top-level object, from the start of a key.\<close>

function entry_members :: "string \<Rightarrow> nat \<Rightarrow> nat result" where
  "entry_members payload offset =
     (if char_at payload offset = None \<or> char_at payload offset = Some (CHR 0x7D) then Inl no_entries
      else case raw_decode payload offset of
        None \<Rightarrow> Inl (DurableStoreError ''committed dependency payload has an invalid object key'')
      | Some (decoded_key, key_end) \<Rightarrow>
          (case decoded_key of
             JStr key \<Rightarrow>
               let colon = json_space_end payload key_end; start = json_space_end payload (colon + 1) in
               if char_at payload colon \<noteq> Some (CHR '':'')
               then Inl (DurableStoreError ''committed dependency payload has an invalid object member'')
               else if key = ''entries''
               then (if char_at payload start \<noteq> Some (CHR ''['') then Inl no_entries
                     else Inr (json_space_end payload (start + 1)))
               else (case json_value_end payload start of
                  Inl e \<Rightarrow> Inl e
                | Inr value_end \<Rightarrow>
                    let separator = json_space_end payload value_end in
                    if char_at payload separator = Some (CHR '','')
                    then entry_members payload (json_space_end payload (separator + 1))
                    else if char_at payload separator = Some (CHR 0x7D) then Inl no_entries
                    else Inl (DurableStoreError ''committed dependency payload has an invalid object separator''))
           | _ \<Rightarrow> Inl (DurableStoreError ''committed dependency payload has a non-string object key'')))"
  by pat_completeness auto
termination
  by (relation "measure (\<lambda>(payload, offset). length payload - offset)") (auto intro: member_forward)

declare entry_members.simps [simp del]

definition entry_array_offset :: "string \<Rightarrow> nat result" where
  "entry_array_offset payload =
     (let offset = json_space_end payload 0 in
      if char_at payload offset \<noteq> Some (CHR 0x7B)
      then Inl (DurableStoreError ''committed dependency payload is not an object'')
      else entry_members payload (json_space_end payload (offset + 1)))"

text \<open>
  \<open>_next_entry\<close>: the entry if there is one, the next cursor, whether the array is finished,
  and the bounds of the item.
\<close>

definition next_entry :: "string \<Rightarrow> nat \<Rightarrow> (jobj option \<times> nat \<times> bool \<times> nat \<times> nat) result" where
  "next_entry payload start =
     (let offset = json_space_end payload start in
      if char_at payload offset = None then Inl (DurableStoreError ''dependency entries ended unexpectedly'')
      else if char_at payload offset = Some (CHR '']'') then Inr (None, offset + 1, True, offset, offset)
      else case raw_decode payload offset of
        None \<Rightarrow> Inl (DurableStoreError ''dependency entry is not valid JSON'')
      | Some (v, value_end) \<Rightarrow>
          (case v of
             JObj entry \<Rightarrow>
               let item_end = json_space_end payload value_end in
               if char_at payload item_end = None then Inl (DurableStoreError ''dependency entries ended unexpectedly'')
               else if char_at payload item_end = Some (CHR '','')
               then Inr (Some entry, json_space_end payload (item_end + 1), False, offset, item_end)
               else if char_at payload item_end = Some (CHR '']'')
               then Inr (Some entry, item_end + 1, True, offset, item_end)
               else Inl (DurableStoreError ''dependency entries have an invalid separator'')
           | _ \<Rightarrow> Inl (DurableStoreError ''entry identity fan-out found a non-object entry'')))"

section \<open>Skipping a canonical value\<close>

definition plain_char :: "char \<Rightarrow> bool" where
  "plain_char c \<longleftrightarrow> c \<notin> {CHR 0x22, CHR 0x5C, CHR ''['', CHR '']'', CHR 0x7B, CHR 0x7D, CHR '','', CHR '' '', CHR 0x09, CHR 0x0A, CHR 0x0D}"

lemma nested_plain:
  "list_all plain_char s \<Longrightarrow> nested_end (s @ rest) i False False cl = nested_end rest (i + length s) False False cl"
  by (induction s arbitrary: i) (simp_all add: plain_char_def)

lemma digits_plain: "is_digit c \<Longrightarrow> plain_char c"
  by (auto simp: plain_char_def is_digit_def code_of_def)

lemma show_int_plain: "list_all plain_char (show_int i)"
proof -
  have "list_all plain_char (dec_digits n)" if "0 \<le> n" for n
    using dec_digits_digits [OF that] digits_plain by (simp add: list_all_iff)
  moreover have "plain_char (CHR ''-'')" by (simp add: plain_char_def)
  ultimately show ?thesis by (simp add: show_int_def)
qed

text \<open>An escaped character is passed over as part of the string it stands in.\<close>

lemma escape_char_cases:
  obtains (plain) "escape_char c = [c]" and "c \<noteq> CHR 0x22" and "c \<noteq> CHR 0x5C"
  | (short) e where "escape_char c = [CHR 0x5C, e]"
  | (hex) x y where "escape_char c = [CHR 0x5C, CHR ''u'', CHR ''0'', CHR ''0'', x, y]"
      and "x \<noteq> CHR 0x22" and "x \<noteq> CHR 0x5C" and "y \<noteq> CHR 0x22" and "y \<noteq> CHR 0x5C"
proof -
  have hd: "hex_digit n \<noteq> CHR 0x22 \<and> hex_digit n \<noteq> CHR 0x5C" if "0 \<le> n" "n < 16" for n
    using hex_value_digit [OF that] by (auto simp: hex_value_def is_digit_def code_of_def)
  have range: "0 \<le> code_of c div 16" "code_of c < 32 \<longrightarrow> code_of c div 16 < 16" "0 \<le> code_of c mod 16" "code_of c mod 16 < 16"
    using code_of_char(1) [of c] by auto
  consider "code_of c \<in> {34, 92, 10, 13, 9, 12, 8}" | "code_of c \<notin> {34, 92, 10, 13, 9, 12, 8}" "code_of c < 32"
    | "code_of c \<notin> {34, 92, 10, 13, 9, 12, 8}" "\<not> code_of c < 32"
    by blast
  then show ?thesis
  proof cases
    case 1
    then show ?thesis by (elim insertE emptyE; intro short) (simp_all add: escape_char_def Let_def)
  next
    case 2
    then have "escape_char c = [CHR 0x5C, CHR ''u'', CHR ''0'', CHR ''0'', hex_digit (code_of c div 16), hex_digit (code_of c mod 16)]"
      by (simp add: escape_char_def Let_def)
    then show ?thesis using hex hd [OF range(1)] hd [OF range(3,4)] range(2) 2(2) by simp
  next
    case 3
    then have "c \<noteq> CHR 0x22" "c \<noteq> CHR 0x5C" by (auto simp: code_of_def)
    then show ?thesis using plain 3 by (simp add: escape_char_def Let_def)
  qed
qed

lemma nested_escape: "nested_end (escape_char c @ t) i True False cl = nested_end t (i + length (escape_char c)) True False cl"
  by (cases c rule: escape_char_cases) (simp_all add: eval_nat_numeral)

lemma nested_string:
  "nested_end (concat (map escape_char s) @ CHR 0x22 # rest) i True False cl
     = nested_end rest (i + length (concat (map escape_char s)) + 1) False False cl"
  by (induction s arbitrary: i) (simp_all add: nested_escape add.assoc)

lemma nested_quote: "nested_end (quote_string s @ rest) i False False cl = nested_end rest (i + length (quote_string s)) False False cl"
  by (simp add: quote_string_def nested_string add.assoc)

lemma nested_join:
  assumes "\<And>x i rest. x \<in> set xs \<Longrightarrow> nested_end (f x @ rest) i False False cl = nested_end rest (i + length (f x)) False False cl"
  shows "nested_end (join_with '','' (map f xs) @ rest) i False False cl
    = nested_end rest (i + length (join_with '','' (map f xs))) False False cl"
  using assms
proof (induction xs arbitrary: i)
  case (Cons x xs)
  show ?case
  proof (cases xs)
    case Nil
    then show ?thesis using Cons.prems by simp
  next
    case (Cons y ys)
    then have "join_with '','' (map f (x # xs)) = f x @ CHR '','' # join_with '','' (map f xs)" by simp
    then show ?thesis using Cons.IH Cons.prems by (simp add: add.assoc)
  qed
qed simp

lemma nested_encode:
  "cl \<noteq> [] \<Longrightarrow> nested_end (encode_json v @ rest) i False False cl = nested_end rest (i + length (encode_json v)) False False cl"
proof (induction v arbitrary: rest i cl)
  case (JArr vs)
  then show ?case
    using nested_join [of vs encode_json "CHR '']'' # cl" "CHR '']'' # rest" "Suc i"] by simp
next
  case (JObj kvs)
  have "nested_end (member_text kv @ r) j False False cl' = nested_end r (j + length (member_text kv)) False False cl'"
    if "kv \<in> set (sort_key fst kvs)" "cl' \<noteq> []" for kv r j cl'
    using JObj.IH [of kv "snd kv"] that by (cases kv) (simp add: member_text_def nested_quote add.assoc)
  then show ?case
    using nested_join [of "sort_key fst kvs" member_text "CHR 0x7D # cl" "CHR 0x7D # rest" "Suc i"] JObj.prems
    unfolding encode_object by simp
next
  case (JInt x)
  then show ?case using nested_plain [of "show_int x"] by (simp add: show_int_plain)
next
  case (JBool b)
  then show ?case using nested_plain [of "encode_json (JBool b)"] by (simp add: plain_char_def)
next
  case JNull
  then show ?case using nested_plain [of "''null''"] by (simp add: plain_char_def)
qed (simp_all add: nested_quote)

lemma string_escape: "string_end (escape_char c @ t) i False = string_end t (i + length (escape_char c)) False"
  by (cases c rule: escape_char_cases) (simp_all add: eval_nat_numeral)

lemma string_quoted:
  "string_end (concat (map escape_char s) @ CHR 0x22 # rest) i False = Inr (i + length (concat (map escape_char s)) + 1)"
  by (induction s arbitrary: i) (simp_all add: string_escape add.assoc)

lemma scalar_plain: "list_all plain_char s \<Longrightarrow> rest = [] \<or> scalar_stop (hd rest) \<Longrightarrow> scalar_end (s @ rest) i = i + length s"
proof (induction s arbitrary: i)
  case Nil
  then show ?case by (cases rest) auto
qed (simp add: plain_char_def scalar_stop_def)

lemma json_space_end_stays: "\<not> is_space c \<Longrightarrow> json_space_end (pre @ c # cs) (length pre) = length pre"
  by (simp add: json_space_end_def)

lemma space_at_value: "json_space_end (pre @ encode_json v @ rest) (length pre) = length pre"
  using encode_first [of v] value_first_facts by (auto simp: json_space_end_stays)

lemma value_end_scalar:
  assumes "list_all plain_char s" and "s \<noteq> []" and "\<not> is_space (hd s)" and "rest = [] \<or> scalar_stop (hd rest)"
  shows "json_value_end (pre @ s @ rest) (length pre) = Inr (length pre + length s)"
proof -
  obtain c cs where s: "s = c # cs" using assms(2) by (cases s) auto
  have "json_space_end (pre @ s @ rest) (length pre) = length pre"
    using assms(3) by (simp add: s json_space_end_stays)
  moreover have "c \<notin> {CHR 0x22, CHR ''['', CHR 0x7B}" using assms(1) by (auto simp: s plain_char_def)
  moreover have "scalar_end (s @ rest) (length pre) = length pre + length s"
    by (rule scalar_plain [OF assms(1,4)])
  ultimately show ?thesis using assms(2) by (simp add: json_value_end_def s)
qed

text \<open>Skipping a canonical value stops exactly at its end.\<close>

lemma value_end_encode:
  assumes "rest = [] \<or> scalar_stop (hd rest)"
  shows "json_value_end (pre @ encode_json v @ rest) (length pre) = Inr (length pre + length (encode_json v))"
proof (cases v)
  case (JArr vs)
  have "nested_end (join_with '','' (map encode_json vs) @ CHR '']'' # rest) (length pre + 1) False False '']''
      = Inr (length pre + 1 + length (join_with '','' (map encode_json vs)) + 1)"
    by (subst nested_join) (simp_all add: nested_encode)
  then show ?thesis using JArr space_at_value [of pre v rest] by (simp add: json_value_end_def)
next
  case (JObj kvs)
  let ?ms = "sort_key fst kvs"
  have "nested_end (join_with '','' (map member_text ?ms) @ CHR 0x7D # rest) (length pre + 1) False False [CHR 0x7D]
      = Inr (length pre + 1 + length (join_with '','' (map member_text ?ms)) + 1)"
    by (subst nested_join) (simp_all add: member_text_def nested_quote nested_encode add.assoc)
  then show ?thesis
    using JObj space_at_value [of pre v rest] unfolding JObj encode_object by (simp add: json_value_end_def)
next
  case (JInt i)
  have "show_int i \<noteq> []" "\<not> is_space (hd (show_int i))"
    using encode_first [of "JInt i"] value_first_facts by auto
  then show ?thesis using JInt value_end_scalar [OF show_int_plain] assms by simp
next
  case (JBool b)
  then show ?thesis
    using value_end_scalar [of "encode_json v" rest pre] assms by (simp add: plain_char_def is_space_def code_of_def)
next
  case JNull
  then show ?thesis
    using value_end_scalar [of "encode_json v" rest pre] assms by (simp add: plain_char_def is_space_def code_of_def)
qed (use space_at_value [of pre v rest] in \<open>simp_all add: json_value_end_def quote_string_def string_quoted\<close>)

lemma raw_decode_encode:
  assumes "json_ok v" and "delimited rest"
  shows "raw_decode (pre @ encode_json v @ rest) (length pre) = Some (decoded v, length pre + length (encode_json v))"
  using scan_encode [OF assms] by (simp add: raw_decode_def)

section \<open>Reading the entries of a canonical payload\<close>

lemma char_at_append [simp]: "char_at (pre @ c # cs) (length pre) = Some c"
  by (simp add: char_at_def)

lemma structural_facts [simp]: "\<not> is_space (CHR '','')" "\<not> is_space (CHR '']'')" "\<not> is_space (CHR 0x7D)"
  "\<not> is_space (CHR '':'')" "\<not> is_space (CHR ''['')" "\<not> is_space (CHR 0x7B)" "\<not> is_space (CHR 0x22)"
  by (simp_all add: is_space_def code_of_def)

lemma space_stays:
  "\<not> is_space c \<Longrightarrow> n = length pre \<Longrightarrow> json_space_end (pre @ c # cs) n = n"
  by (simp add: json_space_end_stays)

text \<open>One member: its key is read, and its value found or skipped.\<close>

lemma entry_member:
  fixes pre k v r
  defines "payload \<equiv> pre @ member_text (k, v) @ r"
  assumes r: "r = c # cs" and c: "c = CHR '','' \<or> c = CHR 0x7D"
  shows "entry_members payload (length pre) =
    (let start = length pre + length (quote_string k) + 1; after = length pre + length (member_text (k, v)) in
     if k = ''entries'' then
       (if char_at payload start \<noteq> Some (CHR ''['') then Inl no_entries else Inr (json_space_end payload (start + 1)))
     else if c = CHR '','' then entry_members payload (json_space_end payload (after + 1)) else Inl no_entries)"
proof -
  let ?q = "quote_string k" and ?e = "encode_json v"
  have p1: "payload = pre @ encode_json (JStr k) @ CHR '':'' # ?e @ r"
    by (simp add: payload_def member_text_def)
  have p2: "payload = (pre @ ?q) @ CHR '':'' # ?e @ r" and p3: "payload = (pre @ ?q @ '':'') @ ?e @ r"
    and p4: "payload = (pre @ ?q @ '':'' @ ?e) @ c # cs"
    by (simp_all add: payload_def member_text_def r)
  have delim: "delimited (CHR '':'' # s)" for s
    by (simp add: delimited_def digit_first_def float_tail_def is_digit_def code_of_def)
  obtain q where q: "?q = CHR 0x22 # q" by (simp add: quote_string_def)
  have first: "char_at payload (length pre) = Some (CHR 0x22)" by (simp add: p2 q)
  have key: "raw_decode payload (length pre) = Some (JStr k, length pre + length ?q)"
    using raw_decode_encode [of "JStr k" "CHR '':'' # ?e @ r" pre] delim by (simp add: p1)
  have colon: "json_space_end payload (length pre + length ?q) = length pre + length ?q"
    "char_at payload (length pre + length ?q) = Some (CHR '':'')"
    using space_stays [of "CHR '':''" "length (pre @ ?q)" "pre @ ?q" "?e @ r"] char_at_append [of "pre @ ?q"]
    by (simp_all add: p2)
  have start: "json_space_end payload (length pre + length ?q + 1) = length pre + length ?q + 1"
    using space_at_value [of "pre @ ?q @ '':''" v r] by (simp add: p3)
  have value_end: "json_value_end payload (length pre + length ?q + 1) = Inr (length pre + length ?q + 1 + length ?e)"
    using value_end_encode [of r "pre @ ?q @ '':''" v] c by (auto simp: p3 r scalar_stop_def)
  have sep: "json_space_end payload (length pre + length ?q + 1 + length ?e) = length pre + length ?q + 1 + length ?e"
    "char_at payload (length pre + length ?q + 1 + length ?e) = Some c"
    using space_stays [of c "length (pre @ ?q @ '':'' @ ?e)" "pre @ ?q @ '':'' @ ?e" cs] c
      char_at_append [of "pre @ ?q @ '':'' @ ?e" c cs] by (auto simp: p4 add.assoc)
  show ?thesis
    using c colon start value_end sep
    by (subst entry_members.simps) (auto simp: first key member_text_def Let_def add.assoc)
qed

lemma join_Cons: "join_with sep (x # xs) = x @ (if xs = [] then [] else sep @ join_with sep xs)"
  by (cases xs) simp_all

lemma space_at_items: "json_space_end (pre @ join_with '','' (map encode_json es) @ CHR '']'' # rest) (length pre) = length pre"
  using space_at_value [of pre "hd es"] by (cases es) (simp_all add: join_Cons space_stays)

lemma entry_members_found:
  assumes "map_of kvs ''entries'' = Some (JArr es)"
  shows "\<exists>before after. pre @ join_with '','' (map member_text kvs) @ [CHR 0x7D]
      = before @ join_with '','' (map encode_json es) @ CHR '']'' # after \<and>
    entry_members (pre @ join_with '','' (map member_text kvs) @ [CHR 0x7D]) (length pre) = Inr (length before)"
  using assms
proof (induction kvs arbitrary: pre)
  case (Cons kv kvs)
  obtain k v where kv: "kv = (k, v)" by (cases kv)
  let ?r = "(if kvs = [] then [] else '','' @ join_with '','' (map member_text kvs)) @ [CHR 0x7D]"
  let ?c = "if kvs = [] then CHR 0x7D else CHR '',''"
  let ?p = "pre @ member_text (k, v) @ ?r"
  have p: "pre @ join_with '','' (map member_text (kv # kvs)) @ [CHR 0x7D] = ?p" by (simp add: kv join_Cons)
  obtain cs where r: "?r = ?c # cs" by (cases kvs) simp_all
  note member = entry_member [OF r, of pre k v]
  show ?case
  proof (cases "k = ''entries''")
    case True
    then have v: "v = JArr es" using Cons.prems kv by simp
    let ?before = "pre @ quote_string k @ '':[''"
    have whole: "?p = ?before @ join_with '','' (map encode_json es) @ CHR '']'' # ?r"
      by (simp add: member_text_def v)
    have "char_at ?p (length pre + length (quote_string k) + 1) = Some (CHR ''['')"
      using char_at_append [of "pre @ quote_string k @ '':''"] by (simp add: member_text_def v)
    moreover have "json_space_end ?p (length pre + length (quote_string k) + 2) = length pre + length (quote_string k) + 2"
      using space_at_items [of ?before es ?r] unfolding whole by simp
    ultimately have "entry_members ?p (length pre) = Inr (length ?before)"
      using member True by (auto simp: Let_def)
    with whole show ?thesis unfolding p by blast
  next
    case False
    then have found: "map_of kvs ''entries'' = Some (JArr es)" and ne: "kvs \<noteq> []"
      using Cons.prems kv by auto
    let ?pre = "pre @ member_text (k, v) @ '',''"
    have whole: "?p = ?pre @ join_with '','' (map member_text kvs) @ [CHR 0x7D]" using ne by simp
    obtain q where "join_with '','' (map member_text kvs) = CHR 0x22 # q"
      using ne by (cases kvs) (auto simp: join_Cons member_text_def quote_string_def)
    then have "json_space_end ?p (length ?pre) = length ?pre"
      using space_stays [of "CHR 0x22" "length ?pre" ?pre "q @ [CHR 0x7D]"] unfolding whole by simp
    then have "entry_members ?p (length pre) = entry_members ?p (length ?pre)"
      using member False ne by (simp add: Let_def add.assoc)
    with Cons.IH [OF found, of ?pre] show ?thesis unfolding p whole by simp
  qed
qed simp

text \<open>One item of the array.\<close>

lemma next_entry_item:
  assumes "json_ok (JObj e)" and "c = CHR '','' \<or> c = CHR '']''"
    and "c = CHR '','' \<Longrightarrow> \<exists>v r. rest = encode_json v @ r"
  shows "\<exists>entry. decoded (JObj e) = JObj entry \<and>
    next_entry (pre @ encode_json (JObj e) @ c # rest) (length pre) =
      Inr (Some entry, length pre + length (encode_json (JObj e)) + 1, c = CHR '']'',
           length pre, length pre + length (encode_json (JObj e)))"
proof -
  define E where "E = encode_json (JObj e)"
  define P where "P = pre @ E @ c # rest"
  obtain entry where entry: "decoded (JObj e) = JObj entry" by simp
  have brace: "char_at P (length pre) = Some (CHR 0x7B)" by (simp add: P_def E_def)
  have dec: "raw_decode P (length pre) = Some (JObj entry, length pre + length E)"
    using raw_decode_encode [OF assms(1), of "c # rest" pre] assms(2) entry by (auto simp: P_def E_def)
  have sep: "json_space_end P (length pre + length E) = length pre + length E" "char_at P (length pre + length E) = Some c"
    using space_stays [of c "length (pre @ E)" "pre @ E" rest] char_at_append [of "pre @ E" c rest] assms(2)
    by (auto simp: P_def)
  have after: "json_space_end P (length pre + length E + 1) = length pre + length E + 1" if comma: "c = CHR '',''"
  proof -
    obtain v r where "rest = encode_json v @ r" using assms(3) [OF comma] by blast
    then show ?thesis using space_at_value [of "pre @ E @ [c]" v r] by (simp add: P_def)
  qed
  have "json_space_end P (length pre) = length pre" unfolding P_def E_def by (rule space_at_value)
  then have "next_entry P (length pre) = Inr (Some entry, length pre + length E + 1, c = CHR '']'', length pre, length pre + length E)"
    using assms(2) after by (auto simp: next_entry_def Let_def brace dec sep)
  with entry show ?thesis by (auto simp only: P_def E_def)
qed

text \<open>The cursor before the item with a given number.\<close>

definition entry_cursor :: "nat \<Rightarrow> jval list \<Rightarrow> nat \<Rightarrow> nat" where
  "entry_cursor base es i = base + length (concat (map (\<lambda>e. encode_json e @ '','') (take i es)))"

lemma join_split:
  "i < length es \<Longrightarrow> join_with '','' (map f es) = concat (map (\<lambda>e. f e @ '','') (take i es)) @ f (es ! i) @
     (if Suc i = length es then [] else '','' @ join_with '','' (map f (drop (Suc i) es)))"
proof (induction es arbitrary: i)
  case (Cons e es)
  show ?case
  proof (cases i)
    case 0
    then show ?thesis by (simp add: join_Cons)
  next
    case (Suc j)
    then have "es \<noteq> []" using Cons.prems by auto
    then show ?thesis using Cons.IH [of j] Cons.prems Suc by (simp add: join_Cons)
  qed
qed simp

lemma next_entry_nth:
  assumes p: "payload = pre @ join_with '','' (map encode_json es) @ CHR '']'' # after" and i: "i < length es"
    and obj: "es ! i = JObj e" "json_ok (JObj e)"
  shows "\<exists>entry. decoded (es ! i) = JObj entry \<and>
    next_entry payload (entry_cursor (length pre) es i) =
      Inr (Some entry, entry_cursor (length pre) es (Suc i), Suc i = length es, entry_cursor (length pre) es i,
           entry_cursor (length pre) es i + length (encode_json (es ! i))) \<and>
    take (length (encode_json (es ! i))) (drop (entry_cursor (length pre) es i) payload) = encode_json (es ! i)"
proof -
  define P where "P = pre @ concat (map (\<lambda>e. encode_json e @ '','') (take i es))"
  define rest where "rest = (if Suc i = length es then after else join_with '','' (map encode_json (drop (Suc i) es)) @ CHR '']'' # after)"
  define c where "c = (if Suc i = length es then CHR '']'' else CHR '','')"
  have payload: "payload = P @ encode_json (JObj e) @ c # rest"
    using obj(1) unfolding p join_split [OF i] by (simp add: P_def c_def rest_def)
  have slice: "take (length x) (drop (length P) (P @ x @ y)) = x" for x y :: string by simp
  have cursor: "entry_cursor (length pre) es i = length P" by (simp add: entry_cursor_def P_def)
  have following: "entry_cursor (length pre) es (Suc i) = length P + length (encode_json (JObj e)) + 1"
    using i obj(1) by (simp add: entry_cursor_def P_def take_Suc_conv_app_nth)
  have "\<exists>v r. rest = encode_json v @ r" if "c = CHR '',''"
  proof -
    have "Suc i < length es" using that i by (simp add: c_def split: if_split_asm)
    then obtain v vs where "drop (Suc i) es = v # vs" by (cases "drop (Suc i) es") auto
    then show ?thesis using \<open>Suc i < length es\<close> by (auto simp: rest_def join_Cons)
  qed
  moreover have "c = CHR '','' \<or> c = CHR '']''" by (simp add: c_def)
  ultimately obtain entry where "decoded (JObj e) = JObj entry"
    and "next_entry payload (length P) = Inr (Some entry, length P + length (encode_json (JObj e)) + 1, c = CHR '']'',
           length P, length P + length (encode_json (JObj e)))"
    unfolding payload using next_entry_item [OF obj(2), of c rest P] by blast
  moreover have "c = CHR '']'' \<longleftrightarrow> Suc i = length es" by (simp add: c_def)
  moreover have "take (length (encode_json (JObj e))) (drop (length P) payload) = encode_json (JObj e)"
    unfolding payload by (rule slice)
  ultimately show ?thesis unfolding cursor following obj(1) by (intro exI [of _ entry]) simp
qed

lemma scan_reads_entries:
  assumes ok: "json_ok (JObj payload)" and entries: "jget payload ''entries'' = Some (JArr es)"
    and objects: "\<forall>e \<in> set es. \<exists>kvs. e = JObj kvs"
  shows "\<exists>base. entry_array_offset (encode_json (JObj payload)) = Inr base \<and>
    (es = [] \<longrightarrow> next_entry (encode_json (JObj payload)) base = Inr (None, base + 1, True, base, base)) \<and>
    (\<forall>i < length es. \<exists>entry. decoded (es ! i) = JObj entry \<and>
       next_entry (encode_json (JObj payload)) (entry_cursor base es i) =
         Inr (Some entry, entry_cursor base es (Suc i), Suc i = length es, entry_cursor base es i,
              entry_cursor base es i + length (encode_json (es ! i))) \<and>
       take (length (encode_json (es ! i))) (drop (entry_cursor base es i) (encode_json (JObj payload)))
         = encode_json (es ! i))"
proof -
  let ?ms = "sort_key fst payload"
  define T where "T = encode_json (JObj payload)"
  have keys: "distinct (map fst payload)" and oks: "\<And>k v. (k, v) \<in> set payload \<Longrightarrow> json_ok v"
    using ok by (auto simp: list_all_iff)
  have mem: "(''entries'', JArr es) \<in> set payload" using entries by (simp add: jget_def map_of_SomeD)
  have "map_of ?ms ''entries'' = Some (JArr es)"
    using keys mem by (intro map_of_is_SomeI) (simp_all add: distinct_map)
  from entry_members_found [OF this, of "[CHR 0x7B]"] obtain before after
    where t: "T = before @ join_with '','' (map encode_json es) @ CHR '']'' # after"
      and found: "entry_members T 1 = Inr (length before)"
    unfolding T_def encode_object by auto
  have "?ms \<noteq> []" using mem by (metis empty_iff empty_set set_sort)
  then obtain q where q: "T = [CHR 0x7B] @ CHR 0x22 # q"
    unfolding T_def encode_object by (cases ?ms) (auto simp: join_Cons member_text_def quote_string_def)
  have "json_space_end T 1 = 1" "json_space_end T 0 = 0" "char_at T 0 = Some (CHR 0x7B)"
    using space_stays [of "CHR 0x22" 1 "[CHR 0x7B]" q] space_stays [of "CHR 0x7B" 0 "[]" "CHR 0x22 # q"]
    by (simp_all add: q char_at_def)
  then have offset: "entry_array_offset T = Inr (length before)"
    using found by (simp add: entry_array_offset_def)
  have empty: "next_entry T (length before) = Inr (None, length before + 1, True, length before, length before)" if "es = []"
    using that space_stays [of "CHR '']''" "length before" before after] by (simp add: next_entry_def t Let_def)
  have "\<exists>e. es ! i = JObj e \<and> json_ok (JObj e)" if "i < length es" for i
    using oks [OF mem] objects nth_mem [OF that] by (force simp: list_all_iff)
  then show ?thesis
    using offset empty next_entry_nth [OF t] unfolding T_def [symmetric] by (intro exI [of _ "length before"]) blast
qed

text \<open>
  C21. The scanner reads back what was stored. On the canonical text of a payload whose
  entries are objects, the scanner finds the start of the array, and reading from one cursor to
  the next returns exactly the entries, in order, each with the bounds of its own text, and
  reports the end with the last of them; on an empty array it reports the end at once.
\<close>

theorem entries_roundtrip:
  assumes ok: "json_ok (JObj payload)" and entries: "jget payload ''entries'' = Some (JArr es)"
    and objects: "\<forall>e \<in> set es. \<exists>kvs. e = JObj kvs"
  shows "\<exists>base. entry_array_offset (encode_json (JObj payload)) = Inr base \<and>
    (es = [] \<longrightarrow> next_entry (encode_json (JObj payload)) base = Inr (None, base + 1, True, base, base)) \<and>
    (\<forall>i < length es. \<exists>entry. decoded (es ! i) = JObj entry \<and>
       next_entry (encode_json (JObj payload)) (entry_cursor base es i) =
         Inr (Some entry, entry_cursor base es (Suc i), Suc i = length es, entry_cursor base es i,
              entry_cursor base es i + length (encode_json (es ! i))) \<and>
       take (length (encode_json (es ! i))) (drop (entry_cursor base es i) (encode_json (JObj payload)))
         = encode_json (es ! i))"
  using assms by (rule scan_reads_entries)

definition example_entries :: "jval list" where
  "example_entries = [JObj [(''path'', JStr ''a/b.txt''), (''id'', JStr ''x[1]'')], JObj [(''id'', JStr [CHR 0x22])]]"

definition example_payload :: jobj where
  "example_payload = [(''ok'', JBool True), (''entries'', JArr example_entries), (''count'', JInt 2)]"

theorem entries_roundtrip_witness:
  "\<exists>base entry. entry_array_offset (encode_json (JObj example_payload)) = Inr base \<and>
     decoded (example_entries ! 1) = JObj entry \<and>
     next_entry (encode_json (JObj example_payload)) (entry_cursor base example_entries 1) =
       Inr (Some entry, entry_cursor base example_entries 2, True, entry_cursor base example_entries 1,
            entry_cursor base example_entries 1 + length (encode_json (example_entries ! 1)))"
proof -
  have "json_ok (JObj example_payload)" and "jget example_payload ''entries'' = Some (JArr example_entries)"
    and "\<forall>e \<in> set example_entries. \<exists>kvs. e = JObj kvs" and "1 < length example_entries" and "Suc 1 = length example_entries"
    by (simp_all add: example_payload_def example_entries_def jget_def)
  then obtain base where "entry_array_offset (encode_json (JObj example_payload)) = Inr base"
    and item: "\<exists>entry. decoded (example_entries ! 1) = JObj entry \<and>
      next_entry (encode_json (JObj example_payload)) (entry_cursor base example_entries 1) =
        Inr (Some entry, entry_cursor base example_entries (Suc 1), Suc 1 = length example_entries,
             entry_cursor base example_entries 1, entry_cursor base example_entries 1 + length (encode_json (example_entries ! 1)))"
    using entries_roundtrip [of example_payload example_entries] by blast
  moreover have "(Suc 1 = length example_entries) = True" by (simp add: example_entries_def)
  ultimately show ?thesis unfolding Suc_1 by (simp only:) blast
qed

section \<open>Progress\<close>

lemma space_end_le: "space_end s i \<le> i + length s"
  by (induction s i rule: space_end.induct) auto

lemma json_space_end_le: "i \<le> length payload \<Longrightarrow> json_space_end payload i \<le> length payload"
  using space_end_le [of "drop i payload" i] by (simp add: json_space_end_def)

lemma char_at_SomeD: "char_at payload i = Some c \<Longrightarrow> i < length payload"
  by (simp add: char_at_def split: if_split_asm)

lemma next_entry_cases:
  assumes "next_entry payload start = Inr (entry, next_cursor, finished, item_start, item_end)"
  obtains (none) "entry = None" "finished" "item_start = json_space_end payload start" "item_end = item_start"
      "next_cursor = item_start + 1" "char_at payload item_start \<noteq> None"
  | (one) v e where "entry \<noteq> None" "raw_decode payload item_start = Some (v, e)" "item_start = json_space_end payload start"
      "item_end = json_space_end payload e" "char_at payload item_end \<noteq> None"
      "next_cursor = json_space_end payload (item_end + 1) \<or> next_cursor = item_end + 1"
proof -
  let ?o = "json_space_end payload start"
  show ?thesis
  proof (cases "char_at payload ?o = Some (CHR '']'')")
    case True
    then have "next_entry payload start = Inr (None, ?o + 1, True, ?o, ?o)" by (simp add: next_entry_def Let_def)
    then show ?thesis using none assms True by simp
  next
    case False
    have here: "char_at payload ?o \<noteq> None" using assms by (cases "char_at payload ?o") (simp_all add: next_entry_def Let_def)
    have "raw_decode payload ?o \<noteq> None"
      using assms False here by (cases "raw_decode payload ?o") (simp_all add: next_entry_def Let_def)
    then obtain v e where dec: "raw_decode payload ?o = Some (v, e)" by auto
    then obtain kvs where v: "v = JObj kvs"
      using assms False here by (cases v) (simp_all add: next_entry_def Let_def)
    let ?e = "json_space_end payload e"
    have "entry = Some kvs" "item_start = ?o" "item_end = ?e" "char_at payload ?e \<noteq> None"
      "next_cursor = json_space_end payload (?e + 1) \<or> next_cursor = ?e + 1"
      using assms False here unfolding next_entry_def Let_def dec v by (auto split: if_split_asm)
    then show ?thesis using one [of v e] dec by simp
  qed
qed

lemma next_entry_forward:
  "next_entry payload start = Inr (entry, next_cursor, finished, item_start, item_end) \<Longrightarrow> start < next_cursor"
proof (erule next_entry_cases)
  fix v e
  assume dec: "raw_decode payload item_start = Some (v, e)" and at: "item_start = json_space_end payload start"
    "item_end = json_space_end payload e" "next_cursor = json_space_end payload (item_end + 1) \<or> next_cursor = item_end + 1"
  show ?thesis
    using raw_decode_forward(1) [OF dec] at json_space_end_ge [of start payload] json_space_end_ge [of e payload]
      json_space_end_ge [of "item_end + 1" payload] by auto
qed (use json_space_end_ge [of start payload] in auto)

text \<open>
  C22. Reading the entries always ends. On every text, well formed or not, and from every
  cursor, one reading either raises, or reports the end of the array, or returns an entry whose
  bounds lie inside the text and moves the cursor past it without leaving the text. A text of
  n characters therefore yields fewer than n entries.
\<close>

theorem next_entry_progress:
  assumes "next_entry payload start = Inr (entry, next_cursor, finished, item_start, item_end)"
  shows "start \<le> item_start \<and> item_end < next_cursor \<and> next_cursor \<le> length payload \<and>
    (entry = None \<longrightarrow> finished \<and> item_end = item_start) \<and> (entry \<noteq> None \<longrightarrow> item_start < item_end)"
  using assms
proof (cases rule: next_entry_cases)
  case none
  then show ?thesis using json_space_end_ge [of start payload] by (auto dest: char_at_SomeD)
next
  case (one v e)
  have "item_start < e" by (rule raw_decode_forward(1) [OF one(2)])
  moreover have "e \<le> item_end" using one(4) json_space_end_ge by simp
  moreover have "item_end < length payload" using one(5) char_at_SomeD by blast
  ultimately show ?thesis
    using one json_space_end_ge [of start payload] json_space_end_ge [of "item_end + 1" payload]
      json_space_end_le [of "item_end + 1" payload] by auto
qed

theorem next_entry_progress_witness:
  "\<exists>entry n finished s e. next_entry ''[{},{}]'' 1 = Inr (Some entry, n, finished, s, e) \<and> 1 \<le> s \<and> s < e \<and> e < n \<and> n \<le> 7"
proof -
  have run: "next_entry ''[{},{}]'' 1 = Inr (Some [], 4, False, 1, 3)" by code_simp
  show ?thesis using run next_entry_progress [OF run] by auto
qed

end
