(* ===== verification/Materialization.thy ===== *)
theory Materialization
  imports Attempts Entries
begin

text \<open>
  The materialization of stages into units of work (\<open>storage.py\<close>): the choice of the stage
  whose inputs are settled, the durable cursor of each stage, the insertion of a unit with its
  dependencies, and one step of each kind of stage: hierarchical reduction, one unit for the
  whole stage, one per source, one per parent result or entry. A batch repeats the step until
  its limit. The canonical payload of a result is the text of its JSON object.
\<close>

section \<open>Joined rows\<close>

definition unit_result :: "db \<Rightarrow> unit_row \<Rightarrow> result_row option" where
  "unit_result d u =
     (case u_committed_result u of
        None \<Rightarrow> None
      | Some result_id \<Rightarrow> find (\<lambda>x. x_owner x = u_owner u \<and> x_revision x = u_revision u \<and> x_id x = result_id) (results d))"

definition unit_source :: "db \<Rightarrow> unit_row \<Rightarrow> source_row option" where
  "unit_source d u =
     (case u_source_row u of
        None \<Rightarrow> None
      | Some source_id \<Rightarrow> find (\<lambda>s. src_owner s = u_owner u \<and> src_revision s = u_revision u \<and> src_id s = source_id) (sources d))"

record parent_view =
  pv_position :: int
  pv_unit_id :: ident
  pv_unit_key :: string
  pv_role :: string
  pv_state :: unit_state
  pv_source :: "source_row option"
  pv_result :: "result_row option"

definition parent_of :: "db \<Rightarrow> stage_row \<Rightarrow> unit_row \<Rightarrow> parent_view" where
  "parent_of d parent u =
     \<lparr>pv_position = s_position parent, pv_unit_id = u_id u, pv_unit_key = u_key u, pv_role = s_key parent,
      pv_state = u_state u, pv_source = unit_source d u, pv_result = unit_result d u\<rparr>"

text \<open>A unit that stands for its stage: any unit, or the root of a reduction.\<close>

definition stage_output :: "stage_row \<Rightarrow> unit_row \<Rightarrow> bool" where
  "stage_output parent u \<longleftrightarrow> u_owner u = s_owner parent \<and> u_revision u = s_revision parent \<and> u_stage u = s_id parent \<and>
     (s_reduction_fan_in parent = None \<or> u_reduction_root u)"

definition declared_parents :: "db \<Rightarrow> stage_row \<Rightarrow> (stage_dependency_row \<times> stage_row) list" where
  "declared_parents d s =
     concat (map (\<lambda>p. map (\<lambda>q. (p, q)) (filter (\<lambda>q. s_owner q = sd_owner p \<and> s_revision q = sd_revision p \<and>
         s_id q = sd_depends_on p) (stages d)))
       (filter (\<lambda>p. sd_owner p = s_owner s \<and> sd_revision p = s_revision s \<and> sd_stage p = s_id s) (stage_dependencies d)))"

definition producing_parents :: "db \<Rightarrow> stage_row \<Rightarrow> (stage_dependency_row \<times> stage_row) list" where
  "producing_parents d s = filter (\<lambda>(_, parent). s_type parent \<noteq> S_INVENTORY) (declared_parents d s)"

definition parent_outputs :: "db \<Rightarrow> stage_row \<Rightarrow> parent_view list" where
  "parent_outputs d s =
     concat (map (\<lambda>(_, parent). map (parent_of d parent) (filter (stage_output parent) (units d))) (producing_parents d s))"

section \<open>The next stage\<close>

definition progress_of :: "db \<Rightarrow> stage_row \<Rightarrow> materialization_row option" where
  "progress_of d s = find (\<lambda>m. m_owner m = s_owner s \<and> m_revision m = s_revision s \<and> m_stage m = s_id s) (stage_materialization d)"

definition stage_units :: "db \<Rightarrow> stage_row \<Rightarrow> unit_row list" where
  "stage_units d s = filter (\<lambda>u. u_owner u = s_owner s \<and> u_revision u = s_revision s \<and> u_stage u = s_id s) (units d)"

definition level_busy :: "db \<Rightarrow> stage_row \<Rightarrow> materialization_row \<Rightarrow> bool" where
  "level_busy d s m = exists_where (\<lambda>u. u_reduction_level u = Some (m_reduction_level m) \<and>
     u_state u \<in> {U_PENDING, U_LEASED, U_RUNNING, U_RETRY_WAIT}) (stage_units d s)"

definition parent_unsettled :: "db \<Rightarrow> stage_row \<Rightarrow> bool" where
  "parent_unsettled d parent \<longleftrightarrow>
     (case progress_of d parent of None \<Rightarrow> True | Some m \<Rightarrow> \<not> m_completed m) \<or>
     exists_where (\<lambda>u. u_state u \<in> {U_PENDING, U_LEASED, U_RUNNING, U_RETRY_WAIT, U_NEEDS_ATTENTION}) (stage_units d parent)"

definition stage_ready :: "db \<Rightarrow> materialization_row \<Rightarrow> stage_row \<Rightarrow> bool" where
  "stage_ready d m s \<longleftrightarrow> \<not> m_completed m \<and> m_attention_code m = None \<and>
     (\<not> m_reduction_waiting m \<or> \<not> level_busy d s m) \<and>
     \<not> exists_where (\<lambda>(_, parent). parent_unsettled d parent) (producing_parents d s)"

definition ready_stages :: "db \<Rightarrow> string \<Rightarrow> ident \<Rightarrow> (stage_row \<times> materialization_row) list" where
  "ready_stages d owner revision_id =
     concat (map (\<lambda>m.
         map (\<lambda>s. (s, m)) (filter (\<lambda>s. s_owner s = m_owner m \<and> s_revision s = m_revision m \<and> s_id s = m_stage m \<and>
           exists_where (revision_at (s_owner s) (s_revision s)) (revisions d) \<and> stage_ready d m s) (stages d)))
       (filter (\<lambda>m. m_owner m = owner \<and> m_revision m = revision_id) (stage_materialization d)))"

definition next_materialization_stage :: "db \<Rightarrow> string \<Rightarrow> ident \<Rightarrow> (stage_row \<times> materialization_row) option" where
  "next_materialization_stage d owner revision_id =
     (case order_limit (\<lambda>(s, _). (s_position s, s_id s)) 1 (ready_stages d owner revision_id) of
        [] \<Rightarrow> None | row # _ \<Rightarrow> Some row)"

text \<open>\<open>_reduction_level_status\<close>: how many units of a level there are and committed, and the one to expose as root.\<close>

definition reduction_level_status :: "db \<Rightarrow> stage_row \<Rightarrow> int \<Rightarrow> nat \<times> nat \<times> unit_row option" where
  "reduction_level_status d s level =
     (let rows = filter (\<lambda>u. u_reduction_level u = Some level) (stage_units d s);
          total = length rows; committed = count_where (\<lambda>u. u_state u = U_COMMITTED) rows
      in (total, committed,
          if total \<noteq> 0 \<and> \<not> (committed = total \<and> total > 1)
          then (case order_limit (\<lambda>u. ((if u_state u = U_COMMITTED then 1 else 0 :: int), u_reduction_ordinal u, u_key u)) 1 rows of
                  [] \<Rightarrow> None | u # _ \<Rightarrow> Some u)
          else None))"

section \<open>The cursor of a stage\<close>

text \<open>The variables that \<open>insert_candidate\<close> and \<open>save_cursor\<close> share.\<close>

record cursor_state =
  cur_existing :: int
  cur_legacy :: bool
  cur_blocked :: "string option"

definition stage_cursor :: "materialization_row \<Rightarrow> cursor_state" where
  "stage_cursor m = \<lparr>cur_existing = m_unit_count m, cur_legacy = m_legacy_replay m, cur_blocked = None\<rparr>"

record cursor_change =
  ch_completed :: bool
  ch_source_ordinal :: "int option"
  ch_parent_position :: "int option"
  ch_parent_unit :: "ident option"
  ch_entry_offset :: "int option"
  ch_clear_parent :: bool
  ch_reduction_level :: "int option"
  ch_reduction_ordinal :: "int option"
  ch_reduction_waiting :: "bool option"
  ch_reduction_input_count :: "int option"

definition no_change :: cursor_change where
  "no_change = \<lparr>ch_completed = False, ch_source_ordinal = None, ch_parent_position = None, ch_parent_unit = None,
     ch_entry_offset = None, ch_clear_parent = False, ch_reduction_level = None, ch_reduction_ordinal = None,
     ch_reduction_waiting = None, ch_reduction_input_count = None\<rparr>"

definition given :: "'a option \<Rightarrow> 'a \<Rightarrow> 'a" where
  "given new old = (case new of None \<Rightarrow> old | Some v \<Rightarrow> v)"

text \<open>The values a save reads back come from the row the step started with.\<close>

definition saved_row :: "materialization_row \<Rightarrow> cursor_change \<Rightarrow> cursor_state \<Rightarrow> instant \<Rightarrow> materialization_row" where
  "saved_row m ch cur t =
     m\<lparr>m_completed := ch_completed ch,
       m_source_ordinal := given (ch_source_ordinal ch) (m_source_ordinal m),
       m_parent_position := given (ch_parent_position ch) (m_parent_position m),
       m_parent_unit := (if ch_clear_parent ch then None
                         else (case ch_parent_unit ch of None \<Rightarrow> m_parent_unit m | Some u \<Rightarrow> Some u)),
       m_entry_offset := given (ch_entry_offset ch) (m_entry_offset m),
       m_legacy_replay := (\<not> ch_completed ch \<and> cur_legacy cur),
       m_unit_count := cur_existing cur,
       m_reduction_level := given (ch_reduction_level ch) (m_reduction_level m),
       m_reduction_ordinal := given (ch_reduction_ordinal ch) (m_reduction_ordinal m),
       m_reduction_waiting := given (ch_reduction_waiting ch) (m_reduction_waiting m),
       m_reduction_input_count := given (ch_reduction_input_count ch) (m_reduction_input_count m),
       m_attention_code := cur_blocked cur, m_updated_at := t\<rparr>"

definition progress_at :: "stage_row \<Rightarrow> materialization_row \<Rightarrow> bool" where
  "progress_at s m \<longleftrightarrow> m_owner m = s_owner s \<and> m_revision m = s_revision s \<and> m_stage m = s_id s"

definition save_cursor :: "stage_row \<Rightarrow> materialization_row \<Rightarrow> cursor_change \<Rightarrow> cursor_state \<Rightarrow> db \<Rightarrow> db result" where
  "save_cursor s m ch cur d =
     (if count_where (progress_at s) (stage_materialization d) \<noteq> 1
      then Inl (DurableStoreError ''materialization cursor update failed'')
      else Inr (d\<lparr>stage_materialization := update_where (progress_at s)
             (\<lambda>_. saved_row m ch cur (utc_now d)) (stage_materialization d)\<rparr>))"

section \<open>Inserting a unit\<close>

record candidate =
  cd_source :: "source_row option"
  cd_parents :: "parent_view list"
  cd_shard_key :: "string option"
  cd_unavailable :: "string option"
  cd_force_attention :: bool
  cd_duplicate_identity :: bool
  cd_slice :: "(int \<times> int) option"
  cd_semantic_shard_key :: "string option"
  cd_reduction_level :: "int option"
  cd_reduction_ordinal :: "int option"
  cd_reduction_root :: bool

definition plain_candidate :: "source_row option \<Rightarrow> parent_view list \<Rightarrow> string option \<Rightarrow> candidate" where
  "plain_candidate source parents shard_key =
     \<lparr>cd_source = source, cd_parents = parents, cd_shard_key = shard_key, cd_unavailable = None, cd_force_attention = False,
      cd_duplicate_identity = False, cd_slice = None, cd_semantic_shard_key = None, cd_reduction_level = None,
      cd_reduction_ordinal = None, cd_reduction_root = False\<rparr>"

text \<open>\<open>str\<close> of a column that may be null.\<close>

definition str_or_none :: "string option \<Rightarrow> string" where
  "str_or_none s = (case s of None \<Rightarrow> ''None'' | Some t \<Rightarrow> t)"

definition optional_text :: "string option \<Rightarrow> jval" where
  "optional_text s = (case s of None \<Rightarrow> JNull | Some t \<Rightarrow> JStr t)"

definition parent_digest :: "parent_view \<Rightarrow> string" where
  "parent_digest p = str_or_none (map_option x_digest (pv_result p))"

definition parent_result_id :: "parent_view \<Rightarrow> ident" where
  "parent_result_id p = str_or_none (map_option x_id (pv_result p))"

definition unit_semantic :: "stage_row \<Rightarrow> candidate \<Rightarrow> jval" where
  "unit_semantic s c = JObj
     [(''stage_key'', JStr (s_key s)), (''stage_invalidation_digest'', JStr (s_invalidation_digest s)),
      (''source_digest'', optional_text (map_option src_content_digest (cd_source c))),
      (''source_id'', optional_text (map_option src_source_id (cd_source c))),
      (''dependencies'', JArr (map (\<lambda>p. JObj [(''role'', JStr (pv_role p)), (''unit_key'', JStr (pv_unit_key p)),
         (''digest'', JStr (parent_digest p))]) (cd_parents c))),
      (''shard_key'', optional_text (case cd_semantic_shard_key c of None \<Rightarrow> cd_shard_key c | Some k \<Rightarrow> Some k))]"

definition unit_key_of :: "(string \<Rightarrow> string) \<Rightarrow> stage_row \<Rightarrow> candidate \<Rightarrow> string result" where
  "unit_key_of sha s c = digest_json sha ''durable-unit-key'' (unit_semantic s c) max_plan_json_bytes"

definition existing_unit :: "db \<Rightarrow> stage_row \<Rightarrow> string \<Rightarrow> unit_row option" where
  "existing_unit d s key = find (\<lambda>u. u_key u = key) (stage_units d s)"

text \<open>\<open>bind_dependencies\<close>: insert what is missing, then insist that what is stored is what was meant.\<close>

type_synonym binding = "ident \<times> int option \<times> int option \<times> string"

definition expected_bindings :: "candidate \<Rightarrow> binding list" where
  "expected_bindings c =
     map (\<lambda>p. (parent_result_id p, map_option fst (cd_slice c), map_option snd (cd_slice c), pv_role p)) (cd_parents c)"

definition dependency_of_unit :: "stage_row \<Rightarrow> ident \<Rightarrow> unit_dependency_row \<Rightarrow> bool" where
  "dependency_of_unit s unit_id r \<longleftrightarrow> ud_owner r = s_owner s \<and> ud_revision r = s_revision s \<and> ud_unit r = unit_id"

definition binding_ok :: "binding \<Rightarrow> bool" where
  "binding_ok b =
     (case b of (_, offset, len, role) \<Rightarrow>
        (case offset of None \<Rightarrow> True | Some n \<Rightarrow> n \<ge> 0) \<and> (case len of None \<Rightarrow> True | Some n \<Rightarrow> n \<ge> 1) \<and>
        1 \<le> length role \<and> length role \<le> 64)"

fun insert_bindings :: "stage_row \<Rightarrow> ident \<Rightarrow> nat \<Rightarrow> binding list \<Rightarrow> db \<Rightarrow> db result" where
  "insert_bindings s unit_id ordinal [] d = Inr d"
| "insert_bindings s unit_id ordinal (b # bs) d =
     (if \<not> binding_ok b then Inl IntegrityError
      else
        let (result_id, offset, len, role) = b;
            new = \<lparr>ud_owner = s_owner s, ud_revision = s_revision s, ud_unit = unit_id, ud_source_result = result_id,
              ud_role = role, ud_ordinal = int ordinal, ud_entry_offset = offset, ud_entry_length = len\<rparr>;
            conflict = exists_where (\<lambda>r. dependency_of_unit s unit_id r \<and>
              (ud_source_result r = result_id \<or> ud_ordinal r = int ordinal)) (unit_dependencies d)
        in insert_bindings s unit_id (ordinal + 1) bs
             (if conflict then d else d\<lparr>unit_dependencies := unit_dependencies d @ [new]\<rparr>))"

definition stored_bindings :: "stage_row \<Rightarrow> ident \<Rightarrow> db \<Rightarrow> binding list" where
  "stored_bindings s unit_id d =
     map (\<lambda>r. (ud_source_result r, ud_entry_offset r, ud_entry_length r, ud_role r))
       (order_limit ud_ordinal (nat (MAX_UNIT_DEPENDENCIES + 1)) (filter (dependency_of_unit s unit_id) (unit_dependencies d)))"

definition bind_dependencies :: "stage_row \<Rightarrow> candidate \<Rightarrow> ident \<Rightarrow> db \<Rightarrow> db result" where
  "bind_dependencies s c unit_id d =
     (if cd_slice c \<noteq> None \<and> length (cd_parents c) \<noteq> 1
      then Inl (DurableStoreError ''an entry slice requires exactly one dependency'')
      else bindE (insert_bindings s unit_id 0 (expected_bindings c) d) (\<lambda>d'.
        if stored_bindings s unit_id d' \<noteq> expected_bindings c
        then Inl (DurableStoreError ''materialized dependency lineage conflicts with the durable unit'')
        else Inr d'))"

text \<open>
  The row to insert. The primary key and the unique index on roots can refuse it; the unique
  key of a stage's units was just looked up.
\<close>

definition candidate_state :: "stage_row \<Rightarrow> revision_row \<Rightarrow> candidate \<Rightarrow> unit_state" where
  "candidate_state s r c =
     (if cd_unavailable c = None then U_PENDING
      else if cd_force_attention c \<or> s_required s \<and> \<not> r_partial_output_accepted r then U_NEEDS_ATTENTION
      else U_SKIPPED)"

definition unavailable_detail :: "string \<Rightarrow> jobj" where
  "unavailable_detail reason =
     [(''schema_version'', JStr ''metnos.durable-unit-terminal/1''), (''reason_code'', JStr reason)]"

definition new_unit :: "stage_row \<Rightarrow> revision_row \<Rightarrow> candidate \<Rightarrow> ident \<Rightarrow> string \<Rightarrow> instant \<Rightarrow> unit_row" where
  "new_unit s r c unit_id key t =
     \<lparr>u_owner = s_owner s, u_id = unit_id, u_revision = s_revision s, u_stage = s_id s, u_key = key,
      u_state = candidate_state s r c, u_attempt_count = 0,
      u_expected_dependency_count = (if cd_unavailable c \<noteq> None then 0 else int (length (cd_parents c))),
      u_next_attempt_at = None, u_lease_worker = None, u_active_attempt = None, u_fence = 0, u_lease_expires_at = None,
      u_committed_result = None, u_error_class = cd_unavailable c, u_partial_output = False,
      u_terminal_detail = map_option unavailable_detail (cd_unavailable c), u_manual_retry_tokens = 0,
      u_manual_retry_generation = r_manual_retry_generation r, u_reduction_level = cd_reduction_level c,
      u_created_at = t, u_updated_at = t, u_source_row = map_option src_id (cd_source c), u_shard_key = cd_shard_key c,
      u_reduction_ordinal = cd_reduction_ordinal c, u_reduction_root = cd_reduction_root c\<rparr>"

definition insert_unit :: "unit_row \<Rightarrow> db \<Rightarrow> db result" where
  "insert_unit u d =
     (if exists_where (unit_at (u_owner u) (u_id u)) (units d) \<or>
         u_reduction_root u \<and> exists_where (\<lambda>v. u_reduction_root v \<and> u_owner v = u_owner u \<and>
           u_revision v = u_revision u \<and> u_stage v = u_stage u) (units d)
      then Inl IntegrityError
      else Inr (d\<lparr>units := units d @ [u]\<rparr>))"

definition replay_candidate :: "stage_row \<Rightarrow> candidate \<Rightarrow> unit_row \<Rightarrow> cursor_state \<Rightarrow> db \<Rightarrow> ((int \<times> cursor_state) \<times> db) result" where
  "replay_candidate s c u cur d =
     (if cur_legacy cur then
        (if u_expected_dependency_count u \<noteq> int (length (cd_parents c))
         then Inl (DurableStoreError ''legacy unit dependency count is inconsistent'')
         else bindE (bind_dependencies s c (u_id u) d) (\<lambda>d'. Inr ((0, cur), d')))
      else if cd_duplicate_identity c then Inr ((0, cur\<lparr>cur_blocked := Some ''duplicate_entry_identity''\<rparr>), d)
      else Inl (DurableStoreError ''materialization cursor replayed a completed candidate''))"

definition create_candidate ::
  "stage_row \<Rightarrow> revision_row \<Rightarrow> candidate \<Rightarrow> string \<Rightarrow> cursor_state \<Rightarrow> db \<Rightarrow> ((int \<times> cursor_state) \<times> db) result" where
  "create_candidate s r c key cur d =
     bindE (case cd_unavailable c of
        None \<Rightarrow> Inr ''''
      | Some reason \<Rightarrow> canonical_json (JObj (unavailable_detail reason)) max_event_json_bytes) (\<lambda>_.
      let (unit_id, d1) = new_id ''unt'' d in
      bindE (insert_unit (new_unit s r c unit_id key (utc_now d)) d1) (\<lambda>d2.
      bindE (bind_dependencies s c unit_id d2) (\<lambda>d3.
      Inr ((1, cur\<lparr>cur_existing := cur_existing cur + 1, cur_legacy := False\<rparr>), d3))))"

definition insert_candidate ::
  "(string \<Rightarrow> string) \<Rightarrow> stage_row \<Rightarrow> revision_row \<Rightarrow> candidate \<Rightarrow> cursor_state \<Rightarrow> db
     \<Rightarrow> ((int \<times> cursor_state) \<times> db) result" where
  "insert_candidate sha s r c cur d =
     bindE (unit_key_of sha s c) (\<lambda>key.
     case existing_unit d s key of
       Some u \<Rightarrow> replay_candidate s c u cur d
     | None \<Rightarrow>
         if cur_existing cur \<ge> s_max_units s then Inr ((0, cur\<lparr>cur_blocked := Some ''stage_unit_cap_exceeded''\<rparr>), d)
         else create_candidate s r c key cur d)"

text \<open>Every step inserts one candidate and saves the cursor.\<close>

definition insert_and_save ::
  "(string \<Rightarrow> string) \<Rightarrow> stage_row \<Rightarrow> materialization_row \<Rightarrow> revision_row \<Rightarrow> candidate \<Rightarrow> cursor_change \<Rightarrow> db
     \<Rightarrow> (int \<times> db) result" where
  "insert_and_save sha s m r c ch d =
     bindE (insert_candidate sha s r c (stage_cursor m) d) (\<lambda>((created, cur), d1).
     bindE (save_cursor s m ch cur d1) (\<lambda>d2. Inr (created, d2)))"

definition save_only :: "stage_row \<Rightarrow> materialization_row \<Rightarrow> cursor_change \<Rightarrow> string option \<Rightarrow> db \<Rightarrow> (int \<times> db) result" where
  "save_only s m ch blocked d =
     bindE (save_cursor s m ch ((stage_cursor m)\<lparr>cur_blocked := blocked\<rparr>) d) (\<lambda>d'. Inr (0, d'))"

section \<open>Hierarchical reduction\<close>

definition reduction_label :: "int \<Rightarrow> string \<Rightarrow> string" where
  "reduction_label level name = ''reduction:'' @ show_int level @ '':'' @ name"

text \<open>A root that only records why the reduction cannot go on.\<close>

definition unavailable_root :: "int \<Rightarrow> string \<Rightarrow> string \<Rightarrow> int \<Rightarrow> candidate" where
  "unavailable_root level name reason ordinal =
     (plain_candidate None [] (Some (reduction_label level name)))
       \<lparr>cd_unavailable := Some reason, cd_force_attention := True, cd_reduction_level := Some level,
        cd_reduction_ordinal := Some ordinal, cd_reduction_root := True\<rparr>"

definition mark_root :: "stage_row \<Rightarrow> unit_row \<Rightarrow> instant \<Rightarrow> db \<Rightarrow> db result" where
  "mark_root s root t d =
     (let here = (\<lambda>u. u_owner u = s_owner s \<and> u_revision u = s_revision s \<and> u_stage u = s_id s \<and> u_id u = u_id root) in
      if exists_where (\<lambda>v. u_reduction_root v \<and> u_id v \<noteq> u_id root) (stage_units d s) then Inl IntegrityError
      else Inr (d\<lparr>units := update_where here (\<lambda>u. u\<lparr>u_reduction_root := True, u_updated_at := t\<rparr>) (units d)\<rparr>))"

definition reduction_wait ::
  "(string \<Rightarrow> string) \<Rightarrow> stage_row \<Rightarrow> materialization_row \<Rightarrow> revision_row \<Rightarrow> db \<Rightarrow> (int \<times> db) result" where
  "reduction_wait sha s m r d =
     (let level = m_reduction_level m; (total_units, committed, root) = reduction_level_status d s level in
      if total_units = 0 then
        insert_and_save sha s m r (unavailable_root level ''unavailable'' ''dependency_result_unavailable'' 0)
          (no_change\<lparr>ch_completed := True, ch_reduction_waiting := Some False\<rparr>) d
      else if committed = total_units \<and> total_units > 1 then
        save_only s m (no_change\<lparr>ch_clear_parent := True, ch_entry_offset := Some (- 1), ch_reduction_level := Some (level + 1),
          ch_reduction_ordinal := Some (- 1), ch_reduction_waiting := Some False, ch_reduction_input_count := Some (- 1)\<rparr>) None d
      else
        bindE (optE root (DurableStoreError ''assert root is not None'')) (\<lambda>root.
        bindE (mark_root s root (utc_now d) d) (\<lambda>d1.
        save_only s m (no_change\<lparr>ch_completed := True, ch_reduction_waiting := Some False\<rparr>) None d1)))"

text \<open>The inputs of a level: the outputs of the one declared stage, or the level below.\<close>

definition level_inputs :: "db \<Rightarrow> stage_row \<Rightarrow> stage_row \<Rightarrow> int \<Rightarrow> unit_row list" where
  "level_inputs d s parent level =
     (if level = 0 then filter (stage_output parent) (units d)
      else filter (\<lambda>u. u_reduction_level u = Some (level - 1)) (stage_units d s))"

definition cursor_unit :: "db \<Rightarrow> stage_row \<Rightarrow> ident option \<Rightarrow> unit_row option" where
  "cursor_unit d s cursor_id =
     (case cursor_id of
        None \<Rightarrow> None
      | Some i \<Rightarrow> find (\<lambda>u. u_owner u = s_owner s \<and> u_revision u = s_revision s \<and> u_id u = i) (units d))"

definition level_candidates :: "db \<Rightarrow> stage_row \<Rightarrow> stage_row \<Rightarrow> int \<Rightarrow> ident option \<Rightarrow> nat \<Rightarrow> parent_view list" where
  "level_candidates d s parent level cursor_id n =
     (let view = (\<lambda>u. (parent_of d s u)\<lparr>pv_role := s_key parent\<rparr>); cursor = cursor_unit d s cursor_id in
      if level = 0 then
        let after = (case cursor of None \<Rightarrow> '''' | Some c \<Rightarrow> u_key c) in
        map view (order_limit u_key n (filter (\<lambda>u. after < u_key u) (level_inputs d s parent level)))
      else
        let after = (case cursor of None \<Rightarrow> - 1 | Some c \<Rightarrow> (case u_reduction_ordinal c of None \<Rightarrow> - 1 | Some n \<Rightarrow> n)) in
        map view (order_limit (\<lambda>u. (u_reduction_ordinal u, u_key u)) n
          (filter (\<lambda>u. case u_reduction_ordinal u of None \<Rightarrow> False | Some n \<Rightarrow> after < n) (level_inputs d s parent level))))"

definition entries_of :: "parent_view \<Rightarrow> jval list option" where
  "entries_of p =
     (case pv_result p of
        None \<Rightarrow> None
      | Some x \<Rightarrow> (case jget (x_payload x) ''entries'' of Some (JArr es) \<Rightarrow> Some es | _ \<Rightarrow> None))"

definition invalid_parent :: "parent_view \<Rightarrow> bool" where
  "invalid_parent p \<longleftrightarrow> pv_state p \<noteq> U_COMMITTED \<or> entries_of p = None"

text \<open>The bytes of the array of entries, and of the array that joins several.\<close>

definition entries_bytes :: "jval list \<Rightarrow> int" where
  "entries_bytes es = utf8_size (encode_json (JArr es))"

definition combined_bytes :: "int \<Rightarrow> int \<Rightarrow> int" where
  "combined_bytes content nonempty = 2 + content + max 0 (nonempty - 1)"

fun select_group :: "int \<Rightarrow> parent_view list \<Rightarrow> parent_view list \<Rightarrow> int \<Rightarrow> int \<Rightarrow> string + parent_view list" where
  "select_group limit [] selected content nonempty = Inr selected"
| "select_group limit (p # ps) selected content nonempty =
     (let es = given (entries_of p) [];
          next_content = content + max 0 (entries_bytes es - 2);
          next_nonempty = nonempty + (if es \<noteq> [] then 1 else 0)
      in if combined_bytes next_content next_nonempty > limit then
           (if selected = [] then Inl ''dependency_input_too_large''
            else if length selected = 1 then Inl ''reduction_not_converging''
            else Inr selected)
         else select_group limit ps (selected @ [p]) next_content next_nonempty)"

definition reduction_group ::
  "(string \<Rightarrow> string) \<Rightarrow> stage_row \<Rightarrow> materialization_row \<Rightarrow> revision_row \<Rightarrow> parent_view list \<Rightarrow> int \<Rightarrow> int \<Rightarrow> int \<Rightarrow> db
     \<Rightarrow> (int \<times> db) result" where
  "reduction_group sha s m r candidates fan_in limit input_count d =
     (let level = m_reduction_level m; next_ordinal = m_reduction_ordinal m + 1 in
      case select_group limit (take (nat fan_in) candidates) [] 0 0 of
        Inl reason \<Rightarrow>
          insert_and_save sha s m r (unavailable_root level reason reason next_ordinal)
            (no_change\<lparr>ch_completed := True, ch_reduction_input_count := Some input_count\<rparr>) d
      | Inr selected \<Rightarrow>
          if selected = [] then
            save_only s m (no_change\<lparr>ch_reduction_waiting := Some True, ch_reduction_input_count := Some input_count\<rparr>) None d
          else
            insert_and_save sha s m r
              ((plain_candidate None selected (Some (reduction_label level (show_int next_ordinal))))
                 \<lparr>cd_reduction_level := Some level, cd_reduction_ordinal := Some next_ordinal\<rparr>)
              (no_change\<lparr>ch_parent_unit := Some (pv_unit_id (last selected)), ch_entry_offset := Some (- 1),
                 ch_reduction_ordinal := Some next_ordinal,
                 ch_reduction_waiting := Some (\<not> length candidates > length selected),
                 ch_reduction_input_count := Some input_count\<rparr>) d)"

definition reduction_step ::
  "(string \<Rightarrow> string) \<Rightarrow> stage_row \<Rightarrow> materialization_row \<Rightarrow> revision_row \<Rightarrow> int \<Rightarrow> db \<Rightarrow> (int \<times> db) result" where
  "reduction_step sha s m r fan_in d =
     (if m_reduction_waiting m then reduction_wait sha s m r d
      else case producing_parents d s of
        [(_, parent)] \<Rightarrow>
          let level = m_reduction_level m;
              input_count = (if m_reduction_input_count m < 0 then int (length (level_inputs d s parent level))
                             else m_reduction_input_count m)
          in if input_count = 0 then
               insert_and_save sha s m r (unavailable_root level ''unavailable'' ''dependency_result_unavailable'' 0)
                 (no_change\<lparr>ch_completed := True, ch_reduction_input_count := Some 0\<rparr>) d
             else
               let candidates = level_candidates d s parent level (m_parent_unit m) (nat (fan_in + 1)) in
               if exists_where invalid_parent (take (nat fan_in) candidates) then
                 insert_and_save sha s m r
                   (unavailable_root level ''invalid-input'' ''dependency_result_unavailable'' (m_reduction_ordinal m + 1))
                   (no_change\<lparr>ch_completed := True, ch_reduction_input_count := Some input_count\<rparr>) d
               else bindE (optE (s_reduction_max_input_bytes s) TypeError) (\<lambda>limit.
                 reduction_group sha s m r candidates fan_in limit input_count d)
      | _ \<Rightarrow> Inl (DurableStoreError ''hierarchical reduction needs one persisted dependency''))"

section \<open>One unit, or one per source\<close>

definition parent_reason :: "parent_view list \<Rightarrow> (string \<times> bool) option" where
  "parent_reason parents =
     (if exists_where (\<lambda>p. pv_state p = U_COMMITTED \<and> pv_result p = None) parents then Some (''dependency_result_missing'', True)
      else if exists_where (\<lambda>p. pv_state p \<noteq> U_COMMITTED) parents then Some (''dependency_result_unavailable'', False)
      else None)"

definition parents_candidate ::
  "source_row option \<Rightarrow> parent_view list \<Rightarrow> (string \<times> bool) option \<Rightarrow> string \<Rightarrow> string \<Rightarrow> candidate" where
  "parents_candidate source parents reason shard_key semantic_key =
     (case reason of
        None \<Rightarrow> plain_candidate source parents None
      | Some (code, force) \<Rightarrow>
          (plain_candidate source [] (Some shard_key))
            \<lparr>cd_unavailable := Some code, cd_force_attention := force, cd_semantic_shard_key := Some semantic_key\<rparr>)"

definition singleton_step ::
  "(string \<Rightarrow> string) \<Rightarrow> stage_row \<Rightarrow> materialization_row \<Rightarrow> revision_row \<Rightarrow> db \<Rightarrow> (int \<times> db) result" where
  "singleton_step sha s m r d =
     (let parents = order_limit (\<lambda>p. (pv_position p, pv_unit_key p)) (nat (MAX_UNIT_DEPENDENCIES + 1)) (parent_outputs d s);
          reason =
            (if int (length parents) > MAX_UNIT_DEPENDENCIES then Some (''dependency_fan_in_exceeded'', True)
             else if parents = [] then Some (''dependency_result_unavailable'', False)
             else parent_reason parents)
      in insert_and_save sha s m r
           (parents_candidate None parents reason ''unavailable:singleton'' ''unavailable:singleton'')
           (no_change\<lparr>ch_completed := True, ch_entry_offset := Some (- 1)\<rparr>) d)"

definition source_parents :: "db \<Rightarrow> stage_row \<Rightarrow> source_row \<Rightarrow> nat \<Rightarrow> parent_view list" where
  "source_parents d parent source n =
     map (parent_of d parent)
       (order_limit u_key n (filter (\<lambda>u. stage_output parent u \<and>
          (s_cardinality parent = ''singleton'' \<or> u_source_row u = Some (src_id source))) (units d)))"

text \<open>The units of each parent stage for one source: those found, whether a stage had none, and whether there were too many.\<close>

fun collect_parents ::
  "db \<Rightarrow> source_row \<Rightarrow> stage_row list \<Rightarrow> parent_view list \<Rightarrow> bool \<Rightarrow> parent_view list \<times> bool \<times> bool" where
  "collect_parents d source [] found missing = (found, missing, False)"
| "collect_parents d source (parent # parents) found missing =
     (let rows = source_parents d parent source (nat (MAX_UNIT_DEPENDENCIES + 1) - length found);
          found' = found @ rows; missing' = (missing \<or> rows = [])
      in if int (length found') > MAX_UNIT_DEPENDENCIES then (found', missing', True)
         else collect_parents d source parents found' missing')"

definition next_source :: "db \<Rightarrow> stage_row \<Rightarrow> int \<Rightarrow> source_row option" where
  "next_source d s ordinal =
     (case order_limit (\<lambda>x. (src_ordinal x, src_id x)) 1
             (filter (\<lambda>x. src_owner x = s_owner s \<and> src_revision x = s_revision s \<and> src_ordinal x > ordinal) (sources d)) of
        [] \<Rightarrow> None | x # _ \<Rightarrow> Some x)"

definition per_source_step ::
  "(string \<Rightarrow> string) \<Rightarrow> stage_row \<Rightarrow> materialization_row \<Rightarrow> revision_row \<Rightarrow> db \<Rightarrow> (int \<times> db) result" where
  "per_source_step sha s m r d =
     (case next_source d s (m_source_ordinal m) of
        None \<Rightarrow> save_only s m (no_change\<lparr>ch_completed := True, ch_entry_offset := Some (- 1)\<rparr>) None d
      | Some source \<Rightarrow>
          let stages_in_order = map snd (sort_key (\<lambda>(p, _). sd_ordinal p) (producing_parents d s));
              (parents, missing, too_many) = collect_parents d source stages_in_order [] False;
              reason =
                (if too_many then Some (''dependency_fan_in_exceeded'', True)
                 else if missing \<or> parents = [] then Some (''dependency_result_unavailable'', False)
                 else parent_reason parents)
          in insert_and_save sha s m r
               (parents_candidate (Some source) parents reason
                  (''unavailable:source:'' @ src_id source) (''unavailable:source:'' @ src_source_id source))
               (no_change\<lparr>ch_source_ordinal := Some (src_ordinal source)\<rparr>) d)"

section \<open>One unit per parent result or entry\<close>

definition cursor_parents :: "db \<Rightarrow> stage_row \<Rightarrow> materialization_row \<Rightarrow> parent_view list" where
  "cursor_parents d s m =
     (if m_entry_offset m \<ge> 0 \<and> m_parent_unit m \<noteq> None then
        concat (map (\<lambda>(_, parent). map (parent_of d parent) (filter (\<lambda>u. u_owner u = s_owner parent \<and>
            u_revision u = s_revision parent \<and> u_stage u = s_id parent \<and> s_position parent = m_parent_position m \<and>
            m_parent_unit m = Some (u_id u)) (units d))) (declared_parents d s))
      else
        let after = (case cursor_unit d s (m_parent_unit m) of None \<Rightarrow> '''' | Some c \<Rightarrow> u_key c) in
        order_limit (\<lambda>p. (pv_position p, pv_unit_key p)) 1
          (filter (\<lambda>p. pv_position p > m_parent_position m \<or> pv_position p = m_parent_position m \<and> after < pv_unit_key p)
             (parent_outputs d s)))"

definition cursor_at :: "parent_view \<Rightarrow> int \<Rightarrow> cursor_change" where
  "cursor_at p entry_offset =
     no_change\<lparr>ch_parent_position := Some (pv_position p), ch_parent_unit := Some (pv_unit_id p),
       ch_entry_offset := Some entry_offset\<rparr>"

definition missing_candidate :: "parent_view \<Rightarrow> string \<Rightarrow> bool \<Rightarrow> candidate" where
  "missing_candidate p reason force =
     (plain_candidate (pv_source p) [] (Some (''unavailable:unit:'' @ pv_unit_id p)))
       \<lparr>cd_unavailable := Some reason, cd_force_attention := force,
        cd_semantic_shard_key := Some (''unavailable:unit:'' @ pv_unit_key p)\<rparr>"

definition whole_candidate :: "parent_view \<Rightarrow> result_row \<Rightarrow> candidate" where
  "whole_candidate p x =
     (plain_candidate (pv_source p) [p] (Some (''result:'' @ x_id x)))
       \<lparr>cd_semantic_shard_key := Some (''result:'' @ pv_unit_key p)\<rparr>"

definition entry_candidate :: "parent_view \<Rightarrow> result_row \<Rightarrow> string \<Rightarrow> string \<Rightarrow> nat \<Rightarrow> nat \<Rightarrow> candidate" where
  "entry_candidate p x field entry_digest item_start item_end =
     (plain_candidate (pv_source p) [p] (Some (''entry:'' @ x_id x @ '':'' @ field @ '':'' @ entry_digest)))
       \<lparr>cd_duplicate_identity := True, cd_slice := Some (int item_start, int item_end - int item_start),
        cd_semantic_shard_key := Some (''entry:'' @ field @ '':'' @ entry_digest)\<rparr>"

definition entry_digest_of :: "(string \<Rightarrow> string) \<Rightarrow> string \<Rightarrow> string \<Rightarrow> string result" where
  "entry_digest_of sha field identity =
     digest_json sha ''durable-entry-shard'' (JObj [(''field'', JStr field), (''value'', JStr identity)]) max_event_json_bytes"

text \<open>The payload as it is stored.\<close>

definition payload_text :: "result_row \<Rightarrow> string" where
  "payload_text x = encode_json (JObj (x_payload x))"

definition read_entry :: "materialization_row \<Rightarrow> result_row \<Rightarrow> (jobj option \<times> nat \<times> bool \<times> nat \<times> nat) result" where
  "read_entry m x =
     bindE (if m_entry_offset m \<ge> 0 then Inr (nat (m_entry_offset m)) else entry_array_offset (payload_text x))
       (next_entry (payload_text x))"

definition entry_step ::
  "(string \<Rightarrow> string) \<Rightarrow> stage_row \<Rightarrow> materialization_row \<Rightarrow> revision_row \<Rightarrow> parent_view \<Rightarrow> result_row \<Rightarrow> string \<Rightarrow> db
     \<Rightarrow> (int \<times> db) result" where
  "entry_step sha s m r p x field d =
     (case read_entry m x of
        Inl _ \<Rightarrow> save_only s m no_change (Some ''dependency_payload_invalid'') d
      | Inr (None, _) \<Rightarrow> save_only s m (cursor_at p (- 1)) None d
      | Inr (Some entry, next_offset, finished, item_start, item_end) \<Rightarrow>
          (case jget entry field of
             Some (JStr identity) \<Rightarrow>
               if identity = [] then save_only s m no_change (Some ''entry_identity_invalid'') d
               else bindE (entry_digest_of sha field identity) (\<lambda>entry_digest.
                 insert_and_save sha s m r (entry_candidate p x field entry_digest item_start item_end)
                   (cursor_at p (if finished then - 1 else int next_offset)) d)
           | _ \<Rightarrow> save_only s m no_change (Some ''entry_identity_invalid'') d))"

definition per_parent_step ::
  "(string \<Rightarrow> string) \<Rightarrow> stage_row \<Rightarrow> materialization_row \<Rightarrow> revision_row \<Rightarrow> db \<Rightarrow> (int \<times> db) result" where
  "per_parent_step sha s m r d =
     (case cursor_parents d s m of
        [] \<Rightarrow> save_only s m (no_change\<lparr>ch_completed := True, ch_entry_offset := Some (- 1)\<rparr>) None d
      | p # _ \<Rightarrow>
          if pv_state p \<noteq> U_COMMITTED then
            insert_and_save sha s m r (missing_candidate p ''dependency_result_unavailable'' False) (cursor_at p (- 1)) d
          else (case pv_result p of
             None \<Rightarrow> insert_and_save sha s m r (missing_candidate p ''dependency_result_missing'' True) (cursor_at p (- 1)) d
           | Some x \<Rightarrow>
               (case s_entry_identity_field s of
                  None \<Rightarrow> insert_and_save sha s m r (whole_candidate p x) (cursor_at p (- 1)) d
                | Some field \<Rightarrow> entry_step sha s m r p x field d)))"

section \<open>A batch\<close>

definition materialize_step ::
  "(string \<Rightarrow> string) \<Rightarrow> stage_row \<Rightarrow> materialization_row \<Rightarrow> revision_row \<Rightarrow> db \<Rightarrow> (int \<times> db) result" where
  "materialize_step sha s m r d =
     (case s_reduction_fan_in s of
        Some fan_in \<Rightarrow> reduction_step sha s m r fan_in d
      | None \<Rightarrow>
          if s_cardinality s = ''singleton'' then singleton_step sha s m r d
          else if s_cardinality s = ''per_source'' then per_source_step sha s m r d
          else per_parent_step sha s m r d)"

text \<open>The loop \<open>while advanced < limit\<close>, by the number of steps still allowed.\<close>

fun materialize_steps ::
  "(string \<Rightarrow> string) \<Rightarrow> string \<Rightarrow> ident \<Rightarrow> revision_row \<Rightarrow> nat \<Rightarrow> int \<times> int \<Rightarrow> db \<Rightarrow> ((int \<times> int) \<times> db) result" where
  "materialize_steps sha owner revision_id r 0 totals d = Inr (totals, d)"
| "materialize_steps sha owner revision_id r (Suc n) totals d =
     (case next_materialization_stage d owner revision_id of
        None \<Rightarrow> Inr (totals, d)
      | Some (s, m) \<Rightarrow>
          bindE (materialize_step sha s m r d) (\<lambda>(created, d').
          materialize_steps sha owner revision_id r n (fst totals + created, snd totals + 1) d'))"

definition materialize_ready_units_batch ::
  "(string \<Rightarrow> string) \<Rightarrow> string \<Rightarrow> ident \<Rightarrow> int \<Rightarrow> db \<Rightarrow> ((int \<times> int) \<times> db) result" where
  "materialize_ready_units_batch sha owner workload_id limit d =
     bindE (select_workload d owner workload_id) (\<lambda>w.
     case w_active_revision w of
       None \<Rightarrow> Inr ((0, 0), d)
     | Some revision_id \<Rightarrow>
         if w_state w \<notin> {W_ADMITTED, W_QUEUED, W_RUNNING} then Inr ((0, 0), d)
         else bindE (optE (revision_of owner workload_id revision_id d) (DurableStoreError ''active revision is missing'')) (\<lambda>r.
           materialize_steps sha owner revision_id r (nat limit) (0, 0) d))"

definition materialize_ready_units ::
  "(string \<Rightarrow> string) \<Rightarrow> string \<Rightarrow> ident \<Rightarrow> int \<Rightarrow> db \<Rightarrow> (int \<times> db) result" where
  "materialize_ready_units sha owner_user_id workload_id limit d =
     bindE (require_owner owner_user_id) (\<lambda>owner.
     bindE (require_limit limit 1000) (\<lambda>_.
     bindE (materialize_ready_units_batch sha owner workload_id limit d) (\<lambda>((created, _), d'). Inr (created, d'))))"

end
