(* ===== verification/Materialization_Properties.thy ===== *)
theory Materialization_Properties
  imports Materialization
begin

text \<open>
  What materialization keeps and reaches: every batch is a transaction of the store, adds only
  fresh idle units within the cap of their stage and never one twice, counts the bytes of a
  reduction group as they will be read, and moves the cursor of a stage at every step.
\<close>

section \<open>Transactions\<close>

lemma txn_materialization [simp]: "txn d (d\<lparr>stage_materialization := ms\<rparr>)"
  by (simp add: txn_def store_ok_def keys_ok_def active_ok_def db_evolves_def)

definition fresh_unit :: "unit_row \<Rightarrow> bool" where
  "fresh_unit u \<longleftrightarrow> idle_unit u \<and> u_state u \<noteq> U_COMMITTED \<and> u_committed_result u = None \<and> u_fence u = 0 \<and> u_attempt_count u = 0"

lemma txn_append_unit:
  assumes new: "\<forall>v \<in> set (units d). unit_pk v \<noteq> unit_pk u" and fresh: "fresh_unit u"
  shows "txn d (d\<lparr>units := units d @ [u]\<rparr>)"
proof -
  have "leases_ok (units d @ [u]) as" if "leases_ok (units d) as" for as
    using that fresh unfolding leases_ok_def fresh_unit_def by auto
  moreover have "results_ok (units d @ [u]) xs" if "results_ok (units d) xs" for xs
    using that fresh unfolding results_ok_def fresh_unit_def by auto
  moreover have "distinct (map unit_pk (units d @ [u]))" if "distinct (map unit_pk (units d))"
    using that new by auto
  ultimately show ?thesis
    by (simp add: txn_def store_ok_def keys_ok_def active_ok_def db_evolves_def)
qed

text \<open>Marking a unit touches nothing that the invariant speaks of.\<close>

definition marked :: "instant \<Rightarrow> unit_row \<Rightarrow> unit_row" where
  "marked t u = u\<lparr>u_reduction_root := True, u_updated_at := t\<rparr>"

lemma txn_mark_units: "txn d (d\<lparr>units := update_where P (marked t) (units d)\<rparr>)"
proof -
  define g where "g u = (if P u then marked t u else u)" for u
  have g: "update_where P (marked t) us = map g us" for us by (simp add: update_where_def g_def)
  have same: "idle_unit (g u) = idle_unit u" "live_unit (g u) = live_unit u" "attempt_of (g u) a = attempt_of u a"
    "leased_alike (g u) a = leased_alike u a" "attempt_within (g u) a = attempt_within u a" "u_state (g u) = u_state u"
    "u_lease_expires_at (g u) = u_lease_expires_at u" "u_owner (g u) = u_owner u" "u_id (g u) = u_id u"
    "u_committed_result (g u) = u_committed_result u" "unit_evolves u (g u)" for u a
    by (auto simp: g_def marked_def idle_unit_def live_unit_def attempt_of_def leased_alike_def attempt_within_def
        unit_evolves_def fence_evolves_def)
  have "rows_evolve unit_evolves (units d) (map g (units d))"
    using same(11) by (simp add: rows_evolve_def)
  moreover have "map (unit_pk \<circ> g) us = map unit_pk us" for us
    by (simp add: same)
  moreover have "leases_ok (map g us) as = leases_ok us as" "results_ok (map g us) xs = results_ok us xs" for us as xs
    by (simp_all add: leases_ok_def results_ok_def same)
  ultimately show ?thesis
    unfolding g txn_def store_ok_def keys_ok_def active_ok_def db_evolves_def by (simp del: map_eq_conv)
qed

lemma insert_bindings_frame: "insert_bindings s i n bs d = Inr d' \<Longrightarrow> \<exists>us. d' = d\<lparr>unit_dependencies := us\<rparr>"
proof (induction bs arbitrary: n d)
  case Nil
  then show ?case by (intro exI [of _ "unit_dependencies d"]) simp
next
  case (Cons b bs)
  obtain e where "insert_bindings s i (n + 1) bs e = Inr d'" and "e = d \<or> (\<exists>us. e = d\<lparr>unit_dependencies := us\<rparr>)"
    using Cons.prems by (auto simp: Let_def split: if_split_asm prod.split_asm)
  with Cons.IH show ?case by fastforce
qed

lemma bind_dependencies_frame: "bind_dependencies s c i d = Inr d' \<Longrightarrow> \<exists>us. d' = d\<lparr>unit_dependencies := us\<rparr>"
  by (auto simp: bind_dependencies_def tx_simps split: if_split_asm dest: insert_bindings_frame)

lemma new_unit_fresh: "fresh_unit (new_unit s r c i key t)"
  by (simp add: fresh_unit_def idle_unit_def live_unit_def new_unit_def candidate_state_def)

lemma db_same_dependencies: "\<exists>us. d = d\<lparr>unit_dependencies := us\<rparr>" for d :: db
  by (rule exI [of _ "unit_dependencies d"]) simp

text \<open>The effect of inserting a candidate: nothing new, or one unit, and its dependencies.\<close>

lemma insert_candidate_effect:
  assumes run: "insert_candidate sha s r c cur d = Inr ((created, cur'), d')"
  obtains (kept) us where "created = 0" and "d' = d\<lparr>unit_dependencies := us\<rparr>" and "cur_existing cur' = cur_existing cur"
  | (made) i key us where "created = 1" and "unit_key_of sha s c = Inr key" and "existing_unit d s key = None"
      and "cur_existing cur < s_max_units s" and "cur_existing cur' = cur_existing cur + 1"
      and "\<forall>v \<in> set (units d). unit_pk v \<noteq> (s_owner s, i)"
      and "d' = d\<lparr>units := units d @ [new_unit s r c i key (clock d)], unit_dependencies := us, uuid_count := uuid_count d + 1\<rparr>"
proof -
  obtain key where key: "unit_key_of sha s c = Inr key" using run by (auto simp: insert_candidate_def tx_simps)
  show ?thesis
  proof (cases "existing_unit d s key")
    case (Some u)
    then have "replay_candidate s c u cur d = Inr ((created, cur'), d')"
      using run by (simp add: insert_candidate_def key)
    then have "created = 0 \<and> cur_existing cur' = cur_existing cur \<and> (\<exists>us. d' = d\<lparr>unit_dependencies := us\<rparr>)"
      using bind_dependencies_frame [of s c "u_id u" d] db_same_dependencies [of d]
      by (auto simp: replay_candidate_def tx_simps split: if_split_asm)
    then show ?thesis using kept by blast
  next
    case None
    note none = this
    show ?thesis
    proof (cases "cur_existing cur \<ge> s_max_units s")
      case True
      then have "created = 0 \<and> cur_existing cur' = cur_existing cur \<and> d' = d"
        using run none by (auto simp: insert_candidate_def key)
      then show ?thesis using kept db_same_dependencies [of d] by blast
    next
      case False
      then have "create_candidate s r c key cur d = Inr ((created, cur'), d')"
        using run none by (simp add: insert_candidate_def key)
      then obtain i d1 d2 where i: "new_id ''unt'' d = (i, d1)"
        and ins: "insert_unit (new_unit s r c i key (utc_now d)) d1 = Inr d2"
        and bind: "bind_dependencies s c i d2 = Inr d'" and created: "created = 1" "cur_existing cur' = cur_existing cur + 1"
        unfolding create_candidate_def tx_simps by (elim exE conjE) (auto simp: tx_simps split: prod.split_asm)
      have d1: "d1 = d\<lparr>uuid_count := uuid_count d + 1\<rparr>" using i by (simp add: new_id_def)
      have "\<forall>v \<in> set (units d). unit_pk v \<noteq> (s_owner s, i)" and d2: "d2 = d1\<lparr>units := units d @ [new_unit s r c i key (clock d)]\<rparr>"
        using ins by (auto simp: insert_unit_def d1 unit_at_def new_unit_def utc_now_def split: if_split_asm)
      moreover obtain us where "d' = d2\<lparr>unit_dependencies := us\<rparr>" using bind_dependencies_frame [OF bind] by blast
      ultimately show ?thesis
        using made [OF created(1) key none _ created(2), of i us] False by (simp add: d1 d2)
    qed
  qed
qed

lemma insert_candidate_txn: "insert_candidate sha s r c cur d = Inr ((created, cur'), d') \<Longrightarrow> txn d d'"
proof (erule insert_candidate_effect)
  fix i key us
  let ?u = "new_unit s r c i key (clock d)"
  assume "\<forall>v \<in> set (units d). unit_pk v \<noteq> (s_owner s, i)"
    and d': "d' = d\<lparr>units := units d @ [?u], unit_dependencies := us, uuid_count := uuid_count d + 1\<rparr>"
  then have "txn d (d\<lparr>units := units d @ [?u]\<rparr>)"
    by (intro txn_append_unit new_unit_fresh) (simp add: new_unit_def)
  moreover have "txn (d\<lparr>units := units d @ [?u]\<rparr>) d'"
    using txn_trans [OF txn_untracked(4) txn_untracked(7)] by (simp add: d')
  ultimately show ?thesis by (rule txn_trans)
qed simp

lemma save_cursor_effect:
  assumes "save_cursor s m ch cur d = Inr d'"
  shows "d' = d\<lparr>stage_materialization := update_where (progress_at s) (\<lambda>_. saved_row m ch cur (clock d)) (stage_materialization d)\<rparr>"
    and "count_where (progress_at s) (stage_materialization d) = 1"
  using assms by (auto simp: save_cursor_def utc_now_def split: if_split_asm)

lemma save_only_effect:
  assumes "save_only s m ch blocked d = Inr (created, d')"
  obtains "created = 0" and "save_cursor s m ch ((stage_cursor m)\<lparr>cur_blocked := blocked\<rparr>) d = Inr d'"
  using assms by (auto simp: save_only_def tx_simps)

lemma insert_and_save_effect:
  assumes "insert_and_save sha s m r c ch d = Inr (created, d')"
  obtains cur d1 where "insert_candidate sha s r c (stage_cursor m) d = Inr ((created, cur), d1)"
    and "save_cursor s m ch cur d1 = Inr d'"
  using assms by (auto simp: insert_and_save_def tx_simps)

lemma mark_root_effect:
  "mark_root s root t d = Inr d' \<Longrightarrow> \<exists>P. d' = d\<lparr>units := update_where P (marked t) (units d)\<rparr>"
  by (auto simp: mark_root_def Let_def marked_def [abs_def] split: if_split_asm)

text \<open>
  How a save moves the cursor: the stage completes, or the next source, reduction level,
  reduction group, parent or entry is reached.
\<close>

definition cursor_key :: "db \<Rightarrow> stage_row \<Rightarrow> materialization_row \<Rightarrow> string" where
  "cursor_key d s m = (case cursor_unit d s (m_parent_unit m) of None \<Rightarrow> '''' | Some c \<Rightarrow> u_key c)"

definition parent_forward :: "db \<Rightarrow> stage_row \<Rightarrow> materialization_row \<Rightarrow> int \<Rightarrow> ident \<Rightarrow> int \<Rightarrow> bool" where
  "parent_forward d s m position unit_id offset \<longleftrightarrow>
     m_parent_position m < position \<or>
     m_parent_position m = position \<and> (\<exists>u \<in> set (units d). u_id u = unit_id \<and> cursor_key d s m < u_key u) \<or>
     m_parent_position m = position \<and> m_parent_unit m = Some unit_id \<and> 0 \<le> m_entry_offset m \<and>
       (offset = - 1 \<or> m_entry_offset m < offset)"

definition forward :: "db \<Rightarrow> stage_row \<Rightarrow> materialization_row \<Rightarrow> cursor_change \<Rightarrow> bool" where
  "forward d s m ch \<longleftrightarrow> ch_completed ch \<or>
     (\<exists>n. ch_source_ordinal ch = Some n \<and> m_source_ordinal m < n) \<or>
     ch_reduction_level ch = Some (m_reduction_level m + 1) \<or>
     ch_reduction_level ch = None \<and> ch_reduction_ordinal ch = Some (m_reduction_ordinal m + 1) \<or>
     ch_reduction_level ch = None \<and> ch_reduction_ordinal ch = None \<and> \<not> m_reduction_waiting m \<and> ch_reduction_waiting ch = Some True \<or>
     (\<exists>position unit_id offset. ch = no_change\<lparr>ch_parent_position := Some position, ch_parent_unit := Some unit_id,
        ch_entry_offset := Some offset\<rparr> \<and> parent_forward d s m position unit_id offset)"

text \<open>
  Every step is the insertion of a candidate and a save, a save alone, or the marking of a root
  and a save, and each moves the cursor or blocks the stage. What the steps keep and reach is
  proved once over these three.
\<close>

definition basic_outcome ::
  "(string \<Rightarrow> string) \<Rightarrow> stage_row \<Rightarrow> materialization_row \<Rightarrow> revision_row \<Rightarrow> db \<Rightarrow> int \<times> db \<Rightarrow> bool" where
  "basic_outcome sha s m r d out \<longleftrightarrow>
     (\<exists>c ch. insert_and_save sha s m r c ch d = Inr out \<and> forward d s m ch) \<or>
     (\<exists>ch blocked. save_only s m ch blocked d = Inr out \<and> (forward d s m ch \<or> blocked \<noteq> None)) \<or>
     (\<exists>root d1 ch. mark_root s root (utc_now d) d = Inr d1 \<and> save_only s m ch None d1 = Inr out \<and> ch_completed ch)"

lemma basic_outcomeI:
  "insert_and_save sha s m r c ch d = Inr out \<Longrightarrow> forward d s m ch \<Longrightarrow> basic_outcome sha s m r d out"
  "save_only s m ch blocked d = Inr out \<Longrightarrow> forward d s m ch \<or> blocked \<noteq> None \<Longrightarrow> basic_outcome sha s m r d out"
  "mark_root s root (utc_now d) d = Inr d1 \<Longrightarrow> save_only s m ch None d1 = Inr out \<Longrightarrow> ch_completed ch \<Longrightarrow>
     basic_outcome sha s m r d out"
  unfolding basic_outcome_def by blast+

lemma forward_completed: "ch_completed ch \<Longrightarrow> forward d s m ch"
  by (simp add: forward_def)

lemma reduction_wait_basic:
  assumes "reduction_wait sha s m r d = Inr out"
  shows "basic_outcome sha s m r d out"
  using assms unfolding reduction_wait_def Let_def
  by (auto simp: tx_simps forward_def split: prod.split_asm if_split_asm intro: basic_outcomeI)

lemma reduction_group_basic:
  assumes "reduction_group sha s m r candidates fan_in limit n d = Inr out" and "\<not> m_reduction_waiting m"
  shows "basic_outcome sha s m r d out"
  using assms unfolding reduction_group_def Let_def
  by (auto simp: forward_def no_change_def split: sum.split_asm if_split_asm intro: basic_outcomeI)

lemma reduction_step_basic:
  assumes "reduction_step sha s m r fan_in d = Inr out"
  shows "basic_outcome sha s m r d out"
proof (cases "m_reduction_waiting m")
  case True
  then show ?thesis using assms reduction_wait_basic by (simp add: reduction_step_def)
next
  case False
  then obtain p parent where "producing_parents d s = [(p, parent)]"
    using assms by (auto simp: reduction_step_def split: list.split_asm)
  then show ?thesis
    using assms False unfolding reduction_step_def Let_def
    by (auto simp: tx_simps forward_completed split: if_split_asm
        intro: basic_outcomeI(1) reduction_group_basic)
qed

lemma singleton_step_basic: "singleton_step sha s m r d = Inr out \<Longrightarrow> basic_outcome sha s m r d out"
  unfolding singleton_step_def Let_def by (erule basic_outcomeI(1)) (simp add: forward_completed)

lemmas order_limit_row = subsetD [OF set_order_limit]

lemma order_limit_head: "order_limit k n rows = x # xs \<Longrightarrow> x \<in> set rows"
  using order_limit_row [of x k n rows] by simp

lemma basic_saved:
  "save_only s m ch None d = Inr out \<Longrightarrow> forward d s m ch \<Longrightarrow> basic_outcome sha s m r d out"
  "save_only s m ch (Some code) d = Inr out \<Longrightarrow> basic_outcome sha s m r d out"
  by (auto intro: basic_outcomeI(2))

lemma per_source_step_basic:
  assumes "per_source_step sha s m r d = Inr out"
  shows "basic_outcome sha s m r d out"
proof (cases "next_source d s (m_source_ordinal m)")
  case None
  then show ?thesis
    using assms by (auto simp: per_source_step_def intro!: basic_outcomeI(2) forward_completed)
next
  case (Some x)
  then have "m_source_ordinal m < src_ordinal x"
    unfolding next_source_def by (auto split: list.split_asm dest!: order_limit_head)
  then have "forward d s m (no_change\<lparr>ch_source_ordinal := Some (src_ordinal x)\<rparr>)"
    by (simp add: forward_def)
  then show ?thesis
    using assms basic_outcomeI(1) unfolding per_source_step_def Some Let_def
    by (auto split: prod.split_asm)
qed

text \<open>The parent under the cursor is the one being read, or lies beyond the cursor.\<close>

lemma cursor_parents_cases:
  assumes "cursor_parents d s m = p # ps"
  obtains (reading) "0 \<le> m_entry_offset m" "m_parent_unit m = Some (pv_unit_id p)" "pv_position p = m_parent_position m"
  | (beyond) "parent_forward d s m (pv_position p) (pv_unit_id p) offset"
proof (cases "m_entry_offset m \<ge> 0 \<and> m_parent_unit m \<noteq> None")
  case True
  have "p \<in> set (cursor_parents d s m)" using assms by simp
  then have "m_parent_unit m = Some (pv_unit_id p)" "pv_position p = m_parent_position m"
    using True by (auto simp: cursor_parents_def parent_of_def)
  then show ?thesis using True reading by blast
next
  case False
  have "p \<in> set (cursor_parents d s m)" using assms by simp
  then have "p \<in> set (parent_outputs d s)"
    and past: "pv_position p > m_parent_position m \<or> pv_position p = m_parent_position m \<and> cursor_key d s m < pv_unit_key p"
    using False unfolding cursor_parents_def cursor_key_def Let_def by (auto dest!: order_limit_row)
  then have "\<exists>u \<in> set (units d). u_id u = pv_unit_id p \<and> u_key u = pv_unit_key p"
    by (auto simp: parent_outputs_def parent_of_def)
  then show ?thesis using past beyond unfolding parent_forward_def by metis
qed

lemma cursor_at_forward: "parent_forward d s m (pv_position p) (pv_unit_id p) offset \<Longrightarrow> forward d s m (cursor_at p offset)"
  unfolding forward_def cursor_at_def by blast

lemma cursor_past_parent:
  assumes "cursor_parents d s m = p # ps"
  shows "forward d s m (cursor_at p (- 1))"
  using assms by (cases rule: cursor_parents_cases [where offset = "- 1"])
    (auto intro!: cursor_at_forward simp: parent_forward_def)

lemma cursor_past_entry:
  assumes "cursor_parents d s m = p # ps"
    and "read_entry m x = Inr (Some entry, next_offset, finished, item_start, item_end)"
  shows "forward d s m (cursor_at p (if finished then - 1 else int next_offset))"
proof (rule cursor_at_forward)
  show "parent_forward d s m (pv_position p) (pv_unit_id p) (if finished then - 1 else int next_offset)"
    using assms(1)
  proof (cases rule: cursor_parents_cases [where offset = "if finished then - 1 else int next_offset"])
    case reading
    then have "nat (m_entry_offset m) < next_offset"
      using assms(2) next_entry_forward by (auto simp: read_entry_def)
    with reading show ?thesis by (auto simp: parent_forward_def)
  qed
qed

lemma entry_step_basic:
  assumes run: "entry_step sha s m r p x field d = Inr out" and at: "cursor_parents d s m = p # ps"
  shows "basic_outcome sha s m r d out"
  using run cursor_past_parent [OF at] cursor_past_entry [OF at, of x]
  unfolding entry_step_def
  by (auto simp: tx_simps split: sum.split_asm option.split_asm jval.split_asm if_split_asm
      intro: basic_outcomeI(1) basic_saved)

lemma per_parent_step_basic:
  assumes "per_parent_step sha s m r d = Inr out"
  shows "basic_outcome sha s m r d out"
proof (cases "cursor_parents d s m")
  case Nil
  then show ?thesis
    using assms by (auto simp: per_parent_step_def intro!: basic_outcomeI(2) forward_completed)
next
  case (Cons p ps)
  then show ?thesis
    using assms cursor_past_parent [OF Cons] entry_step_basic [OF _ Cons]
    by (auto simp: per_parent_step_def split: if_split_asm option.split_asm intro: basic_outcomeI(1))
qed

lemma materialize_step_basic: "materialize_step sha s m r d = Inr out \<Longrightarrow> basic_outcome sha s m r d out"
  unfolding materialize_step_def
  by (auto split: option.split_asm if_split_asm
      intro: reduction_step_basic singleton_step_basic per_source_step_basic per_parent_step_basic)

section \<open>A step is a transaction\<close>

lemma save_cursor_txn: "save_cursor s m ch cur d = Inr d' \<Longrightarrow> txn d d'"
  by (drule save_cursor_effect(1)) simp

lemma save_only_txn: "save_only s m ch blocked d = Inr (created, d') \<Longrightarrow> txn d d'"
  by (erule save_only_effect) (rule save_cursor_txn)

lemma mark_root_txn: "mark_root s root t d = Inr d' \<Longrightarrow> txn d d'"
  by (drule mark_root_effect) (auto simp: txn_mark_units)

lemma basic_outcome_txn: "basic_outcome sha s m r d (created, d') \<Longrightarrow> txn d d'"
  unfolding basic_outcome_def
  by (auto elim!: insert_and_save_effect intro: save_only_txn
      txn_trans [OF insert_candidate_txn save_cursor_txn] txn_trans [OF mark_root_txn save_only_txn])

lemma materialize_steps_txn:
  "materialize_steps sha owner rid r n totals d = Inr (totals', d') \<Longrightarrow> txn d d'"
proof (induction n arbitrary: totals d)
  case (Suc n)
  then show ?case
    by (auto simp: tx_simps split: option.split_asm
        dest!: materialize_step_basic basic_outcome_txn Suc.IH intro: txn_trans)
qed simp

lemma materialize_ready_units_batch_txn:
  "materialize_ready_units_batch sha owner wid limit d = Inr (totals, d') \<Longrightarrow> txn d d'"
  unfolding materialize_ready_units_batch_def
  by (auto simp: tx_simps split: option.split_asm if_split_asm dest: materialize_steps_txn)

lemma materialize_ready_units_txn: "materialize_ready_units sha owner wid limit d = Inr (created, d') \<Longrightarrow> txn d d'"
  unfolding materialize_ready_units_def by (auto simp: tx_simps dest: materialize_ready_units_batch_txn)

section \<open>The units a batch leaves\<close>

text \<open>A unit that was there stays as it was, except that it may be marked as the root of its reduction.\<close>

definition kept_unit :: "unit_row \<Rightarrow> unit_row \<Rightarrow> bool" where
  "kept_unit u v \<longleftrightarrow> v = u \<or> (\<exists>t. v = marked t u)"

definition units_grow :: "unit_row list \<Rightarrow> nat \<Rightarrow> unit_row list \<Rightarrow> bool" where
  "units_grow us n vs \<longleftrightarrow>
     (\<exists>olds news. vs = olds @ news \<and> list_all2 kept_unit us olds \<and> length news = n \<and> list_all fresh_unit news)"

lemma kept_unit_trans: "kept_unit u v \<Longrightarrow> kept_unit v w \<Longrightarrow> kept_unit u w"
  by (auto simp: kept_unit_def marked_def)

lemma kept_unit_fresh: "fresh_unit u \<Longrightarrow> kept_unit u v \<Longrightarrow> fresh_unit v"
  by (auto simp: kept_unit_def marked_def fresh_unit_def idle_unit_def live_unit_def)

lemma list_all2_kept_refl: "list_all2 kept_unit us us"
  by (simp add: list_all2_same kept_unit_def)

lemma list_all2_marked: "list_all2 kept_unit us (update_where P (marked t) us)"
  by (auto simp: update_where_def list_all2_conv_all_nth kept_unit_def)

lemma units_grow_trans:
  assumes "units_grow us n vs" and "units_grow vs k ws"
  shows "units_grow us (n + k) ws"
proof -
  obtain olds news where vs: "vs = olds @ news" "list_all2 kept_unit us olds" "length news = n" "list_all fresh_unit news"
    using assms(1) unfolding units_grow_def by blast
  obtain xs ys where ws: "ws = xs @ ys" "list_all2 kept_unit vs xs" "length ys = k" "list_all fresh_unit ys"
    using assms(2) unfolding units_grow_def by blast
  obtain xs1 xs2 where xs: "xs = xs1 @ xs2" "list_all2 kept_unit olds xs1" "list_all2 kept_unit news xs2"
    using ws(2) unfolding vs(1) list_all2_append1 by blast
  have "list_all fresh_unit xs2"
    using xs(3) vs(4) kept_unit_fresh unfolding list_all_length list_all2_conv_all_nth by metis
  moreover have "list_all2 kept_unit us xs1" using list_all2_trans [OF _ vs(2) xs(2)] kept_unit_trans by blast
  moreover have "length xs2 = n" using xs(3) vs(3) by (simp add: list_all2_lengthD)
  ultimately show ?thesis unfolding units_grow_def ws(1) xs(1) using ws(3,4)
    by (intro exI [of _ xs1] exI [of _ "xs2 @ ys"]) simp
qed

lemma units_grow_refl: "units_grow us 0 us"
  by (simp add: units_grow_def list_all2_kept_refl)

lemma units_grow_marked: "units_grow us 0 (update_where P (marked t) us)"
  by (simp add: units_grow_def list_all2_marked)

lemma units_grow_one: "fresh_unit u \<Longrightarrow> units_grow us 1 (us @ [u])"
  unfolding units_grow_def using list_all2_kept_refl by (intro exI [of _ us] exI [of _ "[u]"]) simp

text \<open>
  The units of a stage have distinct keys, its progress row counts them, and there are no more
  than its cap while it is being materialized. Units and progress rows belong to stages.
\<close>

definition stage_tally :: "db \<Rightarrow> bool" where
  "stage_tally d \<longleftrightarrow> (\<forall>s \<in> set (stages d). distinct (map u_key (stage_units d s)) \<and>
     (\<forall>m \<in> set (stage_materialization d). progress_at s m \<longrightarrow> m_unit_count m = int (length (stage_units d s)) \<and>
        (\<not> m_completed m \<longrightarrow> int (length (stage_units d s)) \<le> s_max_units s)))"

definition within_caps :: "db \<Rightarrow> db \<Rightarrow> bool" where
  "within_caps d d' \<longleftrightarrow> (\<forall>s \<in> set (stages d). int (length (stage_units d s)) \<le> s_max_units s \<longrightarrow>
     int (length (stage_units d' s)) \<le> s_max_units s)"

definition unit_of_stage :: "stage_row \<Rightarrow> unit_row \<Rightarrow> bool" where
  "unit_of_stage s u \<longleftrightarrow> u_owner u = s_owner s \<and> u_revision u = s_revision s \<and> u_stage u = s_id s"

definition refs_ok :: "db \<Rightarrow> bool" where
  "refs_ok d \<longleftrightarrow> (\<forall>u \<in> set (units d). \<exists>s \<in> set (stages d). unit_of_stage s u) \<and>
     (\<forall>m \<in> set (stage_materialization d). \<exists>s \<in> set (stages d). progress_at s m)"

text \<open>All a step can do to the tables: nothing new but a root mark, or one unit, and the cursor.\<close>

definition cursor_saved :: "stage_row \<Rightarrow> materialization_row \<Rightarrow> int \<Rightarrow> db \<Rightarrow> materialization_row list \<Rightarrow> bool" where
  "cursor_saved s m n d ms \<longleftrightarrow> (\<exists>ch cur. cur_existing cur = n \<and>
     ms = update_where (progress_at s) (\<lambda>_. saved_row m ch cur (clock d)) (stage_materialization d))"

lemma update_where_never: "update_where (\<lambda>_. False) f rows = rows"
  by (simp add: update_where_def)

lemma basic_outcome_effect:
  assumes "basic_outcome sha s m r d (created, d')"
  obtains (kept) P t us ms where "created = 0" and "cursor_saved s m (m_unit_count m) d ms"
      and "d' = d\<lparr>units := update_where P (marked t) (units d), unit_dependencies := us, stage_materialization := ms\<rparr>"
  | (made) u us ms where "created = 1" and "cursor_saved s m (m_unit_count m + 1) d ms" and "fresh_unit u"
      and "u_owner u = s_owner s" "u_revision u = s_revision s" "u_stage u = s_id s"
      and "u_key u \<notin> u_key ` set (stage_units d s)" and "m_unit_count m < s_max_units s"
      and "d' = d\<lparr>units := units d @ [u], unit_dependencies := us, uuid_count := uuid_count d + 1, stage_materialization := ms\<rparr>"
proof -
  have idle: thesis if "save_cursor s m ch cur d1 = Inr d'" and "created = 0" and "cur_existing cur = m_unit_count m"
    and "d1 = d\<lparr>units := update_where P (marked t) (units d), unit_dependencies := us\<rparr>" for d1 ch cur P t us
  proof (rule kept)
    show "cursor_saved s m (m_unit_count m) d (stage_materialization d')"
      using save_cursor_effect(1) [OF that(1)] that(3,4) by (auto simp: cursor_saved_def)
    show "d' = d\<lparr>units := update_where P (marked t) (units d), unit_dependencies := us, stage_materialization := stage_materialization d'\<rparr>"
      using save_cursor_effect(1) [OF that(1)] that(4) by simp
  qed (rule that(2))
  have saved: thesis if "save_only s m ch blocked d1 = Inr (created, d')"
    and "d1 = d\<lparr>units := update_where P (marked t) (units d)\<rparr>" for ch blocked d1 P t
    using that(1)
  proof (rule save_only_effect)
    assume "created = 0" and "save_cursor s m ch ((stage_cursor m)\<lparr>cur_blocked := blocked\<rparr>) d1 = Inr d'"
    from idle [OF this(2,1), where P = P and t = t and us = "unit_dependencies d"] show thesis by (simp add: stage_cursor_def that(2))
  qed
  show thesis
    using assms unfolding basic_outcome_def
  proof (elim disjE exE conjE)
    fix c ch
    assume "insert_and_save sha s m r c ch d = Inr (created, d')"
    then obtain cur d1 where ins: "insert_candidate sha s r c (stage_cursor m) d = Inr ((created, cur), d1)"
      and save: "save_cursor s m ch cur d1 = Inr d'" by (rule insert_and_save_effect)
    show thesis
      using ins
    proof (cases rule: insert_candidate_effect)
      case (kept us)
      show ?thesis
        by (rule idle [OF save, where P = "\<lambda>_. False" and us = us])
          (simp_all add: kept stage_cursor_def update_where_never)
    next
      case (made i key us)
      then have "key \<notin> u_key ` set (stage_units d s)"
        by (auto simp: existing_unit_def find_None_iff)
      with made show ?thesis
        using save_cursor_effect(1) [OF save] new_unit_fresh [of s r c i key "clock d"]
        by (intro that(2) [where u = "new_unit s r c i key (clock d)" and us = us])
          (auto simp: cursor_saved_def stage_cursor_def new_unit_def)
    qed
  next
    fix root d1 ch
    assume mark: "mark_root s root (utc_now d) d = Inr d1" and save: "save_only s m ch None d1 = Inr (created, d')"
    obtain P where "d1 = d\<lparr>units := update_where P (marked (utc_now d)) (units d)\<rparr>"
      using mark_root_effect [OF mark] by blast
    then show thesis by (rule saved [OF save])
  qed (erule saved [where P = "\<lambda>_. False"], simp add: update_where_never)+
qed

lemma stage_units_marked:
  "map u_key (stage_units (d\<lparr>units := update_where P (marked t) (units d), unit_dependencies := us, stage_materialization := ms\<rparr>) s) =
   map u_key (stage_units d s)"
proof -
  define here where "here u \<longleftrightarrow> u_owner u = s_owner s \<and> u_revision u = s_revision s \<and> u_stage u = s_id s" for u :: unit_row
  have here: "here (marked t u) = here u" "u_key (marked t u) = u_key u" for u by (simp_all add: here_def marked_def)
  have "map u_key (filter here (update_where P (marked t) vs)) = map u_key (filter here vs)" for vs
    by (induction vs) (auto simp: here)
  then show ?thesis by (simp add: stage_units_def here_def [abs_def])
qed

lemma cursor_saved_row:
  assumes "cursor_saved s m n d ms" and "progress_at s m" and "m' \<in> set ms"
  obtains (other) "m' \<in> set (stage_materialization d)" and "\<not> progress_at s m'"
  | (saved) "progress_at s m'" and "m_unit_count m' = n"
proof -
  obtain ch cur where n: "cur_existing cur = n"
    and ms: "ms = update_where (progress_at s) (\<lambda>_. saved_row m ch cur (clock d)) (stage_materialization d)"
    using assms(1) unfolding cursor_saved_def by blast
  have "progress_at s (saved_row m ch cur t)" "m_unit_count (saved_row m ch cur t) = n" for t
    using assms(2) n by (simp_all add: progress_at_def saved_row_def)
  then show thesis using assms(3) that unfolding ms update_where_def by auto
qed

lemma progress_at_stage:
  "distinct (map stage_pk (stages d)) \<Longrightarrow> s \<in> set (stages d) \<Longrightarrow> t \<in> set (stages d) \<Longrightarrow>
     progress_at s m \<Longrightarrow> progress_at t m \<Longrightarrow> t = s"
  by (auto simp: progress_at_def distinct_map dest: inj_onD)

lemma saved_refs:
  assumes "cursor_saved s m n d ms" and "progress_at s m" and "s \<in> set (stages d)" and "refs_ok d"
  shows "\<forall>m' \<in> set ms. \<exists>x \<in> set (stages d). progress_at x m'"
proof
  fix m' assume m': "m' \<in> set ms"
  show "\<exists>x \<in> set (stages d). progress_at x m'"
    using assms(1,2) m' by (cases rule: cursor_saved_row) (use assms(3,4) in \<open>auto simp: refs_ok_def\<close>)
qed

lemma basic_outcome_tally:
  assumes out: "basic_outcome sha s m r d (created, d')" and keys: "distinct (map stage_pk (stages d))"
    and ok: "stage_tally d" "refs_ok d"
    and s: "s \<in> set (stages d)" and m: "m \<in> set (stage_materialization d)" and at: "progress_at s m" and todo: "\<not> m_completed m"
  shows "stage_tally d' \<and> refs_ok d' \<and> within_caps d d' \<and> stages d' = stages d \<and>
    units_grow (units d) (nat created) (units d') \<and> 0 \<le> created \<and> created \<le> 1"
  using out
proof (cases rule: basic_outcome_effect)
  case (kept P t us ms)
  have same: "map u_key (stage_units d' x) = map u_key (stage_units d x)" for x
    unfolding kept by (rule stage_units_marked)
  have len: "length (stage_units d' x) = length (stage_units d x)" for x
    by (rule map_eq_imp_length_eq [OF same])
  have row: "m_unit_count m' = int (length (stage_units d x)) \<and> (\<not> m_completed m' \<longrightarrow> int (length (stage_units d x)) \<le> s_max_units x)"
    if x: "x \<in> set (stages d)" and m': "m' \<in> set ms" "progress_at x m'" for x m'
    using kept(2) at m'(1)
  proof (cases rule: cursor_saved_row)
    case other
    then show ?thesis using ok(1) x m'(2) unfolding stage_tally_def by blast
  next
    case saved
    then have "x = s" using progress_at_stage [OF keys s x] m'(2) by blast
    then show ?thesis using saved ok(1) s m at todo unfolding stage_tally_def by simp
  qed
  have tally: "stage_tally d'"
    using ok(1) row unfolding stage_tally_def same len by (simp add: kept)
  have "unit_of_stage x (marked t u) = unit_of_stage x u" for x u by (simp add: unit_of_stage_def marked_def)
  then have refs: "refs_ok d'"
    using ok(2) saved_refs [OF kept(2) at s ok(2)] unfolding refs_ok_def by (simp add: kept ball_update_where)
  show ?thesis using tally refs units_grow_marked len by (simp add: kept(1,3) within_caps_def)
next
  case (made u us ms)
  have here: "stage_units d' x = stage_units d x @ (if x = s then [u] else [])" if "x \<in> set (stages d)" for x
  proof -
    have "s_owner x = s_owner s \<and> s_id x = s_id s \<longleftrightarrow> x = s"
      using keys s that by (auto simp: distinct_map dest: inj_onD)
    then show ?thesis using made(4-6) by (auto simp: stage_units_def made(9))
  qed
  have count: "m_unit_count m = int (length (stage_units d s))" using ok(1) s m at unfolding stage_tally_def by blast
  have cap: "int (length (stage_units d' x)) \<le> s_max_units x"
    if "x \<in> set (stages d)" "int (length (stage_units d x)) \<le> s_max_units x" for x
    using that made(8) count by (simp add: here)
  have row: "m_unit_count m' = int (length (stage_units d' x)) \<and> (\<not> m_completed m' \<longrightarrow> int (length (stage_units d' x)) \<le> s_max_units x)"
    if x: "x \<in> set (stages d)" and m': "m' \<in> set ms" "progress_at x m'" for x m'
    using made(2) at m'(1)
  proof (cases rule: cursor_saved_row)
    case other
    then have "x \<noteq> s" using m'(2) by blast
    then show ?thesis using other ok(1) x m'(2) unfolding stage_tally_def here [OF x] by simp
  next
    case saved
    then have "x = s" using progress_at_stage [OF keys s x] m'(2) by blast
    then show ?thesis using saved count made(8) unfolding here [OF x] by simp
  qed
  have "distinct (map u_key (stage_units d' x))" if x: "x \<in> set (stages d)" for x
    using ok(1) x made(7) unfolding stage_tally_def here [OF x] by auto
  with row have tally: "stage_tally d'"
    unfolding stage_tally_def by (simp add: made(9))
  have refs: "refs_ok d'"
    using ok(2) s made(4-6) saved_refs [OF made(2) at s ok(2)] unfolding refs_ok_def by (auto simp: made(9) unit_of_stage_def)
  show ?thesis using tally refs cap units_grow_one [OF made(3)] by (simp add: made(1) within_caps_def) (simp add: made(9))
qed

lemma next_materialization_stageD:
  assumes "next_materialization_stage d owner rid = Some (s, m)"
  shows "s \<in> set (stages d)" and "m \<in> set (stage_materialization d)" and "progress_at s m" and "stage_ready d m s"
    and "m_owner m = owner" and "m_revision m = rid"
proof -
  have "(s, m) \<in> set (ready_stages d owner rid)"
    using assms unfolding next_materialization_stage_def by (auto split: list.split_asm dest!: order_limit_head)
  then show "s \<in> set (stages d)" and "m \<in> set (stage_materialization d)" and "progress_at s m" and "stage_ready d m s"
    and "m_owner m = owner" and "m_revision m = rid"
    by (auto simp: ready_stages_def progress_at_def)
qed

lemma within_caps_trans: "within_caps d e \<Longrightarrow> within_caps e f \<Longrightarrow> stages e = stages d \<Longrightarrow> within_caps d f"
  by (simp add: within_caps_def)

lemma materialize_steps_tally:
  assumes "materialize_steps sha owner rid r n totals d = Inr (totals', d')"
    and "distinct (map stage_pk (stages d))" and "stage_tally d" and "refs_ok d"
  shows "\<exists>k. stage_tally d' \<and> refs_ok d' \<and> within_caps d d' \<and> units_grow (units d) k (units d') \<and> k \<le> n \<and> fst totals' = fst totals + int k"
  using assms
proof (induction n arbitrary: totals d)
  case 0
  then show ?case using units_grow_refl by (intro exI [of _ 0]) (auto simp: within_caps_def)
next
  case (Suc n)
  show ?case
  proof (cases "next_materialization_stage d owner rid")
    case None
    then show ?thesis using Suc.prems units_grow_refl by (intro exI [of _ 0]) (auto simp: within_caps_def)
  next
    case (Some sm)
    obtain s m where sm: "sm = (s, m)" by (cases sm)
    obtain created d1 where step: "materialize_step sha s m r d = Inr (created, d1)"
      and rest: "materialize_steps sha owner rid r n (fst totals + created, snd totals + 1) d1 = Inr (totals', d')"
      using Suc.prems(1) Some sm by (auto simp: tx_simps)
    note due = next_materialization_stageD [OF Some [unfolded sm]]
    have one: "stage_tally d1 \<and> refs_ok d1 \<and> within_caps d d1 \<and> stages d1 = stages d \<and>
        units_grow (units d) (nat created) (units d1) \<and> 0 \<le> created \<and> created \<le> 1"
      using due Suc.prems(2-4)
      by (intro basic_outcome_tally [OF materialize_step_basic [OF step]]) (auto simp: stage_ready_def)
    then obtain k where "stage_tally d'" "refs_ok d'" "within_caps d1 d'" "units_grow (units d1) k (units d')" "k \<le> n"
      "fst totals' = fst totals + created + int k"
      using Suc.IH [OF rest] Suc.prems(2) by auto
    with one units_grow_trans within_caps_trans show ?thesis by (intro exI [of _ "nat created + k"]) auto
  qed
qed

section \<open>The bytes of a reduction group\<close>

definition group_entries :: "parent_view list \<Rightarrow> jval list" where
  "group_entries ps = concat (map (\<lambda>p. given (entries_of p) []) ps)"

text \<open>
  The group a reader would take by encoding the joined array of every prefix: the longest one
  within the limit, provided it makes the next level shorter.
\<close>

definition fitting :: "int \<Rightarrow> parent_view list \<Rightarrow> nat" where
  "fitting limit ps = length (takeWhile (\<lambda>n. entries_bytes (group_entries (take n ps)) \<le> limit) [1..<length ps + 1])"

definition longest_group :: "int \<Rightarrow> parent_view list \<Rightarrow> string + parent_view list" where
  "longest_group limit ps =
     (let n = fitting limit ps in
      if n = length ps then Inr ps
      else if n = 0 then Inl ''dependency_input_too_large''
      else if n = 1 then Inl ''reduction_not_converging''
      else Inr (take n ps))"

definition content_bytes :: "jval list \<Rightarrow> int" where
  "content_bytes es = max 0 (entries_bytes es - 2)"

lemma entries_bytes_eq: "entries_bytes es = 2 + sum_list (map (utf8_size \<circ> encode_json) es) + max 0 (int (length es) - 1)"
  unfolding entries_bytes_def encode_json.simps utf8_size_append utf8_size_join
  by (simp add: comp_def) (simp add: utf8_size_def code_of_def)

lemma content_bytes_eq:
  "content_bytes es = sum_list (map (utf8_size \<circ> encode_json) es) + max 0 (int (length es) - 1)"
proof -
  have "0 \<le> sum_list (map (utf8_size \<circ> encode_json) es)"
    by (rule sum_list_nonneg) (auto simp: utf8_size_nonneg)
  then show ?thesis unfolding content_bytes_def entries_bytes_eq by simp
qed

text \<open>The running totals of the loop give the bytes of the joined array.\<close>

lemma combined_bytes_append:
  assumes "entries_bytes xs = combined_bytes content nonempty" and "nonempty = 0 \<longleftrightarrow> xs = []" and "0 \<le> nonempty"
  shows "entries_bytes (xs @ es) = combined_bytes (content + content_bytes es) (nonempty + (if es \<noteq> [] then 1 else 0))"
  using assms unfolding combined_bytes_def content_bytes_eq entries_bytes_eq by (cases xs; cases es) auto

definition fitting_after :: "int \<Rightarrow> parent_view list \<Rightarrow> parent_view list \<Rightarrow> nat" where
  "fitting_after limit selected ps =
     length (takeWhile (\<lambda>n. entries_bytes (group_entries (selected @ take n ps)) \<le> limit) [1..<length ps + 1])"

lemma fitting_after_Cons:
  "fitting_after limit selected (p # ps) =
     (if entries_bytes (group_entries (selected @ [p])) \<le> limit then Suc (fitting_after limit (selected @ [p]) ps) else 0)"
proof -
  have "[1..<length (p # ps) + 1] = 1 # map Suc [1..<length ps + 1]"
    by (simp add: map_Suc_upt upt_conv_Cons del: upt_Suc)
  then show ?thesis unfolding fitting_after_def by (simp add: takeWhile_map comp_def del: upt_Suc)
qed

lemma select_group_after:
  assumes "entries_bytes (group_entries selected) = combined_bytes content nonempty"
    and "nonempty = 0 \<longleftrightarrow> group_entries selected = []" and "0 \<le> nonempty"
  shows "select_group limit ps selected content nonempty =
    (let n = fitting_after limit selected ps; group = selected @ take n ps in
     if n = length ps then Inr group
     else if group = [] then Inl ''dependency_input_too_large''
     else if length group = 1 then Inl ''reduction_not_converging''
     else Inr group)"
  using assms
proof (induction ps arbitrary: selected content nonempty)
  case Nil
  then show ?case by (simp add: fitting_after_def)
next
  case (Cons p ps)
  define es where "es = given (entries_of p) []"
  define content' where "content' = content + content_bytes es"
  define nonempty' where "nonempty' = nonempty + (if es \<noteq> [] then 1 else 0)"
  have joined: "group_entries (selected @ [p]) = group_entries selected @ es"
    by (simp add: group_entries_def es_def)
  have bytes: "entries_bytes (group_entries (selected @ [p])) = combined_bytes content' nonempty'"
    unfolding joined content'_def nonempty'_def using Cons.prems by (rule combined_bytes_append)
  have step: "select_group limit (p # ps) selected content nonempty =
      (if combined_bytes content' nonempty' > limit then
         (if selected = [] then Inl ''dependency_input_too_large''
          else if length selected = 1 then Inl ''reduction_not_converging''
          else Inr selected)
       else select_group limit ps (selected @ [p]) content' nonempty')"
    by (simp add: Let_def content'_def nonempty'_def es_def content_bytes_def)
  have "nonempty' = 0 \<longleftrightarrow> group_entries (selected @ [p]) = []" "0 \<le> nonempty'"
    using Cons.prems(2,3) by (auto simp: joined nonempty'_def)
  note IH = Cons.IH [OF bytes this]
  show ?case
  proof (cases "combined_bytes content' nonempty' > limit")
    case True
    then show ?thesis unfolding step fitting_after_Cons bytes by simp
  next
    case False
    define n where "n = fitting_after limit (selected @ [p]) ps"
    have "fitting_after limit selected (p # ps) = Suc n"
      using False by (simp add: fitting_after_Cons bytes n_def)
    moreover have "select_group limit (p # ps) selected content nonempty = select_group limit ps (selected @ [p]) content' nonempty'"
      using False by (simp add: step del: select_group.simps)
    ultimately show ?thesis using IH [folded n_def] by (simp only: Let_def) (auto simp: min_def split: if_splits)
  qed
qed

text \<open>
  C25. The group of a reduction is the one its contract names. The store adds up the sizes of
  the members' arrays as it reads them, without ever joining them; for every list of members
  and every limit, this selects the longest prefix whose joined array of entries, encoded as
  the reducer will read it, is within the limit, and refuses with the same reason when not even
  one member fits or when only one does although more remain.
\<close>

theorem select_group_longest: "select_group limit ps [] 0 0 = longest_group limit ps"
proof -
  have "entries_bytes (group_entries []) = combined_bytes 0 0"
    by (simp add: entries_bytes_eq combined_bytes_def group_entries_def)
  from select_group_after [OF this, of limit ps]
  have run: "select_group limit ps [] 0 0 =
      (let n = fitting limit ps; group = take n ps in
       if n = length ps then Inr group
       else if group = [] then Inl ''dependency_input_too_large''
       else if length group = 1 then Inl ''reduction_not_converging''
       else Inr group)"
    by (simp add: group_entries_def fitting_after_def fitting_def)
  have "fitting limit ps \<le> length ps"
    unfolding fitting_def using length_takeWhile_le [of _ "[1..<length ps + 1]"] by (simp del: upt_Suc)
  then show ?thesis unfolding run longest_group_def by (auto simp: Let_def)
qed

section \<open>A batch keeps to the caps\<close>

definition example_progress :: "ident \<Rightarrow> materialization_row" where
  "example_progress stage = \<lparr>m_owner = ''owner'', m_revision = ''rev_00000001'', m_stage = stage, m_completed = False,
     m_attention_code = None, m_source_ordinal = - 1, m_parent_position = - 1, m_parent_unit = None, m_entry_offset = - 1,
     m_legacy_replay = False, m_unit_count = 0, m_reduction_level = 0, m_reduction_ordinal = - 1,
     m_reduction_waiting = False, m_reduction_input_count = - 1, m_updated_at = 1000\<rparr>"

definition example_hash :: "string \<Rightarrow> string" where
  "example_hash s = uuid_hex (foldl (\<lambda>h c. (3 * h + code_of c) mod 4093) 0 s) @ uuid_hex 0"

text \<open>A mapped result with two entries, and a stage that takes one unit per entry.\<close>

definition example_split :: db where
  "example_split = (example_store W_RUNNING)
     \<lparr>stages := [example_stage, example_stage\<lparr>s_id := ''stg_00000002'', s_key := ''split'', s_position := 1,
        s_cardinality := ''per_dependency'', s_max_units := 2, s_entry_identity_field := Some ''id''\<rparr>],
      stage_dependencies := [\<lparr>sd_owner = ''owner'', sd_revision = ''rev_00000001'', sd_stage = ''stg_00000002'',
        sd_depends_on = ''stg_00000001'', sd_ordinal = 0\<rparr>],
      units := [(example_unit ''unt_10000001'')\<lparr>u_state := U_COMMITTED, u_committed_result := Some ''res_00000001'',
        u_fence := 1, u_attempt_count := 1\<rparr>],
      results := [\<lparr>x_owner = ''owner'', x_id = ''res_00000001'', x_revision = ''rev_00000001'', x_unit = ''unt_10000001'',
        x_attempt = ''att_00000001'', x_fence = 1, x_digest = ''digest'', x_schema_version = ''metnos.output/1'',
        x_payload = [(''entries'', JArr [JObj [(''id'', JStr ''a'')], JObj [(''id'', JStr ''bc'')]])],
        x_provenance = [], x_committed_at = 1500\<rparr>],
      stage_materialization := [(example_progress ''stg_00000001'')\<lparr>m_completed := True, m_unit_count := 1\<rparr>,
        example_progress ''stg_00000002'']\<rparr>"

lemma example_split_ok: "store_ok example_split" "stage_tally example_split" "refs_ok example_split"
  by code_simp+

lemma example_split_run:
  "succeeds_with (materialize_ready_units example_hash ''owner'' ''wkl_00000001'' 5 example_split)
     (\<lambda>(created, d'). created = 2 \<and> map u_state (units d') = [U_COMMITTED, U_PENDING, U_PENDING] \<and>
        map ud_entry_offset (unit_dependencies d') = [Some 12, Some 23])"
  by code_simp

lemma example_split_effect:
  obtains d' where "materialize_ready_units example_hash ''owner'' ''wkl_00000001'' 5 example_split = Inr (2, d')"
    and "map u_state (units d') = [U_COMMITTED, U_PENDING, U_PENDING]"
  using example_split_run by (auto elim!: succeeds_withE)

text \<open>
  C23. Materialization creates each unit once and within the caps. Whatever a batch does,
  the units of every stage keep distinct keys, its progress row counts them, a stage within its
  cap stays within it, the units that were there stay as they were but for the mark of a
  reduction's root, and those it adds are fresh: never leased, never attempted, without a
  result, and no more of them than it reports, which is at most its limit.
\<close>

theorem materialize_within_caps:
  assumes "store_ok d" and "stage_tally d" and "refs_ok d"
    and "materialize_ready_units sha owner wid limit d = Inr (created, d')"
  shows "store_ok d' \<and> stage_tally d' \<and> refs_ok d' \<and> within_caps d d' \<and> 0 \<le> created \<and> created \<le> limit \<and>
    units_grow (units d) (nat created) (units d')"
proof -
  obtain owner' totals where limit: "1 \<le> limit" and created: "created = fst totals"
    and batch: "materialize_ready_units_batch sha owner' wid limit d = Inr (totals, d')"
    using assms(4) by (auto simp: materialize_ready_units_def tx_simps require_limit_def split: if_split_asm)
  have "distinct (map stage_pk (stages d))" using assms(1) by (simp add: store_ok_def keys_ok_def)
  moreover have "within_caps d d" by (simp add: within_caps_def)
  ultimately have "\<exists>k. stage_tally d' \<and> refs_ok d' \<and> within_caps d d' \<and> units_grow (units d) k (units d') \<and> k \<le> nat limit \<and> created = int k"
    using batch assms(2,3) units_grow_refl [of "units d"] unfolding materialize_ready_units_batch_def created
    by (fastforce simp: tx_simps split: option.split_asm if_split_asm dest!: materialize_steps_tally)
  then show ?thesis
    using txn_keeps [OF materialize_ready_units_txn [OF assms(4)] assms(1)] limit by auto
qed

theorem materialize_within_caps_witness:
  "\<exists>d'. materialize_ready_units example_hash ''owner'' ''wkl_00000001'' 5 example_split = Inr (2, d') \<and>
     stage_tally d' \<and> units_grow (units example_split) 2 (units d') \<and> map u_state (units d') = [U_COMMITTED, U_PENDING, U_PENDING]"
proof -
  obtain d' where run: "materialize_ready_units example_hash ''owner'' ''wkl_00000001'' 5 example_split = Inr (2, d')"
    and seen: "map u_state (units d') = [U_COMMITTED, U_PENDING, U_PENDING]" by (rule example_split_effect)
  show ?thesis using materialize_within_caps [OF example_split_ok run] run seen by auto
qed

section \<open>Every step moves the cursor\<close>

definition cursor_moved :: "db \<Rightarrow> stage_row \<Rightarrow> materialization_row \<Rightarrow> materialization_row \<Rightarrow> bool" where
  "cursor_moved d s m m' \<longleftrightarrow>
     m_completed m' \<or> m_attention_code m' \<noteq> None \<or>
     m_source_ordinal m < m_source_ordinal m' \<or>
     m_reduction_level m < m_reduction_level m' \<or>
     m_reduction_level m' = m_reduction_level m \<and> m_reduction_ordinal m < m_reduction_ordinal m' \<or>
     m_reduction_level m' = m_reduction_level m \<and> m_reduction_ordinal m' = m_reduction_ordinal m \<and>
       \<not> m_reduction_waiting m \<and> m_reduction_waiting m' \<or>
     (\<exists>unit_id. m_parent_unit m' = Some unit_id \<and> parent_forward d s m (m_parent_position m') unit_id (m_entry_offset m'))"

lemma forward_moves: "forward d s m ch \<Longrightarrow> cursor_moved d s m (saved_row m ch cur t)"
  unfolding forward_def cursor_moved_def by (auto simp: saved_row_def given_def no_change_def)

lemma find_updated_row: "exists_where P rows \<Longrightarrow> P v \<Longrightarrow> find P (update_where P (\<lambda>_. v) rows) = Some v"
  by (induction rows) (auto simp: exists_where_def)

lemma save_cursor_progress:
  assumes "save_cursor s m ch cur d = Inr d'" and "progress_at s m"
  shows "progress_of d' s = Some (saved_row m ch cur (clock d))"
proof -
  have "exists_where (progress_at s) (stage_materialization d)"
    using save_cursor_effect(2) [OF assms(1)] by (cases "filter (progress_at s) (stage_materialization d)")
      (auto simp: exists_where_def count_where_def filter_eq_Cons_iff)
  then have "find (progress_at s) (update_where (progress_at s) (\<lambda>_. saved_row m ch cur (clock d)) (stage_materialization d)) =
      Some (saved_row m ch cur (clock d))"
    using assms(2) by (intro find_updated_row) (assumption, simp add: progress_at_def saved_row_def)
  then show ?thesis
    unfolding save_cursor_effect(1) [OF assms(1)] by (simp add: progress_of_def progress_at_def [abs_def])
qed

lemma basic_outcome_moves:
  assumes "basic_outcome sha s m r d (created, d')" and "progress_at s m"
  shows "\<exists>m'. progress_of d' s = Some m' \<and> cursor_moved d s m m'"
  using assms unfolding basic_outcome_def
  by (auto elim!: insert_and_save_effect save_only_effect dest!: save_cursor_progress intro: forward_moves forward_completed)
    (simp add: cursor_moved_def saved_row_def)

text \<open>
  Materialization always gets on. Whatever the kind of the stage that is due, a step
  that succeeds completes the stage, blocks it with a reason, or leaves its cursor further on
  than it was: at a later source, a later parent, further into the payload being read, at the
  next reduction group, waiting for the level to finish, or at the next level.
\<close>

theorem materialize_step_moves:
  assumes "next_materialization_stage d owner rid = Some (s, m)" and "materialize_step sha s m r d = Inr (created, d')"
  shows "\<not> m_completed m \<and> m_attention_code m = None \<and> (\<exists>m'. progress_of d' s = Some m' \<and> cursor_moved d s m m')"
  using basic_outcome_moves [OF materialize_step_basic [OF assms(2)]] next_materialization_stageD [OF assms(1)]
  by (simp add: stage_ready_def)

theorem materialize_step_moves_witness:
  "\<exists>s m created d' m'. next_materialization_stage example_split ''owner'' ''rev_00000001'' = Some (s, m) \<and>
     materialize_step example_hash s m example_revision example_split = Inr (created, d') \<and>
     progress_of d' s = Some m' \<and> cursor_moved example_split s m m'"
proof -
  have "case next_materialization_stage example_split ''owner'' ''rev_00000001'' of None \<Rightarrow> False
      | Some (s, m) \<Rightarrow> succeeds_with (materialize_step example_hash s m example_revision example_split) (\<lambda>(n, d'). n = 1)"
    by code_simp
  then obtain s m d' where due: "next_materialization_stage example_split ''owner'' ''rev_00000001'' = Some (s, m)"
    and run: "materialize_step example_hash s m example_revision example_split = Inr (1, d')"
    by (auto split: option.split_asm elim!: succeeds_withE)
  show ?thesis using materialize_step_moves [OF due run] due run by blast
qed

end
