(* ===== verification/Admission_Properties.thy ===== *)
theory Admission_Properties
  imports Admission Materialization_Properties
begin

text \<open>
  What an admission leaves: a transaction of the store whose new stages, units and progress
  rows belong together, with one unit per source for every stage that maps the inventory and
  one for every such stage with a single unit, and with the workload moved from draft to
  admitted; a repeated admission finds the revision it made.
\<close>

section \<open>Transactions\<close>

lemma txn_untracked_rows [simp]:
  "txn d (d\<lparr>sources := xs\<rparr>)" "txn d (d\<lparr>stage_dependencies := ds\<rparr>)" "txn d (d\<lparr>stage_placements := ps\<rparr>)"
  by (simp_all add: txn_def store_ok_def keys_ok_def active_ok_def db_evolves_def)

lemma txn_append_revision:
  assumes "\<forall>x \<in> set (revisions d). revision_pk x \<noteq> revision_pk r" and "\<forall>x \<in> set (revision_usage d). usage_pk x \<noteq> usage_pk u"
  shows "txn d (d\<lparr>revisions := revisions d @ [r], revision_usage := revision_usage d @ [u]\<rparr>)" (is "txn d ?e")
proof -
  have "active_ok ?e" if "active_ok d"
    using that by (rule_tac active_ok_evolves [where d = d]) simp_all
  then show ?thesis
    using assms by (auto simp: txn_def store_ok_def keys_ok_def db_evolves_def)
qed

lemma txn_append_stage:
  assumes "\<forall>x \<in> set (stages d). stage_pk x \<noteq> stage_pk s"
  shows "txn d (d\<lparr>stages := stages d @ [s]\<rparr>)"
  using assms by (auto simp: txn_def store_ok_def keys_ok_def active_ok_def db_evolves_def)

lemma txn_frame_rows: "txn d (d\<lparr>uuid_count := n, stages := ss\<rparr>) \<longleftrightarrow> txn d (d\<lparr>stages := ss\<rparr>)"
  by (simp add: txn_def store_ok_def keys_ok_def active_ok_def db_evolves_def)

section \<open>Stages\<close>

lemma insert_stage_effect:
  assumes "insert_stage sha owner rid by_stage position ps d = Inr ((sid, digest), d')"
  shows "d' = d\<lparr>stages := stages d @ [new_stage owner rid sid position digest ps],
      stage_placements := stage_placements d @ new_placement owner rid sid ps, uuid_count := uuid_count d + 1\<rparr>"
    and "\<forall>x \<in> set (stages d). stage_pk x \<noteq> (owner, sid)"
  using assms unfolding insert_stage_def Let_def new_id_def
  by (auto simp: tx_simps exists_where_def split: if_split_asm)

definition stages_for :: "string \<Rightarrow> ident \<Rightarrow> plan_stage list \<Rightarrow> stage_names \<Rightarrow> stage_row list \<Rightarrow> bool" where
  "stages_for owner rid pss names ns \<longleftrightarrow>
     map fst names = map ps_key pss \<and> map s_key ns = map ps_key pss \<and> map (fst \<circ> snd) names = map s_id ns \<and>
     map s_max_units ns = map (cc_max_units \<circ> ps_cardinality) pss \<and> distinct (map s_id ns) \<and>
     (\<forall>s \<in> set ns. s_owner s = owner \<and> s_revision s = rid)"

lemma insert_stages_effect:
  assumes "insert_stages sha owner rid by_stage position pss d = Inr (names, d')"
  shows "\<exists>ns pls n. d' = d\<lparr>stages := stages d @ ns, stage_placements := pls, uuid_count := n\<rparr> \<and> txn d d' \<and>
    stages_for owner rid pss names ns \<and> (\<forall>s \<in> set ns. \<forall>x \<in> set (stages d). stage_pk x \<noteq> stage_pk s)"
  using assms
proof (induction pss arbitrary: position d names)
  case Nil
  then show ?case
    by (intro exI [of _ "[]"] exI [of _ "stage_placements d"] exI [of _ "uuid_count d"]) (auto simp: stages_for_def)
next
  case (Cons ps pss)
  obtain sid digest d1 names1 where one: "insert_stage sha owner rid by_stage (int position) ps d = Inr ((sid, digest), d1)"
    and rest: "insert_stages sha owner rid by_stage (position + 1) pss d1 = Inr (names1, d')"
    and names: "names = (ps_key ps, sid, digest) # names1"
    using Cons.prems by (auto simp: tx_simps)
  let ?s = "new_stage owner rid sid (int position) digest ps"
  note eff = insert_stage_effect [OF one]
  obtain ns pls n where d': "d' = d1\<lparr>stages := stages d1 @ ns, stage_placements := pls, uuid_count := n\<rparr>" and txn: "txn d1 d'"
    and ns: "stages_for owner rid pss names1 ns" and fresh: "\<forall>s \<in> set ns. \<forall>x \<in> set (stages d1). stage_pk x \<noteq> stage_pk s"
    using Cons.IH [OF rest] by blast
  have s: "s_owner ?s = owner" "s_revision ?s = rid" "s_id ?s = sid" "s_key ?s = ps_key ps"
    "s_max_units ?s = cc_max_units (ps_cardinality ps)" by (simp_all add: new_stage_def)
  have "txn d (d\<lparr>stages := stages d @ [?s]\<rparr>)" using eff(2) s by (intro txn_append_stage) auto
  also have "txn \<dots> (d\<lparr>stages := stages d @ [?s], stage_placements := stage_placements d @ new_placement owner rid sid ps\<rparr>)"
    using txn_untracked_rows(3) [of "d\<lparr>stages := stages d @ [?s]\<rparr>"] by simp
  also have "txn \<dots> d1"
    using txn_untracked(7) [of "d\<lparr>stages := stages d @ [?s], stage_placements := stage_placements d @ new_placement owner rid sid ps\<rparr>" "uuid_count d + 1"]
    by (simp add: eff(1))
  also note txn
  finally have "txn d d'" .
  moreover have "d' = d\<lparr>stages := stages d @ (?s # ns), stage_placements := pls, uuid_count := n\<rparr>"
    by (simp add: d' eff(1))
  moreover have "stages_for owner rid (ps # pss) names (?s # ns)"
    using ns s fresh by (auto simp: stages_for_def names eff(1))
  moreover have "\<forall>x \<in> set (?s # ns). \<forall>y \<in> set (stages d). stage_pk y \<noteq> stage_pk x"
    using fresh eff s by auto
  ultimately show ?case by blast
qed

section \<open>Sources and initial units\<close>

definition seeds :: "string \<Rightarrow> ident \<Rightarrow> stage_names \<Rightarrow> string list \<Rightarrow> unit_row list \<Rightarrow> bool" where
  "seeds owner rid names counts us \<longleftrightarrow>
     (\<forall>u \<in> set us. fresh_unit u \<and> u_owner u = owner \<and> u_revision u = rid) \<and>
     map u_stage us = map (stage_id_of names) (rev counts) \<and> distinct (map (\<lambda>u. (u_stage u, u_key u)) us)"

text \<open>What the loops have added to the store \<open>d\<close> they started from.\<close>

definition seeded :: "string \<Rightarrow> ident \<Rightarrow> stage_names \<Rightarrow> db \<Rightarrow> inventory_source list \<Rightarrow> string list \<times> db \<Rightarrow> bool" where
  "seeded owner rid names d ss st \<longleftrightarrow>
     (\<exists>us xs n. snd st = d\<lparr>sources := sources d @ xs, units := units d @ us, uuid_count := n\<rparr> \<and> txn d (snd st) \<and>
        seeds owner rid names (fst st) us \<and> map src_source_id xs = map is_source_id ss \<and>
        (\<forall>x \<in> set xs. src_owner x = owner \<and> src_revision x = rid))"

lemma initial_unit_fresh: "fresh_unit (initial_unit owner rid sid uid key source_row t)"
  by (simp add: fresh_unit_def initial_unit_def idle_unit_def live_unit_def)

lemma initial_unit_simps [simp]:
  "u_owner (initial_unit owner rid sid uid key source_row t) = owner" "u_id (initial_unit owner rid sid uid key source_row t) = uid"
  "u_revision (initial_unit owner rid sid uid key source_row t) = rid" "u_stage (initial_unit owner rid sid uid key source_row t) = sid"
  "u_key (initial_unit owner rid sid uid key source_row t) = key"
  by (simp_all add: initial_unit_def)

lemma insert_initial_unit_effect:
  assumes "insert_initial_unit sha owner rid names t source source_row ps st = Inr st'"
  obtains uid key where "fst st' = ps_key ps # fst st"
    and "snd st' = (snd st)\<lparr>units := units (snd st) @ [initial_unit owner rid (stage_id_of names (ps_key ps)) uid key source_row t],
        uuid_count := uuid_count (snd st) + 1\<rparr>"
    and "\<forall>u \<in> set (units (snd st)). unit_pk u \<noteq> (owner, uid)"
    and "\<forall>u \<in> set (units (snd st)). u_owner u = owner \<longrightarrow> u_revision u = rid \<longrightarrow>
        (u_stage u, u_key u) \<noteq> (stage_id_of names (ps_key ps), key)"
proof -
  obtain counts d where st: "st = (counts, d)" by (cases st)
  obtain key where key: "digest_json sha ''durable-unit-key'' (initial_semantic names ps source) max_plan_json_bytes = Inr key"
    using assms by (auto simp: st insert_initial_unit_def tx_simps)
  show thesis
    using assms unfolding st insert_initial_unit_def Let_def
    by (intro that [of "fst (new_id ''unt'' d)" key])
      (auto simp: st key new_id_def exists_where_def unit_at_def split: if_split_asm)
qed

lemma seeded_unit:
  assumes "seeded owner rid names d ss st" and "insert_initial_unit sha owner rid names t source source_row ps st = Inr st'"
  shows "seeded owner rid names d ss st' \<and> fst st' = ps_key ps # fst st"
  using assms(2)
proof (rule insert_initial_unit_effect)
  fix uid key
  let ?u = "initial_unit owner rid (stage_id_of names (ps_key ps)) uid key source_row t" and ?e = "snd st"
  assume counts: "fst st' = ps_key ps # fst st"
    and st': "snd st' = ?e\<lparr>units := units ?e @ [?u], uuid_count := uuid_count ?e + 1\<rparr>"
    and pk: "\<forall>u \<in> set (units ?e). unit_pk u \<noteq> (owner, uid)"
    and key: "\<forall>u \<in> set (units ?e). u_owner u = owner \<longrightarrow> u_revision u = rid \<longrightarrow>
        (u_stage u, u_key u) \<noteq> (stage_id_of names (ps_key ps), key)"
  obtain us xs n where e: "?e = d\<lparr>sources := sources d @ xs, units := units d @ us, uuid_count := n\<rparr>" "txn d ?e"
    and us: "seeds owner rid names (fst st) us" and xs: "map src_source_id xs = map is_source_id ss"
      "\<forall>x \<in> set xs. src_owner x = owner \<and> src_revision x = rid"
    using assms(1) unfolding seeded_def by blast
  note e(2)
  also have "txn ?e (?e\<lparr>units := units ?e @ [?u]\<rparr>)" using pk by (intro txn_append_unit initial_unit_fresh) simp
  also have "txn \<dots> (snd st')"
    using txn_untracked(7) [of "?e\<lparr>units := units ?e @ [?u]\<rparr>" "uuid_count ?e + 1"] by (simp add: st')
  finally have "txn d (snd st')" .
  moreover have "seeds owner rid names (fst st') (us @ [?u])"
  proof -
    have "(stage_id_of names (ps_key ps), key) \<notin> (\<lambda>u. (u_stage u, u_key u)) ` set us"
      using key us unfolding e(1) seeds_def by auto
    then show ?thesis using us initial_unit_fresh unfolding seeds_def counts by auto
  qed
  moreover have "snd st' = d\<lparr>sources := sources d @ xs, units := units d @ (us @ [?u]), uuid_count := n + 1\<rparr>"
    unfolding st' e(1) by simp
  ultimately have "seeded owner rid names d ss st'" using xs unfolding seeded_def by blast
  with counts show ?thesis by blast
qed

lemma seeded_units:
  assumes "foldE (insert_initial_unit sha owner rid names t source source_row) pss st = Inr st'"
    and "seeded owner rid names d ss st"
  shows "seeded owner rid names d ss st' \<and> fst st' = rev (map ps_key pss) @ fst st"
  using assms by (induction pss arbitrary: st) (auto simp: tx_simps dest: seeded_unit)

lemma seeded_source:
  assumes "insert_source sha owner rid names t pss s st = Inr st'" and "seeded owner rid names d ss st"
  shows "seeded owner rid names d (ss @ [s]) st' \<and> fst st' = rev (map ps_key pss) @ fst st"
proof -
  obtain sid row where row: "row = new_source owner rid sid s"
    and fold: "foldE (insert_initial_unit sha owner rid names t (Some s) (Some sid)) pss
        (fst st, (snd st)\<lparr>uuid_count := uuid_count (snd st) + 1, sources := sources (snd st) @ [row]\<rparr>) = Inr st'"
  proof
    show "new_source owner rid (fst (new_id ''src'' (snd st))) s = new_source owner rid (fst (new_id ''src'' (snd st))) s" ..
  qed (use assms(1) in \<open>auto simp: insert_source_def Let_def new_id_def split: if_split_asm prod.split_asm\<close>)
  obtain us xs n where e: "snd st = d\<lparr>sources := sources d @ xs, units := units d @ us, uuid_count := n\<rparr>" "txn d (snd st)"
    and us: "seeds owner rid names (fst st) us" and xs: "map src_source_id xs = map is_source_id ss"
      "\<forall>x \<in> set xs. src_owner x = owner \<and> src_revision x = rid"
    using assms(2) unfolding seeded_def by blast
  let ?e = "(snd st)\<lparr>uuid_count := uuid_count (snd st) + 1, sources := sources (snd st) @ [row]\<rparr>"
  have "txn d ?e"
    using txn_trans [OF e(2) txn_trans [OF txn_untracked(7) txn_untracked_rows(1)]] by simp
  moreover have "?e = d\<lparr>sources := sources d @ (xs @ [row]), units := units d @ us, uuid_count := n + 1\<rparr>"
    by (simp add: e(1))
  ultimately have "seeded owner rid names d (ss @ [s]) (fst st, ?e)"
    unfolding seeded_def fst_conv snd_conv
    using us xs by (intro exI [of _ us] exI [of _ "xs @ [row]"] exI [of _ "n + 1"]) (simp add: row new_source_def)
  from seeded_units [OF fold this] show ?thesis by simp
qed

lemma seeded_sources:
  assumes "foldE (insert_source sha owner rid names t pss) ss st = Inr st'" and "seeded owner rid names d done st"
  shows "seeded owner rid names d (done @ ss) st' \<and> fst st' = rev (concat (replicate (length ss) (map ps_key pss))) @ fst st"
  using assms
proof (induction ss arbitrary: st "done")
  case (Cons s ss)
  obtain st1 where one: "insert_source sha owner rid names t pss s st = Inr st1"
    and rest: "foldE (insert_source sha owner rid names t pss) ss st1 = Inr st'" using Cons.prems(1) by (auto simp: tx_simps)
  note s = seeded_source [OF one Cons.prems(2)]
  have "concat (replicate n ys) @ ys = ys @ concat (replicate n ys)" for n and ys :: "string list"
    by (induction n) simp_all
  then show ?case using Cons.IH [OF rest, of "done @ [s]"] s by (simp flip: rev_append)
qed simp

section \<open>All the rows of a revision\<close>

definition progress_rows :: "string \<Rightarrow> ident \<Rightarrow> stage_names \<Rightarrow> string list \<Rightarrow> instant \<Rightarrow> plan_stage list \<Rightarrow> materialization_row list" where
  "progress_rows owner rid names counts t pss =
     map (\<lambda>ps. new_progress owner rid (stage_id_of names (ps_key ps))
       (ps_type ps = S_INVENTORY \<or> depends_on_inventory pss ps) (int (count_list counts (ps_key ps))) t) pss"

lemma insert_progress_effect:
  "insert_progress owner rid names counts t pss d = Inr d' \<Longrightarrow>
     d' = d\<lparr>stage_materialization := stage_materialization d @ progress_rows owner rid names counts t pss\<rparr>"
  by (auto simp: insert_progress_def progress_rows_def Let_def split: if_split_asm)

abbreviation per_source_stages :: "plan_stage list \<Rightarrow> plan_stage list" where
  "per_source_stages pss \<equiv> filter (\<lambda>ps. cc_mode (ps_cardinality ps) = ''per_source'') (initial_stages pss)"

abbreviation singleton_stages :: "plan_stage list \<Rightarrow> plan_stage list" where
  "singleton_stages pss \<equiv> filter (\<lambda>ps. cc_mode (ps_cardinality ps) = ''singleton'') (initial_stages pss)"

definition counted :: "plan_stage list \<Rightarrow> inventory_source list \<Rightarrow> string list" where
  "counted pss ss = rev (map ps_key (singleton_stages pss)) @
     rev (concat (replicate (length ss) (map ps_key (per_source_stages pss))))"

definition inserted_rows :: "string \<Rightarrow> ident \<Rightarrow> ident \<Rightarrow> int \<Rightarrow> instant \<Rightarrow> admission \<Rightarrow> db \<Rightarrow> db
    \<Rightarrow> stage_names \<Rightarrow> stage_row list \<Rightarrow> unit_row list \<Rightarrow> source_row list \<Rightarrow> bool" where
  "inserted_rows owner wid rid number t ad d d' names ns us xs \<longleftrightarrow>
     revisions d' = revisions d @ [new_revision owner wid rid number ad] \<and>
     revision_usage d' = revision_usage d @ [new_usage owner rid t] \<and> workloads d' = workloads d \<and> events d' = events d \<and>
     stages d' = stages d @ ns \<and> units d' = units d @ us \<and> sources d' = sources d @ xs \<and>
     stage_materialization d' = stage_materialization d @
       progress_rows owner rid names (counted (pl_stages (ad_plan ad)) (ad_sources ad)) t (pl_stages (ad_plan ad)) \<and>
     stages_for owner rid (pl_stages (ad_plan ad)) names ns \<and> (\<forall>s \<in> set ns. \<forall>x \<in> set (stages d). stage_pk x \<noteq> stage_pk s) \<and>
     seeds owner rid names (counted (pl_stages (ad_plan ad)) (ad_sources ad)) us \<and>
     map src_source_id xs = map is_source_id (ad_sources ad) \<and> (\<forall>x \<in> set xs. src_owner x = owner \<and> src_revision x = rid)"

lemma insert_revision_effect:
  assumes run: "insert_revision sha owner wid rid number t ad d = Inr d'"
    and new: "\<not> exists_where (revision_at owner rid) (revisions d)"
  shows "txn d d' \<and> (\<exists>names ns us xs. inserted_rows owner wid rid number t ad d d' names ns us xs)"
proof -
  let ?pss = "pl_stages (ad_plan ad)"
  define d0 where "d0 = d\<lparr>revisions := revisions d @ [new_revision owner wid rid number ad],
      revision_usage := revision_usage d @ [new_usage owner rid t]\<rparr>"
  define d2 where "d2 d1 names = d1\<lparr>stage_dependencies := stage_dependencies d1 @
      concat (map (new_stage_dependencies owner rid names) ?pss)\<rparr>" for d1 :: db and names
  obtain names d1 st st1 where usage: "\<not> exists_where (usage_at owner rid) (revision_usage d)"
    and stages: "insert_stages sha owner rid (ad_invalidation ad) 0 ?pss d0 = Inr (names, d1)"
    and srcs: "foldE (insert_source sha owner rid names t (per_source_stages ?pss)) (ad_sources ad) ([], d2 d1 names) = Inr st"
    and singles: "foldE (insert_initial_unit sha owner rid names t None None) (singleton_stages ?pss) st = Inr st1"
    and progress: "insert_progress owner rid names (fst st1) t ?pss (snd st1) = Inr d'"
    using run unfolding insert_revision_def Let_def d0_def [symmetric]
    by (auto simp: tx_simps d2_def split: if_split_asm prod.split_asm)
  have start: "txn d d0"
    unfolding d0_def using new usage
    by (intro txn_append_revision) (auto simp: exists_where_def revision_at_def usage_at_def new_revision_def new_usage_def)
  obtain ns pls n where d1: "d1 = d0\<lparr>stages := stages d0 @ ns, stage_placements := pls, uuid_count := n\<rparr>" "txn d0 d1"
    and ns: "stages_for owner rid ?pss names ns" "\<forall>s \<in> set ns. \<forall>x \<in> set (stages d0). stage_pk x \<noteq> stage_pk s"
    using insert_stages_effect [OF stages] by blast
  have deps: "txn d1 (d2 d1 names)" by (simp add: d2_def)
  have "seeded owner rid names (d2 d1 names) [] ([], d2 d1 names)"
    unfolding seeded_def seeds_def
    by (intro exI [of _ "[]"] exI [of _ "uuid_count (d2 d1 names)"]) simp
  from seeded_units [OF singles conjunct1 [OF seeded_sources [OF srcs this]]] seeded_sources [OF srcs this]
  have seeded: "seeded owner rid names (d2 d1 names) (ad_sources ad) st1" and counts: "fst st1 = counted ?pss (ad_sources ad)"
    by (simp_all add: counted_def)
  obtain us xs m where st1: "snd st1 = (d2 d1 names)\<lparr>sources := sources (d2 d1 names) @ xs, units := units (d2 d1 names) @ us, uuid_count := m\<rparr>"
      "txn (d2 d1 names) (snd st1)"
    and us: "seeds owner rid names (fst st1) us" "map src_source_id xs = map is_source_id (ad_sources ad)"
      "\<forall>x \<in> set xs. src_owner x = owner \<and> src_revision x = rid"
    using seeded unfolding seeded_def by blast
  note d' = insert_progress_effect [OF progress]
  have "txn (snd st1) d'" by (simp add: d')
  then have "txn d d'" by (rule txn_trans [OF txn_trans [OF txn_trans [OF txn_trans [OF start d1(2)] deps] st1(2)]])
  moreover have "inserted_rows owner wid rid number t ad d d' names ns us xs"
    using ns us unfolding inserted_rows_def d' st1(1) d1(1) counts by (simp add: d2_def d0_def)
  ultimately show ?thesis by blast
qed

section \<open>The tally of the new stages\<close>

text \<open>The units a stage of the plan starts with.\<close>

definition initial_count :: "plan_stage list \<Rightarrow> inventory_source list \<Rightarrow> plan_stage \<Rightarrow> int" where
  "initial_count pss ss ps =
     (if ps \<notin> set (initial_stages pss) then 0
      else if cc_mode (ps_cardinality ps) = ''per_source'' then int (length ss)
      else if cc_mode (ps_cardinality ps) = ''singleton'' then 1 else 0)"

lemma count_list_rev: "count_list (rev xs) x = count_list xs x"
  by (induction xs) simp_all

lemma count_list_replicate: "count_list (concat (replicate n xs)) x = n * count_list xs x"
  by (induction n) simp_all

lemma count_list_key:
  assumes "distinct (map f xs)" and "x \<in> set xs"
  shows "count_list (map f (filter P xs)) (f x) = (if P x then 1 else 0)"
proof -
  have "count_list (map f (filter P ys)) (f x) = 0" if "f x \<notin> f ` set ys" for ys
    using that by (induction ys) auto
  then show ?thesis using assms by (induction xs) (auto split: if_splits)
qed

lemma count_counted:
  assumes "distinct (map ps_key pss)" and "ps \<in> set pss"
  shows "int (count_list (counted pss ss) (ps_key ps)) = initial_count pss ss ps"
  using count_list_key [OF assms] assms(2)
  by (simp add: counted_def initial_count_def initial_stages_def count_list_rev count_list_replicate)

lemma stage_id_of_map: "distinct (map fst names) \<Longrightarrow> map (stage_id_of names) (map fst names) = map (fst \<circ> snd) names"
  by (auto simp: stage_id_of_def)

lemma stages_for_ids:
  assumes "stages_for owner rid pss names ns" and "distinct (map ps_key pss)"
  shows "map (stage_id_of names \<circ> ps_key) pss = map s_id ns" and "inj_on (stage_id_of names) (ps_key ` set pss)"
proof -
  show ids: "map (stage_id_of names \<circ> ps_key) pss = map s_id ns"
    using stage_id_of_map [of names] assms unfolding stages_for_def by simp
  have "distinct (map (stage_id_of names) (map ps_key pss))" using assms(1) ids by (simp add: stages_for_def)
  then show "inj_on (stage_id_of names) (ps_key ` set pss)" by (simp only: distinct_map set_map)
qed

lemma map_eq_nth: "map f xs = map g ys \<Longrightarrow> i < length ys \<Longrightarrow> f (xs ! i) = g (ys ! i)"
  by (metis length_map nth_map)

lemma stages_for_each:
  assumes "stages_for owner rid pss names ns" and "distinct (map ps_key pss)"
  shows "list_all2 (\<lambda>ps s. s_id s = stage_id_of names (ps_key ps) \<and> s_key s = ps_key ps \<and> s_owner s = owner \<and> s_revision s = rid \<and>
     s_max_units s = cc_max_units (ps_cardinality ps)) pss ns"
proof -
  have len: "length ns = length pss" using assms(1) unfolding stages_for_def by (metis length_map)
  have "s_id (ns ! i) = stage_id_of names (ps_key (pss ! i)) \<and> s_key (ns ! i) = ps_key (pss ! i) \<and>
      s_max_units (ns ! i) = cc_max_units (ps_cardinality (pss ! i))" if "i < length pss" for i
    using map_eq_nth [OF stages_for_ids(1) [OF assms, symmetric] that] assms(1) that
    by (auto simp: stages_for_def dest: map_eq_nth [where i = i])
  then show ?thesis using assms(1) len by (auto simp: list_all2_conv_all_nth stages_for_def)
qed

lemma length_filter_count: "length (filter (\<lambda>u. f u = x) us) = count_list (map f us) x"
  by (induction us) auto

lemma count_list_map_inj: "inj_on f A \<Longrightarrow> set xs \<subseteq> A \<Longrightarrow> x \<in> A \<Longrightarrow> count_list (map f xs) (f x) = count_list xs x"
  by (induction xs) (auto dest: inj_onD)

lemma distinct_keys_in_stage:
  "distinct (map (\<lambda>u. (u_stage u, u_key u)) us) \<Longrightarrow> distinct (map u_key (filter (\<lambda>u. u_stage u = x) us))"
  by (auto simp: distinct_map inj_on_def intro: distinct_filter)

lemma stage_units_unit_of_stage: "stage_units d s = filter (unit_of_stage s) (units d)"
  by (simp add: stage_units_def unit_of_stage_def [abs_def])

lemma counted_keys: "set (counted pss ss) \<subseteq> ps_key ` set pss"
  by (auto simp: counted_def initial_stages_def)

lemma inserted_stage_units:
  assumes rows: "inserted_rows owner wid rid number t ad d d' names ns us xs"
    and plan: "distinct (map ps_key (pl_stages (ad_plan ad)))" and refs: "refs_ok d"
  shows "s \<in> set (stages d) \<Longrightarrow> stage_units d' s = stage_units d s"
    and "ps \<in> set (pl_stages (ad_plan ad)) \<Longrightarrow> s \<in> set ns \<Longrightarrow> s_id s = stage_id_of names (ps_key ps) \<Longrightarrow>
      distinct (map u_key (stage_units d' s)) \<and>
      int (length (stage_units d' s)) = initial_count (pl_stages (ad_plan ad)) (ad_sources ad) ps"
proof -
  let ?pss = "pl_stages (ad_plan ad)" and ?counts = "counted (pl_stages (ad_plan ad)) (ad_sources ad)"
  have units: "units d' = units d @ us" and ns: "stages_for owner rid ?pss names ns"
    and fresh: "\<forall>s \<in> set ns. \<forall>x \<in> set (stages d). stage_pk x \<noteq> stage_pk s" and seeds: "seeds owner rid names ?counts us"
    using rows by (simp_all add: inserted_rows_def)
  have own: "s_owner s = owner" "s_revision s = rid" if "s \<in> set ns" for s using ns that by (simp_all add: stages_for_def)
  have "u_stage u \<in> set (map s_id ns)" if "u \<in> set us" for u
  proof -
    have "u_stage u \<in> stage_id_of names ` set ?counts" using seeds that unfolding seeds_def by (metis image_eqI image_set set_rev)
    then show ?thesis using counted_keys stages_for_ids(1) [OF ns plan, symmetric] by fastforce
  qed
  then have new: "\<exists>s \<in> set ns. s_id s = u_stage u \<and> s_owner s = u_owner u" if "u \<in> set us" for u
    using that own seeds unfolding seeds_def by fastforce
  show "stage_units d' s = stage_units d s" if "s \<in> set (stages d)" for s
    using new fresh that by (fastforce simp: stage_units_unit_of_stage units unit_of_stage_def filter_empty_conv)
  fix ps s
  assume ps: "ps \<in> set ?pss" and s: "s \<in> set ns" "s_id s = stage_id_of names (ps_key ps)"
  have "filter (unit_of_stage s) (units d) = []"
    using refs fresh s own [OF s(1)] by (fastforce simp: filter_empty_conv refs_ok_def unit_of_stage_def)
  moreover have "filter (unit_of_stage s) us = filter (\<lambda>u. u_stage u = s_id s) us"
    using seeds own [OF s(1)] by (intro filter_cong) (auto simp: unit_of_stage_def seeds_def)
  ultimately have here: "stage_units d' s = filter (\<lambda>u. u_stage u = s_id s) us"
    by (simp add: stage_units_unit_of_stage units)
  have "count_list (map u_stage us) (s_id s) = count_list ?counts (ps_key ps)"
    using seeds s(2) count_list_map_inj [OF stages_for_ids(2) [OF ns plan] counted_keys] ps
    by (simp add: seeds_def rev_map [symmetric] count_list_rev)
  then have "int (length (stage_units d' s)) = initial_count ?pss (ad_sources ad) ps"
    using count_counted [OF plan ps, of "ad_sources ad"] unfolding here length_filter_count by simp
  moreover have "distinct (map u_key (stage_units d' s))"
    using seeds unfolding here seeds_def by (intro distinct_keys_in_stage) simp
  ultimately show "distinct (map u_key (stage_units d' s)) \<and>
      int (length (stage_units d' s)) = initial_count ?pss (ad_sources ad) ps" by simp
qed

lemma progress_row_at:
  assumes ns: "stages_for owner rid pss names ns" and plan: "distinct (map ps_key pss)"
    and m: "m \<in> set (progress_rows owner rid names counts t pss)"
  shows "\<exists>ps \<in> set pss. \<exists>s \<in> set ns. progress_at s m \<and> s_id s = stage_id_of names (ps_key ps) \<and>
    s_max_units s = cc_max_units (ps_cardinality ps) \<and> m_unit_count m = int (count_list counts (ps_key ps)) \<and>
    (m_completed m \<longleftrightarrow> ps_type ps = S_INVENTORY \<or> depends_on_inventory pss ps)"
proof -
  obtain i where i: "i < length pss" and m: "m = new_progress owner rid (stage_id_of names (ps_key (pss ! i)))
      (ps_type (pss ! i) = S_INVENTORY \<or> depends_on_inventory pss (pss ! i)) (int (count_list counts (ps_key (pss ! i)))) t"
    using m unfolding progress_rows_def by (auto simp: in_set_conv_nth)
  have "list_all2 (\<lambda>ps s. s_id s = stage_id_of names (ps_key ps) \<and> s_key s = ps_key ps \<and> s_owner s = owner \<and> s_revision s = rid \<and>
     s_max_units s = cc_max_units (ps_cardinality ps)) pss ns" by (rule stages_for_each [OF ns plan])
  then have "i < length ns" and "s_id (ns ! i) = stage_id_of names (ps_key (pss ! i))" "s_owner (ns ! i) = owner"
    "s_revision (ns ! i) = rid" "s_max_units (ns ! i) = cc_max_units (ps_cardinality (pss ! i))"
    using i by (auto simp: list_all2_conv_all_nth)
  then show ?thesis
    using i by (intro bexI [of _ "pss ! i"] bexI [of _ "ns ! i"]) (simp_all add: m progress_at_def new_progress_def)
qed

lemma progress_at_pk: "progress_at s m \<Longrightarrow> progress_at s' m \<Longrightarrow> stage_pk s' = stage_pk s"
  by (simp add: progress_at_def)

lemma initial_count_waiting:
  "\<not> (ps_type ps = S_INVENTORY \<or> depends_on_inventory pss ps) \<Longrightarrow> initial_count pss ss ps = 0"
  by (simp add: initial_count_def initial_stages_def)

lemma inserted_tally:
  assumes rows: "inserted_rows owner wid rid number t ad d d' names ns us xs"
    and plan: "distinct (map ps_key (pl_stages (ad_plan ad)))"
      "\<forall>ps \<in> set (pl_stages (ad_plan ad)). 0 \<le> cc_max_units (ps_cardinality ps)"
    and ok: "refs_ok d" "stage_tally d"
  shows "stage_tally d'"
  unfolding stage_tally_def
proof (intro ballI conjI impI)
  let ?pss = "pl_stages (ad_plan ad)"
  let ?new = "progress_rows owner rid names (counted ?pss (ad_sources ad)) t ?pss"
  have ns: "stages_for owner rid ?pss names ns" and stages: "stages d' = stages d @ ns"
    and fresh: "\<forall>s \<in> set ns. \<forall>x \<in> set (stages d). stage_pk x \<noteq> stage_pk s"
    and progress: "stage_materialization d' = stage_materialization d @ ?new"
    using rows by (simp_all add: inserted_rows_def)
  note old = inserted_stage_units(1) [OF rows plan(1) ok(1)] and made = inserted_stage_units(2) [OF rows plan(1) ok(1)]
  have plan_stage: "\<exists>ps \<in> set ?pss. s_id s = stage_id_of names (ps_key ps)" if "s \<in> set ns" for s
  proof -
    have "s_id s \<in> set (map (stage_id_of names \<circ> ps_key) ?pss)" using that by (simp only: stages_for_ids(1) [OF ns plan(1)]) simp
    then show ?thesis by auto
  qed
  have same: "s' = s" if "s \<in> set ns" "s' \<in> set ns" "stage_pk s' = stage_pk s" for s s'
    using ns that unfolding stages_for_def by (auto simp: distinct_map dest: inj_onD)
  fix s assume s: "s \<in> set (stages d')"
  show "distinct (map u_key (stage_units d' s))"
  proof (cases "s \<in> set ns")
    case True
    then obtain ps where "ps \<in> set ?pss" "s_id s = stage_id_of names (ps_key ps)" using plan_stage by blast
    then show ?thesis using made True by simp
  qed (use s ok(2) old in \<open>simp add: stages stage_tally_def\<close>)
  fix m assume m: "m \<in> set (stage_materialization d')" "progress_at s m"
  have "m_unit_count m = int (length (stage_units d' s)) \<and>
      (\<not> m_completed m \<longrightarrow> int (length (stage_units d' s)) \<le> s_max_units s)"
  proof (cases "m \<in> set ?new")
    case True
    obtain ps s' where new: "ps \<in> set ?pss" "s' \<in> set ns" "progress_at s' m" "s_id s' = stage_id_of names (ps_key ps)"
      "s_max_units s' = cc_max_units (ps_cardinality ps)" "m_unit_count m = int (count_list (counted ?pss (ad_sources ad)) (ps_key ps))"
      "m_completed m \<longleftrightarrow> ps_type ps = S_INVENTORY \<or> depends_on_inventory ?pss ps"
      using progress_row_at [OF ns plan(1) True] by (auto simp del: One_nat_def)
    have "s \<in> set ns" using s fresh new(2) progress_at_pk [OF new(3) m(2)] by (auto simp: stages)
    then have "s = s'" using same new(2) progress_at_pk [OF new(3) m(2)] by blast
    then show ?thesis
      using made [OF new(1,2,4)] new(5-7) count_counted [OF plan(1) new(1), of "ad_sources ad"] plan(2) new(1)
        initial_count_waiting [of ps ?pss "ad_sources ad"] by auto
  next
    case False
    then have m': "m \<in> set (stage_materialization d)" using m(1) by (simp add: progress)
    then obtain s' where "s' \<in> set (stages d)" "progress_at s' m" using ok(1) unfolding refs_ok_def by blast
    then have "s \<in> set (stages d)" using s fresh progress_at_pk [OF m(2)] by (auto simp: stages)
    then show ?thesis using ok(2) m' m(2) old unfolding stage_tally_def by simp
  qed
  then show "m_unit_count m = int (length (stage_units d' s))"
    and "\<not> m_completed m \<Longrightarrow> int (length (stage_units d' s)) \<le> s_max_units s" by simp_all
qed

lemma inserted_refs:
  assumes rows: "inserted_rows owner wid rid number t ad d d' names ns us xs"
    and plan: "distinct (map ps_key (pl_stages (ad_plan ad)))" and ok: "refs_ok d"
  shows "refs_ok d'"
proof -
  let ?pss = "pl_stages (ad_plan ad)"
  have ns: "stages_for owner rid ?pss names ns" and seeds: "seeds owner rid names (counted ?pss (ad_sources ad)) us"
    using rows by (simp_all add: inserted_rows_def)
  have "\<exists>s \<in> set ns. unit_of_stage s u" if "u \<in> set us" for u
  proof -
    have "u_stage u \<in> stage_id_of names ` set (counted ?pss (ad_sources ad))"
      using seeds that unfolding seeds_def by (metis image_eqI image_set set_rev)
    then have "u_stage u \<in> set (map s_id ns)" using counted_keys stages_for_ids(1) [OF ns plan, symmetric] by fastforce
    then show ?thesis using ns seeds that unfolding stages_for_def seeds_def unit_of_stage_def by fastforce
  qed
  moreover have "\<exists>s \<in> set ns. progress_at s m" if "m \<in> set (progress_rows owner rid names counts t ?pss)" for m counts
    using progress_row_at [OF ns plan that] by auto
  ultimately show ?thesis using rows ok unfolding inserted_rows_def refs_ok_def by fastforce
qed

section \<open>The transaction\<close>

text \<open>A draft may be given a revision that has been inserted for it.\<close>

lemma txn_activate:
  assumes run: "activate_revision owner wid rid expected t d = Inr d'"
    and rev: "r \<in> set (revisions d)" "revision_at owner rid r" "r_workload r = wid"
    and usage: "u \<in> set (revision_usage d)" "usage_at owner rid u"
  shows "txn d d'"
proof -
  define here where "here w \<longleftrightarrow> workload_at owner wid w \<and> w_version w = expected \<and> w_state w = W_DRAFT" for w
  define f where "f w = w\<lparr>w_active_revision := Some rid, w_state := W_ADMITTED, w_version := w_version w + 1, w_updated_at := t\<rparr>"
    for w :: workload_row
  have d': "d' = d\<lparr>workloads := update_where here f (workloads d)\<rparr>"
    using run by (simp add: activate_revision_def Let_def here_def [abs_def] f_def [abs_def] split: if_split_asm)
  have f: "workload_evolves w (f w)" if "here w" for w
    using that by (auto simp: workload_evolves_def f_def here_def workload_edge_def intro!: r_into_rtranclp)
  have "rows_evolve workload_evolves (workloads d) (workloads d')"
    unfolding d' by (simp, rule workload_rows.update_rows) (rule f)
  moreover have "events_ok (workloads d') (events d)" if "events_ok (workloads d) (events d)"
    using that unfolding d' by (simp, intro events_ok_update) (simp_all add: f_def)
  moreover have "map workload_pk (workloads d') = map workload_pk (workloads d)"
    unfolding d' by (simp add: f_def update_where_fieldwise)
  moreover have "active_ok d'" if "active_ok d"
  proof -
    have "active_revision_ok (revisions d) (revision_usage d) (f w)" if "here w" for w
      using that rev usage by (auto simp: active_revision_ok_def f_def here_def workload_at_def)
    then show ?thesis using that unfolding active_ok_def d' by (simp add: ball_update_where)
  qed
  ultimately show ?thesis
    by (auto simp: txn_def store_ok_def keys_ok_def db_evolves_def d')
qed

lemma seal_revision_effect:
  assumes "seal_revision owner wid rid t d = Inr d'"
  obtains P where "d' = d\<lparr>revisions := update_where P (\<lambda>r. r\<lparr>r_admitted_at := Some t\<rparr>) (revisions d)\<rparr>"
    and "\<And>r. P r \<longleftrightarrow> revision_at owner rid r \<and> r_workload r = wid \<and> r_admitted_at r = None"
  using assms by (auto simp: seal_revision_def Let_def split: if_split_asm)

lemma seal_revision_txn: "seal_revision owner wid rid t d = Inr d' \<Longrightarrow> txn d d'"
  by (erule seal_revision_effect) (auto intro!: txn_revisions simp: revision_evolves_def)

lemma enqueue_outbox_tables:
  assumes "enqueue_outbox_in_transaction owner wid eid channel recipient ck due delivered d = Inr (r, d')"
  shows "\<exists>bs n. d' = d\<lparr>outbox := bs, uuid_count := n\<rparr>"
proof -
  have eq: "d' = d\<lparr>outbox := outbox d', uuid_count := uuid_count d'\<rparr>"
    using assms unfolding enqueue_outbox_in_transaction_def
    by (auto simp: tx_simps Let_def new_id_def require_owner_def split: if_splits option.splits prod.splits)
  show ?thesis by (intro exI) (rule eq)
qed

lemma enqueue_notification_tables:
  assumes "enqueue_notification_in_transaction owner wid eid d = Inr d'"
  shows "\<exists>bs n. d' = d\<lparr>outbox := bs, uuid_count := n\<rparr>"
proof -
  obtain r1 d1 r2 where one: "enqueue_outbox_in_transaction owner wid eid ''owner_event'' owner None None True d = Inr (r1, d1)"
    and two: "enqueue_outbox_in_transaction owner wid eid ''telegram'' owner None None False d1 = Inr (r2, d')"
    using assms by (auto simp: enqueue_notification_in_transaction_def tx_simps)
  obtain bs n bs' n' where "d1 = d\<lparr>outbox := bs, uuid_count := n\<rparr>" "d' = d1\<lparr>outbox := bs', uuid_count := n'\<rparr>"
    using enqueue_outbox_tables [OF one] enqueue_outbox_tables [OF two] by blast
  then have "d' = d\<lparr>outbox := bs', uuid_count := n'\<rparr>" by simp
  then show ?thesis by blast
qed

lemma append_event_tables:
  assumes "append_event_in_transaction owner wid t payload d = Inr (e, d')"
  shows "\<exists>ws es. d' = d\<lparr>workloads := ws, events := es\<rparr>"
  using assms by (rule append_event_effect) blast

lemma tally_cong:
  assumes "stages d' = stages d" and "units d' = units d" and "stage_materialization d' = stage_materialization d"
  shows "stage_tally d' = stage_tally d" and "refs_ok d' = refs_ok d" and "stage_units d' s = stage_units d s"
  using assms by (simp_all add: stage_tally_def refs_ok_def stage_units_def)

lemma admit_in_transaction_cases:
  assumes "admit_in_transaction sha owner wid rid expected t ad d = Inr (rr, d')"
  obtains (replay) r where "find (same_admission owner wid ad) (revisions d) = Some r" "same_inputs ad r" "rr = row_to_revision r" "d' = d"
  | (new) w d1 d2 d3 e d4 r where "find (workload_at owner wid) (workloads d) = Some w" "w_version w = expected" "w_state w = W_DRAFT"
      "find (same_admission owner wid ad) (revisions d) = None"
      "\<not> exists_where (revision_at owner rid) (revisions d)"
      "insert_revision sha owner wid rid (next_number owner wid d) t ad d = Inr d1"
      "seal_revision owner wid rid t d1 = Inr d2" "activate_revision owner wid rid expected t d2 = Inr d3"
      "append_event_in_transaction owner wid Ev_REVISION_ADMITTED
         (admitted_payload rid (next_number owner wid d) ad expected) d3 = Inr (e, d4)"
      "enqueue_notification_in_transaction owner wid (e_id e) d4 = Inr d'"
      "find (revision_at owner rid) (revisions d') = Some r" "rr = row_to_revision r"
proof (cases "find (same_admission owner wid ad) (revisions d)")
  case None
  then show thesis
    using assms new unfolding admit_in_transaction_def select_workload_def Let_def
    by (auto simp: tx_simps simp del: exists_where_iff split: if_split_asm)
next
  case (Some r)
  then show thesis
    using assms replay [OF Some] unfolding admit_in_transaction_def by (auto simp: tx_simps split: if_split_asm)
qed

text \<open>The revision that was inserted is still there when the draft is moved.\<close>

lemma sealed_revision:
  assumes rows: "inserted_rows owner wid rid number t ad d d1 names ns us xs" and seal: "seal_revision owner wid rid t d1 = Inr d2"
    and new: "\<not> exists_where (revision_at owner rid) (revisions d)"
  shows "revisions d2 = revisions d @ [(new_revision owner wid rid number ad)\<lparr>r_admitted_at := Some t\<rparr>]"
    and "new_usage owner rid t \<in> set (revision_usage d2)"
proof -
  obtain P where d2: "d2 = d1\<lparr>revisions := update_where P (\<lambda>r. r\<lparr>r_admitted_at := Some t\<rparr>) (revisions d1)\<rparr>"
    and P: "\<And>r. P r \<longleftrightarrow> revision_at owner rid r \<and> r_workload r = wid \<and> r_admitted_at r = None"
    using seal by (rule seal_revision_effect) blast
  have "revisions d1 = revisions d @ [new_revision owner wid rid number ad]"
    and usage: "revision_usage d1 = revision_usage d @ [new_usage owner rid t]"
    using rows by (simp_all add: inserted_rows_def)
  moreover have "update_where P (\<lambda>r. r\<lparr>r_admitted_at := Some t\<rparr>) (revisions d) = revisions d"
    using new P by (intro update_where_id) auto
  ultimately show "revisions d2 = revisions d @ [(new_revision owner wid rid number ad)\<lparr>r_admitted_at := Some t\<rparr>]"
    by (simp add: d2 update_where_append P new_revision_def revision_at_def)
  show "new_usage owner rid t \<in> set (revision_usage d2)" using usage by (simp add: d2)
qed

lemma new_admission_txns:
  assumes "insert_revision sha owner wid rid number t ad d = Inr d1"
    and "\<not> exists_where (revision_at owner rid) (revisions d)"
    and "seal_revision owner wid rid t d1 = Inr d2" and "activate_revision owner wid rid expected t d2 = Inr d3"
  shows "txn d d3"
proof -
  obtain names ns us xs where "txn d d1" and rows: "inserted_rows owner wid rid number t ad d d1 names ns us xs"
    using insert_revision_effect [OF assms(1,2)] by blast
  note \<open>txn d d1\<close>
  also have "txn d1 d2" by (rule seal_revision_txn [OF assms(3)])
  also have "txn d2 d3"
    using sealed_revision [OF rows assms(3,2)]
    by (intro txn_activate [OF assms(4), where u = "new_usage owner rid t"
        and r = "(new_revision owner wid rid number ad)\<lparr>r_admitted_at := Some t\<rparr>"])
      (simp_all add: revision_at_def usage_at_def new_revision_def new_usage_def)
  finally show ?thesis .
qed

lemma admit_in_transaction_txn:
  assumes "admit_in_transaction sha owner wid rid expected t ad d = Inr (rr, d')"
  shows "txn d d'"
  using assms
proof (cases rule: admit_in_transaction_cases)
  case (new w d1 d2 d3 e d4 r)
  note new_admission_txns [OF new(6,5,7,8)]
  also note append_event_txn [OF new(9)]
  also note enqueue_notification_txn [OF new(10)]
  finally show ?thesis .
qed simp

lemma chosen_id_effect: "chosen_id v prefix d = Inr (i, d1) \<Longrightarrow> \<exists>n. d1 = d\<lparr>uuid_count := n\<rparr>"
  by (cases v) (auto simp: chosen_id_def new_id_def split: if_split_asm intro: exI [of _ "uuid_count d"])

lemma admit_revision_run:
  assumes "admit_revision sha owner wid retain plan inventory expected catalog policy caps_cut partial usage rid d = Inr (rr, d')"
  obtains ad revision_id n where "prepare_admission sha retain plan inventory catalog policy caps_cut partial usage = Inr ad"
    and "admit_in_transaction sha owner wid revision_id expected (utc_now d) ad (d\<lparr>uuid_count := n\<rparr>) = Inr (rr, d')"
  using assms unfolding admit_revision_def require_owner_def require_version_def
  by (auto simp: tx_simps split: if_split_asm dest!: chosen_id_effect)

lemma admit_revision_txn:
  assumes "admit_revision sha owner wid retain plan inventory expected catalog policy caps_cut partial usage rid d = Inr (rr, d')"
  shows "txn d d'"
  using assms by (rule admit_revision_run) (rule txn_trans [OF txn_untracked(7) admit_in_transaction_txn])

lemma prepare_admission_plan:
  assumes "prepare_admission sha retain plan inventory catalog policy caps_cut partial usage = Inr ad"
  shows "distinct (map ps_key (pl_stages (ad_plan ad)))"
    and "\<forall>ps \<in> set (pl_stages (ad_plan ad)). 0 \<le> cc_max_units (ps_cardinality ps)"
proof -
  have "validate_plan plan = Inr (ad_plan ad)"
    using assms unfolding prepare_admission_def assemble_admission_def by (auto simp: tx_simps split: prod.split_asm)
  then obtain budgets v where "validate_stages budgets v = Inr (pl_stages (ad_plan ad))" by (rule validate_plan_parts) blast
  note parts = validate_stages_ok [OF this]
  then show "distinct (map ps_key (pl_stages (ad_plan ad)))" by simp
  have "list_all plan_stage_ok (pl_stages (ad_plan ad))" using parts by simp
  then show "\<forall>ps \<in> set (pl_stages (ad_plan ad)). 0 \<le> cc_max_units (ps_cardinality ps)"
    by (auto simp: list_all_iff plan_stage_ok_def cardinality_ok_def)
qed

section \<open>What an admission leaves\<close>

definition admitted :: "string \<Rightarrow> ident \<Rightarrow> int \<Rightarrow> admission \<Rightarrow> revision_record \<Rightarrow> db \<Rightarrow> db \<Rightarrow> bool" where
  "admitted owner wid expected ad rr d d' \<longleftrightarrow>
     (\<exists>w w'. find (workload_at owner wid) (workloads d) = Some w \<and> w_state w = W_DRAFT \<and> w_version w = expected \<and>
        find (workload_at owner wid) (workloads d') = Some w' \<and> w_state w' = W_ADMITTED \<and> w_version w' = expected + 1 \<and>
        w_active_revision w' = Some (rr_id rr)) \<and>
     (\<exists>e. events d' = events d @ [e] \<and> e_type e = Ev_REVISION_ADMITTED \<and> e_workload e = wid) \<and>
     (\<exists>r. revisions d' = revisions d @ [r] \<and> rr = row_to_revision r \<and> r_owner r = owner \<and> r_workload r = wid \<and>
        r_admitted_at r \<noteq> None \<and> same_admission owner wid ad r \<and> same_inputs ad r) \<and>
     (\<exists>xs. sources d' = sources d @ xs \<and> map src_source_id xs = map is_source_id (ad_sources ad)) \<and>
     (\<forall>ps \<in> set (pl_stages (ad_plan ad)). \<exists>s \<in> set (stages d'). s_owner s = owner \<and> s_revision s = rr_id rr \<and> s_key s = ps_key ps \<and>
        int (length (stage_units d' s)) = initial_count (pl_stages (ad_plan ad)) (ad_sources ad) ps)"

lemma activated_workload:
  assumes keys: "distinct (map workload_pk (workloads d))" and w: "find (workload_at owner wid) (workloads d) = Some w"
    "w_version w = expected" "w_state w = W_DRAFT"
    and run: "activate_revision owner wid rid expected t d = Inr d1"
    and ev: "append_event_in_transaction owner wid ty payload d1 = Inr (e, d2)"
  shows "\<exists>w'. find (workload_at owner wid) (workloads d2) = Some w' \<and> w_state w' = W_ADMITTED \<and> w_version w' = expected + 1 \<and>
      w_active_revision w' = Some rid"
    and "events d2 = events d @ [e]" and "e_type e = ty" and "e_workload e = wid"
proof -
  define w1 where "w1 = w\<lparr>w_active_revision := Some rid, w_state := W_ADMITTED, w_version := w_version w + 1, w_updated_at := t\<rparr>"
  have mem: "w \<in> set (workloads d)" "workload_at owner wid w" using find_SomeD [OF w(1)] by auto
  have d1: "d1 = d\<lparr>workloads := update_where (\<lambda>w. workload_at owner wid w \<and> w_version w = expected \<and> w_state w = W_DRAFT)
      (\<lambda>w. w\<lparr>w_active_revision := Some rid, w_state := W_ADMITTED, w_version := w_version w + 1, w_updated_at := t\<rparr>) (workloads d)\<rparr>"
    using run by (simp add: activate_revision_def Let_def split: if_split_asm)
  have w1: "find (workload_at owner wid) (workloads d1) = Some w1"
  proof -
    have uniq: "workload_at owner wid v \<and> w_version v = expected \<and> w_state v = W_DRAFT \<longleftrightarrow> v = w"
      if "v \<in> set (workloads d)" for v using workload_pk_unique [OF keys mem(1) that mem(2)] mem(2) w(2,3) by blast
    show ?thesis
      unfolding d1 w1_def by (simp, rule find_workload_update [OF w(1), where f = "\<lambda>w. w\<lparr>w_active_revision := Some rid,
          w_state := W_ADMITTED, w_version := w_version w + 1, w_updated_at := t\<rparr>"]) (simp_all add: uniq)
  qed
  have keys1: "distinct (map workload_pk (workloads d1))" using keys by (simp add: d1 update_where_fieldwise)
  note frame = append_event_frame [OF ev keys1 w1]
  have "find (workload_at owner wid) (workloads d2) = Some (w1\<lparr>w_next_event_id := w_next_event_id w1 + 1\<rparr>)"
    unfolding frame(7) by (rule find_workload_update [OF w1, where f = "\<lambda>_. w1\<lparr>w_next_event_id := w_next_event_id w1 + 1\<rparr>"]) simp_all
  then show "\<exists>w'. find (workload_at owner wid) (workloads d2) = Some w' \<and> w_state w' = W_ADMITTED \<and> w_version w' = expected + 1 \<and>
      w_active_revision w' = Some rid" using w(2) by (simp add: w1_def)
  show "events d2 = events d @ [e]" "e_type e = ty" "e_workload e = wid" using frame by (simp_all add: d1)
qed

lemma new_revision_same: "same_admission owner wid ad ((new_revision owner wid rid n ad)\<lparr>r_admitted_at := t\<rparr>)"
  "same_inputs ad ((new_revision owner wid rid n ad)\<lparr>r_admitted_at := t\<rparr>)"
  by (simp_all add: same_admission_def same_inputs_def new_revision_def)

lemma new_admission_effect:
  assumes ok: "store_ok d" "refs_ok d" "stage_tally d"
    and plan: "distinct (map ps_key (pl_stages (ad_plan ad)))"
      "\<forall>ps \<in> set (pl_stages (ad_plan ad)). 0 \<le> cc_max_units (ps_cardinality ps)"
    and w: "find (workload_at owner wid) (workloads d) = Some w" "w_version w = expected" "w_state w = W_DRAFT"
    and new: "\<not> exists_where (revision_at owner rid) (revisions d)"
    and run: "insert_revision sha owner wid rid number t ad d = Inr d1"
      "seal_revision owner wid rid t d1 = Inr d2" "activate_revision owner wid rid expected t d2 = Inr d3"
      "append_event_in_transaction owner wid Ev_REVISION_ADMITTED payload d3 = Inr (e, d4)"
      "enqueue_notification_in_transaction owner wid (e_id e) d4 = Inr d'"
    and r: "find (revision_at owner rid) (revisions d') = Some r" "rr = row_to_revision r"
  shows "stage_tally d' \<and> refs_ok d' \<and> admitted owner wid expected ad rr d d'"
proof -
  let ?r = "(new_revision owner wid rid number ad)\<lparr>r_admitted_at := Some t\<rparr>" and ?pss = "pl_stages (ad_plan ad)"
  obtain names ns us xs where rows: "inserted_rows owner wid rid number t ad d d1 names ns us xs"
    using insert_revision_effect [OF run(1) new] by blast
  have ns: "stages_for owner rid ?pss names ns" and stages: "stages d1 = stages d @ ns" and d1: "workloads d1 = workloads d" "events d1 = events d"
    and xs: "sources d1 = sources d @ xs" "map src_source_id xs = map is_source_id (ad_sources ad)"
    using rows by (simp_all add: inserted_rows_def)
  note sealed = sealed_revision [OF rows run(2) new]
  obtain rs where d2: "d2 = d1\<lparr>revisions := rs\<rparr>" using run(2) by (auto elim: seal_revision_effect)
  obtain vs where d3: "d3 = d2\<lparr>workloads := vs\<rparr>" using run(3) by (auto simp: activate_revision_def Let_def split: if_split_asm)
  obtain ws es where d4: "d4 = d3\<lparr>workloads := ws, events := es\<rparr>" using append_event_tables [OF run(4)] by blast
  obtain bs n where d': "d' = d4\<lparr>outbox := bs, uuid_count := n\<rparr>" using enqueue_notification_tables [OF run(5)] by blast
  have same: "stages d' = stages d1" "units d' = units d1" "stage_materialization d' = stage_materialization d1"
    "sources d' = sources d1" "revisions d' = revisions d2" "workloads d' = workloads d4" "events d' = events d4"
    by (simp_all add: d' d4 d3 d2)
  have "find (revision_at owner rid) (revisions d @ [?r]) = Some ?r"
    using new by (intro find_append_new) (auto simp: find_None_iff revision_at_def new_revision_def)
  then have r: "rr = row_to_revision ?r" using r sealed(1) same(5) by simp
  then have id: "rr_id rr = rid" by (simp add: row_to_revision_def new_revision_def)
  have w2: "distinct (map workload_pk (workloads d2))" "find (workload_at owner wid) (workloads d2) = Some w"
    using ok(1) w(1) d1 by (simp_all add: d2 store_ok_def keys_ok_def)
  have row: "r_owner ?r = owner" "r_workload ?r = wid" "r_admitted_at ?r \<noteq> None" by (simp_all add: new_revision_def)
  have ev: "events d2 = events d" by (simp add: d2 d1)
  note act = activated_workload [OF w2 w(2,3) run(3,4)]
  have units: "\<exists>s \<in> set (stages d'). s_owner s = owner \<and> s_revision s = rid \<and> s_key s = ps_key ps \<and>
      int (length (stage_units d' s)) = initial_count ?pss (ad_sources ad) ps" if ps: "ps \<in> set ?pss" for ps
  proof -
    obtain s where s: "s \<in> set ns" "s_id s = stage_id_of names (ps_key ps)" "s_key s = ps_key ps" "s_owner s = owner" "s_revision s = rid"
      using stages_for_each [OF ns plan(1)] ps unfolding list_all2_conv_all_nth in_set_conv_nth by (metis nth_mem)
    then show ?thesis
      using inserted_stage_units(2) [OF rows plan(1) ok(2) ps s(1,2)] tally_cong(3) [OF same(1-3)] same(1) stages by auto
  qed
  have "admitted owner wid expected ad rr d d'"
    unfolding admitted_def id using act [unfolded ev] w units xs sealed(1) r
    by (intro conjI exI [of _ ?r] exI [of _ e] exI [of _ xs])
      (simp_all only: same new_revision_same row, simp_all)
  then show ?thesis
    using inserted_tally [OF rows plan ok(2,3)] inserted_refs [OF rows plan(1) ok(2)] tally_cong [OF same(1-3)] by simp
qed

text \<open>
  C29. Admitting a revision either finds the revision an equal admission made, with the same
  digests and inputs, and changes nothing but the identifier counter, or moves the draft at the expected version to
  admitted with the new revision active and sealed and one event; then every stage of the
  plan is a stage of the revision that starts with one unit per source if it maps the inventory,
  one unit if it is a single unit that waits for nothing but the inventory, and no unit otherwise, every
  source has its row, and the invariants of the store and of the unit counts hold.
\<close>

theorem admit_revision_exact:
  assumes run: "admit_revision sha owner wid retain plan inventory expected catalog policy caps_cut partial usage rid d = Inr (rr, d')"
    and ok: "store_ok d" "refs_ok d" "stage_tally d"
  shows "store_ok d' \<and> refs_ok d' \<and> stage_tally d' \<and>
    (\<exists>ad. prepare_admission sha retain plan inventory catalog policy caps_cut partial usage = Inr ad \<and>
      ((\<exists>r n. r \<in> set (revisions d) \<and> same_admission owner wid ad r \<and> same_inputs ad r \<and> rr = row_to_revision r \<and> d' = d\<lparr>uuid_count := n\<rparr>) \<or>
       admitted owner wid expected ad rr d d'))"
  using run
proof (rule admit_revision_run)
  fix ad revision_id n
  let ?d = "d\<lparr>uuid_count := n\<rparr>"
  assume ad: "prepare_admission sha retain plan inventory catalog policy caps_cut partial usage = Inr ad"
    and tx: "admit_in_transaction sha owner wid revision_id expected (utc_now d) ad ?d = Inr (rr, d')"
  have ok': "store_ok ?d" "refs_ok ?d" "stage_tally ?d"
    using ok txn_untracked(7) [of d n] tally_cong [of ?d d] by (simp_all add: txn_def)
  have "store_ok d'" by (rule txn_keeps [OF admit_in_transaction_txn [OF tx] ok'(1)])
  moreover have "refs_ok d' \<and> stage_tally d' \<and>
      ((\<exists>r n. r \<in> set (revisions d) \<and> same_admission owner wid ad r \<and> same_inputs ad r \<and> rr = row_to_revision r \<and> d' = d\<lparr>uuid_count := n\<rparr>) \<or>
       admitted owner wid expected ad rr d d')"
    using tx
  proof (cases rule: admit_in_transaction_cases)
    case (replay r)
    then show ?thesis using ok' find_SomeD [OF replay(1)] by auto
  next
    case (new w d1 d2 d3 e d4 r)
    have "admitted owner wid expected ad rr d d' \<longleftrightarrow> admitted owner wid expected ad rr ?d d'" by (simp add: admitted_def)
    then show ?thesis
      using new_admission_effect [OF ok' prepare_admission_plan [OF ad] new(1-3,5-)] by blast
  qed
  ultimately show ?thesis using ad by blast
qed

section \<open>An example\<close>

text \<open>A plan whose only stage after the inventory is optional, has one unit per source and a cap of one unit.\<close>

definition example_optional_stage :: jval where
  "example_optional_stage = (case example_map_stage 1 of JObj kvs \<Rightarrow> JObj (butlast kvs @ [(''required'', JBool False)]) | v \<Rightarrow> v)"

abbreviation example_admitted_plan :: jval where
  "example_admitted_plan \<equiv> example_plan [example_inventory_stage, example_optional_stage]"

definition example_rules :: jval where
  "example_rules = JObj [(''schema_version'', JStr ''metnos.policy-snapshot/1''), (''rules'', JArr
     [JObj [(''stage_key'', JStr ''files''), (''invalidation_digest'', JStr zero_digest)],
      JObj [(''stage_key'', JStr ''map''), (''invalidation_digest'', JStr zero_digest)]])]"

text \<open>A hash that tells the unit keys of the two sources apart.\<close>

definition marking_sha :: "string \<Rightarrow> string" where
  "marking_sha s = (if take 16 s = ''metnos:durable-u'' then replicate 64 (if count_list s (CHR ''b'') = 2 then CHR ''1'' else CHR ''0'')
     else replicate 64 (CHR ''0''))"

lemma example_admission_run:
  "succeeds_with (validate_contents example_admitted_plan) (\<lambda>q.
   succeeds_with (validate_inventory marking_sha True (JObj example_inventory)) (\<lambda>sealed.
   succeeds_with (assemble_admission (q\<lparr>pl_text := plan_text\<rparr>) zero_digest sealed None (Some example_rules)
     False False False) (\<lambda>ad.
   succeeds_with (revision_columns example_admitted_plan (ad_plan ad)) (\<lambda>_.
   succeeds_with (admit_in_transaction marking_sha ''owner'' ''wkl_00000001'' ''rev_00000001'' 1 2000 ad example_draft_store)
     (\<lambda>(rr, d'). rr_id rr = ''rev_00000001'' \<and>
        exists_where (\<lambda>s. s_max_units s < int (length (stage_units d' s))) (stages d'))))))"
  by code_simp

lemma example_admitted_plan_light: "json_weight example_admitted_plan \<le> max_plan_json_bytes"
  by code_simp

lemma example_admission:
  obtains rr d' where "admit_revision marking_sha ''owner'' ''wkl_00000001'' True example_admitted_plan (JObj example_inventory) 1
      None (Some example_rules) False False False (Some ''rev_00000001'') example_draft_store = Inr (rr, d')"
    and "rr_id rr = ''rev_00000001''" and "exists_where (\<lambda>s. s_max_units s < int (length (stage_units d' s))) (stages d')"
proof -
  define plan_text where "plan_text = encode_json example_admitted_plan"
  note enc = canonical_json_light [OF example_admitted_plan_light, folded plan_text_def]
  obtain q sealed ad u x where q: "validate_contents example_admitted_plan = Inr q"
    and sealed: "validate_inventory marking_sha True (JObj example_inventory) = Inr sealed"
    and ad: "assemble_admission (q\<lparr>pl_text := plan_text\<rparr>) zero_digest sealed None (Some example_rules)
        False False False = Inr ad"
    and columns: "revision_columns example_admitted_plan (ad_plan ad) = Inr u"
    and x: "admit_in_transaction marking_sha ''owner'' ''wkl_00000001'' ''rev_00000001'' 1 2000 ad example_draft_store = Inr x"
    and seen: "(\<lambda>(rr, d'). rr_id rr = ''rev_00000001'' \<and> exists_where (\<lambda>s. s_max_units s < int (length (stage_units d' s))) (stages d')) x"
    using example_admission_run [of plan_text] by (elim succeeds_withE) (rule that)
  have plan: "validate_plan example_admitted_plan = Inr (q\<lparr>pl_text := plan_text\<rparr>)"
    unfolding validate_plan_def q bindE_simps enc ..
  have "digest_json marking_sha ''durable-plan'' example_admitted_plan max_plan_json_bytes = Inr zero_digest"
    unfolding digest_json_def enc by (simp add: marking_sha_def zero_digest_def)
  then have "prepare_admission marking_sha True example_admitted_plan (JObj example_inventory) None (Some example_rules) False False False = Inr ad"
    unfolding prepare_admission_def plan_digest_def plan bindE_simps sealed by (simp only: bindE_simps ad)
  moreover have "require_owner ''owner'' = Inr ''owner''" "require_version 1 = Inr 1"
    "chosen_id (Some ''rev_00000001'') ''rev'' example_draft_store = Inr (''rev_00000001'', example_draft_store)"
    "utc_now example_draft_store = 2000" by code_simp+
  ultimately have "admit_revision marking_sha ''owner'' ''wkl_00000001'' True example_admitted_plan (JObj example_inventory) 1
      None (Some example_rules) False False False (Some ''rev_00000001'') example_draft_store = Inr x"
    unfolding admit_revision_def by (simp only: bindE_simps prod.case columns x)
  then show thesis using that [of "fst x" "snd x"] seen by (simp add: case_prod_beta)
qed

theorem admit_revision_exact_witness:
  "\<exists>rr d' ad. admit_revision marking_sha ''owner'' ''wkl_00000001'' True example_admitted_plan (JObj example_inventory) 1
      None (Some example_rules) False False False (Some ''rev_00000001'') example_draft_store = Inr (rr, d') \<and>
    store_ok d' \<and> stage_tally d' \<and> admitted ''owner'' ''wkl_00000001'' 1 ad rr example_draft_store d'"
proof -
  obtain rr d' where run: "admit_revision marking_sha ''owner'' ''wkl_00000001'' True example_admitted_plan (JObj example_inventory) 1
      None (Some example_rules) False False False (Some ''rev_00000001'') example_draft_store = Inr (rr, d')"
    by (rule example_admission)
  have ok: "store_ok example_draft_store" "refs_ok example_draft_store" "stage_tally example_draft_store"
    and none: "revisions example_draft_store = []"
    by (code_simp, simp_all add: refs_ok_def stage_tally_def example_draft_store_def empty_store_def)
  from admit_revision_exact [OF run ok] run none show ?thesis by auto
qed


end
