(* ===== verification/Adoption.thy ===== *)
theory Adoption
  imports Attempts
begin

text \<open>
  The reuse of results (\<open>adopt_reusable_results\<close> of \<open>storage.py\<close>): a pending unit of a pure stage
  that was never attempted takes over the result of a committed unit of another revision with the
  same semantic key and the same stage contract, in a transaction of its own for each unit.
\<close>

section \<open>Candidates\<close>

definition same_contract :: "stage_row \<Rightarrow> stage_row \<Rightarrow> bool" where
  "same_contract prior current \<longleftrightarrow>
     s_key prior = s_key current \<and> s_type prior = s_type current \<and> s_runner_kind prior = s_runner_kind current \<and>
     s_runner_name prior = s_runner_name current \<and> s_effect prior = s_effect current \<and>
     s_output_schema prior = s_output_schema current \<and> s_invalidation_digest prior = s_invalidation_digest current \<and>
     s_reduction_fan_in prior = s_reduction_fan_in current \<and> s_reduction_input prior = s_reduction_input current \<and>
     s_reduction_max_input_bytes prior = s_reduction_max_input_bytes current"

definition untouched_unit :: "unit_row \<Rightarrow> bool" where
  "untouched_unit u \<longleftrightarrow> u_state u = U_PENDING \<and> u_attempt_count u = 0 \<and> u_active_attempt u = None"

definition prior_of :: "unit_row \<Rightarrow> unit_row \<Rightarrow> bool" where
  "prior_of u p \<longleftrightarrow> u_owner p = u_owner u \<and> u_key p = u_key u \<and> u_revision p \<noteq> u_revision u \<and> u_state p = U_COMMITTED"

definition executing :: "workload_row \<Rightarrow> bool" where
  "executing w \<longleftrightarrow> w_state w \<in> {W_QUEUED, W_RUNNING}"

text \<open>The read before the transaction.\<close>

definition reuse_possible :: "db \<Rightarrow> bool" where
  "reuse_possible d = exists_where (\<lambda>u. untouched_unit u \<and>
     exists_where (\<lambda>w. w_owner w = u_owner u \<and> w_active_revision w = Some (u_revision u) \<and> executing w) (workloads d) \<and>
     exists_where (prior_of u) (units d)) (units d)"

text \<open>The committed units of the same key and contract, each with its result.\<close>

definition prior_result :: "db \<Rightarrow> unit_row \<Rightarrow> result_row option" where
  "prior_result d p = find (\<lambda>x. x_owner x = u_owner p \<and> x_revision x = u_revision p \<and> u_committed_result p = Some (x_id x)) (results d)"

definition prior_rows :: "db \<Rightarrow> unit_row \<Rightarrow> stage_row \<Rightarrow> (unit_row \<times> result_row) list" where
  "prior_rows d u s = concat (map (\<lambda>p.
     case (stage_of d p, prior_result d p) of
       (Some ps, Some x) \<Rightarrow> if same_contract ps s then [(p, x)] else []
     | _ \<Rightarrow> []) (filter (prior_of u) (units d)))"

record reuse_candidate =
  rc_unit :: unit_row
  rc_stage :: stage_row
  rc_revision :: revision_row
  rc_workload :: workload_row
  rc_usage :: usage_row
  rc_prior :: result_row

definition admitted_prior :: "db \<Rightarrow> unit_row \<times> result_row \<Rightarrow> bool" where
  "admitted_prior d px = exists_where (\<lambda>r. revision_at (u_owner (fst px)) (u_revision (fst px)) r \<and> r_admitted_at r \<noteq> None) (revisions d)"

definition lineage_planned :: "db \<Rightarrow> unit_row \<Rightarrow> bool" where
  "lineage_planned d u \<longleftrightarrow> u_expected_dependency_count u \<le> MAX_UNIT_DEPENDENCIES \<and>
     u_expected_dependency_count u = int (count_where (\<lambda>p. ud_owner p = u_owner u \<and> ud_revision p = u_revision u \<and>
       ud_unit p = u_id u) (unit_dependencies d))"

definition unit_candidates :: "db \<Rightarrow> unit_row \<Rightarrow> reuse_candidate list" where
  "unit_candidates d u =
     (case (stage_of d u, find (revision_at (u_owner u) (u_revision u)) (revisions d),
            find (usage_at (u_owner u) (u_revision u)) (revision_usage d)) of
        (Some s, Some r, Some us) \<Rightarrow>
          (case find (\<lambda>w. workload_at (r_owner r) (r_workload r) w \<and> w_active_revision w = Some (r_id r)) (workloads d) of
             None \<Rightarrow> []
           | Some w \<Rightarrow>
               if executing w \<and> untouched_unit u \<and> s_effect s = E_PURE \<and> lineage_planned d u
               then map (\<lambda>px. \<lparr>rc_unit = u, rc_stage = s, rc_revision = r, rc_workload = w, rc_usage = us, rc_prior = snd px\<rparr>)
                      (filter (admitted_prior d) (prior_rows d u s))
               else [])
      | _ \<Rightarrow> [])"

definition reuse_candidate_of :: "db \<Rightarrow> reuse_candidate option" where
  "reuse_candidate_of d =
     (case order_limit (\<lambda>c. (w_updated_at (rc_workload c), w_owner (rc_workload c), w_id (rc_workload c),
             u_created_at (rc_unit c), u_key (rc_unit c), x_committed_at (rc_prior c), x_id (rc_prior c))) 1
             (concat (map (unit_candidates d) (units d))) of
        [] \<Rightarrow> None | c # _ \<Rightarrow> Some c)"

section \<open>Attention\<close>

definition attention_detail :: "string \<Rightarrow> jobj" where
  "attention_detail reason_code =
     [(''schema_version'', JStr ''metnos.durable-unit-terminal/1''), (''reason_code'', JStr reason_code)]"

definition require_attention :: "reuse_candidate \<Rightarrow> string \<Rightarrow> instant \<Rightarrow> db \<Rightarrow> db result" where
  "require_attention c reason_code t d =
     (let u = rc_unit c;
          here = (\<lambda>v. unit_at (u_owner u) (u_id u) v \<and> u_revision v = u_revision u \<and> untouched_unit v) in
      bindE (canonical_json (JObj (attention_detail reason_code)) max_event_json_bytes) (\<lambda>_.
      if count_where here (units d) \<noteq> 1
      then Inl (DurableStoreError ''semantic reuse attention compare-and-set failed'')
      else
        bindE (settle_workload_in_transaction (u_owner u) (w_id (rc_workload c)) t False UNIT_STATE_BATCH_SIZE
          (d\<lparr>units := update_where here (\<lambda>v. v\<lparr>u_state := U_NEEDS_ATTENTION, u_error_class := Some reason_code,
             u_terminal_detail := Some (attention_detail reason_code), u_updated_at := t\<rparr>) (units d)\<rparr>)) (\<lambda>(_, d').
        Inr d')))"

section \<open>The reused result\<close>

definition digest_conflict :: "(unit_row \<times> result_row) list \<Rightarrow> bool" where
  "digest_conflict rows \<longleftrightarrow> list_ex (\<lambda>x. x_digest (snd x) \<noteq> x_digest (snd (hd rows))) rows"

text \<open>\<open>ValidatedResult\<close> of a stored row: the checks of \<open>__post_init__\<close>.\<close>

definition stored_result :: "(string \<Rightarrow> string) \<Rightarrow> result_row \<Rightarrow> validated_result result" where
  "stored_result sha x =
     bindE (domain_outcome (x_payload x)) (\<lambda>_.
     bindE (completion_outcome (x_payload x)) (\<lambda>_.
     bindE (canonical_result sha (x_schema_version x) (x_payload x)) (\<lambda>(_, digest).
     if digest \<noteq> x_digest x then Inl SchemaValidationError
     else Inr \<lparr>vr_schema_version = x_schema_version x, vr_payload = x_payload x, vr_digest = x_digest x\<rparr>)))"

definition reuse_executor_snapshot :: "stage_row \<Rightarrow> jobj" where
  "reuse_executor_snapshot s =
     [(''schema_version'', JStr ''metnos.durable-executor-snapshot/1''), (''mode'', JStr ''result_reuse''),
      (''runner_kind'', JStr (runner_kind_value (s_runner_kind s))), (''runner_name'', JStr (s_runner_name s))]"

definition reuse_model_snapshot :: jobj where
  "reuse_model_snapshot =
     [(''schema_version'', JStr ''metnos.durable-model-snapshot/1''), (''mode'', JStr ''result_reuse''), (''binding'', JNull)]"

definition reuse_metrics :: "int \<Rightarrow> nat \<Rightarrow> string \<Rightarrow> jobj" where
  "reuse_metrics attempt_number count digest =
     [(''schema_version'', JStr ''metnos.durable-attempt-metrics/1''), (''attempt_number'', JInt attempt_number),
      (''execution_started'', JBool False), (''manual_retry'', JBool False), (''committed'', JBool True),
      (''dependency_count'', JInt (int count)), (''result_digest'', JStr digest),
      (''result_reused'', JBool True), (''usage_missing'', JBool False)]"

definition reuse_provenance ::
  "(string \<Rightarrow> string) \<Rightarrow> reuse_candidate \<Rightarrow> validated_result \<Rightarrow> ident \<Rightarrow> int \<Rightarrow> jobj \<Rightarrow> jobj result" where
  "reuse_provenance sha c v attempt_id fence metrics =
     bindE (digest_json sha ''durable-result-provenance'' (JObj (x_provenance (rc_prior c))) max_snapshot_json_bytes) (\<lambda>source_digest.
     bindE (digest_json sha ''durable-executor-snapshot'' (JObj (reuse_executor_snapshot (rc_stage c))) max_snapshot_json_bytes)
       (\<lambda>executor_digest.
     bindE (digest_json sha ''durable-model-snapshot'' (JObj reuse_model_snapshot) max_snapshot_json_bytes) (\<lambda>model_digest.
     bindE (digest_json sha ''durable-attempt-metrics'' (JObj metrics) MAX_ATTEMPT_METRICS_JSON_BYTES) (\<lambda>metrics_digest.
     let provenance =
       [(''schema_version'', JStr ''metnos.durable-result-provenance/1''), (''attempt_id'', JStr attempt_id), (''fence'', JInt fence),
        (''runner_kind'', JStr (runner_kind_value (s_runner_kind (rc_stage c)))), (''runner_name'', JStr (s_runner_name (rc_stage c))),
        (''validation'', JStr ''reused_validated_result''), (''output_schema'', JStr (vr_schema_version v)),
        (''source_result_id'', JStr (x_id (rc_prior c))), (''source_revision_id'', JStr (x_revision (rc_prior c))),
        (''source_result_digest'', JStr (vr_digest v)), (''source_provenance_digest'', JStr source_digest),
        (''executor_snapshot_digest'', JStr executor_digest), (''model_snapshot_digest'', JStr model_digest),
        (''metrics_digest'', JStr metrics_digest), (''usage_missing'', JBool False)]
     in bindE (canonical_json (JObj provenance) max_snapshot_json_bytes) (\<lambda>_. Inr provenance)))))"

definition reuse_attempt :: "unit_row \<Rightarrow> stage_row \<Rightarrow> ident \<Rightarrow> jobj \<Rightarrow> instant \<Rightarrow> attempt_row" where
  "reuse_attempt u s attempt_id metrics t =
     \<lparr>a_owner = u_owner u, a_id = attempt_id, a_unit = u_id u, a_number = u_attempt_count u + 1, a_fence = u_fence u + 1,
      a_worker = ''result-reuse'', a_device = None, a_invocation = None, a_state = A_SUCCEEDED, a_started_at = t, a_ended_at = Some t,
      a_structured_error = None, a_executor_snapshot = reuse_executor_snapshot s, a_model_snapshot = reuse_model_snapshot,
      a_metrics = metrics\<rparr>"

definition reused_result :: "unit_row \<Rightarrow> validated_result \<Rightarrow> ident \<Rightarrow> ident \<Rightarrow> jobj \<Rightarrow> instant \<Rightarrow> result_row" where
  "reused_result u v attempt_id result_id provenance t =
     \<lparr>x_owner = u_owner u, x_id = result_id, x_revision = u_revision u, x_unit = u_id u, x_attempt = attempt_id,
      x_fence = u_fence u + 1, x_digest = vr_digest v, x_schema_version = vr_schema_version v, x_payload = vr_payload v,
      x_provenance = provenance, x_committed_at = t\<rparr>"

definition reused_unit :: "ident \<Rightarrow> jobj option \<Rightarrow> instant \<Rightarrow> unit_row \<Rightarrow> unit_row" where
  "reused_unit result_id detail t u =
     u\<lparr>u_state := U_COMMITTED, u_attempt_count := u_attempt_count u + 1, u_fence := u_fence u + 1,
       u_committed_result := Some result_id, u_next_attempt_at := None, u_error_class := None, u_partial_output := False,
       u_terminal_detail := detail, u_updated_at := t\<rparr>"

definition commit_reused ::
  "(string \<Rightarrow> string) \<Rightarrow> reuse_candidate \<Rightarrow> validated_result \<Rightarrow> dependency_join list \<Rightarrow> instant \<Rightarrow> db \<Rightarrow> db result" where
  "commit_reused sha c v rows t d =
     (let u = rc_unit c; s = rc_stage c;
          attempt_id = fst (new_id ''att'' d); d1 = snd (new_id ''att'' d);
          result_id = fst (new_id ''res'' d1); d2 = snd (new_id ''res'' d1);
          metrics = reuse_metrics (u_attempt_count u + 1) (length rows) (vr_digest v);
          here = (\<lambda>w. unit_at (u_owner u) (u_id u) w \<and> u_revision w = u_revision u \<and> u_state w = U_PENDING \<and>
            u_attempt_count w = u_attempt_count u \<and> u_fence w = u_fence u \<and> u_active_attempt w = None)
      in
      bindE (reuse_provenance sha c v attempt_id (u_fence u + 1) metrics) (\<lambda>provenance.
      bindE (insert_attempt (reuse_attempt u s attempt_id metrics t) d2) (\<lambda>d3.
      bindE (insert_result (reused_result u v attempt_id result_id provenance t) d3) (\<lambda>d4.
      bindE (insert_result_dependencies_in_transaction (u_owner u) (u_revision u) result_id rows d4) (\<lambda>d5.
      bindE (domain_terminal_detail (vr_payload v)) (\<lambda>detail.
      if count_where here (units d5) \<noteq> 1 then Inl (DurableStoreError ''semantic reuse compare-and-set failed'')
      else Inr (d5\<lparr>units := update_where here (reused_unit result_id detail t) (units d5)\<rparr>)))))))"

definition adopt_validated ::
  "(string \<Rightarrow> string) \<Rightarrow> reuse_candidate \<Rightarrow> validated_result \<Rightarrow> instant \<Rightarrow> db \<Rightarrow> (int \<times> db) result" where
  "adopt_validated sha c v t d =
     (let u = rc_unit c; w = rc_workload c in
      bindE (validated_result_dependencies_in_transaction (u_owner u) (u_revision u) (u_stage u) (u_id u)
        (u_expected_dependency_count u) (u_reduction_level u) (s_reduction_fan_in (rc_stage c)) d) (\<lambda>rows.
      bindE (commit_reused sha c v rows t d) (\<lambda>d1.
      bindE (add_revision_usage_in_transaction (u_owner u) (u_revision u)
               (no_increments\<lparr>inc_output_bytes := payload_bytes v\<rparr>) False t d1) (\<lambda>d2.
      bindE (start_queued_workload_in_transaction (u_owner u) (w_id w) (w_state w) (w_version w) t ''first_result_reused'' d2) (\<lambda>d3.
      bindE (settle_workload_in_transaction (u_owner u) (w_id w) t False UNIT_STATE_BATCH_SIZE d3) (\<lambda>(_, d4).
      Inr (1, d4)))))))"

text \<open>One candidate in its transaction: how much it progressed.\<close>

definition adopt_candidate :: "(string \<Rightarrow> string) \<Rightarrow> reuse_candidate \<Rightarrow> instant \<Rightarrow> db \<Rightarrow> (int \<times> db) result" where
  "adopt_candidate sha c t d =
     (let u = rc_unit c; w = rc_workload c; s = rc_stage c;
          attention = (\<lambda>reason. bindE (require_attention c reason t d) (\<lambda>d'. Inr (1, d')))
      in
      if budget_violation_in_transaction (u_owner u) (w_id w) (u_revision u) t d \<noteq> None
      then bindE (settle_workload_in_transaction (u_owner u) (w_id w) t False UNIT_STATE_BATCH_SIZE d) (\<lambda>((_, settled), d').
        if settled < 1 then Inl (DurableStoreError ''budget violation did not settle the workload'')
        else Inr (int settled, d'))
      else if digest_conflict (prior_rows d u s) then attention ''result_digest_conflict''
      else case stored_result sha (rc_prior c) of
        Inl _ \<Rightarrow> attention ''reusable_result_invalid''
      | Inr v \<Rightarrow>
          if vr_schema_version v \<noteq> s_output_schema s then attention ''reusable_result_invalid''
          else if us_output_bytes (rc_usage c) + payload_bytes v > b_max_bytes_written (r_budgets (rc_revision c))
          then attention ''budget_limit_exceeded''
          else adopt_validated sha c v t d)"

section \<open>The periodic adoption\<close>

text \<open>
  Each round is a transaction: what earlier rounds committed stays when a later one fails.
\<close>

fun adopt_rounds :: "(string \<Rightarrow> string) \<Rightarrow> nat \<Rightarrow> int \<Rightarrow> db \<Rightarrow> int result \<times> db" where
  "adopt_rounds sha 0 progressed d = (Inr progressed, d)"
| "adopt_rounds sha (Suc n) progressed d =
     (if \<not> reuse_possible d then (Inr progressed, d)
      else case reuse_candidate_of d of
        None \<Rightarrow> (Inr progressed, d)
      | Some c \<Rightarrow>
          (case adopt_candidate sha c (utc_now d) d of
             Inl e \<Rightarrow> (Inl e, d)
           | Inr (k, d') \<Rightarrow> adopt_rounds sha n (progressed + k) d'))"

definition adopt_reusable_results :: "(string \<Rightarrow> string) \<Rightarrow> int \<Rightarrow> db \<Rightarrow> int result \<times> db" where
  "adopt_reusable_results sha limit d =
     (case require_limit limit 1000 of
        Inl e \<Rightarrow> (Inl e, d)
      | Inr _ \<Rightarrow> adopt_rounds sha (nat limit) 0 d)"

end
