(* ===== verification/Execution_Inputs.thy ===== *)
theory Execution_Inputs
  imports Adoption Entries Plan
begin

text \<open>
  The inputs of an attempt (\<open>execution_inputs\<close> of \<open>storage.py\<close>): the one read an executing worker
  makes. It returns the frozen stage, its source, the sealed inventory and the results the unit
  depends on, and accounts the bytes read once for the attempt; and the reading of selected results
  of earlier revisions (\<open>read_committed_entries\<close>).
\<close>

section \<open>Decoding\<close>

text \<open>\<open>json.loads\<close>: one value, with blanks around it.\<close>

definition json_loads :: "string \<Rightarrow> jval result" where
  "json_loads text =
     (case scan_value (skip_blank text) of
        Some (v, rest) \<Rightarrow> if skip_blank rest = [] then Inr v else Inl ValueError
      | None \<Rightarrow> Inl ValueError)"

text \<open>Python's truth value of a JSON value, and \<open>value == n\<close> for an integer \<open>n\<close>: a Boolean is 0 or 1.\<close>

definition truthy :: "jval \<Rightarrow> bool" where
  "truthy v = (case v of JNull \<Rightarrow> False | JBool b \<Rightarrow> b | JInt n \<Rightarrow> n \<noteq> 0 | JStr s \<Rightarrow> s \<noteq> [] | JArr vs \<Rightarrow> vs \<noteq> []
     | JObj kvs \<Rightarrow> kvs \<noteq> [] | JInstant t \<Rightarrow> True)"

definition recorded_int :: "jval option \<Rightarrow> int \<Rightarrow> bool" where
  "recorded_int v n = (case v of Some (JInt m) \<Rightarrow> m = n | Some (JBool b) \<Rightarrow> of_bool b = n | _ \<Rightarrow> False)"

section \<open>Dependencies\<close>

definition MAX_DEPENDENCY_INPUT_BYTES :: int where "MAX_DEPENDENCY_INPUT_BYTES = 16777216"

definition planned_result :: "db \<Rightarrow> unit_dependency_row \<Rightarrow> result_row option" where
  "planned_result d p =
     find (\<lambda>x. x_owner x = ud_owner p \<and> x_revision x = ud_revision p \<and> x_id x = ud_source_result p) (results d)"

text \<open>
  The text a dependency contributes: only its entries for a reduction, the selected entry when the
  plan has bounds, and the whole payload otherwise. \<open>json_extract\<close> gives back the canonical text
  of the value, and \<open>null\<close> when there is none.
\<close>

definition dependency_text :: "int option \<Rightarrow> unit_dependency_row \<Rightarrow> result_row \<Rightarrow> string option" where
  "dependency_text fan_in p x =
     (let payload = encode_json (JObj (x_payload x)) in
      if fan_in \<noteq> None
      then Some (encode_json (JObj [(''entries'', case jget (x_payload x) ''entries'' of None \<Rightarrow> JNull | Some v \<Rightarrow> v)]))
      else case ud_entry_offset p of
        None \<Rightarrow> Some payload
      | Some offset \<Rightarrow> map_option (\<lambda>len. take (nat len) (drop (nat offset) payload)) (ud_entry_length p))"

definition planned_for :: "db \<Rightarrow> lease \<Rightarrow> (unit_dependency_row \<times> result_row) list" where
  "planned_for d l = concat (map (\<lambda>p. case planned_result d p of None \<Rightarrow> [] | Some x \<Rightarrow> [(p, x)])
     (sort_key ud_ordinal (filter (\<lambda>p. ud_owner p = l_owner_user_id l \<and> ud_revision p = l_revision_id l \<and>
        ud_unit p = l_unit_id l) (unit_dependencies d))))"

definition text_size :: "string option \<Rightarrow> int" where
  "text_size t = (case t of None \<Rightarrow> 0 | Some s \<Rightarrow> utf8_size s)"

definition dependency_bytes :: "int option \<Rightarrow> (unit_dependency_row \<times> result_row) list \<Rightarrow> int" where
  "dependency_bytes fan_in pxs = sum_list (map (\<lambda>(p, x). text_size (dependency_text fan_in p x)) pxs)"

definition dependency_byte_limit :: "stage_row \<Rightarrow> int \<Rightarrow> int" where
  "dependency_byte_limit s expected =
     (case s_reduction_max_input_bytes s of
        None \<Rightarrow> MAX_DEPENDENCY_INPUT_BYTES
      | Some n \<Rightarrow> min MAX_DEPENDENCY_INPUT_BYTES (n + 32 * expected))"

record dependency_input =
  di_stage_key :: string
  di_result_id :: ident
  di_digest :: string
  di_schema_version :: string
  di_payload_text :: "string option"
  di_entry_selected :: bool
  di_source_row_id :: "ident option"
  di_source_id :: "string option"
  di_source_ordinal :: "int option"

definition source_of :: "db \<Rightarrow> unit_row \<Rightarrow> source_row option" where
  "source_of d u = (case u_source_row u of
      None \<Rightarrow> None
    | Some sid \<Rightarrow> find (\<lambda>s. src_owner s = u_owner u \<and> src_id s = sid \<and> src_revision s = u_revision u) (sources d))"

text \<open>One dependency joined with the unit that committed it, its stage and its source.\<close>

definition dependency_row_of :: "db \<Rightarrow> int option \<Rightarrow> unit_dependency_row \<times> result_row \<Rightarrow> dependency_input list" where
  "dependency_row_of d fan_in px =
     (let (p, x) = px in
      case find (\<lambda>u. u_owner u = x_owner x \<and> u_revision u = x_revision x \<and> u_id u = x_unit x) (units d) of
        None \<Rightarrow> []
      | Some u \<Rightarrow>
          (case stage_of d u of
             None \<Rightarrow> []
           | Some s \<Rightarrow> let src = source_of d u in
               [\<lparr>di_stage_key = ud_role p, di_result_id = x_id x, di_digest = x_digest x,
                 di_schema_version = x_schema_version x, di_payload_text = dependency_text fan_in p x,
                 di_entry_selected = (ud_entry_offset p \<noteq> None), di_source_row_id = u_source_row u,
                 di_source_id = map_option src_source_id src, di_source_ordinal = map_option src_ordinal src\<rparr>]))"

definition lineage_incomplete :: durable_error where
  "lineage_incomplete = DurableStoreError ''execution dependency lineage is incomplete or oversized''"

definition execution_dependencies :: "db \<Rightarrow> lease \<Rightarrow> lease_row \<Rightarrow> (int \<times> dependency_input list) result" where
  "execution_dependencies d l row =
     (let s = lr_stage row; expected = u_expected_dependency_count (lr_unit row); planned = planned_for d l;
          read_bytes = dependency_bytes (s_reduction_fan_in s) planned;
          rows = take (nat (MAX_UNIT_DEPENDENCIES + 1)) (concat (map (dependency_row_of d (s_reduction_fan_in s)) planned))
      in if expected > MAX_UNIT_DEPENDENCIES \<or> int (length planned) \<noteq> expected then Inl lineage_incomplete
         else if read_bytes > dependency_byte_limit s expected
         then Inl (DurableStoreError ''execution dependency payload exceeds the bounded input'')
         else if int (length rows) \<noteq> expected then Inl lineage_incomplete
         else Inr (read_bytes, rows))"

section \<open>Literals, inventory, catalog and source\<close>

definition binding_is :: "string \<Rightarrow> string \<times> jobj \<Rightarrow> bool" where
  "binding_is kind b \<longleftrightarrow> jget (snd b) ''ref'' = Some (JStr kind)"

primrec literal_bytes :: "(string \<times> jobj) list \<Rightarrow> int result" where
  "literal_bytes [] = Inr 0"
| "literal_bytes (b # bs) =
     (if binding_is ''literal'' b
      then bindE (optE (jget (snd b) ''value'') KeyError) (\<lambda>v.
           bindE (canonical_json v max_plan_json_bytes) (\<lambda>text.
           bindE (literal_bytes bs) (\<lambda>n. Inr (utf8_size text + n))))
      else literal_bytes bs)"

definition execution_inventory :: "db \<Rightarrow> lease \<Rightarrow> stage_row \<Rightarrow> (int \<times> jval option) result" where
  "execution_inventory d l s =
     (if \<not> list_ex (binding_is ''revision.inventory'') (s_bindings s) then Inr (0, None)
      else case find (\<lambda>r. revision_at (l_owner_user_id l) (l_revision_id l) r \<and> r_workload r = l_workload_id l) (revisions d) of
        None \<Rightarrow> Inl (DurableStoreError ''execution inventory is not sealed'')
      | Some r \<Rightarrow>
          (case r_inventory_text r of
             None \<Rightarrow> Inl (DurableStoreError ''execution inventory is not sealed'')
           | Some text \<Rightarrow> bindE (json_loads text) (\<lambda>v. Inr (utf8_size text, Some v))))"

definition execution_catalog :: "db \<Rightarrow> lease \<Rightarrow> stage_row \<Rightarrow> (jobj list) result" where
  "execution_catalog d l s =
     (let entries = (case find (\<lambda>r. revision_at (l_owner_user_id l) (l_revision_id l) r \<and> r_workload r = l_workload_id l)
              (revisions d) of
            None \<Rightarrow> []
          | Some r \<Rightarrow> filter (\<lambda>e. jget e ''stage_key'' = Some (JStr (s_key s))) (model_catalog_entries r));
          rows = take 2 entries
      in if length rows > 1 then Inl (DurableStoreError ''execution catalog snapshot has duplicate stage contracts'')
         else Inr rows)"

definition source_record :: "source_row \<Rightarrow> jobj" where
  "source_record s =
     [(''source_id'', JStr (src_source_id s)), (''ordinal'', JInt (src_ordinal s)), (''device_id'', JStr (src_device_id s)),
      (''locator_redacted'', JStr (src_locator_redacted s)), (''kind'', JStr (src_kind s)),
      (''size_bytes'', JInt (src_size_bytes s)), (''mtime_ns'', JInt (src_mtime_ns s)),
      (''content_digest'', JStr (src_content_digest s))]"

text \<open>A unit whose source is gone raises \<open>TypeError\<close> at \<open>int(None)\<close>.\<close>

definition execution_source :: "db \<Rightarrow> unit_row \<Rightarrow> stage_row \<Rightarrow> (int \<times> jobj option) result" where
  "execution_source d u s =
     (if u_source_row u = None then Inr (0, None) else
      bindE (optE (source_of d u) TypeError) (\<lambda>src.
      let path_bytes = (if list_ex (binding_is ''source.path'') (s_bindings s) then src_size_bytes src else 0) in
      if list_ex (binding_is ''source.record'') (s_bindings s)
      then bindE (canonical_json (JObj (source_record src)) max_event_json_bytes) (\<lambda>text.
           Inr (path_bytes + utf8_size text, Some (source_record src)))
      else Inr (path_bytes, Some (source_record src))))"

section \<open>The inputs\<close>

record execution_stage =
  es_id :: ident
  es_key :: string
  es_source_row_id :: "ident option"
  es_shard_key :: "string option"
  es_runner_kind :: runner_kind
  es_runner_name :: string
  es_effect_profile :: durable_effect
  es_placement_target :: "string option"
  es_placement_device :: "string option"
  es_input_bindings :: "(string \<times> jobj) list"
  es_output_schema :: string
  es_timeout_s :: int
  es_reduction_fan_in :: "int option"
  es_reduction_input :: "string option"
  es_reduction_max_input_bytes :: "int option"
  es_resource_claims :: resources
  es_expected_dependency_count :: int

definition execution_stage_of :: "db \<Rightarrow> lease_row \<Rightarrow> execution_stage" where
  "execution_stage_of d row =
     (let u = lr_unit row; s = lr_stage row;
          placement = find (\<lambda>p. pm_owner p = s_owner s \<and> pm_revision p = s_revision s \<and> pm_stage p = s_id s) (stage_placements d)
      in \<lparr>es_id = u_stage u, es_key = s_key s, es_source_row_id = u_source_row u, es_shard_key = u_shard_key u,
          es_runner_kind = s_runner_kind s, es_runner_name = s_runner_name s, es_effect_profile = s_effect s,
          es_placement_target = map_option pm_target placement,
          es_placement_device = (case placement of None \<Rightarrow> None | Some p \<Rightarrow> pm_device p),
          es_input_bindings = s_bindings s, es_output_schema = s_output_schema s, es_timeout_s = s_timeout_s s,
          es_reduction_fan_in = s_reduction_fan_in s, es_reduction_input = s_reduction_input s,
          es_reduction_max_input_bytes = s_reduction_max_input_bytes s, es_resource_claims = s_resources s,
          es_expected_dependency_count = u_expected_dependency_count u\<rparr>)"

record input_facts =
  ei_inventory :: "jval option"
  ei_priority :: string
  ei_execution_started_at :: "jval option"
  ei_catalog_entries :: "jobj list"
  ei_stage :: execution_stage
  ei_source :: "jobj option"
  ei_dependencies :: "(dependency_input \<times> jval option) list"

definition loaded_dependency :: "dependency_input \<Rightarrow> (dependency_input \<times> jval option) result" where
  "loaded_dependency di =
     (case di_payload_text di of
        None \<Rightarrow> Inr (di, None)
      | Some text \<Rightarrow> bindE (json_loads text) (\<lambda>v. Inr (di, Some v)))"

text \<open>The accounting of the bytes: written with the attempt's metrics, and then only compared.\<close>

definition account_inputs :: "lease \<Rightarrow> attempt_row \<Rightarrow> int \<Rightarrow> db \<Rightarrow> db result" where
  "account_inputs l a input_bytes d =
     (if (case jget (a_metrics a) ''input_bytes_accounted'' of None \<Rightarrow> False | Some v \<Rightarrow> truthy v)
      then if recorded_int (jget (a_metrics a) ''input_bytes'') input_bytes then Inr d
           else Inl (DurableStoreError ''attempt input accounting changed for the active fence'')
      else
        bindE (attempt_metrics a [(''input_bytes'', JInt input_bytes), (''input_bytes_accounted'', JBool True)]) (\<lambda>metrics.
        if count_where (live_attempt_at l) (attempts d) \<noteq> 1
        then Inl (DurableStoreError ''attempt input accounting compare-and-set failed'')
        else add_revision_usage_in_transaction (l_owner_user_id l) (l_revision_id l)
               (no_increments\<lparr>inc_input_bytes := input_bytes\<rparr>) False (utc_now d)
               (d\<lparr>attempts := update_where (live_attempt_at l) (\<lambda>b. b\<lparr>a_metrics := metrics\<rparr>) (attempts d)\<rparr>)))"

definition execution_inputs_in_transaction ::
  "lease \<Rightarrow> lease_row \<Rightarrow> attempt_row \<Rightarrow> db \<Rightarrow> (input_facts \<times> db) result" where
  "execution_inputs_in_transaction l row a d =
     (let s = lr_stage row; u = lr_unit row in
      bindE (execution_dependencies d l row) (\<lambda>(dependency_size, rows).
      bindE (literal_bytes (s_bindings s)) (\<lambda>literal_size.
      bindE (execution_inventory d l s) (\<lambda>(inventory_size, inventory).
      bindE (execution_catalog d l s) (\<lambda>catalog.
      bindE (execution_source d u s) (\<lambda>(source_size, src).
      bindE (account_inputs l a (inventory_size + source_size + dependency_size + literal_size) d) (\<lambda>d'.
      bindE (mapE loaded_dependency rows) (\<lambda>loaded.
      Inr (\<lparr>ei_inventory = inventory, ei_priority = w_priority (lr_workload row),
            ei_execution_started_at = jget (a_metrics a) ''execution_started_at'', ei_catalog_entries = catalog,
            ei_stage = execution_stage_of d row, ei_source = src, ei_dependencies = loaded\<rparr>, d')))))))))"

definition execution_inputs :: "lease \<Rightarrow> db \<Rightarrow> (input_facts \<times> db) result" where
  "execution_inputs l d =
     (case matched_row d l of
        None \<Rightarrow> Inl (DurableStoreError ''execution inputs require the active fence'')
      | Some (row, a) \<Rightarrow> execution_inputs_in_transaction l row a d)"

section \<open>Selected results of earlier revisions\<close>

definition MAX_SELECTED_ENTRIES :: int where "MAX_SELECTED_ENTRIES = 1000000"

record result_reference =
  rf_result_id :: ident
  rf_digest :: string
  rf_schema_version :: string

definition reference_of :: "ident list \<Rightarrow> jval \<Rightarrow> result_reference result" where
  "reference_of seen v =
     (case v of
        JObj obj \<Rightarrow>
          (case (jget obj ''result_id'', jget obj ''digest'', jget obj ''schema_version'') of
             (Some (JStr rid), Some (JStr digest), Some (JStr version)) \<Rightarrow>
               if has_keys obj [''result_id'', ''digest'', ''schema_version''] \<and> id_re rid \<and> sha256_re digest \<and>
                  length version \<le> 128 \<and> rid \<notin> set seen
               then Inr \<lparr>rf_result_id = rid, rf_digest = digest, rf_schema_version = version\<rparr>
               else Inl (DurableStoreError ''committed result reference is invalid'')
           | _ \<Rightarrow> Inl (DurableStoreError ''committed result reference is invalid''))
      | _ \<Rightarrow> Inl (DurableStoreError ''committed result reference is invalid''))"

text \<open>The result, if a committed unit of an admitted revision owns it.\<close>

definition committed_result_row :: "db \<Rightarrow> string \<Rightarrow> ident \<Rightarrow> result_row option" where
  "committed_result_row d owner rid =
     find (\<lambda>x. x_owner x = owner \<and> x_id x = rid \<and>
       exists_where (\<lambda>u. u_owner u = owner \<and> u_revision u = x_revision x \<and> u_committed_result u = Some rid \<and>
         u_state u = U_COMMITTED) (units d) \<and>
       exists_where (\<lambda>r. revision_at owner (x_revision x) r \<and> r_admitted_at r \<noteq> None) (revisions d)) (results d)"

definition object_entries :: "jobj \<Rightarrow> jval list option" where
  "object_entries payload =
     (if jget payload ''ok'' = Some (JBool False) then None
      else case jget payload ''entries'' of
        Some (JArr es) \<Rightarrow> if list_all (\<lambda>e. case e of JObj _ \<Rightarrow> True | _ \<Rightarrow> False) es then Some es else None
      | _ \<Rightarrow> None)"

fun read_references ::
  "(string \<Rightarrow> string) \<Rightarrow> db \<Rightarrow> string \<Rightarrow> jval list \<Rightarrow> ident list \<Rightarrow> jval list \<Rightarrow> int \<Rightarrow> jval list result" where
  "read_references sha d owner [] seen entries read_bytes = Inr entries"
| "read_references sha d owner (v # vs) seen entries read_bytes =
     bindE (reference_of seen v) (\<lambda>ref.
     case committed_result_row d owner (rf_result_id ref) of
       None \<Rightarrow> Inl (DurableStoreError ''committed result reference is unavailable'')
     | Some x \<Rightarrow>
         if x_schema_version x \<noteq> rf_schema_version ref \<or> x_digest x \<noteq> rf_digest ref
         then Inl (DurableStoreError ''committed result reference is unavailable'')
         else let total = read_bytes + utf8_size (encode_json (JObj (x_payload x))) in
           if total > max_result_json_bytes
           then Inl (DurableStoreError ''committed result input exceeds the byte limit'')
           else bindE (stored_result sha x) (\<lambda>validated.
             case object_entries (vr_payload validated) of
               None \<Rightarrow> Inl (DurableStoreError ''committed result has no valid entries'')
             | Some es \<Rightarrow>
                 if int (length entries + length es) > MAX_SELECTED_ENTRIES
                 then Inl (DurableStoreError ''committed result has no valid entries'')
                 else read_references sha d owner vs (rf_result_id ref # seen) (entries @ es) total))"

definition read_committed_entries :: "(string \<Rightarrow> string) \<Rightarrow> string \<Rightarrow> jval \<Rightarrow> db \<Rightarrow> jval list result" where
  "read_committed_entries sha owner_user_id references d =
     bindE (require_owner owner_user_id) (\<lambda>owner.
     case references of
       JArr vs \<Rightarrow>
         if \<not> (1 \<le> int (length vs) \<and> int (length vs) \<le> 1024)
         then Inl (DurableStoreError ''committed result references must be bounded'')
         else bindE (read_references sha d owner vs [] [] 0) (\<lambda>entries.
           bindE (canonical_json (JObj [(''entries'', JArr entries)]) max_result_json_bytes) (\<lambda>_. Inr entries))
     | _ \<Rightarrow> Inl (DurableStoreError ''committed result references must be bounded''))"

end
