(* ===== verification/Adoption_Properties.thy ===== *)
theory Adoption_Properties
  imports Adoption Commands Lease_Properties
begin

text \<open>
  What the reuse of results adds: it is a transaction of the store for each unit, it never runs
  anything, and every result it adds repeats, with the same digest, schema and payload, one that
  was committed before for the same owner and semantic key.
\<close>

section \<open>What settlement leaves alone\<close>

definition outcomes_kept :: "db \<Rightarrow> db \<Rightarrow> bool" where
  "outcomes_kept d d' \<longleftrightarrow> attempts d' = attempts d \<and> results d' = results d"

lemma outcomes_kept_refl [simp]: "outcomes_kept d d"
  by (simp add: outcomes_kept_def)

lemma outcomes_kept_trans: "outcomes_kept d e \<Longrightarrow> outcomes_kept e f \<Longrightarrow> outcomes_kept d f"
  by (simp add: outcomes_kept_def)

lemma notification_outcomes: "enqueue_notification_in_transaction owner wid i d = Inr d' \<Longrightarrow> outcomes_kept d d'"
  using notify_frame [where b = True] by (simp add: outcomes_kept_def)

lemma append_event_outcomes: "append_event_in_transaction owner wid ty payload d = Inr (e, d') \<Longrightarrow> outcomes_kept d d'"
  by (erule append_event_effect) (simp add: outcomes_kept_def)

lemma update_state_outcomes: "update_state_in_transaction owner wid s t v reason now d = Inr (r, d') \<Longrightarrow> outcomes_kept d d'"
  unfolding update_state_in_transaction_def Let_def outcomes_kept_def
  by (auto simp: tx_simps split: if_split_asm dest!: start_revision_usage_frame)

lemma automatic_outcomes: "automatic_workload_transition_in_transaction row target reason details now d = Inr (r, d') \<Longrightarrow> outcomes_kept d d'"
  unfolding automatic_workload_transition_in_transaction_def Let_def
  by (auto simp: tx_simps split: if_split_asm
      dest!: update_state_outcomes append_event_outcomes notification_outcomes intro: outcomes_kept_trans)

lemma settle_transition_outcomes: "settle_transition row t target reason details n d = Inr (r, d') \<Longrightarrow> outcomes_kept d d'"
  unfolding settle_transition_def by (auto simp: tx_simps dest: automatic_outcomes)

lemma cancel_waiting_outcomes: "cancel_waiting_units_in_transaction owner rid t n d = Inr (r, d') \<Longrightarrow> outcomes_kept d d'"
  by (auto simp: cancel_waiting_units_in_transaction_def Let_def outcomes_kept_def split: if_split_asm)

lemma record_cancelled_outcomes: "record_cancelled_attention owner wid t reason n m d = Inr d' \<Longrightarrow> outcomes_kept d d'"
  by (auto simp: record_cancelled_attention_def Let_def tx_simps outcomes_kept_def split: if_split_asm)

lemma settle_cancel_outcomes: "settle_cancel_requested owner wid rid row t n d = Inr (r, d') \<Longrightarrow> outcomes_kept d d'"
  unfolding settle_cancel_requested_def Let_def
  by (auto simp: tx_simps split: if_split_asm dest!: cancel_waiting_outcomes record_cancelled_outcomes settle_transition_outcomes
      intro: outcomes_kept_trans)

lemma settle_attention_outcomes: "settle_attention_and_failure owner wid rid row t n k d = Inr (r, d') \<Longrightarrow> outcomes_kept d d'"
  unfolding settle_attention_and_failure_def Let_def
  by (auto simp: tx_simps split: if_split_asm dest!: cancel_waiting_outcomes settle_transition_outcomes
      intro: outcomes_kept_trans)

lemma settle_executable_outcomes: "settle_executable owner wid rid row t False n d = Inr (r, d') \<Longrightarrow> outcomes_kept d d'"
  unfolding settle_executable_def Let_def
  by (auto simp: tx_simps split: if_split_asm option.split_asm
      dest!: settle_transition_outcomes settle_attention_outcomes)

lemma settle_outcomes:
  assumes "settle_workload_in_transaction owner wid t False n d = Inr (r, d')"
  shows "outcomes_kept d d'"
proof -
  obtain row where "(case w_active_revision row of None \<Rightarrow> Inr ((row_to_workload row, 0), d)
     | Some rid \<Rightarrow>
       if w_state row \<in> {W_CANCELLED, W_FAILED}
       then bindE (cancel_waiting_units_in_transaction owner rid t n d) (\<lambda>((changed, _), d1). Inr ((row_to_workload row, changed), d1))
       else if w_state row \<in> {W_COMPLETED, W_COMPLETED_WITH_ERRORS} then Inr ((row_to_workload row, 0), d)
       else if w_state row = W_CANCEL_REQUESTED then settle_cancel_requested owner wid rid row t n d
       else settle_executable owner wid rid row t False n d) = Inr (r, d')"
    using assms unfolding settle_workload_in_transaction_def by (auto simp: bindE_Inr_iff)
  then show ?thesis
    by (cases "w_active_revision row")
      (auto simp: tx_simps split: if_split_asm
        dest!: cancel_waiting_outcomes settle_cancel_outcomes settle_executable_outcomes)
qed

lemma start_queued_outcomes: "start_queued_workload_in_transaction owner wid s v t reason d = Inr d' \<Longrightarrow> outcomes_kept d d'"
  unfolding start_queued_workload_in_transaction_def Let_def
  by (auto simp: tx_simps outcomes_kept_def split: if_split_asm dest!: append_event_outcomes)

lemma add_usage_outcomes: "add_revision_usage_in_transaction owner rid inc unknown t d = Inr d' \<Longrightarrow> outcomes_kept d d'"
  by (auto simp: add_revision_usage_in_transaction_def Let_def tx_simps outcomes_kept_def split: if_split_asm)

section \<open>A unit committed without a lease\<close>

definition reuse_step :: "unit_row \<Rightarrow> unit_row \<Rightarrow> attempt_row \<Rightarrow> result_row \<Rightarrow> bool" where
  "reuse_step u u' a x \<longleftrightarrow> unit_evolves u u' \<and> idle_unit u \<and> idle_unit u' \<and> u_committed_result u = None \<and>
     u_state u' = U_COMMITTED \<and> u_committed_result u' = Some (x_id x) \<and> x_owner x = u_owner u \<and> x_unit x = u_id u \<and>
     attempt_within u' a \<and> \<not> live_attempt a \<and> a_ended_at a \<noteq> None"

lemma reuse_leases_ok:
  assumes ok: "leases_ok us as" and u: "u \<in> set us" and step: "reuse_step u u' a x"
  shows "leases_ok (update_where (\<lambda>v. v = u) (\<lambda>_. u') us) (as @ [a])" (is "leases_ok ?us _")
proof -
  have ids: "u_owner u' = u_owner u" "u_id u' = u_id u" "u_fence u \<le> u_fence u'" "u_attempt_count u \<le> u_attempt_count u'"
    and idle: "\<not> live_unit u" using step by (auto simp: reuse_step_def unit_evolves_def fence_evolves_def idle_unit_def)
  have "idle_unit v \<or> (u_lease_expires_at v \<noteq> None \<and> (\<exists>b \<in> set (as @ [a]). attempt_of v b \<and> leased_alike v b))"
    if "v \<in> set us" for v
    using leases_okD(1) [OF ok that] by auto
  moreover have "\<exists>v \<in> set ?us. live_unit v \<and> attempt_of v b" if "b \<in> set as" "live_attempt b" for b
    using leases_okD(2) [OF ok that] idle
      bex_update_rowI(2) [of _ us u "\<lambda>v. live_unit v \<and> attempt_of v b" u'] by blast
  moreover have "\<exists>v \<in> set ?us. attempt_within v b" if "b \<in> set as" for b
    using leases_okD(3) [OF ok that] ids by (fastforce simp: bex_update_where attempt_within_def)
  moreover have "\<exists>v \<in> set ?us. attempt_within v a" using u step by (intro bex_update_rowI(1)) (auto simp: reuse_step_def)
  ultimately show ?thesis
    using step unfolding leases_ok_def ball_update_row [OF u] by (auto simp: reuse_step_def)
qed

lemma reuse_results_ok:
  assumes ok: "results_ok us xs" and u: "u \<in> set us" and step: "reuse_step u u' a x"
  shows "results_ok (update_where (\<lambda>v. v = u) (\<lambda>_. u') us) (xs @ [x])" (is "results_ok ?us _")
proof -
  have ids: "u_owner u' = u_owner u" "u_id u' = u_id u" and fresh: "u_committed_result u = None"
    using step by (auto simp: reuse_step_def unit_evolves_def)
  have old: "\<exists>v \<in> set ?us. x_owner y = u_owner v \<and> x_unit y = u_id v \<and> u_committed_result v = Some (x_id y)"
    if y: "y \<in> set xs" for y
  proof -
    obtain v where "v \<in> set us" "x_owner y = u_owner v" "x_unit y = u_id v" "u_committed_result v = Some (x_id y)"
      using ok y by (auto simp: results_ok_def)
    moreover from this have "v \<noteq> u" using fresh by auto
    ultimately show ?thesis by (intro bex_update_rowI(2)) auto
  qed
  moreover have "\<exists>v \<in> set ?us. x_owner x = u_owner v \<and> x_unit x = u_id v \<and> u_committed_result v = Some (x_id x)"
    using u step ids by (intro bex_update_rowI(1)) (auto simp: reuse_step_def)
  ultimately show ?thesis
    using ok step ids unfolding results_ok_def ball_update_row [OF u] by (auto simp: reuse_step_def)
qed

lemma txn_reuse:
  assumes u: "u \<in> set (units d)" and step: "reuse_step u u' a x"
    and new: "\<forall>b \<in> set (attempts d). attempt_pk b \<noteq> attempt_pk a"
      "\<forall>y \<in> set (results d). (x_owner y, x_unit y) \<noteq> (x_owner x, x_unit x) \<and> (x_owner y, x_id y) \<noteq> (x_owner x, x_id x)"
  shows "txn d (d\<lparr>attempts := attempts d @ [a], results := results d @ [x],
    units := update_where (\<lambda>v. v = u) (\<lambda>_. u') (units d)\<rparr>)" (is "txn d ?e")
proof -
  have ev: "unit_evolves u u'" using step by (simp add: reuse_step_def)
  then have pk: "map unit_pk (update_where (\<lambda>v. v = u) (\<lambda>_. u') (units d)) = map unit_pk (units d)"
    by (intro unit_pk_update) auto
  have "attempts_ok (attempts d @ [a])" if "attempts_ok (attempts d)"
    using that step by (auto simp: attempts_ok_def reuse_step_def)
  then have "store_ok ?e" if "store_ok d"
    using that new pk reuse_leases_ok [OF _ u step] reuse_results_ok [OF _ u step]
    by (auto simp: store_ok_def keys_ok_def active_ok_def)
  moreover have "db_evolves d ?e"
    using ev by (auto simp: db_evolves_def intro!: unit_rows.update_rows)
  ultimately show ?thesis by (simp add: txn_def)
qed

section \<open>The candidate\<close>

lemma prior_rowsD:
  assumes "(p, x) \<in> set (prior_rows d u s)"
  shows "p \<in> set (units d)" and "prior_of u p" and "x \<in> set (results d)" and "x_owner x = u_owner p"
    and "x_revision x = u_revision p" and "u_committed_result p = Some (x_id x)"
    and "\<exists>ps. stage_of d p = Some ps \<and> same_contract ps s"
proof -
  obtain q where q: "q \<in> set (units d)" "prior_of u q"
    and row: "(p, x) \<in> set (case (stage_of d q, prior_result d q) of
       (Some ps, Some x) \<Rightarrow> if same_contract ps s then [(q, x)] else [] | _ \<Rightarrow> [])"
    using assms by (auto simp: prior_rows_def)
  then have "q = p" "\<exists>ps. stage_of d p = Some ps \<and> same_contract ps s" "prior_result d p = Some x"
    by (cases "stage_of d q"; cases "prior_result d q"; auto split: if_split_asm)+
  then show "p \<in> set (units d)" "prior_of u p" "x \<in> set (results d)" "x_owner x = u_owner p" "x_revision x = u_revision p"
    "u_committed_result p = Some (x_id x)" "\<exists>ps. stage_of d p = Some ps \<and> same_contract ps s"
    using q by (auto simp: prior_result_def dest!: find_SomeD)
qed

lemma unit_candidatesD:
  assumes "c \<in> set (unit_candidates d u)"
  shows "rc_unit c = u" and "stage_of d u = Some (rc_stage c)" and "s_effect (rc_stage c) = E_PURE"
    and "untouched_unit u" and "executing (rc_workload c)" and "rc_workload c \<in> set (workloads d)"
    and "w_active_revision (rc_workload c) = Some (u_revision u)" and "w_owner (rc_workload c) = u_owner u"
    and "\<exists>p. (p, rc_prior c) \<in> set (prior_rows d u (rc_stage c)) \<and> admitted_prior d (p, rc_prior c)"
proof -
  obtain s r us where c: "stage_of d u = Some s" "find (revision_at (u_owner u) (u_revision u)) (revisions d) = Some r"
    and rest: "c \<in> set (case find (\<lambda>w. workload_at (r_owner r) (r_workload r) w \<and> w_active_revision w = Some (r_id r)) (workloads d) of
        None \<Rightarrow> []
      | Some w \<Rightarrow> if executing w \<and> untouched_unit u \<and> s_effect s = E_PURE \<and> lineage_planned d u
          then map (\<lambda>px. \<lparr>rc_unit = u, rc_stage = s, rc_revision = r, rc_workload = w, rc_usage = us, rc_prior = snd px\<rparr>)
                 (filter (admitted_prior d) (prior_rows d u s))
          else [])"
    using assms unfolding unit_candidates_def
    by (cases "stage_of d u"; cases "find (revision_at (u_owner u) (u_revision u)) (revisions d)";
        cases "find (usage_at (u_owner u) (u_revision u)) (revision_usage d)") simp_all
  obtain w where w: "find (\<lambda>w. workload_at (r_owner r) (r_workload r) w \<and> w_active_revision w = Some (r_id r)) (workloads d) = Some w"
    using rest by (cases "find (\<lambda>w. workload_at (r_owner r) (r_workload r) w \<and> w_active_revision w = Some (r_id r)) (workloads d)")
      simp_all
  have ready: "executing w" "untouched_unit u" "s_effect s = E_PURE"
    and row: "c \<in> (\<lambda>px. \<lparr>rc_unit = u, rc_stage = s, rc_revision = r, rc_workload = w, rc_usage = us, rc_prior = snd px\<rparr>) `
        set (filter (admitted_prior d) (prior_rows d u s))"
    using rest w by (simp_all split: if_split_asm)
  have r: "r_owner r = u_owner u" "r_id r = u_revision u" using find_SomeD [OF c(2)] by (auto simp: revision_at_def)
  show "rc_unit c = u" "stage_of d u = Some (rc_stage c)" "s_effect (rc_stage c) = E_PURE" "untouched_unit u"
    "executing (rc_workload c)" "rc_workload c \<in> set (workloads d)" "w_active_revision (rc_workload c) = Some (u_revision u)"
    "w_owner (rc_workload c) = u_owner u"
    using row ready c(1) r find_SomeD [OF w] by (auto simp: workload_at_def)
  show "\<exists>p. (p, rc_prior c) \<in> set (prior_rows d u (rc_stage c)) \<and> admitted_prior d (p, rc_prior c)"
    using row by auto
qed

lemma reuse_candidateD:
  assumes "reuse_candidate_of d = Some c"
  shows "rc_unit c \<in> set (units d)" and "c \<in> set (unit_candidates d (rc_unit c))"
proof -
  define k where "k c = (w_updated_at (rc_workload c), w_owner (rc_workload c), w_id (rc_workload c),
     u_created_at (rc_unit c), u_key (rc_unit c), x_committed_at (rc_prior c), x_id (rc_prior c))" for c :: reuse_candidate
  have "c \<in> set (order_limit k 1 (concat (map (unit_candidates d) (units d))))"
    using assms unfolding reuse_candidate_of_def k_def [abs_def, symmetric] by (auto split: list.split_asm)
  then have "c \<in> set (concat (map (unit_candidates d) (units d)))" by (rule subsetD [OF set_order_limit])
  then obtain u where "u \<in> set (units d)" "c \<in> set (unit_candidates d u)" by auto
  then show "rc_unit c \<in> set (units d)" "c \<in> set (unit_candidates d (rc_unit c))" using unit_candidatesD(1) by auto
qed

section \<open>One round\<close>

lemma commit_reused_effect:
  assumes run: "commit_reused sha c v rows t d = Inr d'" and u: "rc_unit c \<in> set (units d)" and new: "untouched_unit (rc_unit c)"
  obtains aid rid m p det ds where
    "d' = d\<lparr>uuid_count := uuid_count d + 2, attempts := attempts d @ [reuse_attempt (rc_unit c) (rc_stage c) aid m t],
       results := results d @ [reused_result (rc_unit c) v aid rid p t],
       units := update_where (\<lambda>w. w = rc_unit c) (\<lambda>_. reused_unit rid det t (rc_unit c)) (units d), dependencies := ds\<rparr>"
    and "\<forall>b \<in> set (attempts d). a_owner b = u_owner (rc_unit c) \<longrightarrow> a_id b \<noteq> aid"
    and "\<forall>y \<in> set (results d). x_owner y = u_owner (rc_unit c) \<longrightarrow> x_id y \<noteq> rid \<and> x_unit y \<noteq> u_id (rc_unit c)"
proof -
  define aid rid where "aid = fst (new_id ''att'' d)" and "rid = fst (new_id ''res'' (snd (new_id ''att'' d)))"
  define here where "here w \<longleftrightarrow> unit_at (u_owner (rc_unit c)) (u_id (rc_unit c)) w \<and> u_revision w = u_revision (rc_unit c) \<and>
     u_state w = U_PENDING \<and> u_attempt_count w = u_attempt_count (rc_unit c) \<and> u_fence w = u_fence (rc_unit c) \<and>
     u_active_attempt w = None" for w
  define d2 where "d2 = d\<lparr>uuid_count := uuid_count d + 2\<rparr>"
  have d2: "snd (new_id ''res'' (snd (new_id ''att'' d))) = d2" by (simp add: new_id_def d2_def)
  obtain p m d3 d4 d5 det where att: "insert_attempt (reuse_attempt (rc_unit c) (rc_stage c) aid m t) d2 = Inr d3"
    and res: "insert_result (reused_result (rc_unit c) v aid rid p t) d3 = Inr d4"
    and dep: "insert_result_dependencies_in_transaction (u_owner (rc_unit c)) (u_revision (rc_unit c)) rid rows d4 = Inr d5"
    and one: "count_where here (units d5) = 1" and d': "d' = d5\<lparr>units := update_where here (reused_unit rid det t) (units d5)\<rparr>"
    using run unfolding commit_reused_def Let_def aid_def [symmetric] rid_def [symmetric] d2 here_def [abs_def]
    by (auto simp: tx_simps split: if_split_asm)
  have d3: "d3 = d2\<lparr>attempts := attempts d2 @ [reuse_attempt (rc_unit c) (rc_stage c) aid m t]\<rparr>"
    and fresh1: "\<forall>b \<in> set (attempts d). a_owner b = u_owner (rc_unit c) \<longrightarrow> a_id b \<noteq> aid"
    using att by (auto simp: insert_attempt_def d2_def reuse_attempt_def split: if_split_asm)
  have d4: "d4 = d3\<lparr>results := results d3 @ [reused_result (rc_unit c) v aid rid p t]\<rparr>"
    and fresh2: "\<forall>y \<in> set (results d). x_owner y = u_owner (rc_unit c) \<longrightarrow> x_id y \<noteq> rid \<and> x_unit y \<noteq> u_id (rc_unit c)"
    using res by (auto simp: insert_result_def d2_def d3 reused_result_def split: if_split_asm)
  obtain ds where d5: "d5 = d4\<lparr>dependencies := ds\<rparr>" using insert_dependencies_effect [OF dep] by blast
  have units: "units d5 = units d" by (simp add: d5 d4 d3 d2_def)
  have "here (rc_unit c)" using new by (simp add: here_def unit_at_def untouched_unit_def)
  then have "update_where here (reused_unit rid det t) (units d) =
      update_where (\<lambda>w. w = rc_unit c) (\<lambda>_. reused_unit rid det t (rc_unit c)) (units d)"
    using one u unfolding units by (intro update_where_row)
  then have "d' = d\<lparr>uuid_count := uuid_count d + 2, attempts := attempts d @ [reuse_attempt (rc_unit c) (rc_stage c) aid m t],
       results := results d @ [reused_result (rc_unit c) v aid rid p t],
       units := update_where (\<lambda>w. w = rc_unit c) (\<lambda>_. reused_unit rid det t (rc_unit c)) (units d), dependencies := ds\<rparr>"
    unfolding d' units by (simp add: d5 d4 d3 d2_def)
  then show thesis using fresh1 fresh2 by (rule that)
qed

lemma untouched_idle: "store_ok d \<Longrightarrow> u \<in> set (units d) \<Longrightarrow> untouched_unit u \<Longrightarrow> idle_unit u \<and> u_committed_result u = None"
  using leases_ok_live [of "units d" "attempts d" u]
  by (auto simp: store_ok_def untouched_unit_def results_ok_def live_unit_def)

lemma commit_reused_step:
  assumes ok: "store_ok d" and u: "u \<in> set (units d)" "untouched_unit u"
  shows "reuse_step u (reused_unit rid det t u) (reuse_attempt u s aid m t) (reused_result u v aid rid p t)"
  using untouched_idle [OF ok u] u(2)
  by (auto simp: reuse_step_def reused_unit_def reuse_attempt_def reused_result_def unit_evolves_def fence_evolves_def
      untouched_unit_def idle_unit_def live_unit_def live_attempt_def attempt_within_def TERMINAL_UNIT_STATES_def)

lemma commit_reused_txn:
  assumes run: "commit_reused sha c v rows t d = Inr d'" and u: "rc_unit c \<in> set (units d)" "untouched_unit (rc_unit c)"
    and ok: "store_ok d"
  shows "txn d d'"
  using run u
proof (rule commit_reused_effect)
  fix aid rid m p det ds
  let ?u = "rc_unit c" and ?e = "d\<lparr>uuid_count := uuid_count d + 2\<rparr>"
  let ?a = "reuse_attempt ?u (rc_stage c) aid m t" and ?x = "reused_result ?u v aid rid p t"
  assume d': "d' = d\<lparr>uuid_count := uuid_count d + 2, attempts := attempts d @ [?a], results := results d @ [?x],
       units := update_where (\<lambda>w. w = ?u) (\<lambda>_. reused_unit rid det t ?u) (units d), dependencies := ds\<rparr>"
    and fresh: "\<forall>b \<in> set (attempts d). a_owner b = u_owner ?u \<longrightarrow> a_id b \<noteq> aid"
      "\<forall>y \<in> set (results d). x_owner y = u_owner ?u \<longrightarrow> x_id y \<noteq> rid \<and> x_unit y \<noteq> u_id ?u"
  let ?f = "?e\<lparr>attempts := attempts ?e @ [?a], results := results ?e @ [?x],
       units := update_where (\<lambda>w. w = ?u) (\<lambda>_. reused_unit rid det t ?u) (units ?e)\<rparr>"
  have "txn d ?e" by simp
  also have "txn ?e ?f"
    using u fresh by (intro txn_reuse commit_reused_step [OF ok u]) (auto simp: reuse_attempt_def reused_result_def)
  also have "txn ?f (?f\<lparr>dependencies := ds\<rparr>)" by simp
  finally show "txn d d'" by (simp add: d')
qed

lemma require_attention_txn:
  assumes "require_attention c reason t d = Inr d'" and ok: "store_ok d"
  shows "txn d d' \<and> outcomes_kept d d'"
proof -
  define here where "here v \<longleftrightarrow> unit_at (u_owner (rc_unit c)) (u_id (rc_unit c)) v \<and> u_revision v = u_revision (rc_unit c) \<and> untouched_unit v" for v
  define f where "f v = v\<lparr>u_state := U_NEEDS_ATTENTION, u_error_class := Some reason,
      u_terminal_detail := Some (attention_detail reason), u_updated_at := t\<rparr>" for v :: unit_row
  obtain x where run: "settle_workload_in_transaction (u_owner (rc_unit c)) (w_id (rc_workload c)) t False UNIT_STATE_BATCH_SIZE
      (d\<lparr>units := update_where here f (units d)\<rparr>) = Inr (x, d')"
    using assms(1) unfolding require_attention_def Let_def here_def [abs_def] f_def [abs_def]
    by (auto simp: tx_simps split: if_split_asm)
  have "txn d (d\<lparr>units := update_where here f (units d)\<rparr>)"
    by (rule txn_idle_units) (auto simp: here_def f_def idle_change_def untouched_unit_def live_unit_def unit_evolves_def
        fence_evolves_def TERMINAL_UNIT_STATES_def)
  then show ?thesis
    using ok settle_in_transaction_txn [OF run] settle_outcomes [OF run] by (auto simp: outcomes_kept_def intro: txn_then)
qed

section \<open>The work a result is for\<close>

definition result_work :: "db \<Rightarrow> result_row \<Rightarrow> (string \<times> stage_row) option" where
  "result_work d x = (case find (unit_at (x_owner x) (x_unit x)) (units d) of
     None \<Rightarrow> None | Some u \<Rightarrow> map_option (Pair (u_key u)) (stage_of d u))"

definition repeats :: "db \<Rightarrow> result_row \<Rightarrow> result_row \<Rightarrow> bool" where
  "repeats d x y \<longleftrightarrow> x_owner x = x_owner y \<and> x_digest x = x_digest y \<and> x_schema_version x = x_schema_version y \<and>
     x_payload x = x_payload y \<and> (\<exists>k s ps. result_work d x = Some (k, s) \<and>
       result_work d y = Some (k, ps) \<and> same_contract ps s \<and> s_effect s = E_PURE)"

text \<open>An attempt that nothing ran: it ends when it starts, on no device and with no invocation.\<close>

definition reused_by :: "attempt_row \<Rightarrow> result_row \<Rightarrow> bool" where
  "reused_by a x \<longleftrightarrow> a_owner a = x_owner x \<and> a_id a = x_attempt x \<and> a_unit a = x_unit x \<and> a_fence a = x_fence x \<and>
     a_worker a = ''result-reuse'' \<and> a_device a = None \<and> a_invocation a = None \<and> a_state a = A_SUCCEEDED \<and>
     a_ended_at a = Some (a_started_at a)"

lemma find_unit_at:
  assumes "store_ok d" and "u \<in> set (units d)"
  shows "find (unit_at (u_owner u) (u_id u)) (units d) = Some u"
proof -
  have "unit_at (u_owner u) (u_id u) = (\<lambda>v. unit_pk v = unit_pk u)"
    by (auto simp: unit_at_def fun_eq_iff)
  then show ?thesis using assms find_distinct_key [of unit_pk "units d" u] by (simp add: store_ok_def keys_ok_def)
qed

lemma result_workI:
  "store_ok d \<Longrightarrow> u \<in> set (units d) \<Longrightarrow> x_owner x = u_owner u \<Longrightarrow> x_unit x = u_id u \<Longrightarrow> stage_of d u = Some s \<Longrightarrow>
     result_work d x = Some (u_key u, s)"
  using find_unit_at [of d u] by (simp add: result_work_def)

lemma stage_of_evolves:
  assumes "txn d d'" and "unit_evolves u v" and "stage_of d u = Some s"
  shows "stage_of d' v = Some s"
proof -
  have "rows_evolve (=) (stages d) (stages d')" using assms(1) by (simp add: txn_def db_evolves_def)
  from find_frozen [OF this] show ?thesis using assms(2,3) by (simp add: stage_of_def unit_evolves_def)
qed

lemma result_work_evolves:
  assumes "result_work d x = Some ks" and "txn d d'" and "store_ok d"
  shows "result_work d' x = Some ks"
proof -
  obtain u s where u: "u \<in> set (units d)" "u_owner u = x_owner x" "u_id u = x_unit x" "stage_of d u = Some s" "ks = (u_key u, s)"
    using assms(1) unfolding result_work_def
    by (cases "find (unit_at (x_owner x) (x_unit x)) (units d)") (auto simp: unit_at_def dest!: find_SomeD)
  have "rows_evolve unit_evolves (units d) (units d')" using assms(2) by (simp add: txn_def db_evolves_def)
  from rows_evolveD [OF this u(1)] obtain v where v: "v \<in> set (units d')" "unit_evolves u v" ..
  then show ?thesis
    using u result_workI [of d' v x s] txn_keeps [OF assms(2,3)] stage_of_evolves [OF assms(2) v(2) u(4)]
    by (simp add: unit_evolves_def)
qed

lemma repeats_evolves: "repeats d x y \<Longrightarrow> txn d d' \<Longrightarrow> store_ok d \<Longrightarrow> repeats d' x y"
  unfolding repeats_def by (blast intro: result_work_evolves)

lemma repeats_trans: "repeats d x y \<Longrightarrow> repeats d y z \<Longrightarrow> repeats d x z"
  by (auto simp: repeats_def same_contract_def)

text \<open>The unit a committed result belongs to is the one that owns it.\<close>

lemma committed_result_unit:
  assumes ok: "store_ok d" and p: "p \<in> set (units d)" "u_committed_result p = Some (x_id x)"
    and x: "x \<in> set (results d)" "x_owner x = u_owner p"
  shows "x_unit x = u_id p"
proof -
  obtain y where y: "y \<in> set (results d)" "x_owner y = u_owner p" "x_unit y = u_id p" "x_id y = x_id x"
    using ok p by (fastforce simp: store_ok_def results_ok_def)
  have "inj_on (\<lambda>x. (x_owner x, x_id x)) (set (results d))"
    using ok by (simp add: store_ok_def keys_ok_def distinct_map)
  from inj_onD [OF this, of y x] have "y = x" using x y by simp
  then show ?thesis using y by simp
qed

section \<open>One round\<close>

definition round_adds :: "db \<Rightarrow> db \<Rightarrow> bool" where
  "round_adds d d' \<longleftrightarrow> outcomes_kept d d' \<or>
     (\<exists>a x. attempts d' = attempts d @ [a] \<and> results d' = results d @ [x] \<and> reused_by a x \<and>
        (\<exists>y \<in> set (results d). repeats d' x y))"

lemma adopt_validated_adds:
  assumes run: "adopt_validated sha c v t d = Inr (k, d')" and u: "rc_unit c \<in> set (units d)" "untouched_unit (rc_unit c)"
    and ok: "store_ok d"
    and prior: "rc_prior c \<in> set (results d)" "p \<in> set (units d)" "prior_of (rc_unit c) p" "u_committed_result p = Some (x_id (rc_prior c))"
      "x_owner (rc_prior c) = u_owner p"
    and st: "stage_of d (rc_unit c) = Some (rc_stage c)" "s_effect (rc_stage c) = E_PURE"
    and ps: "stage_of d p = Some ps" "same_contract ps (rc_stage c)"
    and v: "vr_schema_version v = x_schema_version (rc_prior c)" "vr_payload v = x_payload (rc_prior c)"
      "vr_digest v = x_digest (rc_prior c)"
  shows "k = 1 \<and> txn d d' \<and> round_adds d d'"
proof -
  obtain rows d1 d2 d3 r where k: "k = 1" and commit: "commit_reused sha c v rows t d = Inr d1"
    and usage: "add_revision_usage_in_transaction (u_owner (rc_unit c)) (u_revision (rc_unit c))
        (no_increments\<lparr>inc_output_bytes := payload_bytes v\<rparr>) False t d1 = Inr d2"
    and start: "start_queued_workload_in_transaction (u_owner (rc_unit c)) (w_id (rc_workload c)) (w_state (rc_workload c))
        (w_version (rc_workload c)) t ''first_result_reused'' d2 = Inr d3"
    and settle: "settle_workload_in_transaction (u_owner (rc_unit c)) (w_id (rc_workload c)) t False UNIT_STATE_BATCH_SIZE d3 =
        Inr (r, d')"
    using run unfolding adopt_validated_def Let_def by (auto simp: tx_simps)
  have t1: "txn d d1" using commit_reused_txn [OF commit u ok] .
  then have ok1: "store_ok d1" using ok by (rule txn_keeps)
  have t3: "txn d1 d3" using add_revision_usage_txn [OF usage] start_queued_txn [OF start] by (rule txn_trans)
  then have ok3: "store_ok d3" using ok1 by (rule txn_keeps)
  have t4: "txn d3 d'" using settle_in_transaction_txn [OF settle ok3] .
  have t14: "txn d1 d'" using t3 t4 by (rule txn_trans)
  have kept: "outcomes_kept d1 d'"
    using add_usage_outcomes [OF usage] start_queued_outcomes [OF start] settle_outcomes [OF settle]
    by (blast intro: outcomes_kept_trans)
  have "round_adds d d'"
    using commit u
  proof (rule commit_reused_effect)
    fix aid rid m q det ds
    let ?u = "rc_unit c"
    let ?a = "reuse_attempt ?u (rc_stage c) aid m t" and ?x = "reused_result ?u v aid rid q t"
    assume d1: "d1 = d\<lparr>uuid_count := uuid_count d + 2, attempts := attempts d @ [?a], results := results d @ [?x],
       units := update_where (\<lambda>w. w = ?u) (\<lambda>_. reused_unit rid det t ?u) (units d), dependencies := ds\<rparr>"
    have "reused_unit rid det t ?u \<in> set (units d1)"
      using u(1) by (auto simp: d1 update_where_def image_iff)
    then have "result_work d1 ?x = Some (u_key ?u, rc_stage c)"
      using result_workI [OF ok1, of "reused_unit rid det t ?u" ?x] st(1)
      by (simp add: d1 stage_of_def reused_unit_def reused_result_def)
    moreover have "result_work d (rc_prior c) = Some (u_key ?u, ps)"
      using committed_result_unit [OF ok prior(2,4,1,5)] result_workI [OF ok prior(2,5) _ ps(1)] prior(3) by (simp add: prior_of_def)
    then have "result_work d1 (rc_prior c) = Some (u_key ?u, ps)" using t1 ok by (rule result_work_evolves)
    ultimately have "repeats d1 ?x (rc_prior c)"
      using v prior(3,5) ps(2) st(2) by (auto simp: repeats_def reused_result_def prior_of_def)
    then have "repeats d' ?x (rc_prior c)" using t14 ok1 by (rule repeats_evolves)
    moreover have "reused_by ?a ?x" by (simp add: reused_by_def reuse_attempt_def reused_result_def)
    ultimately show ?thesis
      using kept prior(1) unfolding round_adds_def outcomes_kept_def by (auto simp: d1)
  qed
  then show ?thesis using k t1 t14 by (blast intro: txn_trans)
qed

lemma stored_result_same:
  "stored_result sha x = Inr v \<Longrightarrow>
     vr_schema_version v = x_schema_version x \<and> vr_payload v = x_payload x \<and> vr_digest v = x_digest x"
  unfolding stored_result_def by (auto simp: tx_simps split: if_split_asm)

lemma adopt_candidate_adds:
  assumes run: "adopt_candidate sha c t d = Inr (k, d')" and c: "reuse_candidate_of d = Some c" and ok: "store_ok d"
  shows "1 \<le> k \<and> txn d d' \<and> round_adds d d'"
proof -
  note cand = unit_candidatesD [OF reuse_candidateD(2) [OF c]]
  obtain p where prior: "(p, rc_prior c) \<in> set (prior_rows d (rc_unit c) (rc_stage c))" using cand(9) by blast
  have settled: "txn d d' \<and> outcomes_kept d d'"
    if "settle_workload_in_transaction owner wid t False n d = Inr (x, d')" for owner wid n x
    using settle_in_transaction_txn [OF that ok] settle_outcomes [OF that] ..
  have validated: "1 \<le> k \<and> txn d d' \<and> round_adds d d'"
    if v: "stored_result sha (rc_prior c) = Inr v" and run: "adopt_validated sha c v t d = Inr (k, d')" for v
    using adopt_validated_adds [OF run reuse_candidateD(1) [OF c] cand(4) ok prior_rowsD(3,1,2,6,4) [OF prior]]
      prior_rowsD(7) [OF prior] stored_result_same [OF v] cand(2,3) by blast
  have kept: "txn d d' \<and> round_adds d d'" if "txn d d' \<and> outcomes_kept d d'" using that by (simp add: round_adds_def)
  show ?thesis
    using run unfolding adopt_candidate_def Let_def
    by (auto simp: tx_simps split: if_split_asm sum.split_asm
        dest: kept [OF settled] kept [OF require_attention_txn [OF _ ok]] validated)
qed

section \<open>The periodic adoption\<close>

text \<open>What some rounds added to \<open>d\<close>: reused results of work that \<open>d\<close> had results of.\<close>

definition reuse_adds :: "db \<Rightarrow> attempt_row list \<Rightarrow> result_row list \<Rightarrow> db \<Rightarrow> bool" where
  "reuse_adds d as xs d' \<longleftrightarrow> attempts d' = attempts d @ as \<and> results d' = results d @ xs \<and> list_all2 reused_by as xs \<and>
     (\<forall>x \<in> set xs. \<exists>y \<in> set (results d). repeats d' x y)"

lemma reuse_adds_round:
  assumes adds: "reuse_adds d as xs e" and t: "txn e d'" and ok: "store_ok e" and round: "round_adds e d'"
  shows "\<exists>as' xs'. reuse_adds d as' xs' d' \<and> length xs' \<le> Suc (length xs)"
proof -
  have old: "\<forall>x \<in> set xs. \<exists>y \<in> set (results d). repeats d' x y"
    using adds repeats_evolves [OF _ t ok] by (fastforce simp: reuse_adds_def)
  consider "outcomes_kept e d'"
    | a x y where "attempts d' = attempts e @ [a]" "results d' = results e @ [x]" "reused_by a x" "y \<in> set (results e)"
      "repeats d' x y"
    using round by (auto simp: round_adds_def)
  then show ?thesis
  proof cases
    case 1
    then have "reuse_adds d as xs d'" using adds old by (simp add: reuse_adds_def outcomes_kept_def)
    then show ?thesis using le_SucI by blast
  next
    case 2
    have "\<exists>z \<in> set (results d). repeats d' x z"
      using 2(4,5) adds old repeats_trans [OF 2(5)] unfolding reuse_adds_def by (metis Un_iff set_append)
    then have "reuse_adds d (as @ [a]) (xs @ [x]) d'"
      using adds old 2(1-3) by (auto simp: reuse_adds_def intro: list_all2_appendI)
    then show ?thesis by fastforce
  qed
qed

lemma adopt_rounds_adds:
  "adopt_rounds sha n k e = (r, d') \<Longrightarrow> store_ok e \<Longrightarrow> reuse_adds d as xs e \<Longrightarrow>
     txn e d' \<and> (\<exists>as' xs'. reuse_adds d as' xs' d' \<and> length xs' \<le> length xs + n)"
proof (induction n arbitrary: k e as xs)
  case 0
  then show ?case by auto
next
  case (Suc n)
  consider "e = d'"
    | c k1 e1 where "reuse_candidate_of e = Some c" "adopt_candidate sha c (utc_now e) e = Inr (k1, e1)"
      "adopt_rounds sha n (k + k1) e1 = (r, d')"
    using Suc.prems(1) by (auto split: if_split_asm option.split_asm sum.split_asm)
  then show ?case
  proof cases
    case 1
    then show ?thesis using Suc.prems(3) trans_le_add1 [OF le_refl] txn_refl by blast
  next
    case 2
    note round = adopt_candidate_adds [OF 2(2,1) Suc.prems(2)]
    then have ok: "store_ok e1" using Suc.prems(2) by (blast intro: txn_keeps)
    obtain as1 xs1 where adds: "reuse_adds d as1 xs1 e1" "length xs1 \<le> Suc (length xs)"
      using reuse_adds_round [OF Suc.prems(3) _ Suc.prems(2)] round by blast
    obtain as2 xs2 where last: "txn e1 d'" "reuse_adds d as2 xs2 d'" "length xs2 \<le> length xs1 + n"
      using Suc.IH [OF 2(3) ok adds(1)] by blast
    moreover have "length xs2 \<le> length xs + Suc n" using adds(2) last(3) by simp
    ultimately show ?thesis using round txn_trans by blast
  qed
qed

lemma adopt_reusable_results_adds:
  assumes run: "adopt_reusable_results sha limit d = (r, d')" and ok: "store_ok d"
  shows "txn d d' \<and> (\<exists>as xs. reuse_adds d as xs d' \<and> length xs \<le> nat limit)"
proof -
  have none: "reuse_adds d [] [] d" by (simp add: reuse_adds_def)
  show ?thesis
    using run none adopt_rounds_adds [OF _ ok none, of sha "nat limit" 0 r d'] unfolding adopt_reusable_results_def
    by (cases "require_limit limit 1000") (auto intro!: exI [of _ "[]"])
qed

lemma adopt_reusable_results_txn:
  "adopt_reusable_results sha limit d = (r, d') \<Longrightarrow> store_ok d \<Longrightarrow> txn d d'"
  using adopt_reusable_results_adds by blast

section \<open>The property\<close>

text \<open>
  C31. The reuse of results repeats committed work and invents nothing. However a pass ends, the
  store keeps its invariant and gained at most \<open>limit\<close> results, each with one attempt named
  \<open>result-reuse\<close> that ended when it started; and every result gained has the digest, schema and
  payload of a result that was there before, of the same owner, for a unit with the same
  semantic key whose stage has the same contract, and the stage it was reused for is pure.
\<close>

theorem adopt_repeats_committed_work:
  assumes "adopt_reusable_results sha limit d = (r, d')" and "store_ok d"
  shows "store_ok d' \<and> (\<exists>as xs. attempts d' = attempts d @ as \<and> results d' = results d @ xs \<and>
     length xs \<le> nat limit \<and> list_all2 reused_by as xs \<and> (\<forall>x \<in> set xs. \<exists>y \<in> set (results d). repeats d' x y))"
  using adopt_reusable_results_adds [OF assms] assms(2) unfolding reuse_adds_def by (blast intro: txn_keeps)

definition example_reuse_payload :: jobj where
  "example_reuse_payload = [(''entries'', JArr [])]"

definition example_stored_digest :: string where
  "example_stored_digest = (case canonical_result example_sha ''metnos.output/1'' example_reuse_payload of
     Inl _ \<Rightarrow> [] | Inr (_, digest) \<Rightarrow> digest)"

definition example_prior :: result_row where
  "example_prior = \<lparr>x_owner = ''owner'', x_id = ''res_00000001'', x_revision = ''rev_00000001'', x_unit = ''unt_00000001'',
     x_attempt = ''att_00000001'', x_fence = 1, x_digest = example_stored_digest, x_schema_version = ''metnos.output/1'',
     x_payload = example_reuse_payload, x_provenance = [], x_committed_at = 1500\<rparr>"

definition example_reuse_store :: db where
  "example_reuse_store = (empty_store 2000)\<lparr>workloads := [example_workload
       \<lparr>w_state := W_QUEUED, w_active_revision := Some ''rev_00000002'', w_version := 3\<rparr>],
     revisions := [example_revision, example_revision\<lparr>r_id := ''rev_00000002'', r_number := 2\<rparr>],
     stages := [example_stage, example_stage\<lparr>s_id := ''stg_00000002'', s_revision := ''rev_00000002''\<rparr>],
     units := [(example_unit ''unt_00000001'')\<lparr>u_key := ''key'', u_state := U_COMMITTED, u_attempt_count := 1, u_fence := 1,
         u_committed_result := Some ''res_00000001''\<rparr>,
       (example_unit ''unt_00000002'')\<lparr>u_key := ''key'', u_revision := ''rev_00000002'', u_stage := ''stg_00000002''\<rparr>],
     results := [example_prior],
     revision_usage := [example_usage\<lparr>us_input_tokens := 0\<rparr>,
       example_usage\<lparr>us_revision := ''rev_00000002'', us_input_tokens := 0, us_clock_high_water_at := Some 1900\<rparr>]\<rparr>"

theorem adopt_repeats_committed_work_witness:
  "\<exists>r d'. adopt_reusable_results example_sha 10 example_reuse_store = (r, d') \<and> store_ok d' \<and>
     map u_state (units d') = [U_COMMITTED, U_COMMITTED] \<and> map x_payload (results d') = [example_reuse_payload, example_reuse_payload] \<and>
     length (attempts d') = 1"
proof -
  have ok: "store_ok example_reuse_store" by code_simp
  obtain r d' where run: "adopt_reusable_results example_sha 10 example_reuse_store = (r, d')" by force
  have "case adopt_reusable_results example_sha 10 example_reuse_store of (r, d') \<Rightarrow>
      r = Inr 1 \<and> map u_state (units d') = [U_COMMITTED, U_COMMITTED] \<and>
      map x_payload (results d') = [example_reuse_payload, example_reuse_payload] \<and> length (attempts d') = 1" by code_simp
  then show ?thesis using adopt_repeats_committed_work [OF run ok] run by simp
qed

end
