(* ===== verification/Execution_Inputs_Properties.thy ===== *)
theory Execution_Inputs_Properties
  imports Execution_Inputs Adoption_Properties Attempt_Properties Materialization_Properties
begin

text \<open>
  The reading of an attempt's inputs: the bytes are accounted once and exactly, reading again
  returns the same inputs and changes nothing, and it is a transaction of the store.
\<close>

section \<open>The accounting\<close>

definition counted_attempt :: "int \<Rightarrow> attempt_row \<Rightarrow> attempt_row" where
  "counted_attempt n a =
     a\<lparr>a_metrics := jupdate (a_metrics a) [(''input_bytes'', JInt n), (''input_bytes_accounted'', JBool True)]\<rparr>"

definition input_usage :: "int \<Rightarrow> instant \<Rightarrow> usage_row \<Rightarrow> usage_row" where
  "input_usage n t = add_usage (no_increments\<lparr>inc_input_bytes := n\<rparr>) False t"

definition accounted_store :: "lease \<Rightarrow> attempt_row \<Rightarrow> int \<Rightarrow> db \<Rightarrow> db" where
  "accounted_store l a n d =
     d\<lparr>attempts := update_where (\<lambda>b. b = a) (\<lambda>_. counted_attempt n a) (attempts d),
       revision_usage := update_where (usage_at (l_owner_user_id l) (l_revision_id l)) (input_usage n (utc_now d)) (revision_usage d)\<rparr>"

definition input_accounted :: "int \<Rightarrow> attempt_row \<Rightarrow> bool" where
  "input_accounted n a \<longleftrightarrow> (\<exists>v. jget (a_metrics a) ''input_bytes_accounted'' = Some v \<and> truthy v) \<and>
     recorded_int (jget (a_metrics a) ''input_bytes'') n"

lemma accounted_metrics:
  "jget (a_metrics (counted_attempt n a)) k =
     (if k = ''input_bytes'' then Some (JInt n) else if k = ''input_bytes_accounted'' then Some (JBool True)
      else jget (a_metrics a) k)"
  by (simp add: counted_attempt_def jget_jupdate) (simp add: jget_def)

lemma accounted_same [simp]:
  "a_owner (counted_attempt n a) = a_owner a" "a_id (counted_attempt n a) = a_id a"
  "a_unit (counted_attempt n a) = a_unit a" "a_number (counted_attempt n a) = a_number a"
  "a_fence (counted_attempt n a) = a_fence a" "a_worker (counted_attempt n a) = a_worker a"
  "a_state (counted_attempt n a) = a_state a" "a_ended_at (counted_attempt n a) = a_ended_at a"
  "a_started_at (counted_attempt n a) = a_started_at a"
  by (simp_all add: counted_attempt_def)

lemma accounted_is_accounted: "input_accounted n (counted_attempt n a)"
  by (simp add: input_accounted_def accounted_metrics truthy_def recorded_int_def)

lemma account_inputs_done: "input_accounted n a \<Longrightarrow> account_inputs l a n d = Inr d"
  by (auto simp: account_inputs_def input_accounted_def)

text \<open>The live attempt of a lease is the one its row was joined with.\<close>

lemma live_attempt_of_lease:
  assumes ok: "store_ok d" and row: "matched_row d l = Some (row, a)" and one: "count_where (live_attempt_at l) (attempts d) = 1"
  shows "live_attempt_at l a" and "live_unit (lr_unit row)" and "live_attempt a"
proof -
  note r = matched_rowD [OF row]
  obtain b where b: "b \<in> set (attempts d)" "live_attempt_at l b" using count_where_one_ex [OF one] by blast
  have "b = a"
    using ok b r(2,6,7) pk_unique(2) [of "attempts d" a b] by (auto simp: store_ok_def keys_ok_def live_attempt_at_def leased_attempt_at_def)
  with b show live: "live_attempt_at l a" by simp
  then show la: "live_attempt a" by (auto simp: live_attempt_at_def live_attempt_def)
  obtain v where v: "v \<in> set (units d)" "live_unit v" "attempt_of v a"
    using ok leases_okD(2) [OF _ r(2) la] by (auto simp: store_ok_def)
  have "v = lr_unit row"
    using ok v r(1,3) pk_unique(1) [of "units d" "lr_unit row" v] by (auto simp: store_ok_def keys_ok_def attempt_of_def)
  with v show "live_unit (lr_unit row)" by simp
qed

lemma account_inputs_effect:
  assumes run: "account_inputs l a n d = Inr d'" and ok: "store_ok d" and row: "matched_row d l = Some (row, a)"
  shows "(d' = d \<and> input_accounted n a) \<or>
    (d' = accounted_store l a n d \<and> count_where (live_attempt_at l) (attempts d) = 1 \<and>
     add_revision_usage_in_transaction (l_owner_user_id l) (l_revision_id l) (no_increments\<lparr>inc_input_bytes := n\<rparr>) False (utc_now d)
       (d\<lparr>attempts := attempts d'\<rparr>) = Inr d')"
proof (cases "case jget (a_metrics a) ''input_bytes_accounted'' of None \<Rightarrow> False | Some v \<Rightarrow> truthy v")
  case True
  then have "\<exists>v. jget (a_metrics a) ''input_bytes_accounted'' = Some v \<and> truthy v" by (auto split: option.split_asm)
  then show ?thesis using run True by (auto simp: account_inputs_def input_accounted_def split: if_split_asm)
next
  case False
  define f where "f m b = b\<lparr>a_metrics := m\<rparr>" for m and b :: attempt_row
  obtain m where one: "count_where (live_attempt_at l) (attempts d) = 1"
    and m: "m = jupdate (a_metrics a) [(''input_bytes'', JInt n), (''input_bytes_accounted'', JBool True)]"
    and usage: "add_revision_usage_in_transaction (l_owner_user_id l) (l_revision_id l) (no_increments\<lparr>inc_input_bytes := n\<rparr>) False
        (utc_now d) (d\<lparr>attempts := update_where (live_attempt_at l) (f m) (attempts d)\<rparr>) = Inr d'"
    using run False unfolding account_inputs_def attempt_metrics_def Let_def f_def [abs_def]
    by (auto simp: tx_simps split: if_split_asm)
  have "update_where (live_attempt_at l) (f m) (attempts d) = update_where (\<lambda>b. b = a) (\<lambda>_. f m a) (attempts d)"
    by (rule update_where_row [OF one matched_rowD(2) [OF row] live_attempt_of_lease(1) [OF ok row one]])
  moreover have "f m a = counted_attempt n a" by (simp add: f_def m counted_attempt_def)
  ultimately show ?thesis
    using usage one unfolding add_revision_usage_in_transaction_def Let_def
    by (auto simp: tx_simps accounted_store_def input_usage_def split: if_split_asm)
qed

lemma account_inputs_txn:
  assumes run: "account_inputs l a n d = Inr d'" and ok: "store_ok d" and row: "matched_row d l = Some (row, a)"
  shows "txn d d'"
  using account_inputs_effect [OF assms]
proof (elim disjE conjE)
  assume d': "d' = accounted_store l a n d" and one: "count_where (live_attempt_at l) (attempts d) = 1"
    and usage: "add_revision_usage_in_transaction (l_owner_user_id l) (l_revision_id l) (no_increments\<lparr>inc_input_bytes := n\<rparr>) False
        (utc_now d) (d\<lparr>attempts := attempts d'\<rparr>) = Inr d'"
  note r = matched_rowD [OF row] and live = live_attempt_of_lease [OF ok row one]
  have h: "leased_alike (lr_unit row) a" "a_ended_at a = None" "u_lease_expires_at (lr_unit row) \<noteq> None"
    using held_pair [OF ok row] live(2) by (auto simp: live_unit_def)
  have "pair_step (lr_unit row) a (lr_unit row) (counted_attempt n a)"
    using h live r(3) by (auto simp: pair_step_def unit_rows.row_refl live_attempt_def attempt_of_def leased_alike_def attempt_evolves_def)
  then have "txn d (put_pair (lr_unit row) (lr_unit row) a (counted_attempt n a) d)"
    using r(1-3) live(2) by (intro txn_pair) (auto simp: live_unit_def)
  moreover have "put_pair (lr_unit row) (lr_unit row) a (counted_attempt n a) d = d\<lparr>attempts := attempts d'\<rparr>"
    by (simp add: d' accounted_store_def)
  ultimately show ?thesis using add_revision_usage_txn [OF usage] txn_trans by metis
qed simp

lemma execution_inputs_txn:
  assumes "execution_inputs l d = Inr (i, d')" and ok: "store_ok d"
  shows "txn d d'"
proof -
  obtain row a where row: "matched_row d l = Some (row, a)" and run: "execution_inputs_in_transaction l row a d = Inr (i, d')"
    using assms(1) unfolding execution_inputs_def by (auto split: option.split_asm)
  then show ?thesis
    unfolding execution_inputs_in_transaction_def Let_def by (auto simp: tx_simps dest: account_inputs_txn [OF _ ok row])
qed

section \<open>Reading again\<close>

lemma find_counted_usage:
  assumes "find (usage_at (l_owner_user_id l) (l_revision_id l)) (revision_usage d) = Some us"
  shows "find (usage_at (l_owner_user_id l) (l_revision_id l)) (update_where (usage_at (l_owner_user_id l) (l_revision_id l))
      (input_usage n (utc_now d)) (revision_usage d)) = Some (input_usage n (utc_now d) us)"
proof -
  have key: "usage_at (l_owner_user_id l) (l_revision_id l) = (\<lambda>v. usage_pk v = (l_owner_user_id l, l_revision_id l))"
    by (auto simp: usage_at_def fun_eq_iff)
  have "usage_pk (input_usage n (utc_now d) v) = usage_pk v" for v by (simp add: input_usage_def add_usage_def)
  then show ?thesis using assms find_SomeD [OF assms] unfolding key by (subst find_update_where) auto
qed

lemma accounted_store_row:
  assumes ok: "store_ok d" and row: "matched_row d l = Some (row, a)"
  shows "matched_row (accounted_store l a n d) l =
    Some (row\<lparr>lr_usage := input_usage n (utc_now d) (lr_usage row), lr_attempt := Some (counted_attempt n a)\<rparr>, counted_attempt n a)"
proof -
  note r = matched_rowD [OF row]
  let ?g = "update_where (usage_at (l_owner_user_id l) (l_revision_id l)) (input_usage n (utc_now d)) (revision_usage d)"
  obtain u rr us w where u: "find (unit_at (l_owner_user_id l) (l_unit_id l)) (units d) = Some u"
    and rr: "find (revision_at (u_owner u) (u_revision u)) (revisions d) = Some rr"
    and st: "stage_of d u = Some (lr_stage row)"
    and us: "find (usage_at (u_owner u) (u_revision u)) (revision_usage d) = Some us"
    and w: "find (workload_at (r_owner rr) (r_workload rr)) (workloads d) = Some w"
    and att: "find (\<lambda>b. a_owner b = u_owner u \<and> a_id b = l_attempt_id l \<and> a_unit b = u_id u) (attempts d) = Some a"
    and lr: "row = \<lparr>lr_unit = u, lr_revision = rr, lr_workload = w, lr_usage = us, lr_stage = lr_stage row, lr_attempt = Some a\<rparr>"
    and m: "row_matches row a l"
    using row unfolding matched_row_def select_lease_row_def by (auto split: option.split_asm if_split_asm)
  have lru: "lr_unit row = u" "lr_usage row = us" by (simp_all add: lr [THEN arg_cong [where f = lr_unit], simplified]
      lr [THEN arg_cong [where f = lr_usage], simplified])
  then have ids: "u_owner u = l_owner_user_id l" "u_revision u = l_revision_id l" using m by (simp_all add: row_matches_def Let_def)
  have us': "find (usage_at (u_owner u) (u_revision u)) ?g = Some (input_usage n (utc_now d) us)"
    using us find_counted_usage [of l d us n] ids by simp
  let ?key = "\<lambda>b. (a_owner b, a_id b, a_unit b)"
  have k: "(\<lambda>b. a_owner b = u_owner u \<and> a_id b = l_attempt_id l \<and> a_unit b = u_id u) =
      (\<lambda>b. ?key b = (u_owner u, l_attempt_id l, u_id u))" by auto
  have att': "find (\<lambda>b. a_owner b = u_owner u \<and> a_id b = l_attempt_id l \<and> a_unit b = u_id u)
      (update_where (\<lambda>b. b = a) (\<lambda>_. counted_attempt n a) (attempts d)) = Some (counted_attempt n a)"
    using att unfolding k by (subst find_update_where) auto
  have match: "row_matches (row\<lparr>lr_usage := us', lr_attempt := a'\<rparr>) (counted_attempt n a) l" for us' a'
    using m by (simp add: row_matches_def Let_def manual_retry_of_def accounted_metrics)
  have "select_lease_row (accounted_store l a n d) l =
      Some (row\<lparr>lr_usage := input_usage n (utc_now d) us, lr_attempt := Some (counted_attempt n a)\<rparr>)"
    using u rr st w us' att' by (simp add: select_lease_row_def accounted_store_def stage_of_def) (subst lr, simp)
  then show ?thesis using match lru(2) by (simp add: matched_row_def)
qed

lemma accounted_store_reads:
  "execution_dependencies (accounted_store l a n d) l (row\<lparr>lr_usage := us, lr_attempt := b\<rparr>) = execution_dependencies d l row"
  "execution_inventory (accounted_store l a n d) l s = execution_inventory d l s"
  "execution_catalog (accounted_store l a n d) l s = execution_catalog d l s"
  "execution_source (accounted_store l a n d) u s = execution_source d u s"
  "execution_stage_of (accounted_store l a n d) (row\<lparr>lr_usage := us, lr_attempt := b\<rparr>) = execution_stage_of d row"
proof -
  have "planned_for (accounted_store l a n d) l = planned_for d l"
    by (simp add: planned_for_def planned_result_def accounted_store_def)
  moreover have "stage_of (accounted_store l a n d) = stage_of d" "source_of (accounted_store l a n d) = source_of d"
    "units (accounted_store l a n d) = units d"
    by (auto simp: stage_of_def source_of_def accounted_store_def split: option.split)
  then have "dependency_row_of (accounted_store l a n d) = dependency_row_of d"
    by (intro ext) (simp add: dependency_row_of_def cong: option.case_cong)
  ultimately show "execution_dependencies (accounted_store l a n d) l (row\<lparr>lr_usage := us, lr_attempt := b\<rparr>) =
      execution_dependencies d l row"
    by (simp add: execution_dependencies_def)
qed (simp_all add: execution_inventory_def execution_catalog_def execution_source_def execution_stage_of_def
      accounted_store_def source_of_def cong: option.case_cong)

text \<open>What the inputs of a unit weigh, as the attempt records it.\<close>

definition recorded_input_bytes :: "db \<Rightarrow> lease \<Rightarrow> int option" where
  "recorded_input_bytes d l = (case matched_row d l of
     Some (_, a) \<Rightarrow> (case jget (a_metrics a) ''input_bytes'' of Some (JInt n) \<Rightarrow> Some n | _ \<Rightarrow> None) | None \<Rightarrow> None)"

lemma execution_inputs_effect:
  assumes run: "execution_inputs l d = Inr (i, d')" and ok: "store_ok d"
  obtains "d' = d" | n row a where "matched_row d l = Some (row, a)" and "d' = accounted_store l a n d" and "execution_inputs l d' = Inr (i, d')"
    and "add_revision_usage_in_transaction (l_owner_user_id l) (l_revision_id l) (no_increments\<lparr>inc_input_bytes := n\<rparr>) False
      (utc_now d) (d\<lparr>attempts := attempts d'\<rparr>) = Inr d'"
proof -
  obtain row a where row: "matched_row d l = Some (row, a)" and "execution_inputs_in_transaction l row a d = Inr (i, d')"
    using run unfolding execution_inputs_def by (auto split: option.split_asm)
  then obtain dsize rows lsize isize inv cat ssize src loaded
    where parts: "execution_dependencies d l row = Inr (dsize, rows)" "literal_bytes (s_bindings (lr_stage row)) = Inr lsize"
      "execution_inventory d l (lr_stage row) = Inr (isize, inv)" "execution_catalog d l (lr_stage row) = Inr cat"
      "execution_source d (lr_unit row) (lr_stage row) = Inr (ssize, src)" "mapE loaded_dependency rows = Inr loaded"
    and account: "account_inputs l a (isize + ssize + dsize + lsize) d = Inr d'"
    and i: "i = \<lparr>ei_inventory = inv, ei_priority = w_priority (lr_workload row),
            ei_execution_started_at = jget (a_metrics a) ''execution_started_at'', ei_catalog_entries = cat,
            ei_stage = execution_stage_of d row, ei_source = src, ei_dependencies = loaded\<rparr>"
    unfolding execution_inputs_in_transaction_def Let_def by (auto simp: tx_simps)
  let ?n = "isize + ssize + dsize + lsize"
  consider "d' = d" | "d' = accounted_store l a ?n d"
      "add_revision_usage_in_transaction (l_owner_user_id l) (l_revision_id l) (no_increments\<lparr>inc_input_bytes := ?n\<rparr>) False
        (utc_now d) (d\<lparr>attempts := attempts d'\<rparr>) = Inr d'"
    using account_inputs_effect [OF account ok row] by blast
  then show thesis
  proof cases
    case 2
    have "execution_inputs l d' = Inr (i, d')"
      using parts account_inputs_done [OF accounted_is_accounted] unfolding 2(1) execution_inputs_def accounted_store_row [OF ok row]
      by (simp add: execution_inputs_in_transaction_def accounted_store_reads accounted_metrics i)
    then show thesis using that(2) [OF row 2(1) _ 2(2)] by blast
  qed (rule that(1))
qed


definition example_binding :: "string \<times> jobj" where
  "example_binding = (''pattern'', [(''ref'', JStr ''literal''), (''value'', JStr ''abc'')])"

definition example_reading :: "(lease \<times> db \<times> input_facts \<times> db) result" where
  "example_reading =
     bindE example_running (\<lambda>(l, d).
     let e = d\<lparr>stages := map (\<lambda>s. s\<lparr>s_bindings := [example_binding]\<rparr>) (stages d)\<rparr> in
     bindE (execution_inputs l e) (\<lambda>(i, d'). Inr (l, e, i, d')))"


section \<open>The inputs that materialization planned\<close>

definition dependency_for :: "candidate \<Rightarrow> unit_dependency_row \<Rightarrow> bool" where
  "dependency_for c p \<longleftrightarrow>
     (ud_source_result p, ud_entry_offset p, ud_entry_length p, ud_role p) \<in> set (expected_bindings c)"

lemma skip_blank_object: "skip_blank (encode_json (JObj kvs)) = encode_json (JObj kvs)"
  by (simp add: json_blank_def)

lemma json_loads_object: "json_ok (JObj kvs) \<Longrightarrow> json_loads (encode_json (JObj kvs)) = Inr (decoded (JObj kvs))"
  using scan_encode [of "JObj kvs" "[]"] unfolding json_loads_def skip_blank_object
  by (simp add: delimited_def digit_first_def float_tail_def del: encode_json.simps json_ok.simps decoded.simps)

text \<open>
  C33. A shard reads the entry it was made for. Materialization walks over the entries of a
  committed payload and records, for the unit of each entry, the bounds of its text. For every
  entry of a payload whose entries are objects, the input of that unit is cut out of the stored
  text by these bounds, and decoding it gives exactly the entry the scanner saw.
\<close>

theorem shard_reads_its_entry:
  assumes ok: "json_ok (JObj (x_payload x))" and entries: "jget (x_payload x) ''entries'' = Some (JArr es)"
    and objects: "\<forall>e \<in> set es. \<exists>kvs. e = JObj kvs" and i: "i < length es"
  shows "\<exists>base start stop entry. entry_array_offset (encode_json (JObj (x_payload x))) = Inr base \<and>
    next_entry (encode_json (JObj (x_payload x))) (entry_cursor base es i) =
      Inr (Some entry, entry_cursor base es (Suc i), Suc i = length es, start, stop) \<and> JObj entry = decoded (es ! i) \<and>
    (\<forall>p v field digest. dependency_for (entry_candidate v x field digest start stop) p \<longrightarrow>
       (\<exists>text. dependency_text None p x = Some text \<and> json_loads text = Inr (JObj entry)))"
proof -
  let ?T = "encode_json (JObj (x_payload x))" and ?E = "encode_json (es ! i)"
  obtain base entry where base: "entry_array_offset ?T = Inr base" and entry: "decoded (es ! i) = JObj entry"
    and read: "next_entry ?T (entry_cursor base es i) = Inr (Some entry, entry_cursor base es (Suc i), Suc i = length es,
        entry_cursor base es i, entry_cursor base es i + length ?E)"
    and slice: "take (length ?E) (drop (entry_cursor base es i) ?T) = ?E"
    using scan_reads_entries [OF ok entries objects] i by blast
  obtain kvs where obj: "es ! i = JObj kvs" using objects nth_mem [OF i] by blast
  have "list_all json_ok es"
  proof -
    have "(''entries'', JArr es) \<in> set (x_payload x)" using entries by (simp add: jget_def map_of_SomeD)
    then show ?thesis using ok by (auto simp: list_all_iff)
  qed
  then have "json_ok (JObj kvs)" using i obj by (metis list_all_length)
  then have "json_loads ?E = Inr (JObj entry)" using json_loads_object entry obj by metis
  moreover have "dependency_text None p x = Some ?E"
    if "dependency_for (entry_candidate v x field digest (entry_cursor base es i) (entry_cursor base es i + length ?E)) p"
    for p v field digest
    using that slice by (auto simp: dependency_for_def expected_bindings_def entry_candidate_def plain_candidate_def dependency_text_def)
  ultimately show ?thesis using base read entry by metis
qed

definition example_entry_result :: result_row where
  "example_entry_result = \<lparr>x_owner = ''owner'', x_id = ''res_00000001'', x_revision = ''rev_00000001'', x_unit = ''unt_00000001'',
     x_attempt = ''att_00000001'', x_fence = 1, x_digest = ''digest'', x_schema_version = ''metnos.output/1'',
     x_payload = example_payload, x_provenance = [], x_committed_at = 1500\<rparr>"

theorem shard_reads_its_entry_witness:
  "\<exists>start stop entry. JObj entry = decoded (example_entries ! 1) \<and>
     (\<forall>p v field digest. dependency_for (entry_candidate v example_entry_result field digest start stop) p \<longrightarrow>
       (\<exists>text. dependency_text None p example_entry_result = Some text \<and> json_loads text = Inr (JObj entry)))"
proof -
  have "json_ok (JObj (x_payload example_entry_result))"
    and "jget (x_payload example_entry_result) ''entries'' = Some (JArr example_entries)"
    and "\<forall>e \<in> set example_entries. \<exists>kvs. e = JObj kvs" and "1 < length example_entries"
    by (simp_all add: example_entry_result_def example_payload_def example_entries_def jget_def)
  from shard_reads_its_entry [OF this] show ?thesis by blast
qed

text \<open>The bytes the loop of \<open>select_group\<close> counts, without the separators.\<close>

definition member_bytes :: "parent_view \<Rightarrow> int" where
  "member_bytes p = content_bytes (given (entries_of p) [])"

lemma select_group_within:
  assumes "select_group limit ps selected content nonempty = Inr chosen"
    and "content = sum_list (map member_bytes selected)" and "0 \<le> nonempty"
    and "selected \<noteq> [] \<longrightarrow> combined_bytes content nonempty \<le> limit"
  shows "chosen \<noteq> [] \<longrightarrow> 2 + sum_list (map member_bytes chosen) \<le> limit"
  using assms
proof (induction ps arbitrary: selected content nonempty)
  case Nil
  then show ?case by (auto simp: combined_bytes_def)
next
  case (Cons p ps)
  define es where "es = given (entries_of p) []"
  define content' where "content' = content + content_bytes es"
  define nonempty' where "nonempty' = nonempty + (if es \<noteq> [] then 1 else 0)"
  have step: "select_group limit (p # ps) selected content nonempty =
      (if combined_bytes content' nonempty' > limit then
         (if selected = [] then Inl ''dependency_input_too_large''
          else if length selected = 1 then Inl ''reduction_not_converging''
          else Inr selected)
       else select_group limit ps (selected @ [p]) content' nonempty')"
    by (simp add: Let_def content'_def nonempty'_def es_def content_bytes_def)
  show ?case
  proof (cases "combined_bytes content' nonempty' > limit")
    case True
    then have "selected \<noteq> [] \<and> chosen = selected" using Cons.prems(1) unfolding step by (auto split: if_split_asm)
    then show ?thesis using Cons.prems(2-4) by (auto simp: combined_bytes_def)
  next
    case False
    then have run: "select_group limit ps (selected @ [p]) content' nonempty' = Inr chosen" using Cons.prems(1) unfolding step by simp
    show ?thesis
      using False Cons.prems(2,3)
      by (intro Cons.IH [OF run]) (auto simp: content'_def nonempty'_def member_bytes_def es_def)
  qed
qed

lemma utf8_size_entries_object:
  "utf8_size (encode_json (JObj [(''entries'', JArr es)])) = content_bytes es + 14"
proof -
  have split: "encode_json (JObj [(''entries'', JArr es)]) =
      (CHR 0x7B # quote_string ''entries'' @ '':'') @ encode_json (JArr es) @ [CHR 0x7D]" by simp
  have c: "utf8_size (CHR 0x7B # quote_string ''entries'' @ '':'') = 11" "utf8_size [CHR 0x7D] = 1" by code_simp+
  have "0 \<le> sum_list (map (utf8_size \<circ> encode_json) es)"
    by (rule sum_list_nonneg) (auto simp: utf8_size_nonneg)
  then have "entries_bytes es = content_bytes es + 2" unfolding content_bytes_eq entries_bytes_eq by simp
  then show ?thesis unfolding split utf8_size_append c entries_bytes_def by simp
qed

lemma reduction_text_size:
  "entries_of p = Some es \<Longrightarrow> pv_result p = Some x \<Longrightarrow> text_size (dependency_text (Some k) r x) = member_bytes p + 14"
  by (auto simp: entries_of_def member_bytes_def given_def text_size_def dependency_text_def utf8_size_entries_object
      simp del: encode_json.simps split: option.split_asm jval.split_asm)

text \<open>
  C34. What a reduction was planned to read is what it may read. Materialization groups the
  members of a reduction by the size of the one array that joins their entries; the execution
  counts each member as an object of its own, with an allowance for every member. Whenever the
  stage's limit leaves 14 bytes for each member within the fixed limit of an attempt's
  dependencies, every group that materialization forms passes the check of the execution.
\<close>

theorem reduction_group_fits:
  assumes group: "select_group limit ps [] 0 0 = Inr members" and "members \<noteq> []"
    and valid: "\<forall>p \<in> set members. \<not> invalid_parent p" and planned: "map (Some \<circ> snd) pxs = map pv_result members"
    and stage: "s_reduction_fan_in s = Some fan_in" "s_reduction_max_input_bytes s = Some limit"
    and room: "limit + 14 * int (length members) \<le> MAX_DEPENDENCY_INPUT_BYTES"
  shows "dependency_bytes (s_reduction_fan_in s) pxs \<le> dependency_byte_limit s (int (length members))"
proof -
  have within: "2 + sum_list (map member_bytes members) \<le> limit"
    using select_group_within [OF group] assms(2) by simp
  have "dependency_bytes (Some fan_in) pxs = sum_list (map member_bytes members) + 14 * int (length members)"
    using planned valid
  proof (induction pxs arbitrary: members)
    case (Cons px pxs)
    then obtain p ms where ms: "members = p # ms" "pv_result p = Some (snd px)" "map (Some \<circ> snd) pxs = map pv_result ms" 
      by (cases members) (auto simp: comp_def)
    obtain es where "entries_of p = Some es" using Cons.prems(2) ms(1) by (auto simp: invalid_parent_def)
    then show ?case
      using reduction_text_size [of p es "snd px" fan_in "fst px"] Cons.IH [OF ms(3)] Cons.prems(2) ms
      by (simp add: dependency_bytes_def case_prod_unfold)
  qed (simp add: dependency_bytes_def)
  then show ?thesis using within room stage by (auto simp: dependency_byte_limit_def)
qed

definition example_member :: "string \<Rightarrow> parent_view" where
  "example_member i = \<lparr>pv_position = 0, pv_unit_id = i, pv_unit_key = i, pv_role = ''map'', pv_state = U_COMMITTED,
     pv_source = None, pv_result = Some (example_entry_result\<lparr>x_unit := i\<rparr>)\<rparr>"

definition example_planned :: "string \<Rightarrow> unit_dependency_row \<times> result_row" where
  "example_planned i = (\<lparr>ud_owner = ''owner'', ud_revision = ''rev_00000001'', ud_unit = ''unt_00000009'',
     ud_source_result = ''res_00000001'', ud_role = ''map'', ud_ordinal = 0, ud_entry_offset = None, ud_entry_length = None\<rparr>,
     example_entry_result\<lparr>x_unit := i\<rparr>)"

definition example_reducer :: stage_row where
  "example_reducer = example_stage\<lparr>s_reduction_fan_in := Some 4, s_reduction_input := Some ''entries'',
     s_reduction_max_input_bytes := Some 1024\<rparr>"

theorem reduction_group_fits_witness:
  "select_group 1024 [example_member ''a'', example_member ''b''] [] 0 0 = Inr [example_member ''a'', example_member ''b''] \<and>
     dependency_bytes (Some 4) [example_planned ''a'', example_planned ''b''] \<le> dependency_byte_limit example_reducer 2"
proof -
  have run: "select_group 1024 [example_member ''a'', example_member ''b''] [] 0 0 = Inr [example_member ''a'', example_member ''b'']"
    by code_simp
  have valid: "\<forall>p \<in> set [example_member ''a'', example_member ''b'']. \<not> invalid_parent p" by code_simp
  have stage: "s_reduction_fan_in example_reducer = Some 4" "s_reduction_max_input_bytes example_reducer = Some 1024"
    by (simp_all add: example_reducer_def)
  have "dependency_bytes (s_reduction_fan_in example_reducer) [example_planned ''a'', example_planned ''b'']
      \<le> dependency_byte_limit example_reducer (int (length [example_member ''a'', example_member ''b'']))"
    by (rule reduction_group_fits [OF run _ valid _ stage])
      (simp_all add: example_planned_def example_member_def MAX_DEPENDENCY_INPUT_BYTES_def)
  then show ?thesis using run stage by simp
qed

section \<open>Selected results\<close>

definition names_result :: "(string \<Rightarrow> string) \<Rightarrow> db \<Rightarrow> string \<Rightarrow> jval \<Rightarrow> result_row \<Rightarrow> bool" where
  "names_result sha d owner v x \<longleftrightarrow>
     (\<exists>obj. v = JObj obj \<and> jget obj ''result_id'' = Some (JStr (x_id x)) \<and> jget obj ''digest'' = Some (JStr (x_digest x)) \<and>
        jget obj ''schema_version'' = Some (JStr (x_schema_version x))) \<and>
     x \<in> set (results d) \<and> x_owner x = owner \<and>
     (\<exists>u \<in> set (units d). in_revision owner (x_revision x) u \<and> u_state u = U_COMMITTED \<and> u_committed_result u = Some (x_id x)) \<and>
     (\<exists>text. canonical_result sha (x_schema_version x) (x_payload x) = Inr (text, x_digest x)) \<and>
     object_entries (x_payload x) \<noteq> None"

definition entries_in :: "result_row \<Rightarrow> jval list" where
  "entries_in x = (case object_entries (x_payload x) of None \<Rightarrow> [] | Some es \<Rightarrow> es)"

definition payload_size :: "result_row \<Rightarrow> int" where
  "payload_size x = utf8_size (encode_json (JObj (x_payload x)))"

lemma committed_result_rowD:
  "committed_result_row d owner rid = Some x \<Longrightarrow> x \<in> set (results d) \<and> x_owner x = owner \<and> x_id x = rid \<and>
     (\<exists>u \<in> set (units d). in_revision owner (x_revision x) u \<and> u_state u = U_COMMITTED \<and> u_committed_result u = Some (x_id x))"
  unfolding committed_result_row_def by (drule find_SomeD) (auto simp: exists_where_def in_revision_def)

lemma stored_result_canonical:
  assumes "stored_result sha x = Inr v"
  shows "\<exists>text. canonical_result sha (x_schema_version x) (x_payload x) = Inr (text, x_digest x)" and "vr_payload v = x_payload x"
  using assms unfolding stored_result_def by (auto simp: tx_simps split: if_split_asm)

lemma reference_ofD:
  assumes "reference_of seen v = Inr ref"
  obtains obj where "v = JObj obj" "jget obj ''result_id'' = Some (JStr (rf_result_id ref))"
    "jget obj ''digest'' = Some (JStr (rf_digest ref))" "jget obj ''schema_version'' = Some (JStr (rf_schema_version ref))"
    "rf_result_id ref \<notin> set seen"
  using assms unfolding reference_of_def by (auto split: jval.split_asm option.split_asm if_split_asm)

lemma read_references_exact:
  assumes "read_references sha d owner vs seen before n = Inr entries" and "0 \<le> n" and "n \<le> max_result_json_bytes"
    and "int (length before) \<le> MAX_SELECTED_ENTRIES"
  shows "\<exists>xs. list_all2 (names_result sha d owner) vs xs \<and> distinct (map x_id xs) \<and> set (map x_id xs) \<inter> set seen = {} \<and>
     entries = before @ concat (map entries_in xs) \<and> n + sum_list (map payload_size xs) \<le> max_result_json_bytes \<and>
     int (length entries) \<le> MAX_SELECTED_ENTRIES"
  using assms
proof (induction vs arbitrary: seen before n)
  case Nil
  then show ?case by (intro exI [of _ "[]"]) simp
next
  case (Cons v vs)
  obtain ref where ref: "reference_of seen v = Inr ref" using Cons.prems(1) by (auto simp: tx_simps)
  obtain x where x: "committed_result_row d owner (rf_result_id ref) = Some x"
    using Cons.prems(1) ref by (auto split: option.split_asm)
  obtain validated es where same: "x_schema_version x = rf_schema_version ref" "x_digest x = rf_digest ref"
    and small: "n + payload_size x \<le> max_result_json_bytes" and valid: "stored_result sha x = Inr validated"
    and es: "object_entries (vr_payload validated) = Some es" and few: "int (length before + length es) \<le> MAX_SELECTED_ENTRIES"
    and rest: "read_references sha d owner vs (rf_result_id ref # seen) (before @ es) (n + payload_size x) = Inr entries"
    using Cons.prems(1) ref x
    by (auto simp: Let_def tx_simps payload_size_def simp del: encode_json.simps split: if_split_asm option.split_asm)
  have mine: "x_id x = rf_result_id ref" "entries_in x = es"
    using committed_result_rowD [OF x] es stored_result_canonical(2) [OF valid] by (simp_all add: entries_in_def)
  have "names_result sha d owner v x \<and> x_id x \<notin> set seen"
    using reference_ofD [OF ref] committed_result_rowD [OF x] same stored_result_canonical [OF valid] es mine(1)
    unfolding names_result_def by (metis option.distinct(1))
  moreover have "0 \<le> n + payload_size x" "int (length (before @ es)) \<le> MAX_SELECTED_ENTRIES"
    using Cons.prems(2) few utf8_size_nonneg by (simp_all add: payload_size_def)
  from Cons.IH [OF rest this(1) small this(2)] obtain xs where "list_all2 (names_result sha d owner) vs xs" "distinct (map x_id xs)"
    "set (map x_id xs) \<inter> set (rf_result_id ref # seen) = {}" "entries = (before @ es) @ concat (map entries_in xs)"
    "n + payload_size x + sum_list (map payload_size xs) \<le> max_result_json_bytes" "int (length entries) \<le> MAX_SELECTED_ENTRIES" by blast
  ultimately show ?case using mine by (intro exI [of _ "x # xs"]) auto
qed

text \<open>
  C35. Historical data enters a plan only as named. When the reading of selected results succeeds,
  there is one result for each reference, no two the same, and each is a result of the owner that a
  committed unit still owns, with the identifier, digest and schema version the reference gives and
  a digest that is the digest of its content; what is returned is the concatenation of their entries
  in the order of the references, within the limits on their number and on the bytes read.
\<close>

theorem committed_entries_exact:
  assumes "read_committed_entries sha owner references d = Inr entries"
  shows "\<exists>vs xs. references = JArr vs \<and> list_all2 (names_result sha d owner) vs xs \<and> distinct (map x_id xs) \<and>
    entries = concat (map entries_in xs) \<and> sum_list (map payload_size xs) \<le> max_result_json_bytes \<and>
    int (length entries) \<le> MAX_SELECTED_ENTRIES \<and> length xs \<le> 1024"
proof -
  obtain vs where vs: "references = JArr vs" "length vs \<le> 1024" and run: "read_references sha d owner vs [] [] 0 = Inr entries"
    using assms unfolding read_committed_entries_def require_owner_def
    by (cases references) (auto simp: tx_simps split: if_split_asm)
  have "(0 :: int) \<le> 0" "0 \<le> max_result_json_bytes" "int (length ([] :: jval list)) \<le> MAX_SELECTED_ENTRIES"
    by (simp_all add: max_result_json_bytes_def MAX_SELECTED_ENTRIES_def)
  from read_references_exact [OF run this] obtain xs where xs: "list_all2 (names_result sha d owner) vs xs" "distinct (map x_id xs)"
    "entries = concat (map entries_in xs)" "sum_list (map payload_size xs) \<le> max_result_json_bytes"
    "int (length entries) \<le> MAX_SELECTED_ENTRIES" by auto
  moreover have "length xs \<le> 1024" using xs(1) vs(2) by (simp add: list_all2_lengthD)
  ultimately show ?thesis using vs(1) by blast
qed

definition example_kept :: result_row where
  "example_kept = example_prior\<lparr>x_payload := [(''entries'', JArr [JObj []])],
     x_digest := (case canonical_result example_sha ''metnos.output/1'' [(''entries'', JArr [JObj []])] of
       Inl _ \<Rightarrow> [] | Inr (_, digest) \<Rightarrow> digest)\<rparr>"

definition example_reference :: jval where
  "example_reference = JObj [(''result_id'', JStr ''res_00000001''), (''digest'', JStr (x_digest example_kept)),
     (''schema_version'', JStr ''metnos.output/1'')]"

theorem committed_entries_exact_witness:
  "\<exists>xs. read_committed_entries example_sha ''owner'' (JArr [example_reference]) (example_reuse_store\<lparr>results := [example_kept]\<rparr>)
       = Inr [JObj []] \<and> [JObj []] = concat (map entries_in xs) \<and> length xs = 1"
proof -
  have "succeeds_with (read_committed_entries example_sha ''owner'' (JArr [example_reference])
      (example_reuse_store\<lparr>results := [example_kept]\<rparr>)) (\<lambda>es. es = [JObj []])" by code_simp
  then have run: "read_committed_entries example_sha ''owner'' (JArr [example_reference])
      (example_reuse_store\<lparr>results := [example_kept]\<rparr>) = Inr [JObj []]"
    by (auto elim!: succeeds_withE)
  obtain vs xs where "JArr [example_reference] = JArr vs" and "[JObj []] = concat (map entries_in xs)"
    and "list_all2 (names_result example_sha (example_reuse_store\<lparr>results := [example_kept]\<rparr>) ''owner'') vs xs"
    using committed_entries_exact [OF run] by blast
  moreover from this have "length xs = 1" by (auto dest!: list_all2_lengthD)
  ultimately show ?thesis using run by blast
qed

end
