(* ===== verification/Materialization_Pass.thy ===== *)
theory Materialization_Pass
  imports Materialization_Properties
begin

text \<open>
  The periodic pass over all ready materialization cursors (\<open>materialize_all_ready_units\<close> of
  \<open>storage.py\<close>): a batch for each workload, oldest cursor first, each in a transaction of its own.
\<close>

section \<open>The pass\<close>

text \<open>When the cursors of a workload's ready stages last moved.\<close>

definition ready_progress :: "db \<Rightarrow> workload_row \<Rightarrow> instant list" where
  "ready_progress d w =
     (if w_state w \<notin> {W_ADMITTED, W_QUEUED, W_RUNNING} then []
      else case w_active_revision w of
        None \<Rightarrow> []
      | Some rid \<Rightarrow> concat (map (\<lambda>m.
          map (\<lambda>_. m_updated_at m) (filter (\<lambda>s. s_owner s = m_owner m \<and> s_revision s = m_revision m \<and> s_id s = m_stage m \<and>
            stage_ready d m s) (stages d)))
          (filter (\<lambda>m. m_owner m = w_owner w \<and> m_revision m = rid) (stage_materialization d))))"

definition pass_rows :: "db \<Rightarrow> int \<Rightarrow> (instant \<times> workload_row) list" where
  "pass_rows d limit = order_limit (\<lambda>(t, w). (t, w_owner w, w_id w)) (nat limit)
     (concat (map (\<lambda>w. case ready_progress d w of [] \<Rightarrow> [] | t # ts \<Rightarrow> [(fold min ts t, w)]) (workloads d)))"

fun pass_batches :: "(string \<Rightarrow> string) \<Rightarrow> int \<Rightarrow> (instant \<times> workload_row) list \<Rightarrow> int \<Rightarrow> db \<Rightarrow> int result \<times> db" where
  "pass_batches sha limit [] advanced d = (Inr advanced, d)"
| "pass_batches sha limit (row # rows) advanced d =
     (if advanced \<ge> limit then (Inr advanced, d)
      else case materialize_ready_units_batch sha (w_owner (snd row)) (w_id (snd row)) (min 100 (limit - advanced)) d of
        Inl e \<Rightarrow> (Inl e, d)
      | Inr ((_, progressed), d') \<Rightarrow> pass_batches sha limit rows (advanced + progressed) d')"

definition materialize_all_ready_units :: "(string \<Rightarrow> string) \<Rightarrow> int \<Rightarrow> db \<Rightarrow> int result \<times> db" where
  "materialize_all_ready_units sha limit d =
     (case require_limit limit 1000 of
        Inl e \<Rightarrow> (Inl e, d)
      | Inr _ \<Rightarrow> pass_batches sha limit (pass_rows d limit) 0 d)"

section \<open>What it does\<close>

lemma pass_batches_txn: "pass_batches sha limit rows advanced d = (r, d') \<Longrightarrow> txn d d'"
proof (induction rows arbitrary: advanced d)
  case (Cons row rows)
  then show ?case
    by (auto split: if_split_asm sum.split_asm dest!: materialize_ready_units_batch_txn Cons.IH intro: txn_trans)
qed simp

lemma materialize_all_txn: "materialize_all_ready_units sha limit d = (r, d') \<Longrightarrow> txn d d'"
  by (auto simp: materialize_all_ready_units_def split: sum.split_asm dest: pass_batches_txn)

lemma materialize_steps_count:
  "materialize_steps sha owner rid r n totals d = Inr (totals', d') \<Longrightarrow>
     snd totals \<le> snd totals' \<and> snd totals' \<le> snd totals + int n \<and>
     (0 < n \<longrightarrow> next_materialization_stage d owner rid \<noteq> None \<longrightarrow> snd totals < snd totals')"
proof (induction n arbitrary: totals d)
  case (Suc n)
  show ?case
  proof (cases "next_materialization_stage d owner rid")
    case (Some sm)
    then obtain created d1 where "materialize_steps sha owner rid r n (fst totals + created, snd totals + 1) d1 = Inr (totals', d')"
      using Suc.prems by (cases sm) (auto simp: tx_simps)
    from Suc.IH [OF this] show ?thesis by auto
  qed (use Suc.prems in auto)
qed simp

lemma batch_count:
  assumes "materialize_ready_units_batch sha owner wid n d = Inr ((created, progressed), d')" and "1 \<le> n"
  shows "0 \<le> progressed \<and> progressed \<le> n"
  using assms unfolding materialize_ready_units_batch_def
  by (auto simp: tx_simps split: option.split_asm if_split_asm dest!: materialize_steps_count)

lemma pass_batches_count:
  "pass_batches sha limit rows advanced d = (Inr n, d') \<Longrightarrow> advanced \<le> limit \<Longrightarrow> advanced \<le> n \<and> n \<le> limit"
proof (induction rows arbitrary: advanced d)
  case (Cons row rows)
  show ?case
  proof (cases "advanced \<ge> limit")
    case False
    then obtain created progressed d1 where batch: "materialize_ready_units_batch sha (w_owner (snd row)) (w_id (snd row))
          (min 100 (limit - advanced)) d = Inr ((created, progressed), d1)"
      and rest: "pass_batches sha limit rows (advanced + progressed) d1 = (Inr n, d')"
      using Cons.prems(1) by (auto split: sum.split_asm)
    have "0 \<le> progressed \<and> progressed \<le> min 100 (limit - advanced)" using batch_count [OF batch] False by simp
    then show ?thesis using Cons.IH [OF rest] by simp
  qed (use Cons.prems in auto)
qed simp

lemma ready_progress_next:
  assumes ok: "store_ok d" and w: "w \<in> set (workloads d)" and ready: "ready_progress d w \<noteq> []"
  obtains rid r where "select_workload d (w_owner w) (w_id w) = Inr w" and "w_active_revision w = Some rid"
    and "w_state w \<in> {W_ADMITTED, W_QUEUED, W_RUNNING}" and "revision_of (w_owner w) (w_id w) rid d = Some r"
    and "next_materialization_stage d (w_owner w) rid \<noteq> None"
proof -
  have state: "w_state w \<in> {W_ADMITTED, W_QUEUED, W_RUNNING}" using ready by (auto simp: ready_progress_def split: if_split_asm)
  obtain rid where rid: "w_active_revision w = Some rid"
    using ready state by (cases "w_active_revision w") (auto simp: ready_progress_def)
  obtain m s where m: "m \<in> set (stage_materialization d)" "m_owner m = w_owner w" "m_revision m = rid"
    and s: "s \<in> set (stages d)" "s_owner s = m_owner m" "s_revision s = m_revision m" "s_id s = m_stage m" "stage_ready d m s"
    using ready state rid unfolding ready_progress_def by (auto simp: filter_empty_conv)
  have "active_revision_ok (revisions d) (revision_usage d) w" using ok w by (simp add: store_ok_def active_ok_def)
  then obtain r where r: "r \<in> set (revisions d)" "revision_at (w_owner w) rid r" "r_workload r = w_id w"
    using rid by (auto simp: active_revision_ok_def)
  have "find (workload_at (w_owner w) (w_id w)) (workloads d) = Some w"
    using ok w find_distinct_key [of workload_pk "workloads d" w] by (simp add: store_ok_def keys_ok_def workload_at_def [abs_def])
  then have sel: "select_workload d (w_owner w) (w_id w) = Inr w" by (simp add: select_workload_def)
  have "\<exists>r'. revision_of (w_owner w) (w_id w) rid d = Some r'"
    using r unfolding revision_of_def by (auto simp: find_None_iff revision_at_def intro: ccontr)
  moreover have "(s, m) \<in> set (ready_stages d (w_owner w) rid)"
    using m s r unfolding ready_stages_def by (auto simp: exists_where_def list_ex_iff intro!: exI [of _ m] imageI)
  then have "next_materialization_stage d (w_owner w) rid \<noteq> None"
    using order_limit_Nil_iff [of 1 "\<lambda>(s, _). (s_position s, s_id s)" "ready_stages d (w_owner w) rid"]
    by (auto simp: next_materialization_stage_def split: list.split)
  ultimately show thesis using sel rid state that by blast
qed



end
