(* ===== verification/Runs.thy ===== *)
theory Runs
  imports Commands Completion Admission_Properties Execution_Inputs_Properties Materialization_Pass
begin

text \<open>
  The store as a transition system: a step is any public operation of the kernel that
  succeeds, in any order and from any caller, or a change of the clock reading (which may
  also go backwards). \<open>store_ok\<close> is its inductive invariant, and \<open>core_evolves\<close> relates
  every store to all that follow it; the hash functions are parameters.
\<close>

section \<open>Steps\<close>

inductive store_step :: "(string \<Rightarrow> string) \<Rightarrow> (string \<Rightarrow> nat) \<Rightarrow> db \<Rightarrow> db \<Rightarrow> bool"
  for sha :: "string \<Rightarrow> string" and sha8 :: "string \<Rightarrow> nat" where
  step_clock: "store_step sha sha8 d (d\<lparr>clock := t\<rparr>)"
| step_create_draft: "create_draft sha owner key request priority budget wid d = Inr (r, d') \<Longrightarrow> store_step sha sha8 d d'"
| step_transition: "transition_workload owner wid destination expected payload now d = Inr (r, d') \<Longrightarrow> store_step sha sha8 d d'"
| step_settle: "settle_workload owner wid now d = Inr (r, d') \<Longrightarrow> store_step sha sha8 d d'"
| step_settle_all: "settle_workloads limit now d = (s, d') \<Longrightarrow> store_step sha sha8 d d'"
| step_control: "control sha owner wid command key expected now d = Inr (r, d') \<Longrightarrow> store_step sha sha8 d d'"
| step_dismiss: "dismiss_terminal_workload owner wid expected key now d = Inr (m, d') \<Longrightarrow> store_step sha sha8 d d'"
| step_resolve: "record_attention_resolution sha owner wid decision expected key note now d = Inr (r, d') \<Longrightarrow>
    store_step sha sha8 d d'"
| step_enqueue: "enqueue_outbox_in_transaction owner wid event channel recipient coalesce due delivered d = Inr (b, d') \<Longrightarrow>
    store_step sha sha8 d d'"
| step_progress: "enqueue_progress_outbox_in_transaction owner wid event channel recipient interval now d = Inr (b, d') \<Longrightarrow>
    store_step sha sha8 d d'"
| step_claim_outbox: "claim_outbox channel worker limit duration now d = Inr (bs, d') \<Longrightarrow> store_step sha sha8 d d'"
| step_mark_outbox: "mark_outbox_delivery_started rec worker now d = Inr (ok, d') \<Longrightarrow> store_step sha sha8 d d'"
| step_confirm_outbox: "confirm_outbox rec worker ack now d = Inr (ok, d') \<Longrightarrow> store_step sha sha8 d d'"
| step_release_outbox: "release_outbox rec worker retry now d = Inr (ok, d') \<Longrightarrow> store_step sha sha8 d d'"
| step_cancel_outbox: "cancel_outbox rec worker reason now d = Inr (ok, d') \<Longrightarrow> store_step sha sha8 d d'"
| step_prune_outbox: "prune_outbox older_than limit now d = Inr (n, d') \<Longrightarrow> store_step sha sha8 d d'"
| step_claim: "claim_next worker t duration caps d = Inr (claimed, d') \<Longrightarrow> store_step sha sha8 d d'"
| step_mark_running: "mark_running l now d = Inr (st, d') \<Longrightarrow> store_step sha sha8 d d'"
| step_heartbeat: "heartbeat l expiry now d = Inr (st, d') \<Longrightarrow> store_step sha sha8 d d'"
| step_facts: "record_execution_facts l executor model device invocation now d = Inr (st, d') \<Longrightarrow> store_step sha sha8 d d'"
| step_usage: "record_attempt_usage l usage now d = Inr (st, d') \<Longrightarrow> store_step sha sha8 d d'"
| step_refresh_usage: "refresh_usage_complete owner wid d = Inr (complete, d') \<Longrightarrow> store_step sha sha8 d d'"
| step_commit: "commit_result sha l v deps now d = Inr (out, d') \<Longrightarrow> store_step sha sha8 d d'"
| step_fail: "fail_attempt sha8 l err decision state now d = Inr (failure, d') \<Longrightarrow> store_step sha sha8 d d'"
| step_abandon: "abandon_attempt l now reason d = Inr (st, d') \<Longrightarrow> store_step sha sha8 d d'"
| step_reconcile: "reconcile_expired sha8 t batch_size d = Inr (outcome, d') \<Longrightarrow> store_step sha sha8 d d'"
| step_evaluate: "evaluate_completion owner wid now d = Inr (ca, d') \<Longrightarrow> store_step sha sha8 d d'"
| step_materialize: "materialize_ready_units sha owner wid limit d = Inr (created, d') \<Longrightarrow> store_step sha sha8 d d'"
| step_materialize_all: "materialize_all_ready_units sha limit d = (n, d') \<Longrightarrow> store_step sha sha8 d d'"
| step_admit: "admit_revision sha owner wid retain plan inventory expected catalog policy caps_cut partial usage rid d = Inr (rr, d') \<Longrightarrow>
    store_step sha sha8 d d'"
| step_inputs: "execution_inputs l d = Inr (facts, d') \<Longrightarrow> store_step sha sha8 d d'"
| step_adopt: "adopt_reusable_results sha limit d = (n, d') \<Longrightarrow> store_step sha sha8 d d'"
| step_complete_ready: "complete_ready_workloads limit d = (s, d') \<Longrightarrow> store_step sha sha8 d d'"

abbreviation store_run :: "(string \<Rightarrow> string) \<Rightarrow> (string \<Rightarrow> nat) \<Rightarrow> db \<Rightarrow> db \<Rightarrow> bool" where
  "store_run sha sha8 \<equiv> (store_step sha sha8)\<^sup>*\<^sup>*"

section \<open>What every step keeps\<close>

text \<open>The evolution of the tables that nothing is ever deleted from: all but the outbox.\<close>

definition core_evolves :: "db \<Rightarrow> db \<Rightarrow> bool" where
  "core_evolves d e \<longleftrightarrow> db_evolves d (e\<lparr>outbox := outbox d\<rparr>)"

lemma core_evolvesD:
  assumes "core_evolves d e"
  shows "rows_evolve workload_evolves (workloads d) (workloads e)"
    and "rows_evolve revision_evolves (revisions d) (revisions e)" and "rows_evolve (=) (stages d) (stages e)"
    and "rows_evolve unit_evolves (units d) (units e)" and "rows_evolve attempt_evolves (attempts d) (attempts e)"
    and "rows_evolve (=) (results d) (results e)" and "rows_evolve (=) (events d) (events e)"
    and "rows_evolve (=) (commands d) (commands e)" and "rows_evolve usage_evolves (revision_usage d) (revision_usage e)"
  using assms by (simp_all add: core_evolves_def db_evolves_def)

lemma core_evolves_db: "db_evolves d e \<Longrightarrow> core_evolves d e"
  by (simp add: core_evolves_def db_evolves_def)

lemma core_evolves_refl: "core_evolves d d"
  by (simp add: core_evolves_db)

lemma core_evolves_trans: "core_evolves d e \<Longrightarrow> core_evolves e f \<Longrightarrow> core_evolves d f"
  unfolding core_evolves_def db_evolves_def
  by (auto intro: workload_rows.trans_rows revision_rows.trans_rows unit_rows.trans_rows
      attempt_rows.trans_rows usage_rows.trans_rows frozen_rows.trans_rows)

lemma prune_outbox_frame:
  assumes "prune_outbox older_than limit now d = Inr (n, d')"
  shows "\<exists>P. d' = d\<lparr>outbox := filter P (outbox d)\<rparr>"
  using assms by (auto simp: prune_outbox_def tx_simps Let_def fold_delete_where split: if_split_asm)

lemma prune_outbox_keeps:
  assumes "prune_outbox older_than limit now d = Inr (n, d')"
  shows "core_evolves d d'" and "store_ok d \<Longrightarrow> store_ok d'"
  using prune_outbox_frame [OF assms] outbox_indexes_filter
  by (auto simp: core_evolves_def db_evolves_def store_ok_def keys_ok_def active_ok_def)

lemmas operation_txns =
  create_draft_txn transition_workload_txn settle_workload_txn settle_workloads_txn control_txn dismiss_txn
  resolution_txn enqueue_outbox_txn enqueue_progress_txn claim_outbox_txn mark_outbox_txn confirm_outbox_txn
  release_outbox_txn cancel_outbox_txn claim_next_txn mark_running_txn heartbeat_txn record_execution_facts_txn
  record_attempt_usage_txn refresh_usage_complete_txn commit_result_txn fail_attempt_txn abandon_attempt_txn
  reconcile_expired_txn evaluate_completion_txn complete_ready_workloads_txn materialize_ready_units_txn
  admit_revision_txn adopt_reusable_results_txn execution_inputs_txn
  materialize_all_txn

lemma step_txn:
  assumes "store_step sha sha8 d e" and "store_ok d"
  shows "txn d e \<or> (\<exists>age l t n. prune_outbox age l t d = Inr (n, e))"
  using assms by cases (auto dest: operation_txns)

lemma step_keeps:
  assumes "store_step sha sha8 d e" and "store_ok d"
  shows "store_ok e" and "core_evolves d e"
  using step_txn [OF assms] assms(2) prune_outbox_keeps by (auto simp: txn_def core_evolves_db)

interpretation store_runs: invariant_system "\<lambda>d. \<exists>t. d = empty_store t" "store_step sha sha8" store_ok
  for sha :: "string \<Rightarrow> string" and sha8 :: "string \<Rightarrow> nat"
  by unfold_locales (auto intro: empty_store_ok step_keeps)

lemma run_keeps:
  assumes "store_run sha sha8 d e" and "store_ok d"
  shows "store_ok e" and "core_evolves d e"
  using store_runs.steps_inv [OF assms]
    store_runs.steps_relation [OF assms, of core_evolves] core_evolves_refl core_evolves_trans step_keeps(2)
  by blast+

end
