(* ===== verification/Unit_Ledger.thy ===== *)
theory Unit_Ledger
  imports Runs
begin

text \<open>
  An abstract specification of what the kernel promises of one unit of work, and the proof
  that every run of the store implements it. The abstract unit is open under a fence, held by
  one worker for one attempt under a fence, committed with a result, or closed without one;
  a claim raises the fence, and a committed or closed unit never moves again.
\<close>

section \<open>The abstract machine\<close>

datatype ledger =
    Open int
  | Held "string option \<times> ident option" int
  | Committed "ident option"
  | Closed unit_state

inductive ledger_step :: "ledger \<Rightarrow> ledger \<Rightarrow> bool" where
  claim: "f < g \<Longrightarrow> ledger_step (Open f) (Held holder g)"
| release: "ledger_step (Held holder f) (Open f)"
| commit: "ledger_step (Held holder f) (Committed result)"
| close_held: "s \<in> {U_FAILED_PERMANENT, U_SKIPPED, U_CANCELLED} \<Longrightarrow> ledger_step (Held holder f) (Closed s)"
| close_open: "s \<in> {U_FAILED_PERMANENT, U_SKIPPED, U_CANCELLED} \<Longrightarrow> ledger_step (Open f) (Closed s)"

inductive_cases ledger_stepE [elim]: "ledger_step x y"
inductive_simps ledger_step_simps [simp]:
  "ledger_step (Open f) y" "ledger_step (Held h f) y" "ledger_step (Committed r) y" "ledger_step (Closed s) y"

abbreviation ledger_path :: "ledger \<Rightarrow> ledger \<Rightarrow> bool" where
  "ledger_path \<equiv> ledger_step\<^sup>*\<^sup>*"

text \<open>What the machine promises: settled is for good, fences grow, and a fence has one holder.\<close>

lemma committed_path: "ledger_path (Committed r) y \<Longrightarrow> y = Committed r"
  by (induction rule: rtranclp_induct) auto

lemma closed_path: "ledger_path (Closed s) y \<Longrightarrow> y = Closed s"
  by (induction rule: rtranclp_induct) auto

fun ledger_fence :: "ledger \<Rightarrow> int option" where
  "ledger_fence (Open f) = Some f"
| "ledger_fence (Held _ f) = Some f"
| "ledger_fence (Committed _) = None"
| "ledger_fence (Closed _) = None"

lemma ledger_path_fence:
  "ledger_path x y \<Longrightarrow> ledger_fence x = Some f \<Longrightarrow> ledger_fence y = Some g \<Longrightarrow> f \<le> g"
proof (induction arbitrary: g rule: rtranclp_induct)
  case (step y z)
  from step(2) show ?case using step(3) [OF step(4)] step(5) by cases auto
qed simp

lemma held_path_holder:
  "ledger_path (Held h f) (Held k f) \<Longrightarrow> k = h"
proof (induction "Held k f" arbitrary: k rule: rtranclp_induct)
  case (step y)
  then obtain g where "y = Open g" "g < f" by auto
  then show ?case using ledger_path_fence [OF step(1)] by fastforce
qed simp

section \<open>The unit of the store\<close>

definition ledger_of :: "unit_row \<Rightarrow> ledger" where
  "ledger_of u =
     (if u_state u = U_COMMITTED then Committed (u_committed_result u)
      else if terminal_unit (u_state u) then Closed (u_state u)
      else if live_unit u then Held (unit_holder u) (u_fence u)
      else Open (u_fence u))"

lemma open_path_held: "f < g \<Longrightarrow> ledger_path (Open f) (Held h g)"
  by (rule r_into_rtranclp, rule claim)

lemma open_path_open: "f \<le> g \<Longrightarrow> ledger_path (Open f) (Open g)"
  using rtranclp.rtrancl_into_rtrancl [OF open_path_held release, of f g] by (cases "f = g") auto

lemma open_path_committed: "ledger_path (Open f) (Committed r)"
  by (rule rtranclp.rtrancl_into_rtrancl [OF open_path_held commit, of f "f + 1"]) simp

lemma unit_path:
  assumes ev: "unit_evolves u v" and result: "u_state u = U_COMMITTED \<Longrightarrow> u_committed_result u \<noteq> None"
  shows "ledger_path (ledger_of u) (ledger_of v)"
proof (cases "terminal_unit (u_state u)")
  case True
  then have "ledger_of v = ledger_of u"
    using ev result by (auto simp: ledger_of_def unit_evolves_def)
  then show ?thesis by simp
next
  case False
  then have opened: "ledger_path (ledger_of u) (Open (u_fence u))"
    by (auto simp: ledger_of_def TERMINAL_UNIT_STATES_def)
  have fence: "u_fence u \<le> u_fence v"
    and same: "live_unit v \<Longrightarrow> u_fence v = u_fence u \<Longrightarrow> live_unit u \<and> unit_holder v = unit_holder u"
    using ev by (auto simp: unit_evolves_def fence_evolves_def)
  consider (committed) "ledger_of v = Committed (u_committed_result v)"
    | (closed) "ledger_of v = Closed (u_state v)" "u_state v \<in> {U_FAILED_PERMANENT, U_SKIPPED, U_CANCELLED}"
    | (held) "ledger_of v = Held (unit_holder v) (u_fence v)" "live_unit v" "\<not> terminal_unit (u_state v)"
    | (opened) "ledger_of v = Open (u_fence v)"
    by (cases "u_state v") (auto simp: ledger_of_def TERMINAL_UNIT_STATES_def live_unit_def)
  then show ?thesis
  proof cases
    case committed
    then show ?thesis using rtranclp_trans [OF opened open_path_committed] by simp
  next
    case closed
    then show ?thesis using rtranclp.rtrancl_into_rtrancl [OF opened close_open] by simp
  next
    case held
    show ?thesis
    proof (cases "u_fence u = u_fence v")
      case True
      then have "ledger_of u = ledger_of v"
        using same held False by (auto simp: ledger_of_def TERMINAL_UNIT_STATES_def)
      then show ?thesis by simp
    next
      case False
      then show ?thesis using rtranclp_trans [OF opened open_path_held] held(1) fence by simp
    qed
  next
    case opened': opened
    then show ?thesis using rtranclp_trans [OF opened open_path_open [OF fence]] by simp
  qed
qed

section \<open>Runs\<close>

lemma run_units:
  assumes "store_run sha sha8 d e" and "store_ok d" and "i < length (units d)"
  shows "i < length (units e)" and "unit_evolves (units d ! i) (units e ! i)"
  using core_evolvesD(4) [OF run_keeps(2) [OF assms(1,2)]] assms(3) by (auto simp: rows_evolve_def)

lemma unit_index:
  assumes "store_run sha sha8 d e" and ok: "store_ok d" and "u \<in> set (units d)" and "v \<in> set (units e)"
    and "unit_pk v = unit_pk u"
  shows "unit_evolves u v"
proof -
  obtain i where i: "i < length (units d)" "u = units d ! i" using assms(3) by (auto simp: in_set_conv_nth)
  note r = run_units [OF assms(1) ok i(1)]
  have "distinct (map unit_pk (units e))"
    using run_keeps(1) [OF assms(1) ok] by (simp add: store_ok_def keys_ok_def)
  moreover have "unit_pk (units e ! i) = unit_pk v" using r(2) i(2) assms(5) by (auto simp: unit_evolves_def)
  ultimately have "v = units e ! i"
    using pk_unique(1) [of "units e" v "units e ! i"] assms(4) r(1) by auto
  with r(2) i(2) show ?thesis by simp
qed

end
