(* ===== verification/Lanes.thy ===== *)
theory Lanes
  imports Leasing
begin

text \<open>
  The demand for execution lanes (\<open>service_lane_demand\<close> of \<open>storage.py\<close>): a read-only hint on how many
  lanes a worker pool should open, and the memory of a database that was seen idle.
\<close>

section \<open>The candidates\<close>

definition lane_unit :: "revision_row \<Rightarrow> instant \<Rightarrow> unit_row \<Rightarrow> bool" where
  "lane_unit r current u \<longleftrightarrow>
     u_state u \<in> {U_LEASED, U_RUNNING} \<or>
     u_state u \<in> {U_PENDING, U_RETRY_WAIT} \<and> (case u_next_attempt_at u of None \<Rightarrow> True | Some t \<Rightarrow> t \<le> current) \<or>
     u_state u = U_NEEDS_ATTENTION \<and> u_manual_retry_generation u < r_manual_retry_generation r"

text \<open>The rows of the join, one for each unit, and their groups: a stage of a workload with its count.\<close>

definition lane_rows :: "db \<Rightarrow> instant \<Rightarrow> (workload_row \<times> revision_row \<times> stage_row) list" where
  "lane_rows d current = concat (map (\<lambda>w.
     if w_state w \<notin> {W_QUEUED, W_RUNNING} then []
     else case w_active_revision w of
       None \<Rightarrow> []
     | Some rid \<Rightarrow>
         (case find (revision_at (w_owner w) rid) (revisions d) of
            None \<Rightarrow> []
          | Some r \<Rightarrow> concat (map (\<lambda>u. case stage_of d u of None \<Rightarrow> [] | Some s \<Rightarrow> [(w, r, s)])
              (filter (\<lambda>u. in_revision (w_owner w) (r_id r) u \<and> lane_unit r current u) (units d))))) (workloads d))"

record lane_group =
  lg_workload :: "string \<times> ident"
  lg_stage :: ident
  lg_claims :: "(string \<times> int) list"
  lg_concurrency :: int
  lg_count :: int

definition lane_key :: "workload_row \<times> revision_row \<times> stage_row \<Rightarrow> string \<times> ident \<times> ident" where
  "lane_key row = (case row of (w, _, s) \<Rightarrow> (w_owner w, w_id w, s_id s))"

definition lane_group_of :: "(workload_row \<times> revision_row \<times> stage_row) list \<Rightarrow> workload_row \<times> revision_row \<times> stage_row \<Rightarrow> lane_group" where
  "lane_group_of rows row = (case row of (w, r, s) \<Rightarrow>
     \<lparr>lg_workload = (w_owner w, w_id w), lg_stage = s_id s, lg_claims = resource_items (s_resources s),
      lg_concurrency = b_max_concurrency (r_budgets r), lg_count = int (count_where (\<lambda>x. lane_key x = lane_key row) rows)\<rparr>)"

fun first_of_keys :: "('a \<Rightarrow> 'k) \<Rightarrow> 'a list \<Rightarrow> 'a list" where
  "first_of_keys key [] = []"
| "first_of_keys key (x # xs) = x # first_of_keys key (filter (\<lambda>y. key y \<noteq> key x) xs)"

definition lane_groups :: "db \<Rightarrow> instant \<Rightarrow> lane_group list" where
  "lane_groups d current = (let rows = lane_rows d current in map (lane_group_of rows) (first_of_keys lane_key rows))"

section \<open>The demand of the groups\<close>

definition claim_of :: "lane_group \<Rightarrow> string \<Rightarrow> int" where
  "claim_of g key = (case map_of (lg_claims g) key of None \<Rightarrow> 0 | Some n \<Rightarrow> n)"

definition claimed :: "lane_group \<Rightarrow> string list" where
  "claimed g = map fst (filter (\<lambda>(key, amount). amount > 0) (lg_claims g))"

definition bounded_group :: "(string \<times> int) list \<Rightarrow> lane_group \<Rightarrow> bool" where
  "bounded_group limits g \<longleftrightarrow> claimed g \<noteq> [] \<and> set (claimed g) \<subseteq> set (map fst limits)"

definition limit_of :: "(string \<times> int) list \<Rightarrow> string \<Rightarrow> int" where
  "limit_of limits key = (case map_of limits key of None \<Rightarrow> 0 | Some n \<Rightarrow> n)"

text \<open>\<open>min\<close> of a list that is not empty.\<close>

definition least :: "int list \<Rightarrow> int" where
  "least ns = (case ns of [] \<Rightarrow> 0 | n # rest \<Rightarrow> fold min rest n)"

definition group_slots :: "int \<Rightarrow> (string \<times> int) list \<Rightarrow> lane_group \<Rightarrow> int" where
  "group_slots limit limits g =
     (let slots = min (lg_count g) (min limit (lg_concurrency g)) in
      if bounded_group limits g then min slots (least (map (\<lambda>key. limit_of limits key div claim_of g key) (claimed g)))
      else slots)"

definition workload_slots :: "(lane_group \<Rightarrow> int) \<Rightarrow> lane_group list \<Rightarrow> string \<times> ident \<Rightarrow> int" where
  "workload_slots slots groups key =
     (let mine = filter (\<lambda>g. lg_workload g = key) groups in
      min (sum_list (map slots mine)) (lg_concurrency (last mine)))"

text \<open>One resource shared by several stages.\<close>

definition share_resource :: "(lane_group \<Rightarrow> int) \<Rightarrow> lane_group list \<Rightarrow> string \<times> int \<Rightarrow> int \<Rightarrow> int" where
  "share_resource slots groups resource demand =
     (let (key, capacity) = resource;
          amounts = map (\<lambda>g. claim_of g key) (filter (\<lambda>g. slots g \<noteq> 0 \<and> claim_of g key > 0) groups);
          non_users = sum_list (map slots (filter (\<lambda>g. claim_of g key = 0) groups))
      in if amounts = [] then demand else min demand (non_users + capacity div least amounts))"

definition lane_demand :: "int \<Rightarrow> (string \<times> int) list \<Rightarrow> lane_group list \<Rightarrow> int" where
  "lane_demand limit limits groups =
     (if int (length groups) > limit then limit
      else
        let slots = group_slots limit limits;
            total = min limit (sum_list (map (workload_slots slots groups) (remdups (map lg_workload groups))));
            shared = fold (share_resource slots groups) limits total;
            resources = remdups (concat (map claimed groups))
        in max 1 (if limits \<noteq> [] \<and> list_all (bounded_group limits) groups
                  then min shared (sum_list (map (limit_of limits) resources)) else shared))"

section \<open>The hint\<close>

definition maintenance_due :: "db \<Rightarrow> bool" where
  "maintenance_due d \<longleftrightarrow>
     exists_where (\<lambda>w. case w_active_revision w of
         None \<Rightarrow> False
       | Some rid \<Rightarrow>
           w_state w \<in> {W_ADMITTED, W_QUEUED, W_RUNNING, W_PAUSED, W_PAUSE_REQUESTED, W_CANCEL_REQUESTED} \<or>
           w_state w \<in> {W_FAILED, W_CANCELLED} \<and>
           exists_where (\<lambda>u. in_revision (w_owner w) rid u \<and>
             u_state u \<in> {U_PENDING, U_RETRY_WAIT, U_NEEDS_ATTENTION} \<and> u_active_attempt u = None) (units d)) (workloads d) \<or>
     exists_where (\<lambda>u. u_state u \<in> {U_LEASED, U_RUNNING}) (units d)"

text \<open>
  \<open>version\<close> is the pair of SQLite's \<open>data_version\<close> and \<open>total_changes\<close> at the read; \<open>idle\<close> is the version at
  which the whole database was last seen quiescent.
\<close>

definition service_lane_demand ::
  "int \<Rightarrow> (string \<times> int) list option \<Rightarrow> int \<times> int \<Rightarrow> (int \<times> int) option \<Rightarrow> db \<Rightarrow> (int \<times> (int \<times> int) option) result" where
  "service_lane_demand limit resource_limits version idle d =
     bindE (require_limit limit 32) (\<lambda>_.
     if idle = Some version then Inr (0, idle)
     else
       let candidates = take (nat (limit + 1)) (lane_groups d (utc_now d)) in
       if candidates \<noteq> []
       then Inr (lane_demand limit (case resource_limits of None \<Rightarrow> [] | Some limits \<Rightarrow> limits) candidates, None)
       else if maintenance_due d then Inr (1, None)
       else Inr (0, Some version))"

end
