(* ===== verification/Lanes_Properties.thy ===== *)
theory Lanes_Properties
  imports Lanes Lease_Properties
begin

text \<open>
  The lane hint never hides work that could run together, it stays within the pool, and a database it
  calls idle offers nothing to claim, now or at any later reading of the clock.
\<close>

section \<open>Sums over lists\<close>

lemma least_le: "n \<in> set ns \<Longrightarrow> least ns \<le> n"
proof -
  have fold: "fold min ns m \<le> m \<and> (\<forall>n \<in> set ns. fold min ns m \<le> n)" for m :: int and ns
  proof (induction ns arbitrary: m)
    case (Cons a ns)
    show ?case using Cons [of "min a m"] by auto
  qed simp
  assume "n \<in> set ns"
  then show ?thesis using fold unfolding least_def by (cases ns) auto
qed

lemma least_in: "ns \<noteq> [] \<Longrightarrow> least ns \<in> set ns"
proof -
  have fold: "fold min ns m \<in> insert m (set ns)" for m :: int and ns
    by (induction ns arbitrary: m) (auto simp: min_def)
  assume "ns \<noteq> []"
  then show ?thesis using fold unfolding least_def by (cases ns) auto
qed

lemma member_le_total: "x \<in> set xs \<Longrightarrow> \<forall>y \<in> set xs. 0 \<le> f y \<Longrightarrow> f x \<le> sum_list (map f xs)" for f :: "'a \<Rightarrow> int"
proof (induction xs)
  case (Cons y ys)
  moreover have "0 \<le> sum_list (map f ys)" using Cons.prems(2) by (intro sum_list_nonneg) auto
  ultimately show ?case by fastforce
qed simp

lemma total_le_total: "\<forall>x \<in> set xs. f x \<le> g x \<Longrightarrow> sum_list (map f xs) \<le> sum_list (map g xs)" for f g :: "'a \<Rightarrow> int"
  by (induction xs) (auto simp: add_mono)

lemma total_filter: "sum_list (map f (filter P xs)) = sum_list (map (\<lambda>x. if P x then f x else 0) xs)" for f :: "'a \<Rightarrow> int"
  by (induction xs) auto

lemma total_swap: "finite K \<Longrightarrow> sum_list (map (\<lambda>x. sum (f x) K) xs) = sum (\<lambda>k. sum_list (map (\<lambda>x. f x k) xs)) K"
  for f :: "'a \<Rightarrow> 'k \<Rightarrow> int"
  by (induction xs) (simp_all add: sum.distrib)

lemma total_by_key:
  "sum_list (map f xs) = sum_list (map (\<lambda>k. sum_list (map f (filter (\<lambda>x. key x = k) xs))) (remdups (map key xs)))"
  for f :: "'a \<Rightarrow> int"
proof -
  have "sum_list (map f xs) = sum_list (map (\<lambda>x. \<Sum>k \<in> key ` set xs. if key x = k then f x else 0) xs)"
    by (intro arg_cong [where f = sum_list] map_cong) auto
  also have "\<dots> = (\<Sum>k \<in> key ` set xs. sum_list (map (\<lambda>x. if key x = k then f x else 0) xs))"
    by (rule total_swap) simp
  also have "\<dots> = (\<Sum>k \<in> key ` set xs. sum_list (map f (filter (\<lambda>x. key x = k) xs)))"
    by (simp add: total_filter)
  finally show ?thesis by (simp add: sum_list_distinct_conv_sum_set)
qed

section \<open>What can run together\<close>

text \<open>
  A choice of how many units of each group to run at the same time: no more than there are, than the
  pool and each workload's concurrency allow, and than each bounded resource can hold.
\<close>

definition running_total :: "(lane_group \<Rightarrow> int) \<Rightarrow> lane_group list \<Rightarrow> int" where
  "running_total m groups = sum_list (map m groups)"

definition runs_together :: "int \<Rightarrow> (string \<times> int) list \<Rightarrow> lane_group list \<Rightarrow> (lane_group \<Rightarrow> int) \<Rightarrow> bool" where
  "runs_together limit limits groups m \<longleftrightarrow>
     (\<forall>g \<in> set groups. 0 \<le> m g \<and> m g \<le> lg_count g) \<and> running_total m groups \<le> limit \<and>
     (\<forall>g \<in> set groups. running_total m (filter (\<lambda>h. lg_workload h = lg_workload g) groups) \<le> lg_concurrency g) \<and>
     (\<forall>(key, capacity) \<in> set limits. running_total (\<lambda>g. m g * claim_of g key) groups \<le> capacity)"

definition claims_valid :: "lane_group list \<Rightarrow> bool" where
  "claims_valid groups \<longleftrightarrow> (\<forall>g \<in> set groups. \<forall>(key, amount) \<in> set (lg_claims g). 0 \<le> amount)"

lemma claim_nonneg: "claims_valid groups \<Longrightarrow> g \<in> set groups \<Longrightarrow> 0 \<le> claim_of g key"
  unfolding claims_valid_def claim_of_def by (fastforce split: option.split dest: map_of_SomeD)

lemma limit_of_in: "key \<in> set (map fst limits) \<Longrightarrow> (key, limit_of limits key) \<in> set limits"
  unfolding limit_of_def using map_of_eq_None_iff [of limits key] by (auto split: option.split dest: map_of_SomeD)

lemma claimed_positive:
  assumes "distinct (map fst (lg_claims g))" and "key \<in> set (claimed g)"
  shows "0 < claim_of g key"
  using assms by (auto simp: claimed_def claim_of_def map_of_is_SomeI)


lemma slots_enough:
  assumes run: "runs_together limit limits groups m" and g: "g \<in> set groups" and ok: "claims_valid groups"
    and keys: "distinct (map fst (lg_claims g))"
  shows "m g \<le> group_slots limit limits g"
proof -
  have nonneg: "\<forall>h \<in> set groups. 0 \<le> m h" and count: "m g \<le> lg_count g" using run g by (auto simp: runs_together_def)
  have "m g \<le> limit" using run member_le_total [OF g nonneg] by (auto simp: runs_together_def running_total_def)
  moreover have "m g \<le> lg_concurrency g"
    using run g member_le_total [of g "filter (\<lambda>h. lg_workload h = lg_workload g) groups" m] nonneg
    by (force simp: runs_together_def running_total_def)
  moreover have "m g \<le> least (map (\<lambda>key. limit_of limits key div claim_of g key) (claimed g))" if b: "bounded_group limits g"
  proof -
    have "m g \<le> limit_of limits key div claim_of g key" if key: "key \<in> set (claimed g)" for key
    proof -
      have pos: "0 < claim_of g key" using claimed_positive [OF keys key] .
      have "(key, limit_of limits key) \<in> set limits" using b key by (intro limit_of_in) (auto simp: bounded_group_def)
      then have "running_total (\<lambda>g. m g * claim_of g key) groups \<le> limit_of limits key"
        using run unfolding runs_together_def by blast
      moreover have "m g * claim_of g key \<le> running_total (\<lambda>g. m g * claim_of g key) groups"
        unfolding running_total_def using nonneg claim_nonneg [OF ok] by (intro member_le_total [OF g]) auto
      ultimately have "m g * claim_of g key div claim_of g key \<le> limit_of limits key div claim_of g key"
        using pos by (intro zdiv_mono1) auto
      then show ?thesis using pos by simp
    qed
    moreover have "claimed g \<noteq> []" using b by (simp add: bounded_group_def)
    ultimately show ?thesis using least_in [of "map (\<lambda>key. limit_of limits key div claim_of g key) (claimed g)"] by auto
  qed
  ultimately show ?thesis using count by (auto simp: group_slots_def Let_def)
qed

lemma workloads_enough:
  assumes run: "runs_together limit limits groups m" and slots: "\<forall>g \<in> set groups. m g \<le> slots g"
  shows "running_total m groups \<le> sum_list (map (workload_slots slots groups) (remdups (map lg_workload groups)))"
proof -
  have "sum_list (map m (filter (\<lambda>g. lg_workload g = k) groups)) \<le> workload_slots slots groups k"
    if "k \<in> set (map lg_workload groups)" for k
  proof -
    let ?mine = "filter (\<lambda>g. lg_workload g = k) groups"
    have "?mine \<noteq> []" using that by (auto simp: filter_empty_conv)
    then have "last ?mine \<in> set ?mine" by (rule last_in_set)
    then have "sum_list (map m ?mine) \<le> lg_concurrency (last ?mine)"
      using run by (auto simp: runs_together_def running_total_def)
    moreover have "sum_list (map m ?mine) \<le> sum_list (map slots ?mine)" using slots by (intro total_le_total) auto
    ultimately show ?thesis by (simp add: workload_slots_def Let_def)
  qed
  then show ?thesis unfolding running_total_def total_by_key [of m groups lg_workload] by (intro total_le_total) auto
qed

lemma share_enough:
  assumes run: "runs_together limit limits groups m" and slots: "\<forall>g \<in> set groups. m g \<le> slots g" and ok: "claims_valid groups"
    and key: "(key, capacity) \<in> set limits" and enough: "running_total m groups \<le> demand"
  shows "running_total m groups \<le> share_resource slots groups (key, capacity) demand"
proof -
  define amounts where "amounts = map (\<lambda>g. claim_of g key) (filter (\<lambda>g. slots g \<noteq> 0 \<and> claim_of g key > 0) groups)"
  have m: "\<forall>g \<in> set groups. 0 \<le> m g" using run by (auto simp: runs_together_def)
  have "running_total m groups \<le> sum_list (map slots (filter (\<lambda>g. claim_of g key = 0) groups)) + capacity div least amounts"
    if some: "amounts \<noteq> []"
  proof -
    let ?users = "\<lambda>g. if claim_of g key \<noteq> 0 then m g else 0"
    have least: "0 < least amounts" using least_in [OF some] by (auto simp: amounts_def)
    have each: "?users g * least amounts \<le> m g * claim_of g key" if g: "g \<in> set groups" for g
    proof (cases "m g = 0 \<or> claim_of g key = 0")
      case False
      then have "slots g \<noteq> 0" "0 < claim_of g key" using m slots g claim_nonneg [OF ok g, of key] by force+
      then have "least amounts \<le> claim_of g key" using g by (intro least_le) (auto simp: amounts_def)
      then show ?thesis using m g by (simp add: mult_left_mono)
    qed auto
    have "sum_list (map ?users groups) * least amounts = sum_list (map (\<lambda>g. ?users g * least amounts) groups)"
      by (induction groups) (auto simp: distrib_right)
    also have "\<dots> \<le> running_total (\<lambda>g. m g * claim_of g key) groups"
      unfolding running_total_def using each by (intro total_le_total) blast
    also have "\<dots> \<le> capacity" using run key unfolding runs_together_def by blast
    finally have "sum_list (map ?users groups) * least amounts div least amounts \<le> capacity div least amounts"
      using least by (intro zdiv_mono1) auto
    then have users: "sum_list (map ?users groups) \<le> capacity div least amounts" using least by simp
    have "running_total m groups = sum_list (map (\<lambda>g. if claim_of g key = 0 then m g else 0) groups) + sum_list (map ?users groups)"
      unfolding running_total_def by (induction groups) auto
    moreover have "sum_list (map (\<lambda>g. if claim_of g key = 0 then m g else 0) groups) \<le>
        sum_list (map slots (filter (\<lambda>g. claim_of g key = 0) groups))"
      unfolding total_filter using slots by (intro total_le_total) auto
    ultimately show ?thesis using users by simp
  qed
  then show ?thesis using enough unfolding share_resource_def Let_def amounts_def by simp
qed

lemma resources_enough:
  assumes run: "runs_together limit limits groups m" and ok: "claims_valid groups"
    and keys: "\<forall>g \<in> set groups. distinct (map fst (lg_claims g))" and all: "list_all (bounded_group limits) groups"
  shows "running_total m groups \<le> sum_list (map (limit_of limits) (remdups (concat (map claimed groups))))"
proof -
  let ?K = "set (concat (map claimed groups))"
  have m: "\<forall>g \<in> set groups. 0 \<le> m g" using run by (auto simp: runs_together_def)
  have "m g \<le> (\<Sum>k \<in> ?K. m g * claim_of g k)" if g: "g \<in> set groups" for g
  proof -
    obtain k where k: "k \<in> set (claimed g)" using all g by (fastforce simp: list_all_iff bounded_group_def)
    then have "1 \<le> claim_of g k" using claimed_positive keys g by fastforce
    then have "m g \<le> m g * claim_of g k" using m g mult_left_mono [of 1 "claim_of g k" "m g"] by simp
    also have "\<dots> \<le> (\<Sum>k \<in> ?K. m g * claim_of g k)"
      using k g m claim_nonneg [OF ok g] by (intro member_le_sum) auto
    finally show ?thesis .
  qed
  then have "running_total m groups \<le> sum_list (map (\<lambda>g. \<Sum>k \<in> ?K. m g * claim_of g k) groups)"
    unfolding running_total_def by (intro total_le_total) blast
  also have "\<dots> = (\<Sum>k \<in> ?K. running_total (\<lambda>g. m g * claim_of g k) groups)"
    unfolding running_total_def by (intro total_swap) simp
  also have "\<dots> \<le> (\<Sum>k \<in> ?K. limit_of limits k)"
  proof (intro sum_mono)
    fix k assume "k \<in> ?K"
    then have "(k, limit_of limits k) \<in> set limits" using all by (intro limit_of_in) (auto simp: list_all_iff bounded_group_def)
    then show "running_total (\<lambda>g. m g * claim_of g k) groups \<le> limit_of limits k" using run unfolding runs_together_def by blast
  qed
  finally show ?thesis by (simp add: sum_list_distinct_conv_sum_set)
qed

lemma lane_demand_enough:
  assumes run: "runs_together limit limits groups m" and ok: "claims_valid groups"
    and keys: "\<forall>g \<in> set groups. distinct (map fst (lg_claims g))"
  shows "running_total m groups \<le> lane_demand limit limits groups"
proof -
  define slots where "slots = group_slots limit limits"
  define total where "total = min limit (sum_list (map (workload_slots slots groups) (remdups (map lg_workload groups))))"
  have slots: "\<forall>g \<in> set groups. m g \<le> slots g" using slots_enough [OF run _ ok] keys by (simp add: slots_def)
  have limit: "running_total m groups \<le> limit" using run by (simp add: runs_together_def)
  then have "running_total m groups \<le> total" using workloads_enough [OF run slots] by (simp add: total_def)
  then have "running_total m groups \<le> fold (share_resource slots groups) ls total" if "set ls \<subseteq> set limits" for ls
    using that
  proof (induction ls arbitrary: total)
    case (Cons l ls)
    then show ?case using share_enough [OF run slots ok, of "fst l" "snd l"] by simp
  qed simp
  then have "running_total m groups \<le> fold (share_resource slots groups) limits total" by simp
  then show ?thesis
    using limit resources_enough [OF run ok keys] unfolding lane_demand_def Let_def slots_def [symmetric] total_def [symmetric] by auto
qed

section \<open>The hint of the store\<close>

abbreviation given_limits :: "(string \<times> int) list option \<Rightarrow> (string \<times> int) list" where
  "given_limits limits \<equiv> (case limits of None \<Rightarrow> [] | Some ls \<Rightarrow> ls)"

lemma lane_rows_parts:
  assumes "(w, r, s) \<in> set (lane_rows d current)"
  shows "w \<in> set (workloads d)" and "w_state w \<in> {W_QUEUED, W_RUNNING}" and "w_active_revision w \<noteq> None" and "s \<in> set (stages d)"
proof -
  obtain v where v: "v \<in> set (workloads d)" and row: "(w, r, s) \<in> set (if w_state v \<notin> {W_QUEUED, W_RUNNING} then []
     else case w_active_revision v of
       None \<Rightarrow> []
     | Some rid \<Rightarrow>
         (case find (revision_at (w_owner v) rid) (revisions d) of
            None \<Rightarrow> []
          | Some r \<Rightarrow> concat (map (\<lambda>u. case stage_of d u of None \<Rightarrow> [] | Some s \<Rightarrow> [(v, r, s)])
              (filter (\<lambda>u. in_revision (w_owner v) (r_id r) u \<and> lane_unit r current u) (units d)))))"
    using assms unfolding lane_rows_def set_concat set_map by blast
  have state: "w_state v \<in> {W_QUEUED, W_RUNNING}" using row by (auto split: if_split_asm)
  obtain rid where rid: "w_active_revision v = Some rid" using row state by (cases "w_active_revision v") auto
  obtain r' where r': "find (revision_at (w_owner v) rid) (revisions d) = Some r'"
    using row state rid by (cases "find (revision_at (w_owner v) rid) (revisions d)") auto
  obtain u where u: "(w, r, s) \<in> set (case stage_of d u of None \<Rightarrow> [] | Some s \<Rightarrow> [(v, r', s)])"
    using row state rid r' by auto
  then have st: "w = v" "stage_of d u = Some s" by (cases "stage_of d u"; simp)+
  then show "w \<in> set (workloads d)" "w_state w \<in> {W_QUEUED, W_RUNNING}" "w_active_revision w \<noteq> None" "s \<in> set (stages d)"
    using v state rid find_SomeD [OF st(2) [unfolded stage_of_def]] by auto
qed

lemma set_first_of_keys: "set (first_of_keys key xs) \<subseteq> set xs"
  by (induction key xs rule: first_of_keys.induct) auto

lemma first_of_keys_Nil: "first_of_keys key xs = [] \<longleftrightarrow> xs = []"
  by (cases xs) auto

lemma lane_groups_stages:
  assumes "g \<in> set (lane_groups d current)"
  shows "\<exists>s \<in> set (stages d). lg_claims g = resource_items (s_resources s)"
proof -
  obtain w r s where "(w, r, s) \<in> set (lane_rows d current)" "g = lane_group_of (lane_rows d current) (w, r, s)"
    using assms set_first_of_keys [of lane_key "lane_rows d current"] by (auto simp: lane_groups_def Let_def)
  then show ?thesis using lane_rows_parts(4) by (auto simp: lane_group_of_def)
qed

lemma share_le: "share_resource slots groups kc demand \<le> demand"
  by (cases kc) (simp add: share_resource_def Let_def)

lemma lane_demand_range:
  assumes "1 \<le> limit"
  shows "1 \<le> lane_demand limit limits groups \<and> lane_demand limit limits groups \<le> limit"
proof -
  have fold: "fold (share_resource slots groups) ls n \<le> n" for slots ls n
    by (induction ls arbitrary: n) (auto intro: order_trans share_le)
  have "fold (share_resource slots groups) limits (min limit n) \<le> limit" for slots n
    using fold [of slots limits "min limit n"] by simp
  then show ?thesis using assms unfolding lane_demand_def Let_def by (auto intro: min.coboundedI1)
qed

lemma maintenance_clock: "maintenance_due (d\<lparr>clock := t\<rparr>) = maintenance_due d"
  by (simp add: maintenance_due_def cong: option.case_cong)

text \<open>
  C36. The hint never hides work. Take any choice of runnable or running units, so many of each stage of
  each workload, that could run together: within the size of the pool, each workload's concurrency and
  the capacity of every resource the pool limits. Then the pool is told to open at least as many
  lanes; so a lane is never missing for work the scheduler could admit.
\<close>

theorem lane_demand_never_hides_work:
  assumes run: "service_lane_demand limit limits version None d = Inr (n, idle)"
    and resources: "\<forall>s \<in> set (stages d). \<forall>(key, amount) \<in> set (resource_items (s_resources s)). 0 \<le> amount"
    and together: "runs_together limit (given_limits limits) (lane_groups d (utc_now d)) m"
  shows "running_total m (lane_groups d (utc_now d)) \<le> n"
proof (cases "lane_groups d (utc_now d) = []")
  case True
  then show ?thesis using run by (auto simp: running_total_def service_lane_demand_def tx_simps split: if_split_asm)
next
  case False
  let ?gs = "lane_groups d (utc_now d)"
  have limit: "1 \<le> limit" and n: "n = lane_demand limit (given_limits limits) (take (nat (limit + 1)) ?gs)"
    using run False by (auto simp: service_lane_demand_def require_limit_def tx_simps split: if_split_asm)
  have valid: "claims_valid ?gs" and keys: "\<forall>g \<in> set ?gs. distinct (map fst (lg_claims g))"
    using lane_groups_stages [of _ d "utc_now d"] resources by (fastforce simp: claims_valid_def RESOURCE_KEYS_def)+
  show ?thesis
  proof (cases "int (length ?gs) > limit")
    case True
    then have "n = limit" using limit by (simp add: n lane_demand_def)
    then show ?thesis using together by (simp add: runs_together_def)
  next
    case False
    then have "n = lane_demand limit (given_limits limits) ?gs" by (simp add: n)
    then show ?thesis using lane_demand_enough [OF together valid keys] by simp
  qed
qed

text \<open>
  C37. An idle database is idle for good. The hint is between 0 and the size of the pool, and 0 exactly
  when the store remembers the version it read as idle. Then it stays 0 at every reading of the clock,
  so remembering it is sound, and no worker, whatever its capabilities, can claim a unit.
\<close>

theorem idle_lanes_offer_nothing:
  assumes run: "service_lane_demand limit limits version None d = Inr (n, idle)"
  shows "0 \<le> n \<and> n \<le> limit \<and> (n = 0 \<longleftrightarrow> idle = Some version) \<and>
    (n = 0 \<longrightarrow> (\<forall>t. service_lane_demand limit limits version None (d\<lparr>clock := t\<rparr>) = Inr (0, Some version)) \<and>
       (\<forall>worker now duration caps l d'. claim_next worker now duration caps d \<noteq> Inr (Some l, d')))"
proof -
  have limit: "1 \<le> limit" and checked: "require_limit limit 32 = Inr limit"
    using run by (auto simp: service_lane_demand_def require_limit_def tx_simps split: if_split_asm)
  have quiet: "\<not> maintenance_due d \<and> idle = Some version" if "n = 0"
    using run that lane_demand_range [OF limit, of "given_limits limits" "take (nat (limit + 1)) (lane_groups d (utc_now d))"]
    by (auto simp: service_lane_demand_def Let_def tx_simps split: if_split_asm)
  have active: "maintenance_due d" if w: "w \<in> set (workloads d)" "w_state w \<in> {W_QUEUED, W_RUNNING}" "w_active_revision w \<noteq> None" for w
  proof -
    obtain rid where "w_active_revision w = Some rid" using w(3) by auto
    then show ?thesis unfolding maintenance_due_def exists_where_def list_ex_iff
      by (intro disjI1, intro bexI [OF _ w(1)]) (use w(2) in auto)
  qed
  have none: "lane_rows (d\<lparr>clock := t\<rparr>) current = []" if "n = 0" for t current
  proof (rule ccontr)
    assume "lane_rows (d\<lparr>clock := t\<rparr>) current \<noteq> []"
    then obtain w r s where "(w, r, s) \<in> set (lane_rows (d\<lparr>clock := t\<rparr>) current)" by (metis last_in_set prod_cases3)
    from lane_rows_parts [OF this] have "w \<in> set (workloads d)" "w_state w \<in> {W_QUEUED, W_RUNNING}" "w_active_revision w \<noteq> None"
      by simp_all
    from active [OF this] show False using quiet [OF that] by simp
  qed
  have "claim_next worker now duration caps d \<noteq> Inr (Some l, d')" if "n = 0" for worker now duration caps l d'
  proof
    assume "claim_next worker now duration caps d = Inr (Some l, d')"
    then obtain k d1 c where promote: "promote_due_retries_in_transaction now 1000 d = Inr (k, d1)" and "choose_candidate d1 caps now = Some c"
      unfolding claim_next_def by (auto simp: tx_simps split: option.split_asm)
    then obtain w where w: "w \<in> set (workloads d1)" "workload_candidate d1 caps now w = Some c" using choose_candidateD by blast
    have "workloads d1 = workloads d" by (subst promote_due_retries_frame(1) [OF promote]) simp
    then show False using active [of w] workload_candidateD(2,3) [OF w(2)] w(1) quiet [OF that] by auto
  qed
  moreover have "service_lane_demand limit limits version None (d\<lparr>clock := t\<rparr>) = Inr (0, Some version)" if "n = 0" for t
    using none [OF that] quiet [OF that] checked
    by (simp add: service_lane_demand_def lane_groups_def maintenance_clock)
  moreover have "0 \<le> n \<and> n \<le> limit \<and> (n = 0 \<longleftrightarrow> idle = Some version)"
    using run limit lane_demand_range [OF limit, of "given_limits limits" "take (nat (limit + 1)) (lane_groups d (utc_now d))"]
    by (auto simp: service_lane_demand_def Let_def tx_simps split: if_split_asm)
  ultimately show ?thesis by blast
qed

text \<open>Two pending units of one stage that needs a processor each, in a pool of four with one processor.\<close>

theorem lane_demand_never_hides_work_witness:
  "\<exists>n idle. service_lane_demand 4 (Some [(''cpu'', 1)]) (7, 1) None (example_store W_RUNNING) = Inr (n, idle) \<and> 1 \<le> n \<and>
     running_total (\<lambda>_. 1) (lane_groups (example_store W_RUNNING) 2000) = 1"
proof -
  let ?d = "example_store W_RUNNING" and ?m = "\<lambda>_. 1 :: int"
  have now: "utc_now ?d = 2000" by code_simp
  have "succeeds_with (service_lane_demand 4 (Some [(''cpu'', 1)]) (7, 1) None ?d) (\<lambda>_. True)" by code_simp
  then obtain n idle where run: "service_lane_demand 4 (Some [(''cpu'', 1)]) (7, 1) None ?d = Inr (n, idle)"
    by (auto elim!: succeeds_withE)
  have valid: "\<forall>s \<in> set (stages ?d). \<forall>(key, amount) \<in> set (resource_items (s_resources s)). 0 \<le> amount" by code_simp
  have total: "running_total ?m (lane_groups ?d 2000) = 1" by code_simp
  have "runs_together 4 (given_limits (Some [(''cpu'', 1)])) (lane_groups ?d 2000) ?m" by code_simp
  then show ?thesis using lane_demand_never_hides_work [OF run valid, of ?m] run total by (auto simp: now)
qed

theorem idle_lanes_offer_nothing_witness:
  "\<exists>n idle. service_lane_demand 4 None (7, 1) None (empty_store 0) = Inr (n, idle) \<and> n = 0 \<and> idle = Some (7, 1)"
proof -
  have "succeeds_with (service_lane_demand 4 None (7, 1) None (empty_store 0)) (\<lambda>(n, _). n = 0)" by code_simp
  then obtain n idle where run: "service_lane_demand 4 None (7, 1) None (empty_store 0) = Inr (n, idle)" and "n = 0"
    by (auto elim!: succeeds_withE)
  then show ?thesis using idle_lanes_offer_nothing [OF run] by blast
qed

end
