(* ===== verification/Purge.thy ===== *)
theory Purge
  imports Workload_Properties
begin

text \<open>
  The deletion of an owner (\<open>purge_owner\<close> of \<open>storage.py\<close>). It is the one operation of the kernel that
  deletes history, so it is not a step of the runs; it keeps the invariant of the store and leaves every
  other owner's rows as they are.
\<close>

section \<open>The deletion\<close>

text \<open>
  \<open>DELETE FROM workloads WHERE owner_user_id = ?\<close> with the foreign keys of \<open>migrations.py\<close>: every table
  references, directly or through others, the workload of the same owner, with \<open>ON DELETE CASCADE\<close>.
\<close>

definition keep_owners :: "(string \<Rightarrow> bool) \<Rightarrow> db \<Rightarrow> db" where
  "keep_owners P d =
     d\<lparr>workloads := filter (\<lambda>r. P (w_owner r)) (workloads d),
       revisions := filter (\<lambda>r. P (r_owner r)) (revisions d),
       stages := filter (\<lambda>r. P (s_owner r)) (stages d),
       stage_dependencies := filter (\<lambda>r. P (sd_owner r)) (stage_dependencies d),
       sources := filter (\<lambda>r. P (src_owner r)) (sources d),
       stage_placements := filter (\<lambda>r. P (pm_owner r)) (stage_placements d),
       units := filter (\<lambda>r. P (u_owner r)) (units d),
       attempts := filter (\<lambda>r. P (a_owner r)) (attempts d),
       results := filter (\<lambda>r. P (x_owner r)) (results d),
       unit_dependencies := filter (\<lambda>r. P (ud_owner r)) (unit_dependencies d),
       dependencies := filter (\<lambda>r. P (d_owner r)) (dependencies d),
       artifacts := filter (\<lambda>r. P (art_owner r)) (artifacts d),
       publications := filter (\<lambda>r. P (pub_owner r)) (publications d),
       events := filter (\<lambda>r. P (e_owner r)) (events d),
       outbox := filter (\<lambda>r. P (o_owner r)) (outbox d),
       scheduler_credits := filter (\<lambda>r. P (c_owner r)) (scheduler_credits d),
       commands := filter (\<lambda>r. P (k_owner r)) (commands d),
       attention_resolutions := filter (\<lambda>r. P (n_owner r)) (attention_resolutions d),
       workload_dismissals := filter (\<lambda>r. P (dm_owner r)) (workload_dismissals d),
       revision_usage := filter (\<lambda>r. P (us_owner r)) (revision_usage d),
       stage_materialization := filter (\<lambda>r. P (m_owner r)) (stage_materialization d),
       temporary_storage := filter (\<lambda>r. P (ts_owner r)) (temporary_storage d)\<rparr>"

definition delete_workloads_of :: "string \<Rightarrow> db \<Rightarrow> db" where
  "delete_workloads_of owner d = keep_owners (\<lambda>other. other \<noteq> owner) d"

text \<open>The tables whose residue is counted, each as the owners of its rows, in the order of the code.\<close>

definition purged_tables :: "db \<Rightarrow> string list list" where
  "purged_tables d =
     [map w_owner (workloads d), map r_owner (revisions d), map s_owner (stages d), map pm_owner (stage_placements d),
      map sd_owner (stage_dependencies d), map m_owner (stage_materialization d), map us_owner (revision_usage d),
      map src_owner (sources d), map u_owner (units d), map a_owner (attempts d), map x_owner (results d),
      map ud_owner (unit_dependencies d), map d_owner (dependencies d), map art_owner (artifacts d),
      map pub_owner (publications d), map e_owner (events d), map o_owner (outbox d), map c_owner (scheduler_credits d),
      map k_owner (commands d), map n_owner (attention_resolutions d), map dm_owner (workload_dismissals d)]"

definition purge_owner :: "string \<Rightarrow> db \<Rightarrow> (nat \<times> db) result" where
  "purge_owner owner_user_id d =
     bindE (require_owner owner_user_id) (\<lambda>owner.
     let d' = delete_workloads_of owner d in
     if list_ex (\<lambda>table. count_where (\<lambda>other. other = owner) table \<noteq> 0) (purged_tables d')
     then Inl (DurableStoreError ''owner purge left rows'')
     else Inr (count_where (\<lambda>w. w_owner w = owner) (workloads d), d'))"

section \<open>What it keeps\<close>

lemma purged_tables_clean: "table \<in> set (purged_tables (delete_workloads_of owner d)) \<Longrightarrow> owner \<notin> set table"
  by (auto simp: purged_tables_def delete_workloads_of_def keep_owners_def)

lemma delete_workloads_ok:
  assumes "store_ok d"
  shows "store_ok (delete_workloads_of owner d)" (is "store_ok ?e")
proof -
  have "keys_ok ?e" using assms by (auto simp: store_ok_def keys_ok_def delete_workloads_of_def keep_owners_def intro: distinct_map_filter)
  moreover have "active_ok ?e"
    using assms unfolding store_ok_def active_ok_def active_revision_ok_def delete_workloads_of_def keep_owners_def
    by (fastforce simp: revision_at_def usage_at_def split: option.splits)
  moreover have "outbox_indexes_ok (outbox ?e)"
    using assms outbox_indexes_filter by (simp add: store_ok_def delete_workloads_of_def keep_owners_def)
  moreover have "events_ok (workloads ?e) (events ?e)"
  proof -
    have "filter (event_of w) (filter (\<lambda>e. e_owner e \<noteq> owner) (events d)) = filter (event_of w) (events d)" if "w_owner w \<noteq> owner" for w
      using that by (auto simp: event_of_def intro!: filter_cong)
    then show ?thesis
      using assms by (auto simp: store_ok_def events_ok_def event_ids_ok_def delete_workloads_of_def keep_owners_def event_of_def)
  qed
  moreover have "attempts_ok (attempts ?e)" using assms by (simp add: store_ok_def attempts_ok_def delete_workloads_of_def keep_owners_def)
  moreover have "leases_ok (units ?e) (attempts ?e)"
  proof -
    have ok: "leases_ok (units d) (attempts d)" using assms by (simp add: store_ok_def)
    have "idle_unit u \<or> (u_lease_expires_at u \<noteq> None \<and> (\<exists>a \<in> set (attempts ?e). attempt_of u a \<and> leased_alike u a))"
      if "u \<in> set (units ?e)" for u
      using leases_okD(1) [OF ok, of u] that by (fastforce simp: delete_workloads_of_def keep_owners_def attempt_of_def)
    moreover have "\<exists>u \<in> set (units ?e). live_unit u \<and> attempt_of u a" if "a \<in> set (attempts ?e)" "live_attempt a" for a
      using leases_okD(2) [OF ok, of a] that by (fastforce simp: delete_workloads_of_def keep_owners_def attempt_of_def)
    moreover have "\<exists>u \<in> set (units ?e). attempt_within u a" if "a \<in> set (attempts ?e)" for a
      using leases_okD(3) [OF ok, of a] that by (fastforce simp: delete_workloads_of_def keep_owners_def attempt_within_def)
    ultimately show ?thesis unfolding leases_ok_def by blast
  qed
  moreover have "results_ok (units ?e) (results ?e)"
    using assms unfolding store_ok_def results_ok_def delete_workloads_of_def keep_owners_def by fastforce
  ultimately show ?thesis by (simp add: store_ok_def)
qed

lemma keep_owners_twice: "keep_owners P (keep_owners Q d) = keep_owners (\<lambda>owner. P owner \<and> Q owner) d"
  by (simp add: keep_owners_def conj_commute)

lemma purge_owner_run:
  assumes "require_owner owner = Inr owner"
  shows "purge_owner owner d = Inr (count_where (\<lambda>w. w_owner w = owner) (workloads d), delete_workloads_of owner d)"
proof -
  have "\<not> list_ex (\<lambda>table. count_where (\<lambda>other. other = owner) table \<noteq> 0) (purged_tables (delete_workloads_of owner d))"
    using purged_tables_clean by (fastforce simp: list_ex_iff count_where_zero)
  then show ?thesis using assms by (simp add: purge_owner_def Let_def)
qed



end
