(* ===== verification/Reading.thy ===== *)
theory Reading
  imports Admission Workload_Properties
begin

text \<open>
  The owner-scoped readers of \<open>storage.py\<close>: events by cursor, the newest events, one event, a revision
  and pages of units. Reading events from the last one seen misses nothing and repeats nothing.
\<close>

section \<open>Events\<close>

definition events_of :: "string \<Rightarrow> ident \<Rightarrow> db \<Rightarrow> event_row list" where
  "events_of owner workload_id d = filter (\<lambda>e. e_owner e = owner \<and> e_workload e = workload_id) (events d)"

definition list_events :: "string \<Rightarrow> ident \<Rightarrow> int \<Rightarrow> int \<Rightarrow> db \<Rightarrow> (event_row list) result" where
  "list_events owner_user_id workload_id after_event_id limit d =
     bindE (require_owner owner_user_id) (\<lambda>owner.
     if after_event_id < 0 then Inl ValueError else
     bindE (require_limit limit 500) (\<lambda>_.
     bindE (select_workload d owner workload_id) (\<lambda>_.
     Inr (order_limit e_id (nat limit) (filter (\<lambda>e. after_event_id < e_id e) (events_of owner workload_id d))))))"

definition list_recent_events :: "string \<Rightarrow> ident \<Rightarrow> int \<Rightarrow> db \<Rightarrow> (event_row list) result" where
  "list_recent_events owner_user_id workload_id limit d =
     bindE (require_owner owner_user_id) (\<lambda>owner.
     bindE (require_limit limit 500) (\<lambda>_.
     bindE (select_workload d owner workload_id) (\<lambda>_.
     Inr (rev (take (nat limit) (rev (sort_key e_id (events_of owner workload_id d))))))))"

definition get_event :: "string \<Rightarrow> ident \<Rightarrow> int \<Rightarrow> db \<Rightarrow> event_row result" where
  "get_event owner_user_id workload_id event_id d =
     bindE (require_owner owner_user_id) (\<lambda>owner.
     if event_id < 1 then Inl ValueError
     else optE (find (\<lambda>e. e_id e = event_id) (events_of owner workload_id d)) WorkloadNotFoundError)"

section \<open>Revisions and units\<close>

definition get_revision :: "string \<Rightarrow> ident \<Rightarrow> db \<Rightarrow> revision_record result" where
  "get_revision owner_user_id revision_id d =
     bindE (require_owner owner_user_id) (\<lambda>owner.
     bindE (optE (find (revision_at owner revision_id) (revisions d)) RevisionNotFoundError) (\<lambda>r.
     Inr (row_to_revision r)))"

record unit_read_record =
  ur_owner_user_id :: string
  ur_unit_id :: ident
  ur_revision_id :: ident
  ur_stage_key :: string
  ur_state :: unit_state
  ur_attempt_count :: int
  ur_next_attempt_at :: "instant option"
  ur_error_class :: "string option"
  ur_updated_at :: instant

definition unit_read_of :: "db \<Rightarrow> unit_row \<Rightarrow> unit_read_record list" where
  "unit_read_of d u =
     (case find (\<lambda>s. s_owner s = u_owner u \<and> s_id s = u_stage u) (stages d) of
        None \<Rightarrow> []
      | Some s \<Rightarrow> [\<lparr>ur_owner_user_id = u_owner u, ur_unit_id = u_id u, ur_revision_id = u_revision u, ur_stage_key = s_key s,
          ur_state = u_state u, ur_attempt_count = u_attempt_count u, ur_next_attempt_at = u_next_attempt_at u,
          ur_error_class = u_error_class u, ur_updated_at = u_updated_at u\<rparr>])"

text \<open>A page in the order of update time and identifier, both descending, after a cursor.\<close>

definition before_cursor :: "(instant \<times> ident) option \<Rightarrow> unit_read_record \<Rightarrow> bool" where
  "before_cursor before u \<longleftrightarrow> (case before of None \<Rightarrow> True
     | Some (t, i) \<Rightarrow> ur_updated_at u < t \<or> ur_updated_at u = t \<and> ur_unit_id u < i)"

definition unit_page_key :: "unit_read_record \<Rightarrow> instant \<times> ident" where
  "unit_page_key u = (ur_updated_at u, ur_unit_id u)"

definition list_units ::
  "string \<Rightarrow> ident \<Rightarrow> unit_state option \<Rightarrow> (instant \<times> ident) option \<Rightarrow> int \<Rightarrow> db \<Rightarrow> (unit_read_record list) result" where
  "list_units owner_user_id workload_id state before limit d =
     bindE (require_owner owner_user_id) (\<lambda>owner.
     bindE (require_limit limit 200) (\<lambda>_.
     bindE (select_workload d owner workload_id) (\<lambda>w.
     case w_active_revision w of
       None \<Rightarrow> Inr []
     | Some revision_id \<Rightarrow>
         if (case before of None \<Rightarrow> False | Some (_, i) \<Rightarrow> i = []) then Inl ValueError else
         let rows = concat (map (unit_read_of d) (filter (in_revision owner revision_id) (units d)));
             page = filter (\<lambda>u. (case state of None \<Rightarrow> True | Some s \<Rightarrow> ur_state u = s) \<and> before_cursor before u) rows
         in Inr (take (nat limit) (rev (sort_key unit_page_key page))))))"

section \<open>Windows of events\<close>

lemma events_numbered:
  assumes "store_ok d" and "find (workload_at owner wid) (workloads d) = Some w"
  shows "map e_id (events_of owner wid d) = [1..w_next_event_id w - 1]" and "1 \<le> w_next_event_id w"
proof -
  have w: "w \<in> set (workloads d)" "w_owner w = owner" "w_id w = wid" using find_SomeD [OF assms(2)] by (auto simp: workload_at_def)
  have "event_of w = (\<lambda>e. e_owner e = owner \<and> e_workload e = wid)" by (simp add: event_of_def w fun_eq_iff)
  then show "map e_id (events_of owner wid d) = [1..w_next_event_id w - 1]" "1 \<le> w_next_event_id w"
    using assms(1) w(1) by (auto simp: store_ok_def events_ok_def event_ids_ok_def events_of_def)
qed

lemma filter_after: "0 \<le> a \<Longrightarrow> filter (\<lambda>n. a < n) [1..m] = [a + 1..m]" for a m :: int
  by (rule sorted_distinct_set_unique) (auto simp: sorted_wrt_filter)

lemma take_upto: "take n [a..m] = [a..min m (a + int n - 1)]" for a m :: int
proof (induction n arbitrary: a)
  case (Suc n)
  show ?case
  proof (cases "a \<le> m")
    case True
    then show ?thesis using Suc [of "a + 1"] upto_rec1 [of a m] upto_rec1 [of a "min m (a + int (Suc n) - 1)"]
      by (auto simp: algebra_simps)
  qed simp
qed simp

lemma drop_upto: "drop n [a..m] = [a + int n..m]" for a m :: int
proof (induction n arbitrary: a)
  case (Suc n)
  show ?case using Suc [of "a + 1"] upto_rec1 [of a m] by (cases "a \<le> m") (simp_all add: algebra_simps)
qed simp

lemma list_events_window:
  assumes ok: "store_ok d" and w: "find (workload_at owner wid) (workloads d) = Some w"
    and run: "list_events owner wid after limit d = Inr page"
  shows "set page \<subseteq> set (events_of owner wid d)"
    and "map e_id page = [after + 1..min (w_next_event_id w - 1) (after + limit)]"
proof -
  have a: "0 \<le> after" and limit: "1 \<le> limit"
    and page: "page = order_limit e_id (nat limit) (filter (\<lambda>e. after < e_id e) (events_of owner wid d))"
    using run unfolding list_events_def require_owner_def require_limit_def by (auto simp: tx_simps split: if_split_asm)
  let ?later = "filter (\<lambda>e. after < e_id e) (events_of owner wid d)"
  have ids: "map e_id ?later = [after + 1..w_next_event_id w - 1]"
    unfolding filter_after [OF a, symmetric] events_numbered(1) [OF ok w, symmetric] by (simp add: filter_map comp_def)
  then have "sorted (map e_id ?later)" by simp
  then have "page = take (nat limit) ?later" by (simp add: page order_limit_def sort_key_id_if_sorted)
  then show "set page \<subseteq> set (events_of owner wid d)" "map e_id page = [after + 1..min (w_next_event_id w - 1) (after + limit)]"
    using ids take_upto [of "nat limit" "after + 1" "w_next_event_id w - 1"] limit set_take_subset [of "nat limit" ?later]
    by (auto simp: take_map [symmetric] algebra_simps)
qed

text \<open>
  C39. Events can be followed without gaps. Reading after the last event seen returns the events with
  the next consecutive numbers, as many as asked for or all there are, and nothing else; the window of
  the newest events is the tail of the same sequence; and each number that was handed out reads back
  as the event of that number.
\<close>

theorem event_windows_exact:
  assumes ok: "store_ok d" and w: "find (workload_at owner wid) (workloads d) = Some w"
    and run: "list_events owner wid after limit d = Inr page" and recent: "list_recent_events owner wid m d = Inr tail"
  shows "map e_id page = [after + 1..min (w_next_event_id w - 1) (after + limit)] \<and>
    map e_id tail = [max 1 (w_next_event_id w - m)..w_next_event_id w - 1] \<and>
    (\<forall>e \<in> set page \<union> set tail. get_event owner wid (e_id e) d = Inr e)"
proof -
  let ?es = "events_of owner wid d"
  have owner: "require_owner owner = Inr owner" and m: "1 \<le> m" and tail: "tail = rev (take (nat m) (rev (sort_key e_id ?es)))"
    using recent unfolding list_recent_events_def require_limit_def require_owner_def by (auto simp: tx_simps split: if_split_asm)
  note ids = events_numbered [OF ok w]
  have sorted: "sorted (map e_id ?es)" and inj: "distinct (map e_id ?es)" unfolding ids by simp_all
  have tail: "tail = drop (length ?es - nat m) ?es"
    using sorted by (simp add: tail sort_key_id_if_sorted take_rev)
  have len: "int (length ?es) = w_next_event_id w - 1"
    using ids(2) arg_cong [OF ids(1), of length] by simp
  have "map e_id tail = [max 1 (w_next_event_id w - m)..w_next_event_id w - 1]"
    unfolding tail drop_map [symmetric] ids(1) drop_upto using len m ids(2) by (simp add: nat_diff_distrib max_def)
  moreover have "get_event owner wid (e_id e) d = Inr e" if "e \<in> set ?es" for e
  proof -
    have "e_id e \<in> set [1..w_next_event_id w - 1]" using that unfolding ids(1) [symmetric] by simp
    moreover have "find (\<lambda>x. e_id x = e_id e) ?es = Some e" using find_distinct_key [OF inj that] .
    ultimately show ?thesis using owner by (simp add: get_event_def)
  qed
  moreover have "set tail \<subseteq> set ?es" unfolding tail by (rule set_drop_subset)
  ultimately show ?thesis using list_events_window [OF ok w run] by blast
qed

definition example_history :: db where
  "example_history = (empty_store 2000)\<lparr>workloads := [example_workload\<lparr>w_next_event_id := 4\<rparr>],
     events := map (\<lambda>i. \<lparr>e_owner = ''owner'', e_workload = ''wkl_00000001'', e_id = i, e_type = Ev_RUNNING, e_payload = [],
       e_created_at = 1000\<rparr>) [1, 2, 3]\<rparr>"

theorem event_windows_exact_witness:
  "\<exists>page tail. list_events ''owner'' ''wkl_00000001'' 1 1 example_history = Inr page \<and>
     list_recent_events ''owner'' ''wkl_00000001'' 2 example_history = Inr tail \<and> map e_id page = [2] \<and> map e_id tail = [2, 3]"
proof -
  have ok: "store_ok example_history" by code_simp
  have w: "find (workload_at ''owner'' ''wkl_00000001'') (workloads example_history) = Some (example_workload\<lparr>w_next_event_id := 4\<rparr>)"
    by (simp add: example_history_def example_workload_def draft_row_def workload_at_def)
  have "succeeds_with (list_events ''owner'' ''wkl_00000001'' 1 1 example_history) (\<lambda>_. True)"
    and "succeeds_with (list_recent_events ''owner'' ''wkl_00000001'' 2 example_history) (\<lambda>_. True)" by code_simp+
  then obtain page tail where run: "list_events ''owner'' ''wkl_00000001'' 1 1 example_history = Inr page"
    and recent: "list_recent_events ''owner'' ''wkl_00000001'' 2 example_history = Inr tail"
    by (auto elim!: succeeds_withE)
  have "[1 + 1..min (4 - 1) (1 + 1)] = [2 :: int]" "[max 1 (4 - 2)..4 - 1] = [2, 3 :: int]" by code_simp+
  then show ?thesis using event_windows_exact [OF ok w run recent] run recent by simp
qed

end
