(* ===== verification/Delivery.thy ===== *)
theory Delivery
  imports Reading
begin

text \<open>
  The delivery of notices (\<open>TelegramOutboxAdapter\<close> of \<open>events.py\<close>): one leased row at a time, the
  recipient resolved now, the start of the delivery marked before the provider is called, and
  whatever the provider leaves open never repeated. The handling of a row is a machine with one move
  for each call the code makes, so that several adapters can be interleaved call by call, and one
  may stop between any two calls. The resolvers, the message catalog and the provider are
  parameters; whatever they do is a value, an exception included.
\<close>

section \<open>The boundary\<close>

datatype send_outcome = Send_raises | Send_other | Send_reply jobj

record delivery_send =
  sn_owner :: string
  sn_outbox :: ident
  sn_fence :: int
  sn_recipient :: string
  sn_text :: string
  sn_outcome :: send_outcome

text \<open>
  \<open>de_recipient\<close>, \<open>de_language\<close> and \<open>de_message\<close> are the resolvers and the message catalog, which may raise;
  \<open>de_send\<close> is what the provider does with a text for a recipient, after the calls it saw before.
\<close>

record delivery_env =
  de_recipient :: "string \<Rightarrow> string option result"
  de_language :: "string \<Rightarrow> string option result"
  de_message :: "string \<Rightarrow> string result"
  de_send :: "delivery_send list \<Rightarrow> string \<Rightarrow> string \<Rightarrow> send_outcome"
  de_retry_delay :: int
  de_max_retry_delay :: int
  de_max_attempts :: int

definition adapter_ok :: "delivery_env \<Rightarrow> bool" where
  "adapter_ok env \<longleftrightarrow>
     0 \<le> de_retry_delay env \<and> de_retry_delay env \<le> 24 * 3600 * micros_per_second \<and>
     de_retry_delay env \<le> de_max_retry_delay env \<and> de_max_retry_delay env \<le> 7 * 24 * 3600 * micros_per_second \<and>
     1 \<le> de_max_attempts env \<and> de_max_attempts env \<le> 100"

definition telegram_message_key :: "event_type \<Rightarrow> string option" where
  "telegram_message_key t =
     (case t of
        Ev_REVISION_ADMITTED \<Rightarrow> Some ''MSG_DURABLE_WORKLOAD_ADMITTED''
      | Ev_NEEDS_ATTENTION \<Rightarrow> Some ''MSG_DURABLE_WORKLOAD_NEEDS_ATTENTION''
      | Ev_FAILED \<Rightarrow> Some ''MSG_DURABLE_WORKLOAD_FAILED''
      | Ev_COMPLETED \<Rightarrow> Some ''MSG_DURABLE_WORKLOAD_COMPLETED''
      | Ev_COMPLETED_WITH_ERRORS \<Rightarrow> Some ''MSG_DURABLE_WORKLOAD_COMPLETED_WITH_ERRORS''
      | _ \<Rightarrow> None)"

definition terminal_notice :: "delivery_env \<Rightarrow> event_row \<Rightarrow> string option result" where
  "terminal_notice env e =
     (case telegram_message_key (e_type e) of
        None \<Rightarrow> Inr None
      | Some key \<Rightarrow> bindE (de_message env key) (\<lambda>text. Inr (Some text)))"

text \<open>The receipt kept for audit: at most the number of the provider's message.\<close>

definition delivery_ack :: "jobj \<Rightarrow> jobj" where
  "delivery_ack reply =
     (let raw = (case jget reply ''result'' of Some (JObj r) \<Rightarrow> jget r ''message_id'' | _ \<Rightarrow> jget reply ''message_id'')
      in case raw of
        Some (JInt n) \<Rightarrow> if 0 \<le> n then [(''delivery'', JStr ''sent''), (''provider_message_id'', JInt n)]
                        else [(''delivery'', JStr ''sent'')]
      | _ \<Rightarrow> [(''delivery'', JStr ''sent'')])"

section \<open>The handling of a row\<close>

text \<open>Where an exception goes: out of the batch, or to the handler, which asks whether the delivery had started.\<close>

datatype guard = Unguarded | Guarded bool

datatype disposition = D_SENT | D_DEFERRED | D_CANCELLED

datatype phase =
    P_RESOLVE
  | P_NOTICE string
  | P_SEND string string
  | P_CONFIRM jobj
  | P_RETRY guard
  | P_CANCEL string guard
  | P_DONE disposition
  | P_RAISED durable_error

definition on_error :: "guard \<Rightarrow> durable_error \<Rightarrow> phase" where
  "on_error g e = (case g of Unguarded \<Rightarrow> P_RAISED e
     | Guarded True \<Rightarrow> P_CANCEL ''delivery_ambiguous'' Unguarded
     | Guarded False \<Rightarrow> P_RETRY Unguarded)"

record agent =
  ag_worker :: string
  ag_now :: instant
  ag_record :: outbox_record
  ag_phase :: phase

definition retry_delay :: "delivery_env \<Rightarrow> outbox_record \<Rightarrow> int" where
  "retry_delay env rec =
     (let exponent = min (max (ob_attempt_count rec - 1) 0) 30
      in min (de_retry_delay env * 2 ^ nat exponent) (de_max_retry_delay env))"

text \<open>\<open>_retry_or_cancel\<close>; a release reports nothing of its compare-and-set.\<close>

definition retry_or_cancel :: "delivery_env \<Rightarrow> agent \<Rightarrow> db \<Rightarrow> (disposition \<times> db) result" where
  "retry_or_cancel env a d =
     (let rec = ag_record a in
      if ob_attempt_count rec \<ge> de_max_attempts env
      then bindE (cancel_outbox rec (ag_worker a) ''retry_exhausted'' (Some (ag_now a)) d) (\<lambda>(cancelled, d').
        Inr (if cancelled then D_CANCELLED else D_DEFERRED, d'))
      else bindE (release_outbox rec (ag_worker a) (Some (ag_now a + retry_delay env rec)) (Some (ag_now a)) d) (\<lambda>(_, d').
        Inr (D_DEFERRED, d')))"

text \<open>What follows the provider's answer.\<close>

definition after_send :: "send_outcome \<Rightarrow> phase" where
  "after_send out =
     (case out of
        Send_reply reply \<Rightarrow>
          if jget reply ''ok'' = Some (JBool True) then P_CONFIRM (delivery_ack reply)
          else if jget reply ''delivery_ambiguous'' = Some (JBool True) then P_CANCEL ''delivery_ambiguous'' (Guarded True)
          else if jget reply ''retryable'' = Some (JBool False) then P_CANCEL ''provider_rejected'' (Guarded True)
          else if jget reply ''delivery_ambiguous'' = Some (JBool False) then P_RETRY (Guarded True)
          else P_CANCEL ''delivery_ambiguous'' (Guarded True)
      | _ \<Rightarrow> P_CANCEL ''delivery_ambiguous'' (Guarded True))"

text \<open>The notice for the event, and the mark before the send.\<close>

definition notice_move :: "delivery_env \<Rightarrow> agent \<Rightarrow> string \<Rightarrow> db \<Rightarrow> (phase \<times> db) result" where
  "notice_move env a recipient d =
     (let rec = ag_record a in
      bindE (get_event (ob_owner_user_id rec) (ob_workload_id rec) (ob_event_id rec) d) (\<lambda>e.
      bindE (de_language env (ob_owner_user_id rec)) (\<lambda>_.
      bindE (terminal_notice env e) (\<lambda>notice.
      case notice of
        None \<Rightarrow> Inr (P_CANCEL ''event_not_supported'' (Guarded False), d)
      | Some text \<Rightarrow>
          bindE (mark_outbox_delivery_started rec (ag_worker a) (Some (ag_now a)) d) (\<lambda>(marked, d').
          Inr (if marked then P_SEND recipient text else P_DONE D_DEFERRED, d'))))))"

definition send_of :: "agent \<Rightarrow> string \<Rightarrow> string \<Rightarrow> send_outcome \<Rightarrow> delivery_send" where
  "send_of a recipient text out =
     \<lparr>sn_owner = ob_owner_user_id (ag_record a), sn_outbox = ob_outbox_id (ag_record a), sn_fence = ob_fence (ag_record a),
      sn_recipient = recipient, sn_text = text, sn_outcome = out\<rparr>"

text \<open>A call to the store: its phase, or where the exception goes, with the database as it was.\<close>

definition stored :: "guard \<Rightarrow> agent \<Rightarrow> db \<Rightarrow> delivery_send list \<Rightarrow> (phase \<times> db) result \<Rightarrow> agent \<times> db \<times> delivery_send list" where
  "stored g a d log r =
     (case r of
        Inl e \<Rightarrow> (a\<lparr>ag_phase := on_error g e\<rparr>, d, log)
      | Inr (p, d') \<Rightarrow> (a\<lparr>ag_phase := p\<rparr>, d', log))"

definition delivery_move :: "delivery_env \<Rightarrow> agent \<Rightarrow> db \<Rightarrow> delivery_send list \<Rightarrow> agent \<times> db \<times> delivery_send list" where
  "delivery_move env a d log =
     (case ag_phase a of
        P_RESOLVE \<Rightarrow>
          (case de_recipient env (ob_owner_user_id (ag_record a)) of
             Inl _ \<Rightarrow> (a\<lparr>ag_phase := P_RETRY Unguarded\<rparr>, d, log)
           | Inr None \<Rightarrow> (a\<lparr>ag_phase := P_CANCEL ''recipient_unavailable'' Unguarded\<rparr>, d, log)
           | Inr (Some r) \<Rightarrow>
               (a\<lparr>ag_phase := if r = [] then P_CANCEL ''recipient_unavailable'' Unguarded else P_NOTICE r\<rparr>, d, log))
      | P_NOTICE r \<Rightarrow> stored (Guarded False) a d log (notice_move env a r d)
      | P_SEND r text \<Rightarrow>
          let out = de_send env log r text in (a\<lparr>ag_phase := after_send out\<rparr>, d, log @ [send_of a r text out])
      | P_CONFIRM ack \<Rightarrow> stored (Guarded True) a d log
          (bindE (confirm_outbox (ag_record a) (ag_worker a) (Some ack) (Some (ag_now a)) d) (\<lambda>(confirmed, d').
           Inr (P_DONE (if confirmed then D_SENT else D_DEFERRED), d')))
      | P_RETRY g \<Rightarrow> stored g a d log (bindE (retry_or_cancel env a d) (\<lambda>(disp, d'). Inr (P_DONE disp, d')))
      | P_CANCEL reason g \<Rightarrow> stored g a d log
          (bindE (cancel_outbox (ag_record a) (ag_worker a) reason (Some (ag_now a)) d) (\<lambda>(cancelled, d').
           Inr (P_DONE (if cancelled then D_CANCELLED else D_DEFERRED), d')))
      | P_DONE _ \<Rightarrow> (a, d, log)
      | P_RAISED _ \<Rightarrow> (a, d, log))"

section \<open>A batch\<close>

fun moves_left :: "phase \<Rightarrow> nat" where
  "moves_left P_RESOLVE = 6"
| "moves_left (P_NOTICE r) = 5"
| "moves_left (P_SEND r text) = 4"
| "moves_left (P_CONFIRM ack) = 3"
| "moves_left (P_RETRY (Guarded s)) = 2"
| "moves_left (P_RETRY Unguarded) = 1"
| "moves_left (P_CANCEL reason (Guarded s)) = 2"
| "moves_left (P_CANCEL reason Unguarded) = 1"
| "moves_left (P_DONE disp) = 0"
| "moves_left (P_RAISED e) = 0"

lemma on_error_left: "moves_left (on_error (Guarded s) e) = 1" "moves_left (on_error Unguarded e) = 0"
  by (cases s; simp add: on_error_def)+

lemma after_send_left: "moves_left (after_send out) < 4"
  by (simp add: after_send_def split: send_outcome.split)

lemma notice_move_cases:
  assumes "notice_move env a r d = Inr (p, d')"
  obtains "p = P_CANCEL ''event_not_supported'' (Guarded False)" and "d' = d"
  | notice marked where "mark_outbox_delivery_started (ag_record a) (ag_worker a) (Some (ag_now a)) d = Inr (marked, d')"
    and "p = (if marked then P_SEND r notice else P_DONE D_DEFERRED)"
  using assms unfolding notice_move_def Let_def tx_simps
  by (elim exE conjE) (auto simp: tx_simps split: option.split_asm)

lemma delivery_move_left:
  assumes "0 < moves_left (ag_phase a)" and "delivery_move env a d log = (a', d', log')"
  shows "moves_left (ag_phase a') < moves_left (ag_phase a)"
proof (cases "ag_phase a")
  case (P_NOTICE r)
  show ?thesis
  proof (cases "notice_move env a r d")
    case (Inr v)
    obtain p e where run: "notice_move env a r d = Inr (p, e)" using Inr by (cases v) simp
    then show ?thesis
      by (cases rule: notice_move_cases) (use assms P_NOTICE run in \<open>auto simp: delivery_move_def stored_def\<close>)
  qed (use assms P_NOTICE in \<open>auto simp: delivery_move_def stored_def on_error_left\<close>)
next
  case (P_RETRY g)
  then show ?thesis using assms by (cases g) (auto simp: delivery_move_def stored_def on_error_left tx_simps split: sum.split_asm)
next
  case (P_CANCEL reason g)
  then show ?thesis using assms by (cases g) (auto simp: delivery_move_def stored_def on_error_left tx_simps split: sum.split_asm)
next
  case (P_CONFIRM ack)
  then show ?thesis using assms by (auto simp: delivery_move_def stored_def on_error_left tx_simps split: sum.split_asm)
qed (use assms in \<open>auto simp: delivery_move_def Let_def after_send_left split: sum.split_asm option.split_asm\<close>)

function run_agent :: "delivery_env \<Rightarrow> agent \<Rightarrow> db \<Rightarrow> delivery_send list \<Rightarrow> agent \<times> db \<times> delivery_send list" where
  "run_agent env a d log =
     (if moves_left (ag_phase a) = 0 then (a, d, log)
      else case delivery_move env a d log of (a', d', log') \<Rightarrow> run_agent env a' d' log')"
  by pat_completeness auto
termination
  by (relation "measure (\<lambda>(env, a, d, log). moves_left (ag_phase a))") (auto intro!: delivery_move_left dest: sym)

declare run_agent.simps [simp del]

record delivery_report =
  dr_claimed :: int
  dr_sent :: int
  dr_deferred :: int
  dr_cancelled :: int

definition count_disposition :: "disposition \<Rightarrow> delivery_report \<Rightarrow> delivery_report" where
  "count_disposition disp rep =
     (case disp of
        D_SENT \<Rightarrow> rep\<lparr>dr_sent := dr_sent rep + 1\<rparr>
      | D_DEFERRED \<Rightarrow> rep\<lparr>dr_deferred := dr_deferred rep + 1\<rparr>
      | D_CANCELLED \<Rightarrow> rep\<lparr>dr_cancelled := dr_cancelled rep + 1\<rparr>)"

definition agent_of :: "string \<Rightarrow> instant \<Rightarrow> outbox_record \<Rightarrow> agent" where
  "agent_of worker now rec = \<lparr>ag_worker = worker, ag_now = now, ag_record = rec, ag_phase = P_RESOLVE\<rparr>"

fun deliver_records ::
  "delivery_env \<Rightarrow> string \<Rightarrow> instant \<Rightarrow> outbox_record list \<Rightarrow> delivery_report \<Rightarrow> db \<Rightarrow> delivery_send list
     \<Rightarrow> delivery_report result \<times> db \<times> delivery_send list" where
  "deliver_records env worker now [] rep d log = (Inr rep, d, log)"
| "deliver_records env worker now (rec # recs) rep d log =
     (case run_agent env (agent_of worker now rec) d log of (a, d', log') \<Rightarrow>
        (case ag_phase a of
           P_DONE disp \<Rightarrow> deliver_records env worker now recs (count_disposition disp rep) d' log'
         | P_RAISED e \<Rightarrow> (Inl e, d', log')
         | _ \<Rightarrow> (Inl (DurableStoreError ''unfinished delivery''), d', log')))"

definition DELIVERY_LEASE :: int where "DELIVERY_LEASE = 60 * micros_per_second"

definition deliver_once ::
  "delivery_env \<Rightarrow> string \<Rightarrow> int \<Rightarrow> instant option \<Rightarrow> db \<Rightarrow> delivery_send list
     \<Rightarrow> delivery_report result \<times> db \<times> delivery_send list" where
  "deliver_once env worker limit now d log =
     (let current = operation_now d now in
      case claim_outbox ''telegram'' worker limit DELIVERY_LEASE (Some current) d of
        Inl e \<Rightarrow> (Inl e, d, log)
      | Inr (recs, d1) \<Rightarrow>
          deliver_records env worker current recs
            \<lparr>dr_claimed = int (length recs), dr_sent = 0, dr_deferred = 0, dr_cancelled = 0\<rparr> d1 log)"

end
