(* ===== verification/Delivery_Properties.thy ===== *)
theory Delivery_Properties
  imports Delivery Runs
begin

text \<open>
  What the delivery of notices guarantees. Any number of adapters work on the outbox, interleaved
  call by call with each other, with claims and retention, and with the rest of the kernel; each may
  stop for good between any two calls, as a crashed process does. A notice is never sent again
  unless the provider said that the earlier call sent nothing.
\<close>

section \<open>The system\<close>

record deliveries =
  dl_db :: db
  dl_agents :: "agent list"
  dl_sends :: "delivery_send list"

definition agent_key :: "agent \<Rightarrow> string \<times> ident" where
  "agent_key a = (ob_owner_user_id (ag_record a), ob_outbox_id (ag_record a))"

definition agent_fence :: "agent \<Rightarrow> int" where
  "agent_fence a = ob_fence (ag_record a)"

definition send_key :: "delivery_send \<Rightarrow> string \<times> ident" where
  "send_key s = (sn_owner s, sn_outbox s)"

text \<open>
  What the rest of the kernel does to the outbox: it enqueues rows under new identifiers, and may
  coalesce into rows that are pending; a leased or settled row it leaves alone.
\<close>

definition kernel_keeps :: "agent list \<Rightarrow> db \<Rightarrow> db \<Rightarrow> bool" where
  "kernel_keeps as d d' \<longleftrightarrow> store_ok d' \<and>
     (\<forall>b \<in> set (outbox d'). b \<in> set (outbox d) \<or>
        (\<exists>c \<in> set (outbox d). outbox_pk c = outbox_pk b \<and> o_state c = O_PENDING \<and> o_fence c = o_fence b) \<or>
        outbox_pk b \<notin> set (map agent_key as))"

lemma enqueue_kernel:
  assumes run: "enqueue_outbox_in_transaction owner wid event channel recipient coalesce due delivered d = Inr (b, d')" and ok: "store_ok d"
    and fresh: "(owner, fst (new_id ''obx'' d)) \<notin> set (map agent_key as)"
  shows "kernel_keeps as d d'"
proof -
  have "(\<exists>i. outbox d' = update_where (\<lambda>b. outbox_at owner i b \<and> o_state b = O_PENDING)
        (\<lambda>b. b\<lparr>o_event := event, o_next_attempt_at := due, o_updated_at := utc_now d\<rparr>) (outbox d)) \<or>
      (\<exists>row. outbox d' = outbox d @ [row] \<and> outbox_pk row = (owner, fst (new_id ''obx'' d)))"
    using run unfolding enqueue_outbox_in_transaction_def
    by (auto simp: tx_simps Let_def new_id_def require_owner_def split: if_splits option.splits prod.splits)
  then have rows: "b \<in> set (outbox d) \<or>
      (\<exists>c \<in> set (outbox d). outbox_pk c = outbox_pk b \<and> o_state c = O_PENDING \<and> o_fence c = o_fence b) \<or>
      outbox_pk b \<notin> set (map agent_key as)" if "b \<in> set (outbox d')" for b
    using that fresh by (fastforce simp: set_update_where)
  then show ?thesis using txn_keeps [OF enqueue_outbox_txn [OF run] ok] by (simp add: kernel_keeps_def)
qed

inductive delivery_step :: "deliveries \<Rightarrow> deliveries \<Rightarrow> bool" where
  delivery_kernel: "kernel_keeps as d d' \<Longrightarrow>
    delivery_step \<lparr>dl_db = d, dl_agents = as, dl_sends = log\<rparr> \<lparr>dl_db = d', dl_agents = as, dl_sends = log\<rparr>"
| delivery_claim: "claim_outbox channel worker limit duration now d = Inr (recs, d') \<Longrightarrow>
    delivery_step \<lparr>dl_db = d, dl_agents = as, dl_sends = log\<rparr>
      \<lparr>dl_db = d', dl_agents = as @ map (agent_of worker t) recs, dl_sends = log\<rparr>"
| delivery_prune: "prune_outbox age limit now d = Inr (n, d') \<Longrightarrow>
    delivery_step \<lparr>dl_db = d, dl_agents = as, dl_sends = log\<rparr> \<lparr>dl_db = d', dl_agents = as, dl_sends = log\<rparr>"
| delivery_agent: "i < length as \<Longrightarrow> delivery_move env (as ! i) d log = (a', d', log') \<Longrightarrow>
    delivery_step \<lparr>dl_db = d, dl_agents = as, dl_sends = log\<rparr> \<lparr>dl_db = d', dl_agents = as[i := a'], dl_sends = log'\<rparr>"

abbreviation delivery_run :: "deliveries \<Rightarrow> deliveries \<Rightarrow> bool" where
  "delivery_run \<equiv> delivery_step\<^sup>*\<^sup>*"

section \<open>The invariant\<close>

definition definitely_unsent :: "send_outcome \<Rightarrow> bool" where
  "definitely_unsent out \<longleftrightarrow> (case out of
     Send_reply reply \<Rightarrow> jget reply ''ok'' \<noteq> Some (JBool True) \<and> jget reply ''delivery_ambiguous'' = Some (JBool False) \<and>
       jget reply ''retryable'' \<noteq> Some (JBool False)
   | _ \<Rightarrow> False)"

text \<open>The phases after a send whose outcome left nothing or something open.\<close>

fun sent_phase :: "bool \<Rightarrow> phase \<Rightarrow> bool" where
  "sent_phase unsent P_RESOLVE = False"
| "sent_phase unsent (P_NOTICE r) = False"
| "sent_phase unsent (P_SEND r text) = False"
| "sent_phase unsent (P_CONFIRM ack) = True"
| "sent_phase unsent (P_RETRY g) = unsent"
| "sent_phase unsent (P_CANCEL reason g) = (unsent \<or> g \<noteq> Guarded False)"
| "sent_phase unsent (P_DONE disp) = True"
| "sent_phase unsent (P_RAISED e) = True"

fun sending :: "phase \<Rightarrow> bool" where
  "sending (P_SEND r text) = True"
| "sending p = False"

text \<open>A delivery no worker can claim any more: its row is settled or started under this fence, the last one.\<close>

definition started_at :: "int \<Rightarrow> outbox_row \<Rightarrow> bool" where
  "started_at f b \<longleftrightarrow> settled_outbox b \<or> o_state b = O_LEASED \<and> delivery_started b \<and> o_fence b = f"

definition closed_at :: "deliveries \<Rightarrow> string \<times> ident \<Rightarrow> int \<Rightarrow> bool" where
  "closed_at s key f \<longleftrightarrow>
     (\<forall>b \<in> set (outbox (dl_db s)). outbox_pk b = key \<longrightarrow> started_at f b) \<and>
     (\<forall>a \<in> set (dl_agents s). agent_key a = key \<longrightarrow> agent_fence a \<le> f)"

definition agents_ok :: "deliveries \<Rightarrow> bool" where
  "agents_ok s \<longleftrightarrow>
     distinct (map (\<lambda>a. (agent_key a, agent_fence a)) (dl_agents s)) \<and>
     (\<forall>a \<in> set (dl_agents s). \<forall>b \<in> set (outbox (dl_db s)). outbox_pk b = agent_key a \<longrightarrow> agent_fence a \<le> o_fence b) \<and>
     (\<forall>a \<in> set (dl_agents s). sending (ag_phase a) \<longrightarrow> closed_at s (agent_key a) (agent_fence a))"

definition send_ok :: "deliveries \<Rightarrow> delivery_send \<Rightarrow> bool" where
  "send_ok s x \<longleftrightarrow>
     (\<exists>a \<in> set (dl_agents s). agent_key a = send_key x \<and> agent_fence a = sn_fence x \<and>
        sent_phase (definitely_unsent (sn_outcome x)) (ag_phase a)) \<and>
     (\<not> definitely_unsent (sn_outcome x) \<longrightarrow> closed_at s (send_key x) (sn_fence x))"

definition repeats_unsent :: "delivery_send \<Rightarrow> delivery_send \<Rightarrow> bool" where
  "repeats_unsent x y \<longleftrightarrow> send_key x = send_key y \<longrightarrow> definitely_unsent (sn_outcome x)"

definition deliveries_ok :: "deliveries \<Rightarrow> bool" where
  "deliveries_ok s \<longleftrightarrow> store_ok (dl_db s) \<and> agents_ok s \<and> list_all (send_ok s) (dl_sends s) \<and>
     sorted_wrt repeats_unsent (dl_sends s)"

section \<open>Claims, retention and the rest of the kernel\<close>

lemma store_outbox_keys: "store_ok d \<Longrightarrow> distinct (map outbox_pk (outbox d))"
  by (simp add: store_ok_def outbox_indexes_ok_def)

lemma claimed_started: "claimable_outbox current b \<Longrightarrow> started_at f b \<Longrightarrow> ambiguous_delivery b \<and> \<not> settled_outbox b"
  by (auto simp: claimable_outbox_def started_at_def ambiguous_delivery_def settled_outbox_def outbox_due_def outbox_lease_expired_def)

lemma claimed_row_started:
  "claimable_outbox current b \<Longrightarrow> started_at f b \<Longrightarrow> started_at f (claimed_row worker expiry current b)"
  using claimed_started [of current b f]
  by (simp add: claimed_row_def started_at_def settled_outbox_def finish_outbox_row_def)

lemma claimed_row_fence: "o_fence b \<le> o_fence (claimed_row worker expiry current b)"
  by (simp add: claimed_row_def finish_outbox_row_def lease_outbox_row_def)

lemma closed_at_rows:
  assumes "closed_at s key f" and "\<And>b. b \<in> set (outbox d') \<Longrightarrow> outbox_pk b = key \<Longrightarrow> started_at f b"
    and "\<And>a. a \<in> set as' \<Longrightarrow> agent_key a = key \<Longrightarrow> agent_fence a \<le> f"
  shows "closed_at \<lparr>dl_db = d', dl_agents = as', dl_sends = log'\<rparr> key f"
  using assms by (simp add: closed_at_def)

text \<open>A step of others: no agent moves and nothing is sent, but agents may be added.\<close>

lemma deliveries_ok_others:
  assumes ok: "deliveries_ok \<lparr>dl_db = d, dl_agents = as, dl_sends = log\<rparr>" and d': "store_ok d'"
    and tokens: "distinct (map (\<lambda>a. (agent_key a, agent_fence a)) (as @ new))"
    and fences: "\<And>a b. a \<in> set (as @ new) \<Longrightarrow> b \<in> set (outbox d') \<Longrightarrow> outbox_pk b = agent_key a \<Longrightarrow> agent_fence a \<le> o_fence b"
    and idle: "\<And>a. a \<in> set new \<Longrightarrow> ag_phase a = P_RESOLVE"
    and closed: "\<And>a f. a \<in> set as \<Longrightarrow> closed_at \<lparr>dl_db = d, dl_agents = as, dl_sends = log\<rparr> (agent_key a) f \<Longrightarrow>
      closed_at \<lparr>dl_db = d', dl_agents = as @ new, dl_sends = log\<rparr> (agent_key a) f"
  shows "deliveries_ok \<lparr>dl_db = d', dl_agents = as @ new, dl_sends = log\<rparr>"
proof -
  let ?s = "\<lparr>dl_db = d, dl_agents = as, dl_sends = log\<rparr>"
  have "send_ok \<lparr>dl_db = d', dl_agents = as @ new, dl_sends = log\<rparr> x" if "x \<in> set log" for x
  proof -
    have "send_ok ?s x" using ok that by (simp add: deliveries_ok_def list_all_iff)
    then obtain a where a: "a \<in> set as" "agent_key a = send_key x" "agent_fence a = sn_fence x"
        "sent_phase (definitely_unsent (sn_outcome x)) (ag_phase a)"
      and c: "\<not> definitely_unsent (sn_outcome x) \<longrightarrow> closed_at ?s (send_key x) (sn_fence x)"
      by (auto simp: send_ok_def)
    then show ?thesis using closed [OF a(1)] by (auto simp: send_ok_def)
  qed
  moreover have "closed_at \<lparr>dl_db = d', dl_agents = as @ new, dl_sends = log\<rparr> (agent_key a) (agent_fence a)"
    if "a \<in> set (as @ new)" "sending (ag_phase a)" for a
    using that idle closed ok by (auto simp: deliveries_ok_def agents_ok_def)
  ultimately show ?thesis
    using ok d' tokens fences by (auto simp: deliveries_ok_def agents_ok_def list_all_iff)
qed

lemma delivery_kernel_ok:
  assumes ok: "deliveries_ok \<lparr>dl_db = d, dl_agents = as, dl_sends = log\<rparr>" and keeps: "kernel_keeps as d d'"
  shows "deliveries_ok \<lparr>dl_db = d', dl_agents = as, dl_sends = log\<rparr>"
proof -
  have row: "b \<in> set (outbox d) \<or> (\<exists>c \<in> set (outbox d). outbox_pk c = outbox_pk b \<and> o_state c = O_PENDING \<and> o_fence c = o_fence b)"
    if "b \<in> set (outbox d')" "a \<in> set as" "outbox_pk b = agent_key a" for a b
    using keeps that unfolding kernel_keeps_def by fastforce
  show ?thesis
  proof (rule deliveries_ok_others [OF ok, of d' "[]", simplified])
    show "store_ok d'" using keeps by (simp add: kernel_keeps_def)
    show "distinct (map (\<lambda>a. (agent_key a, agent_fence a)) as)" using ok by (simp add: deliveries_ok_def agents_ok_def)
    show "agent_fence a \<le> o_fence b" if "a \<in> set as" "b \<in> set (outbox d')" "outbox_pk b = agent_key a" for a b
      using ok row [OF that(2,1,3)] that by (fastforce simp: deliveries_ok_def agents_ok_def)
    show "closed_at \<lparr>dl_db = d', dl_agents = as, dl_sends = log\<rparr> (agent_key a) f"
      if "a \<in> set as" and closed: "closed_at \<lparr>dl_db = d, dl_agents = as, dl_sends = log\<rparr> (agent_key a) f" for a f
    proof (rule closed_at_rows [OF closed])
      fix b assume b: "b \<in> set (outbox d')" "outbox_pk b = agent_key a"
      from row [OF b(1) that(1) b(2)] closed b(2) show "started_at f b"
        by (auto simp: closed_at_def started_at_def settled_outbox_def)
    qed (use closed in \<open>simp add: closed_at_def\<close>)
  qed
qed

lemma delivery_prune_ok:
  assumes ok: "deliveries_ok \<lparr>dl_db = d, dl_agents = as, dl_sends = log\<rparr>" and run: "prune_outbox age limit now d = Inr (n, d')"
  shows "deliveries_ok \<lparr>dl_db = d', dl_agents = as, dl_sends = log\<rparr>"
proof (rule delivery_kernel_ok [OF ok])
  obtain P where "d' = d\<lparr>outbox := filter P (outbox d)\<rparr>" using prune_outbox_frame [OF run] by blast
  moreover have "store_ok d'" using prune_outbox_keeps(2) [OF run] ok by (simp add: deliveries_ok_def)
  ultimately show "kernel_keeps as d d'" by (simp add: kernel_keeps_def)
qed

lemma delivery_claim_ok:
  assumes ok: "deliveries_ok \<lparr>dl_db = d, dl_agents = as, dl_sends = log\<rparr>"
    and run: "claim_outbox channel worker limit duration now d = Inr (recs, d')"
  shows "deliveries_ok \<lparr>dl_db = d', dl_agents = as @ map (agent_of worker t) recs, dl_sends = log\<rparr>"
proof -
  define current where "current = operation_now d now"
  define cs where "cs = claim_outbox_candidates channel current (nat limit) (outbox d)"
  let ?f = "claimed_row worker (current + duration) current" and ?cs = "filter (\<lambda>c. \<not> ambiguous_delivery c) cs"
  have store: "store_ok d" and old: "agents_ok \<lparr>dl_db = d, dl_agents = as, dl_sends = log\<rparr>" using ok by (simp_all add: deliveries_ok_def)
  note keys = store_outbox_keys [OF store]
  note claimed = claim_outbox_eq [OF keys run, folded current_def, folded cs_def]
  have cs: "c \<in> set (outbox d)" "claimable_outbox current c" if "c \<in> set cs" for c
    using that claim_candidates_props unfolding cs_def by blast+
  have "distinct cs" using keys unfolding cs_def claim_outbox_candidates_def
    by (intro distinct_order_limit distinct_filter) (simp add: distinct_map)
  then have "distinct (map outbox_pk ?cs)" using keys cs(1) by (auto simp: distinct_map inj_on_def)
  define fresh where "fresh = map (agent_of worker t) recs"
  have tokens: "map (\<lambda>a. (agent_key a, agent_fence a)) fresh = map (\<lambda>c. (outbox_pk c, o_fence c + 1)) ?cs"
    unfolding fresh_def claimed(1)
    by (simp add: agent_key_def agent_fence_def agent_of_def row_to_outbox_def claimed_row_def lease_outbox_row_def)
  have fresh: "\<exists>c \<in> set cs. \<not> ambiguous_delivery c \<and> agent_key a = outbox_pk c \<and> agent_fence a = o_fence c + 1"
    if "a \<in> set fresh" for a
  proof -
    have "(agent_key a, agent_fence a) \<in> set (map (\<lambda>c. (outbox_pk c, o_fence c + 1)) ?cs)"
      unfolding tokens [symmetric] using that by force
    then show ?thesis by auto
  qed
  have rows: "\<exists>b \<in> set (outbox d). b' = (if b \<in> set cs then ?f b else b)" if "b' \<in> set (outbox d')" for b'
    using that unfolding claimed(2) by (auto simp: set_update_where)
  have unique: "b = c" if "b \<in> set (outbox d)" "c \<in> set (outbox d)" "outbox_pk b = outbox_pk c" for b c
    using keys that by (auto simp: distinct_map inj_on_def)
  have "deliveries_ok \<lparr>dl_db = d', dl_agents = as @ fresh, dl_sends = log\<rparr>"
  proof (rule deliveries_ok_others [OF ok])
    show "store_ok d'" using txn_keeps [OF claim_outbox_txn [OF run] store] .
    have "distinct (map (\<lambda>c. (outbox_pk c, o_fence c + 1)) ?cs)"
      using \<open>distinct (map outbox_pk ?cs)\<close> by (auto simp: distinct_map inj_on_def)
    moreover have "(agent_key a, agent_fence a) \<noteq> (outbox_pk c, o_fence c + 1)" if "a \<in> set as" "c \<in> set cs" for a c
      using old that cs(1) by (fastforce simp: agents_ok_def)
    ultimately show "distinct (map (\<lambda>a. (agent_key a, agent_fence a)) (as @ fresh))"
      using old unfolding map_append tokens by (auto simp: agents_ok_def)
    show "agent_fence a \<le> o_fence b'" if a: "a \<in> set (as @ fresh)" and b': "b' \<in> set (outbox d')" "outbox_pk b' = agent_key a" for a b'
    proof -
      obtain b where b: "b \<in> set (outbox d)" "b' = (if b \<in> set cs then ?f b else b)" using rows [OF b'(1)] by blast
      then have key: "outbox_pk b = agent_key a" using b'(2) by (auto split: if_split_asm)
      show ?thesis
      proof (cases "a \<in> set as")
        case True
        then have "agent_fence a \<le> o_fence b" using old b(1) key by (auto simp: agents_ok_def)
        then show ?thesis using b(2) order_trans [OF _ claimed_row_fence] by (auto split: if_split_asm)
      next
        case False
        then obtain c where c: "c \<in> set cs" "\<not> ambiguous_delivery c" "agent_key a = outbox_pk c" "agent_fence a = o_fence c + 1"
          using a fresh by auto
        then have "b = c" using unique [OF b(1) cs(1) [OF c(1)]] key by simp
        then show ?thesis using b(2) c by (simp add: claimed_row_def lease_outbox_row_def)
      qed
    qed
    show "ag_phase a = P_RESOLVE" if "a \<in> set fresh" for a using that by (auto simp: fresh_def agent_of_def)
    show "closed_at \<lparr>dl_db = d', dl_agents = as @ fresh, dl_sends = log\<rparr> (agent_key a) f"
      if a: "a \<in> set as" and closed: "closed_at \<lparr>dl_db = d, dl_agents = as, dl_sends = log\<rparr> (agent_key a) f" for a f
    proof (rule closed_at_rows [OF closed])
      fix b' assume b': "b' \<in> set (outbox d')" "outbox_pk b' = agent_key a"
      then obtain b where b: "b \<in> set (outbox d)" "b' = (if b \<in> set cs then ?f b else b)" using rows by blast
      then have "started_at f b" using closed b'(2) by (auto simp: closed_at_def split: if_split_asm)
      then show "started_at f b'" using b cs(2) claimed_row_started by (auto split: if_split_asm)
    next
      fix a2 assume a2: "a2 \<in> set (as @ fresh)" "agent_key a2 = agent_key a"
      show "agent_fence a2 \<le> f"
      proof (cases "a2 \<in> set as")
        case False
        then obtain c where c: "c \<in> set cs" "\<not> ambiguous_delivery c" "agent_key a2 = outbox_pk c" using a2(1) fresh by auto
        then have "started_at f c" using closed a2(2) cs(1) by (auto simp: closed_at_def)
        then show ?thesis using claimed_started [OF cs(2) [OF c(1)]] c(2) by blast
      qed (use closed a2(2) in \<open>simp add: closed_at_def\<close>)
    qed
  qed
  then show ?thesis by (simp add: fresh_def)
qed

section \<open>A move of an agent\<close>

fun retrying :: "phase \<Rightarrow> bool" where
  "retrying (P_RETRY g) = True"
| "retrying p = False"

definition moved_row :: "agent \<Rightarrow> outbox_row \<Rightarrow> outbox_row \<Rightarrow> bool" where
  "moved_row a b b' \<longleftrightarrow> outbox_pk b' = outbox_pk b \<and> o_fence b' = o_fence b \<and>
     (b' = b \<or> outbox_pk b = agent_key a \<and> o_state b = O_LEASED \<and> o_fence b = agent_fence a \<and>
        (started_at (o_fence b) b' \<or> retrying (ag_phase a)))"

definition agent_moves :: "agent \<Rightarrow> db \<Rightarrow> db \<Rightarrow> bool" where
  "agent_moves a d d' \<longleftrightarrow> txn d d' \<and> events d' = events d \<and> (\<forall>b' \<in> set (outbox d'). \<exists>b \<in> set (outbox d). moved_row a b b')"

lemma agent_moves_refl: "agent_moves a d d"
  by (auto simp: agent_moves_def moved_row_def)

lemma agent_moves_update:
  assumes "txn d d'" and "d' = d\<lparr>outbox := update_where P f (outbox d)\<rparr>"
    and "\<And>b. P b \<Longrightarrow> outbox_held (ag_record a) (ag_worker a) b" and "\<And>b. outbox_pk (f b) = outbox_pk b \<and> o_fence (f b) = o_fence b"
    and "\<And>b. P b \<Longrightarrow> started_at (o_fence b) (f b) \<or> retrying (ag_phase a)"
  shows "agent_moves a d d'"
  unfolding agent_moves_def
proof (intro conjI ballI assms(1))
  show "events d' = events d" by (simp add: assms(2))
  fix b' assume "b' \<in> set (outbox d')"
  then obtain b where "b \<in> set (outbox d)" "b' = (if P b then f b else b)" by (auto simp: assms(2) set_update_where)
  then show "\<exists>b \<in> set (outbox d). moved_row a b b'"
    using assms(3-5) by (intro bexI [of _ b]) (auto simp: moved_row_def outbox_held_def outbox_at_def agent_key_def agent_fence_def)
qed

lemma confirm_moves: "confirm_outbox (ag_record a) (ag_worker a) ack now d = Inr (ok, d') \<Longrightarrow> agent_moves a d d'"
  using confirm_outbox_txn [of "ag_record a" "ag_worker a" ack now d ok d'] unfolding confirm_outbox_def
  by (auto simp: tx_simps Let_def require_worker_id_def split: if_split_asm intro!: agent_moves_update)
    (simp_all add: finish_outbox_row_def started_at_def settled_outbox_def)

lemma cancel_moves: "cancel_outbox (ag_record a) (ag_worker a) reason now d = Inr (ok, d') \<Longrightarrow> agent_moves a d d'"
  using cancel_outbox_txn [of "ag_record a" "ag_worker a" reason now d ok d'] unfolding cancel_outbox_def
  by (auto simp: tx_simps Let_def require_worker_id_def split: if_split_asm intro!: agent_moves_update)
    (simp_all add: finish_outbox_row_def started_at_def settled_outbox_def)

lemma release_moves:
  "release_outbox (ag_record a) (ag_worker a) retry now d = Inr (ok, d') \<Longrightarrow> retrying (ag_phase a) \<Longrightarrow> agent_moves a d d'"
  using release_outbox_txn [of "ag_record a" "ag_worker a" retry now d ok d'] unfolding release_outbox_def
  by (auto simp: tx_simps Let_def require_worker_id_def split: if_split_asm intro!: agent_moves_update)

lemma mark_moves: "mark_outbox_delivery_started (ag_record a) (ag_worker a) now d = Inr (ok, d') \<Longrightarrow> agent_moves a d d'"
  using mark_outbox_txn [of "ag_record a" "ag_worker a" now d ok d'] unfolding mark_outbox_delivery_started_def
  by (auto simp: tx_simps Let_def require_worker_id_def split: if_split_asm intro!: agent_moves_update)
    (simp_all add: started_at_def delivery_started_def jget_def outbox_held_def)

text \<open>A mark that succeeded: the row is leased to the agent and its delivery has started.\<close>

lemma marked_row:
  assumes "mark_outbox_delivery_started (ag_record a) (ag_worker a) now d = Inr (True, d')" and "store_ok d"
  shows "\<forall>b \<in> set (outbox d). outbox_pk b = agent_key a \<longrightarrow> o_fence b = agent_fence a"
    and "\<forall>b' \<in> set (outbox d'). outbox_pk b' = agent_key a \<longrightarrow> started_at (agent_fence a) b'"
    and "agent_key a \<in> set (map outbox_pk (outbox d))"
proof -
  let ?P = "\<lambda>b. outbox_held (ag_record a) (ag_worker a) b \<and> (o_ack b = None \<or> delivery_started b)"
  have count: "count_where ?P (outbox d) = 1" and rows: "outbox d' = update_where ?P (\<lambda>b. b\<lparr>o_ack :=
      Some [(''delivery'', JStr ''started'')], o_updated_at := operation_now d now\<rparr>) (outbox d)"
    using assms(1) unfolding mark_outbox_delivery_started_def by (auto simp: tx_simps Let_def require_worker_id_def split: if_split_asm)
  obtain c where c: "c \<in> set (outbox d)" "?P c" using count_where_one_ex [OF count] by blast
  then have key: "outbox_pk c = agent_key a" and fence: "o_fence c = agent_fence a"
    by (auto simp: outbox_held_def outbox_at_def agent_key_def agent_fence_def)
  have unique: "b = c" if "b \<in> set (outbox d)" "outbox_pk b = agent_key a" for b
    using store_outbox_keys [OF assms(2)] that c(1) key by (cases "agent_key a") (auto simp: distinct_map inj_on_def)
  show "\<forall>b \<in> set (outbox d). outbox_pk b = agent_key a \<longrightarrow> o_fence b = agent_fence a" using unique fence by blast
  show "agent_key a \<in> set (map outbox_pk (outbox d))" using c(1) key by force
  show "\<forall>b' \<in> set (outbox d'). outbox_pk b' = agent_key a \<longrightarrow> started_at (agent_fence a) b'"
  proof (intro ballI impI)
    fix b' assume b': "b' \<in> set (outbox d')" "outbox_pk b' = agent_key a"
    then obtain b where b: "b \<in> set (outbox d)" "b' = (if ?P b then b\<lparr>o_ack := Some [(''delivery'', JStr ''started'')],
        o_updated_at := operation_now d now\<rparr> else b)" unfolding rows by (auto simp: set_update_where)
    then have "outbox_pk b = agent_key a" using b'(2) by (auto split: if_split_asm)
    then have "b = c" using unique b(1) by blast
    then show "started_at (agent_fence a) b'" using b(2) c(2) fence
      by (simp add: started_at_def delivery_started_def jget_def outbox_held_def)
  qed
qed


lemma retry_or_cancel_moves:
  "retry_or_cancel env a d = Inr (disp, d') \<Longrightarrow> retrying (ag_phase a) \<Longrightarrow> agent_moves a d d'"
  unfolding retry_or_cancel_def Let_def by (auto simp: tx_simps split: if_split_asm intro: cancel_moves release_moves)

text \<open>A call to the store that ends the handling, or raises.\<close>

lemma stored_done:
  assumes "stored g a d log (bindE r (\<lambda>(x, e). Inr (P_DONE (F x), e))) = (a', d', log')"
  shows "log' = log \<and> ((\<exists>e. r = Inl e \<and> d' = d \<and> a' = a\<lparr>ag_phase := on_error g e\<rparr>) \<or>
    (\<exists>x. r = Inr (x, d') \<and> a' = a\<lparr>ag_phase := P_DONE (F x)\<rparr>))"
  using assms by (cases r) (auto simp: stored_def split: prod.split_asm)

lemma on_error_phase:
  "\<not> sending (on_error g e)" "sent_phase u (on_error g e) \<longleftrightarrow> u \<or> g \<noteq> Guarded False"
  by (auto simp: on_error_def split: guard.split bool.split)

text \<open>What a move of an agent that does not send does.\<close>

lemma delivery_move_effect:
  assumes run: "delivery_move env a d log = (a', d', log')" and quiet: "\<not> sending (ag_phase a)" and ok: "store_ok d"
  shows "log' = log" and "ag_record a' = ag_record a" and "agent_moves a d d'"
    and "sent_phase u (ag_phase a) \<Longrightarrow> sent_phase u (ag_phase a')"
    and "sending (ag_phase a') \<Longrightarrow> (\<forall>b \<in> set (outbox d). outbox_pk b = agent_key a \<longrightarrow> o_fence b = agent_fence a) \<and>
      (\<forall>b' \<in> set (outbox d'). outbox_pk b' = agent_key a \<longrightarrow> started_at (agent_fence a) b') \<and>
      agent_key a \<in> set (map outbox_pk (outbox d))"
proof -
  have "log' = log \<and> ag_record a' = ag_record a \<and> agent_moves a d d' \<and>
    (\<forall>u. sent_phase u (ag_phase a) \<longrightarrow> sent_phase u (ag_phase a')) \<and>
    (sending (ag_phase a') \<longrightarrow> (\<forall>b \<in> set (outbox d). outbox_pk b = agent_key a \<longrightarrow> o_fence b = agent_fence a) \<and>
      (\<forall>b' \<in> set (outbox d'). outbox_pk b' = agent_key a \<longrightarrow> started_at (agent_fence a) b') \<and>
      agent_key a \<in> set (map outbox_pk (outbox d)))"
  proof (cases "ag_phase a")
    case (P_NOTICE r)
    show ?thesis
    proof (cases "notice_move env a r d")
      case (Inl e)
      then show ?thesis
        using run P_NOTICE by (auto simp: delivery_move_def stored_def on_error_def agent_moves_refl)
    next
      case (Inr v)
      obtain p e where move: "notice_move env a r d = Inr (p, e)" using Inr by (cases v) simp
      then have to: "a' = a\<lparr>ag_phase := p\<rparr>" "d' = e" "log' = log"
        using run P_NOTICE by (auto simp: delivery_move_def stored_def)
      from move show ?thesis
      proof (cases rule: notice_move_cases)
        case 1
        then show ?thesis using to P_NOTICE by (simp add: agent_moves_refl)
      next
        case (2 notice marked)
        note marks = mark_moves [OF 2(1)]
        show ?thesis
        proof (cases marked)
          case True
          then show ?thesis using to 2 marks P_NOTICE marked_row [of a "Some (ag_now a)" d d'] ok by simp
        next
          case False
          then show ?thesis using to 2 marks P_NOTICE by simp
        qed
      qed
    qed
  next
    case (P_RETRY g)
    then show ?thesis
      using run stored_done [of g a d log "retry_or_cancel env a d" id a' d' log'] retry_or_cancel_moves [of env a d]
      by (auto simp: delivery_move_def agent_moves_refl on_error_phase)
  next
    case (P_CANCEL reason g)
    then show ?thesis
      using run stored_done [of g a d log "cancel_outbox (ag_record a) (ag_worker a) reason (Some (ag_now a)) d"
          "\<lambda>cancelled. if cancelled then D_CANCELLED else D_DEFERRED" a' d' log'] cancel_moves [of a reason "Some (ag_now a)" d]
      by (auto simp: delivery_move_def agent_moves_refl on_error_phase)
  next
    case (P_CONFIRM ack)
    then show ?thesis
      using run stored_done [of "Guarded True" a d log "confirm_outbox (ag_record a) (ag_worker a) (Some ack) (Some (ag_now a)) d"
          "\<lambda>confirmed. if confirmed then D_SENT else D_DEFERRED" a' d' log'] confirm_moves [of a "Some ack" "Some (ag_now a)" d]
      by (auto simp: delivery_move_def agent_moves_refl on_error_phase)
  qed (use run quiet in \<open>auto simp: delivery_move_def agent_moves_refl split: sum.split_asm option.split_asm if_split_asm\<close>)
  then show "log' = log" "ag_record a' = ag_record a" "agent_moves a d d'"
    "sent_phase u (ag_phase a) \<Longrightarrow> sent_phase u (ag_phase a')"
    "sending (ag_phase a') \<Longrightarrow> (\<forall>b \<in> set (outbox d). outbox_pk b = agent_key a \<longrightarrow> o_fence b = agent_fence a) \<and>
      (\<forall>b' \<in> set (outbox d'). outbox_pk b' = agent_key a \<longrightarrow> started_at (agent_fence a) b') \<and>
      agent_key a \<in> set (map outbox_pk (outbox d))" by blast+
qed

text \<open>The agents after one of them moved.\<close>

lemma moved_agents:
  assumes "i < length as" and "ag_record a' = ag_record (as ! i)"
  shows "map (\<lambda>a. (agent_key a, agent_fence a)) (as[i := a']) = map (\<lambda>a. (agent_key a, agent_fence a)) as"
    and "c \<in> set as \<Longrightarrow> c \<noteq> as ! i \<Longrightarrow> c \<in> set (as[i := a'])" and "a' \<in> set (as[i := a'])"
    and "c \<in> set (as[i := a']) \<Longrightarrow> c = a' \<or> c \<in> set as"
    and "agent_key a' = agent_key (as ! i)" and "agent_fence a' = agent_fence (as ! i)"
proof -
  show keys: "agent_key a' = agent_key (as ! i)" "agent_fence a' = agent_fence (as ! i)"
    using assms(2) by (simp_all add: agent_key_def agent_fence_def)
  show "map (\<lambda>a. (agent_key a, agent_fence a)) (as[i := a']) = map (\<lambda>a. (agent_key a, agent_fence a)) as"
    using assms(1) keys by (simp add: map_update list_update_same_conv)
  show "c \<in> set (as[i := a'])" if "c \<in> set as" "c \<noteq> as ! i"
    using that by (metis in_set_conv_nth length_list_update nth_list_update_neq)
  show "a' \<in> set (as[i := a'])" using assms(1) by (rule set_update_memI)
  show "c = a' \<or> c \<in> set as" if "c \<in> set (as[i := a'])" using that set_update_subset_insert by fastforce
qed

lemma agents_ok_moved:
  assumes agents: "agents_ok \<lparr>dl_db = d, dl_agents = as, dl_sends = log\<rparr>" and i: "i < length as" and rec: "ag_record a' = ag_record (as ! i)"
    and fences: "\<And>c b'. c \<in> set as \<Longrightarrow> b' \<in> set (outbox d') \<Longrightarrow> outbox_pk b' = agent_key c \<Longrightarrow> agent_fence c \<le> o_fence b'"
    and closed: "\<And>c. c \<in> set (as[i := a']) \<Longrightarrow> sending (ag_phase c) \<Longrightarrow>
      closed_at \<lparr>dl_db = d', dl_agents = as[i := a'], dl_sends = log'\<rparr> (agent_key c) (agent_fence c)"
  shows "agents_ok \<lparr>dl_db = d', dl_agents = as[i := a'], dl_sends = log'\<rparr>"
  unfolding agents_ok_def deliveries.simps
proof (intro conjI ballI impI)
  show "distinct (map (\<lambda>a. (agent_key a, agent_fence a)) (as[i := a']))"
    unfolding moved_agents(1) [OF i rec] using agents by (simp add: agents_ok_def)
  fix c assume c: "c \<in> set (as[i := a'])"
  show "agent_fence c \<le> o_fence b'" if b': "b' \<in> set (outbox d')" "outbox_pk b' = agent_key c" for b'
    using moved_agents(4) [OF i rec c]
  proof
    assume "c = a'"
    then show ?thesis using fences [OF nth_mem [OF i] b'(1)] b'(2) moved_agents(5,6) [OF i rec] by simp
  qed (rule fences [OF _ b'])
qed (rule closed)

lemma closed_at_moved:
  assumes closed: "closed_at \<lparr>dl_db = d, dl_agents = as, dl_sends = log\<rparr> key f" and i: "i < length as"
    and rec: "ag_record a' = ag_record (as ! i)" and moves: "agent_moves (as ! i) d d'"
    and free: "retrying (ag_phase (as ! i)) \<Longrightarrow> agent_key (as ! i) = key \<Longrightarrow> agent_fence (as ! i) \<noteq> f"
  shows "closed_at \<lparr>dl_db = d', dl_agents = as[i := a'], dl_sends = log'\<rparr> key f"
proof (rule closed_at_rows [OF closed])
  fix b' assume b': "b' \<in> set (outbox d')" "outbox_pk b' = key"
  then obtain b where b: "b \<in> set (outbox d)" "moved_row (as ! i) b b'" using moves unfolding agent_moves_def by blast
  then have "outbox_pk b = key" using b'(2) by (simp add: moved_row_def)
  then have "started_at f b" using closed b(1) by (simp add: closed_at_def)
  then show "started_at f b'"
    using b(2) free b'(2) \<open>outbox_pk b = key\<close> by (auto simp: moved_row_def started_at_def settled_outbox_def)
next
  fix c assume c: "c \<in> set (as[i := a'])" "agent_key c = key"
  from moved_agents(4) [OF i rec c(1)] show "agent_fence c \<le> f"
    using closed c(2) i moved_agents(5,6) [OF i rec] by (auto simp: closed_at_def)
qed

lemma same_token:
  assumes "agents_ok s" and "a \<in> set (dl_agents s)" and "c \<in> set (dl_agents s)"
    and "agent_key c = agent_key a" and "agent_fence c = agent_fence a"
  shows "c = a"
  using assms by (auto simp: agents_ok_def distinct_map inj_on_def)

lemma delivery_agent_ok:
  assumes ok: "deliveries_ok \<lparr>dl_db = d, dl_agents = as, dl_sends = log\<rparr>" (is "deliveries_ok ?s") and i: "i < length as"
    and run: "delivery_move env (as ! i) d log = (a', d', log')" and quiet: "\<not> sending (ag_phase (as ! i))"
  shows "deliveries_ok \<lparr>dl_db = d', dl_agents = as[i := a'], dl_sends = log'\<rparr>" (is "deliveries_ok ?t")
proof -
  let ?a = "as ! i"
  have store: "store_ok d" and agents: "agents_ok ?s" and mem: "?a \<in> set as" using ok i by (simp_all add: deliveries_ok_def)
  note move = delivery_move_effect [OF run quiet store]
  note after = moved_agents [OF i move(2)]
  have rows: "\<exists>b \<in> set (outbox d). moved_row ?a b b'" if "b' \<in> set (outbox d')" for b'
    using move(3) that by (simp add: agent_moves_def)
  have fences: "agent_fence c \<le> o_fence b'" if c: "c \<in> set as" and b': "b' \<in> set (outbox d')" "outbox_pk b' = agent_key c" for c b'
  proof -
    obtain b where "b \<in> set (outbox d)" "moved_row ?a b b'" using rows [OF b'(1)] by blast
    then show ?thesis using agents c b'(2) by (fastforce simp: agents_ok_def moved_row_def)
  qed
  have sendings: "closed_at ?t (agent_key c) (agent_fence c)" if c: "c \<in> set (as[i := a'])" "sending (ag_phase c)" for c
  proof (cases "c = a'")
    case True
    note marked = move(5) [OF c(2) [unfolded True]]
    have "agent_fence c2 \<le> agent_fence ?a" if "c2 \<in> set as" "agent_key c2 = agent_key ?a" for c2
    proof -
      obtain b where "b \<in> set (outbox d)" "outbox_pk b = agent_key ?a" using marked by auto
      then show ?thesis using marked agents that by (fastforce simp: agents_ok_def)
    qed
    then show ?thesis using marked after(4-6) True mem by (fastforce simp: closed_at_def)
  next
    case False
    then have c': "c \<in> set as" "c \<noteq> ?a" using after(4) [OF c(1)] c(2) quiet by auto
    then have "closed_at ?s (agent_key c) (agent_fence c)" using agents c(2) by (simp add: agents_ok_def)
    then show ?thesis
    proof (rule closed_at_moved [OF _ i move(2,3)])
      show "agent_fence ?a \<noteq> agent_fence c" if "agent_key ?a = agent_key c"
        using same_token [OF agents, of c ?a] c' mem that by auto
    qed
  qed
  have "agents_ok ?t" by (rule agents_ok_moved [OF agents i move(2) fences sendings])
  moreover have "send_ok ?t x" if x: "x \<in> set log" for x
  proof -
    have "send_ok ?s x" using ok x by (simp add: deliveries_ok_def list_all_iff)
    then obtain c where c: "c \<in> set as" "agent_key c = send_key x" "agent_fence c = sn_fence x"
        "sent_phase (definitely_unsent (sn_outcome x)) (ag_phase c)"
      and closed: "\<not> definitely_unsent (sn_outcome x) \<Longrightarrow> closed_at ?s (send_key x) (sn_fence x)"
      by (auto simp: send_ok_def)
    have "\<exists>c \<in> set (as[i := a']). agent_key c = send_key x \<and> agent_fence c = sn_fence x \<and>
        sent_phase (definitely_unsent (sn_outcome x)) (ag_phase c)"
      using c after(2,3,5,6) move(4) by (cases "c = ?a") auto
    moreover have "closed_at ?t (send_key x) (sn_fence x)" if open_end: "\<not> definitely_unsent (sn_outcome x)"
    proof (rule closed_at_moved [OF closed [OF open_end] i move(2,3)])
      assume "retrying (ag_phase ?a)" and "agent_key ?a = send_key x"
      then show "agent_fence ?a \<noteq> sn_fence x"
        using same_token [OF agents, of c ?a] c open_end mem by (cases "ag_phase ?a") auto
    qed
    ultimately show ?thesis by (simp add: send_ok_def)
  qed
  ultimately show ?thesis
    using ok move(1) txn_keeps [of d d'] move(3) store by (simp add: deliveries_ok_def agent_moves_def list_all_iff)
qed

lemma delivery_send_ok:
  assumes ok: "deliveries_ok \<lparr>dl_db = d, dl_agents = as, dl_sends = log\<rparr>" (is "deliveries_ok ?s") and i: "i < length as"
    and run: "delivery_move env (as ! i) d log = (a', d', log')" and sends: "sending (ag_phase (as ! i))"
  shows "deliveries_ok \<lparr>dl_db = d', dl_agents = as[i := a'], dl_sends = log'\<rparr>" (is "deliveries_ok ?t")
proof -
  let ?a = "as ! i"
  obtain r notice where phase: "ag_phase ?a = P_SEND r notice" using sends by (cases "ag_phase ?a") auto
  define out where "out = de_send env log r notice"
  let ?x = "send_of ?a r notice out"
  have a': "a' = ?a\<lparr>ag_phase := after_send out\<rparr>" "d' = d" "log' = log @ [?x]"
    using run phase by (auto simp: delivery_move_def out_def Let_def)
  have agents: "agents_ok ?s" and mem: "?a \<in> set as" using ok i by (simp_all add: deliveries_ok_def)
  note after = moved_agents [OF i, of a', unfolded a'(1), simplified, folded a'(1)]
  have key: "send_key ?x = agent_key ?a" "sn_fence ?x = agent_fence ?a" "sn_outcome ?x = out"
    by (simp_all add: send_key_def send_of_def agent_key_def agent_fence_def)
  have calm: "sent_phase (definitely_unsent out) (after_send out)" "\<not> sending (after_send out)"
    by (auto simp: after_send_def definitely_unsent_def split: send_outcome.split)
  have closed: "closed_at ?t key f" if "closed_at ?s key f" for key f
    using closed_at_moved [OF that i, of a' d log'] agent_moves_refl phase a' by simp
  have mine: "closed_at ?s (agent_key ?a) (agent_fence ?a)" using agents sends mem by (simp add: agents_ok_def)
  have "agents_ok ?t"
  proof (rule agents_ok_moved [OF agents i])
    show "closed_at ?t (agent_key c) (agent_fence c)" if c: "c \<in> set (as[i := a'])" "sending (ag_phase c)" for c
    proof (rule closed)
      have "c \<in> set as" using after(4) [OF c(1)] calm(2) c(2) a'(1) by auto
      then show "closed_at ?s (agent_key c) (agent_fence c)" using agents c(2) by (simp add: agents_ok_def)
    qed
  qed (use agents a' in \<open>auto simp: agents_ok_def\<close>)
  moreover have "send_ok ?t x" if x: "x \<in> set log" for x
  proof -
    have "send_ok ?s x" using ok x by (simp add: deliveries_ok_def list_all_iff)
    moreover from this obtain c where "c \<in> set as" "agent_key c = send_key x" "agent_fence c = sn_fence x"
        "sent_phase (definitely_unsent (sn_outcome x)) (ag_phase c)" by (auto simp: send_ok_def)
    then have "\<exists>c \<in> set (as[i := a']). agent_key c = send_key x \<and> agent_fence c = sn_fence x \<and>
        sent_phase (definitely_unsent (sn_outcome x)) (ag_phase c)"
      using after(2) phase by (cases "c = ?a") auto
    ultimately show ?thesis using closed by (simp add: send_ok_def)
  qed
  moreover have "send_ok ?t ?x"
    using after(3,5,6) key calm(1) a'(1) closed [OF mine] by (auto simp: send_ok_def intro!: bexI [of _ a'])
  moreover have "repeats_unsent x ?x" if x: "x \<in> set log" for x
    unfolding repeats_unsent_def
  proof (rule impI, rule ccontr)
    assume same: "send_key x = send_key ?x" and open_end: "\<not> definitely_unsent (sn_outcome x)"
    have "send_ok ?s x" using ok x by (simp add: deliveries_ok_def list_all_iff)
    then obtain c where c: "c \<in> set as" "agent_key c = send_key x" "agent_fence c = sn_fence x"
        "sent_phase (definitely_unsent (sn_outcome x)) (ag_phase c)"
      and closed: "closed_at ?s (send_key x) (sn_fence x)"
      using open_end by (auto simp: send_ok_def)
    have "agent_fence ?a = agent_fence c"
      using closed mine c mem same key(1) by (intro antisym) (auto simp: closed_at_def)
    then have "c = ?a" using same_token [OF agents, of ?a c] c mem same key(1) by simp
    then show False using c(4) phase by simp
  qed
  ultimately show ?thesis
    using ok a' by (auto simp: deliveries_ok_def list_all_iff sorted_wrt_append)
qed

lemma delivery_step_ok: "deliveries_ok s \<Longrightarrow> delivery_step s t \<Longrightarrow> deliveries_ok t"
  by (erule delivery_step.cases)
    (auto intro: delivery_kernel_ok delivery_claim_ok delivery_prune_ok delivery_agent_ok delivery_send_ok)

definition deliveries_start :: "db \<Rightarrow> deliveries" where
  "deliveries_start d = \<lparr>dl_db = d, dl_agents = [], dl_sends = []\<rparr>"

lemma deliveries_start_ok: "store_ok d \<Longrightarrow> deliveries_ok (deliveries_start d)"
  by (simp add: deliveries_start_def deliveries_ok_def agents_ok_def)

interpretation delivery_runs: invariant_system "\<lambda>s. \<exists>d. store_ok d \<and> s = deliveries_start d" delivery_step deliveries_ok
  by unfold_locales (auto intro: deliveries_start_ok delivery_step_ok)

section \<open>A batch is a run of the system\<close>

lemma delivery_move_run:
  assumes "delivery_move env a d log = (a', d', log')"
  shows "delivery_step \<lparr>dl_db = d, dl_agents = as @ a # bs, dl_sends = log\<rparr> \<lparr>dl_db = d', dl_agents = as @ a' # bs, dl_sends = log'\<rparr>"
  using delivery_agent [of "length as" "as @ a # bs" env d log a' d' log'] assms by simp

lemma run_agent_run:
  "run_agent env a d log = (a', d', log') \<Longrightarrow>
     delivery_run \<lparr>dl_db = d, dl_agents = as @ a # bs, dl_sends = log\<rparr> \<lparr>dl_db = d', dl_agents = as @ a' # bs, dl_sends = log'\<rparr>"
proof (induction env a d log rule: run_agent.induct)
  case (1 env a d log)
  show ?case
  proof (cases "moves_left (ag_phase a) = 0")
    case False
    obtain a1 d1 log1 where move: "delivery_move env a d log = (a1, d1, log1)" by (cases "delivery_move env a d log") auto
    then have "run_agent env a1 d1 log1 = (a', d', log')" using 1(2) False by (simp add: run_agent.simps [of env a])
    with move show ?thesis using 1(1) [OF False move [symmetric] refl] delivery_move_run [OF move]
      by (blast intro: converse_rtranclp_into_rtranclp)
  qed (use 1(2) in \<open>simp add: run_agent.simps\<close>)
qed

lemma deliver_records_run:
  "deliver_records env worker now recs rep d log = (r, d', log') \<Longrightarrow>
     \<exists>as'. delivery_run \<lparr>dl_db = d, dl_agents = as @ map (agent_of worker now) recs, dl_sends = log\<rparr>
       \<lparr>dl_db = d', dl_agents = as', dl_sends = log'\<rparr>"
proof (induction recs arbitrary: as rep d log)
  case (Cons rec recs)
  obtain a d1 log1 where run: "run_agent env (agent_of worker now rec) d log = (a, d1, log1)"
    by (cases "run_agent env (agent_of worker now rec) d log") auto
  let ?mid = "\<lparr>dl_db = d1, dl_agents = as @ a # map (agent_of worker now) recs, dl_sends = log1\<rparr>"
  have first: "delivery_run \<lparr>dl_db = d, dl_agents = as @ map (agent_of worker now) (rec # recs), dl_sends = log\<rparr> ?mid"
    using run_agent_run [OF run] by simp
  have "\<exists>as'. delivery_run ?mid \<lparr>dl_db = d', dl_agents = as', dl_sends = log'\<rparr>"
  proof (cases "\<exists>disp. ag_phase a = P_DONE disp")
    case True
    then show ?thesis using Cons.prems run Cons.IH [where as = "as @ [a]"] by (auto split: prod.split_asm)
  next
    case False
    then have "d' = d1 \<and> log' = log1" using Cons.prems run by (cases "ag_phase a") auto
    then show ?thesis by blast
  qed
  then show ?case using first by (meson rtranclp_trans)
qed auto

lemma deliver_once_run:
  assumes "deliver_once env worker limit now d log = (r, d', log')"
  shows "\<exists>as'. delivery_run \<lparr>dl_db = d, dl_agents = as, dl_sends = log\<rparr> \<lparr>dl_db = d', dl_agents = as', dl_sends = log'\<rparr>"
proof (cases "claim_outbox ''telegram'' worker limit DELIVERY_LEASE (Some (operation_now d now)) d")
  case (Inl e)
  then show ?thesis using assms by (auto simp: deliver_once_def)
next
  case (Inr v)
  obtain recs d1 where claim: "claim_outbox ''telegram'' worker limit DELIVERY_LEASE (Some (operation_now d now)) d = Inr (recs, d1)"
    using Inr by (cases v) simp
  then have run: "deliver_records env worker (operation_now d now) recs
      \<lparr>dr_claimed = int (length recs), dr_sent = 0, dr_deferred = 0, dr_cancelled = 0\<rparr> d1 log = (r, d', log')"
    using assms by (simp add: deliver_once_def Let_def)
  from delivery_claim [OF claim] deliver_records_run [OF run]
  show ?thesis by (meson converse_rtranclp_into_rtranclp)
qed

section \<open>The properties\<close>

text \<open>
  C0. A notice is sent at most once. Let any number of adapters handle the rows they claimed, with
  their calls interleaved in any order with each other, with claims, retention and the rest of the
  kernel, and let any of them stop anywhere. Of the calls to the provider for one delivery, all but the last
  were answered by a definite statement that nothing was sent; after any other answer, an exception
  included, the row is settled or stays leased as started under the fence of that call, so that no
  claim hands it out again. A batch that starts from there keeps this.
\<close>

theorem deliveries_at_most_once:
  assumes "delivery_run (deliveries_start d) s" and "store_ok d"
  shows "(\<forall>i j. i < j \<longrightarrow> j < length (dl_sends s) \<longrightarrow> send_key (dl_sends s ! i) = send_key (dl_sends s ! j) \<longrightarrow>
      definitely_unsent (sn_outcome (dl_sends s ! i))) \<and>
    (\<forall>x \<in> set (dl_sends s). \<not> definitely_unsent (sn_outcome x) \<longrightarrow>
      (\<forall>b \<in> set (outbox (dl_db s)). outbox_pk b = send_key x \<longrightarrow>
         settled_outbox b \<or> o_state b = O_LEASED \<and> delivery_started b \<and> o_fence b = sn_fence x)) \<and>
    (\<forall>env worker limit now r d' log'. deliver_once env worker limit now (dl_db s) (dl_sends s) = (r, d', log') \<longrightarrow>
      (\<exists>as'. delivery_run (deliveries_start d) \<lparr>dl_db = d', dl_agents = as', dl_sends = log'\<rparr>))"
proof -
  have ok: "deliveries_ok s" using delivery_runs.reachable_inv assms by blast
  have "\<forall>i j. i < j \<longrightarrow> j < length (dl_sends s) \<longrightarrow> send_key (dl_sends s ! i) = send_key (dl_sends s ! j) \<longrightarrow>
      definitely_unsent (sn_outcome (dl_sends s ! i))"
    using ok by (auto simp: deliveries_ok_def sorted_wrt_iff_nth_less repeats_unsent_def)
  moreover have "\<forall>x \<in> set (dl_sends s). \<not> definitely_unsent (sn_outcome x) \<longrightarrow>
      (\<forall>b \<in> set (outbox (dl_db s)). outbox_pk b = send_key x \<longrightarrow> started_at (sn_fence x) b)"
    using ok by (auto simp: deliveries_ok_def list_all_iff send_ok_def closed_at_def)
  moreover have "\<exists>as'. delivery_run (deliveries_start d) \<lparr>dl_db = d', dl_agents = as', dl_sends = log'\<rparr>"
    if "deliver_once env worker limit now (dl_db s) (dl_sends s) = (r, d', log')" for env worker limit now r d' log'
    using deliver_once_run [OF that, of "dl_agents s"] assms(1) by (cases s) (auto intro: rtranclp_trans)
  ultimately show ?thesis unfolding started_at_def by blast
qed

definition example_delivery_env :: delivery_env where
  "example_delivery_env =
     \<lparr>de_recipient = (\<lambda>_. Inr (Some ''chat'')), de_language = (\<lambda>_. Inr None), de_message = (\<lambda>key. Inr key),
      de_send = (\<lambda>log _ _. case log of
          [] \<Rightarrow> Send_reply [(''ok'', JBool False), (''delivery_ambiguous'', JBool False)]
        | _ \<Rightarrow> Send_reply [(''ok'', JBool True)]),
      de_retry_delay = 30000000, de_max_retry_delay = 60000000, de_max_attempts = 12\<rparr>"

definition example_notice_store :: db where
  "example_notice_store = (empty_store 2000)\<lparr>workloads := [example_workload\<lparr>w_next_event_id := 2\<rparr>],
     events := [\<lparr>e_owner = ''owner'', e_workload = ''wkl_00000001'', e_id = 1, e_type = Ev_COMPLETED, e_payload = [],
       e_created_at = 1000\<rparr>],
     outbox := [example_outbox_row ''obx_00000001'' 1]\<rparr>"

text \<open>A first batch whose provider sends nothing, and a second one after the delay.\<close>

definition example_batches :: "delivery_report result \<times> db \<times> delivery_send list" where
  "example_batches =
     (case deliver_once example_delivery_env ''sender-1'' 10 (Some 3000) example_notice_store [] of
        (_, d1, log1) \<Rightarrow> deliver_once example_delivery_env ''sender-1'' 10 (Some 40000000) d1 log1)"

theorem deliveries_at_most_once_witness:
  "\<exists>r d' log'. example_batches = (r, d', log') \<and> map sn_fence log' = [1, 2] \<and> map o_state (outbox d') = [O_SENT] \<and>
     definitely_unsent (sn_outcome (log' ! 0))"
proof -
  obtain r1 d1 log1 where first: "deliver_once example_delivery_env ''sender-1'' 10 (Some 3000) example_notice_store [] = (r1, d1, log1)"
    by (cases "deliver_once example_delivery_env ''sender-1'' 10 (Some 3000) example_notice_store []") auto
  obtain r d' log' where second: "deliver_once example_delivery_env ''sender-1'' 10 (Some 40000000) d1 log1 = (r, d', log')"
    by (cases "deliver_once example_delivery_env ''sender-1'' 10 (Some 40000000) d1 log1") auto
  have run: "example_batches = (r, d', log')" by (simp add: example_batches_def first second)
  have "(case example_batches of (_, d', log') \<Rightarrow> map sn_fence log' = [1, 2] \<and> map o_state (outbox d') = [O_SENT] \<and>
      map send_key log' = [(''owner'', ''obx_00000001''), (''owner'', ''obx_00000001'')])"
    by code_simp
  then have seen: "map sn_fence log' = [1, 2]" "map o_state (outbox d') = [O_SENT]"
    "map send_key log' = [(''owner'', ''obx_00000001''), (''owner'', ''obx_00000001'')]" by (simp_all add: run)
  have ok: "store_ok example_notice_store" by code_simp
  obtain as1 as2 where "delivery_run (deliveries_start example_notice_store) \<lparr>dl_db = d1, dl_agents = as1, dl_sends = log1\<rparr>"
    and "delivery_run \<lparr>dl_db = d1, dl_agents = as1, dl_sends = log1\<rparr> \<lparr>dl_db = d', dl_agents = as2, dl_sends = log'\<rparr>"
    using deliver_once_run [OF first, of "[]"] deliver_once_run [OF second] unfolding deliveries_start_def by blast
  then have "delivery_run (deliveries_start example_notice_store) \<lparr>dl_db = d', dl_agents = as2, dl_sends = log'\<rparr>" by simp
  from conjunct1 [OF deliveries_at_most_once [OF this ok], unfolded deliveries.simps, rule_format, of 0 1]
  have "send_key (log' ! 0) = send_key (log' ! 1) \<longrightarrow> 1 < length log' \<longrightarrow> definitely_unsent (sn_outcome (log' ! 0))" by simp
  moreover have "length log' = 2" using arg_cong [OF seen(3), of length] by simp
  moreover have "send_key (log' ! 0) = map send_key log' ! 0" "send_key (log' ! 1) = map send_key log' ! 1"
    using \<open>length log' = 2\<close> by simp_all
  ultimately show ?thesis using run seen by (intro exI [of _ r] exI [of _ d'] exI [of _ log']) simp
qed

section \<open>The report of a batch\<close>

definition told :: "delivery_env \<Rightarrow> event_row list \<Rightarrow> string \<Rightarrow> string \<Rightarrow> string \<Rightarrow> bool" where
  "told env es owner recipient notice \<longleftrightarrow> de_recipient env owner = Inr (Some recipient) \<and>
     (\<exists>e \<in> set es. e_owner e = owner \<and> (\<exists>key. telegram_message_key (e_type e) = Some key \<and> de_message env key = Inr notice))"

definition agent_told :: "delivery_env \<Rightarrow> event_row list \<Rightarrow> agent \<Rightarrow> bool" where
  "agent_told env es a \<longleftrightarrow>
     (case ag_phase a of
        P_NOTICE r \<Rightarrow> de_recipient env (ob_owner_user_id (ag_record a)) = Inr (Some r)
      | P_SEND r notice \<Rightarrow> told env es (ob_owner_user_id (ag_record a)) r notice
      | _ \<Rightarrow> True)"

lemma get_event_member: "get_event owner wid i d = Inr e \<Longrightarrow> e \<in> set (events d) \<and> e_owner e = owner"
  by (auto simp: get_event_def events_of_def require_owner_def tx_simps split: if_split_asm dest!: find_SomeD)

lemma notice_told:
  assumes "notice_move env a r d = Inr (P_SEND r' notice, d')" and "de_recipient env (ob_owner_user_id (ag_record a)) = Inr (Some r)"
  shows "told env (events d) (ob_owner_user_id (ag_record a)) r' notice"
  using assms unfolding notice_move_def Let_def tx_simps terminal_notice_def
  by (elim exE conjE) (auto simp: tx_simps told_def dest: get_event_member split: option.split_asm if_split_asm)

lemma on_error_told: "agent_told env es (a\<lparr>ag_phase := on_error g e\<rparr>)"
  by (auto simp: agent_told_def on_error_def split: guard.split bool.split)

lemma delivery_move_told:
  assumes run: "delivery_move env a d log = (a', d', log')" and quiet: "\<not> sending (ag_phase a)" and told: "agent_told env (events d) a"
  shows "agent_told env (events d) a'"
proof (cases "ag_phase a")
  case (P_NOTICE r)
  show ?thesis
  proof (cases "notice_move env a r d")
    case (Inl e)
    then show ?thesis using run P_NOTICE on_error_told by (auto simp: delivery_move_def stored_def)
  next
    case (Inr v)
    obtain p e where move: "notice_move env a r d = Inr (p, e)" using Inr by (cases v) simp
    then have to: "a' = a\<lparr>ag_phase := p\<rparr>" using run P_NOTICE by (auto simp: delivery_move_def stored_def)
    from move show ?thesis
    proof (cases rule: notice_move_cases)
      case (2 notice marked)
      then show ?thesis
        using to notice_told [of env a r d r notice e] move told P_NOTICE by (cases marked) (auto simp: agent_told_def)
    qed (simp add: to agent_told_def)
  qed
next
  case (P_RETRY g)
  then show ?thesis
    using run stored_done [of g a d log "retry_or_cancel env a d" id a' d' log'] on_error_told [of env "events d" _ _ a]
    by (auto simp: delivery_move_def agent_told_def)
next
  case (P_CANCEL reason g)
  then show ?thesis
    using run stored_done [of g a d log "cancel_outbox (ag_record a) (ag_worker a) reason (Some (ag_now a)) d"
        "\<lambda>cancelled. if cancelled then D_CANCELLED else D_DEFERRED" a' d' log'] on_error_told [of env "events d" _ _ a]
    by (auto simp: delivery_move_def agent_told_def)
next
  case (P_CONFIRM ack)
  then show ?thesis
    using run stored_done [of "Guarded True" a d log "confirm_outbox (ag_record a) (ag_worker a) (Some ack) (Some (ag_now a)) d"
        "\<lambda>confirmed. if confirmed then D_SENT else D_DEFERRED" a' d' log'] on_error_told [of env "events d" _ _ a]
    by (auto simp: delivery_move_def agent_told_def)
qed (use run quiet told in \<open>auto simp: delivery_move_def agent_told_def split: sum.split_asm option.split_asm if_split_asm\<close>)

text \<open>The handling of one row calls the provider at most once, with what the row's owner is to be told.\<close>

definition sends_for :: "delivery_env \<Rightarrow> event_row list \<Rightarrow> agent \<Rightarrow> delivery_send list \<Rightarrow> bool" where
  "sends_for env es a new \<longleftrightarrow> length new \<le> 1 \<and> (sent_phase True (ag_phase a) \<longrightarrow> new = []) \<and>
     (\<forall>x \<in> set new. told env es (sn_owner x) (sn_recipient x) (sn_text x))"

lemma run_agent_sends:
  "run_agent env a d log = (a', d', log') \<Longrightarrow> agent_told env (events d) a \<Longrightarrow> store_ok d \<Longrightarrow>
     (\<exists>new. log' = log @ new \<and> sends_for env (events d) a new) \<and> txn d d' \<and> events d' = events d \<and> moves_left (ag_phase a') = 0"
proof (induction env a d log rule: run_agent.induct)
  case (1 env a d log)
  show ?case
  proof (cases "moves_left (ag_phase a) = 0")
    case True
    then show ?thesis using 1(2) by (auto simp: run_agent.simps sends_for_def)
  next
    case False
    obtain a1 d1 log1 where move: "delivery_move env a d log = (a1, d1, log1)" by (cases "delivery_move env a d log") auto
    then have rest: "run_agent env a1 d1 log1 = (a', d', log')" using 1(2) False by (simp add: run_agent.simps [of env a])
    note IH = 1(1) [OF False move [symmetric] refl rest]
    show ?thesis
    proof (cases "sending (ag_phase a)")
      case True
      then obtain r notice where phase: "ag_phase a = P_SEND r notice" by (cases "ag_phase a") auto
      define out where "out = de_send env log r notice"
      have a1: "a1 = a\<lparr>ag_phase := after_send out\<rparr>" "d1 = d" "log1 = log @ [send_of a r notice out]"
        using move phase by (auto simp: delivery_move_def out_def Let_def)
      have calm: "sent_phase True (ag_phase a1)" "agent_told env (events d) a1"
        by (auto simp: a1(1) after_send_def agent_told_def split: send_outcome.split)
      then obtain new where "log' = log1 @ new" "sends_for env (events d) a1 new" "txn d d'" "events d' = events d"
          "moves_left (ag_phase a') = 0" using IH 1(4) a1(2) by auto
      moreover have "told env (events d) (ob_owner_user_id (ag_record a)) r notice" using 1(3) phase by (simp add: agent_told_def)
      ultimately show ?thesis
        using calm(1) phase a1(3) by (auto simp: sends_for_def send_of_def)
    next
      case quiet: False
      note effect = delivery_move_effect [OF move quiet 1(4)]
      have "agent_told env (events d1) a1"
        using delivery_move_told [OF move quiet 1(3)] effect(3) by (simp add: agent_moves_def)
      moreover have "store_ok d1" using effect(3) txn_keeps [of d d1] 1(4) by (simp add: agent_moves_def)
      ultimately obtain new where "log' = log1 @ new" "sends_for env (events d1) a1 new" "txn d1 d'" "events d' = events d1"
          "moves_left (ag_phase a') = 0" using IH by auto
      moreover have "sends_for env (events d1) a new" using calculation(2) effect(4) [of True] by (auto simp: sends_for_def)
      ultimately show ?thesis using effect(1,3) by (auto simp: agent_moves_def intro: txn_trans)
    qed
  qed
qed

lemma deliver_records_report:
  "deliver_records env worker now recs rep d log = (Inr rep', d', log') \<Longrightarrow> store_ok d \<Longrightarrow>
     txn d d' \<and> events d' = events d \<and> dr_claimed rep' = dr_claimed rep \<and>
     dr_sent rep \<le> dr_sent rep' \<and> dr_deferred rep \<le> dr_deferred rep' \<and> dr_cancelled rep \<le> dr_cancelled rep' \<and>
     dr_sent rep' + dr_deferred rep' + dr_cancelled rep' = dr_sent rep + dr_deferred rep + dr_cancelled rep + int (length recs) \<and>
     (\<exists>new. log' = log @ new \<and> length new \<le> length recs \<and> (\<forall>x \<in> set new. told env (events d) (sn_owner x) (sn_recipient x) (sn_text x)))"
proof (induction recs arbitrary: rep d log)
  case (Cons rec recs)
  obtain a d1 log1 where run: "run_agent env (agent_of worker now rec) d log = (a, d1, log1)"
    by (cases "run_agent env (agent_of worker now rec) d log") auto
  obtain new where new: "log1 = log @ new" "sends_for env (events d) (agent_of worker now rec) new" and one: "txn d d1" "events d1 = events d"
    using run_agent_sends [OF run _ Cons.prems(2)] by (auto simp: agent_told_def agent_of_def)
  obtain disp where "ag_phase a = P_DONE disp" and rest: "deliver_records env worker now recs (count_disposition disp rep) d1 log1 = (Inr rep', d', log')"
    using Cons.prems(1) run by (cases "ag_phase a") auto
  note IH = Cons.IH [OF rest txn_keeps [OF one(1) Cons.prems(2)]]
  from IH obtain new' where new': "log' = log1 @ new'" "length new' \<le> length recs"
    "\<forall>x \<in> set new'. told env (events d) (sn_owner x) (sn_recipient x) (sn_text x)" unfolding one(2) by blast
  have "length (new @ new') \<le> length (rec # recs)" "\<forall>x \<in> set (new @ new'). told env (events d) (sn_owner x) (sn_recipient x) (sn_text x)"
    using new new' by (auto simp: sends_for_def)
  then have "\<exists>ns. log' = log @ ns \<and> length ns \<le> length (rec # recs) \<and>
      (\<forall>x \<in> set ns. told env (events d) (sn_owner x) (sn_recipient x) (sn_text x))"
    using new(1) new'(1) by (intro exI [of _ "new @ new'"]) simp
  then show ?case using IH one txn_trans [OF one(1)] by (cases disp) (simp_all add: count_disposition_def)
qed auto

text \<open>
  C0. The report of a batch is exact, and only owners are told. A batch that returns accounts for every
  row it claimed as sent, deferred or cancelled; it called the provider at most once for each of them, and
  every call goes to the recipient that is resolved at that time for the owner of the row, with the
  message for an event of that owner that has one.
\<close>

theorem delivery_report_exact:
  assumes run: "deliver_once env worker limit now d log = (Inr rep, d', log')" and ok: "store_ok d"
  shows "store_ok d' \<and> dr_claimed rep = dr_sent rep + dr_deferred rep + dr_cancelled rep \<and>
    0 \<le> dr_sent rep \<and> 0 \<le> dr_deferred rep \<and> 0 \<le> dr_cancelled rep \<and>
    (\<exists>new. log' = log @ new \<and> int (length new) \<le> dr_claimed rep \<and>
       (\<forall>x \<in> set new. de_recipient env (sn_owner x) = Inr (Some (sn_recipient x)) \<and>
          (\<exists>e \<in> set (events d). e_owner e = sn_owner x \<and>
             (\<exists>key. telegram_message_key (e_type e) = Some key \<and> de_message env key = Inr (sn_text x)))))"
proof -
  obtain recs d1 where claim: "claim_outbox ''telegram'' worker limit DELIVERY_LEASE (Some (operation_now d now)) d = Inr (recs, d1)"
    and batch: "deliver_records env worker (operation_now d now) recs
      \<lparr>dr_claimed = int (length recs), dr_sent = 0, dr_deferred = 0, dr_cancelled = 0\<rparr> d1 log = (Inr rep, d', log')"
    using run by (auto simp: deliver_once_def Let_def split: sum.split_asm)
  have one: "store_ok d1" "events d1 = events d"
    using txn_keeps [OF claim_outbox_txn [OF claim] ok] claim_outbox_eq(2) [OF store_outbox_keys [OF ok] claim] by simp_all
  note report = deliver_records_report [OF batch one(1)]
  then have "store_ok d'" using txn_keeps one(1) by blast
  then show ?thesis using report unfolding one(2) told_def by auto
qed

theorem delivery_report_exact_witness:
  "\<exists>rep d' log'. deliver_once example_delivery_env ''sender-1'' 10 (Some 3000) example_notice_store [] = (Inr rep, d', log') \<and>
     dr_claimed rep = 1 \<and> dr_deferred rep = 1 \<and> map sn_recipient log' = [''chat''] \<and> store_ok d'"
proof -
  have "(case deliver_once example_delivery_env ''sender-1'' 10 (Some 3000) example_notice_store [] of
      (Inr rep, _, log') \<Rightarrow> dr_claimed rep = 1 \<and> dr_deferred rep = 1 \<and> map sn_recipient log' = [''chat''] | _ \<Rightarrow> False)"
    by code_simp
  then obtain rep d' log' where run: "deliver_once example_delivery_env ''sender-1'' 10 (Some 3000) example_notice_store [] = (Inr rep, d', log')"
    and seen: "dr_claimed rep = 1" "dr_deferred rep = 1" "map sn_recipient log' = [''chat'']"
    by (auto split: prod.split_asm sum.split_asm)
  have ok: "store_ok example_notice_store" by code_simp
  show ?thesis
    using run seen delivery_report_exact [OF run ok] by (intro exI [of _ rep] exI [of _ d'] exI [of _ log']) simp
qed

end
