(* ===== verification/Worker.thy ===== *)
theory Worker
  imports Completion
begin

text \<open>
  The cooperative worker (\<open>DurableWorker\<close> of \<open>worker.py\<close>, with the facade \<open>DurableCoordinator\<close> of
  \<open>coordinator.py\<close>): one claimed unit is marked running, executed outside every transaction while a
  helper renews the lease, and ended by a commit, a failure or an abandonment. The execution, the
  clock readings and whatever other threads and processes do to the store meanwhile are parameters.
\<close>

section \<open>The worker's own state\<close>

datatype worker_status =
    R_IDLE | R_CONTROL_PROGRESS | R_STOPPED | R_ABANDONED | R_COMMITTED | R_IDEMPOTENT_REPLAY | R_FAILED | R_LOST_LEASE

record worker_state =
  ws_stop_requested_at :: "instant option"
  ws_shutdown_deadline :: "instant option"
  ws_active_lease :: "lease option"

definition stopping :: "worker_state \<Rightarrow> bool" where
  "stopping ws \<longleftrightarrow> ws_stop_requested_at ws \<noteq> None"

definition release_active_lease :: "lease \<Rightarrow> worker_state \<Rightarrow> worker_state" where
  "release_active_lease l ws = (if ws_active_lease ws = Some l then ws\<lparr>ws_active_lease := None\<rparr> else ws)"

text \<open>\<open>heartbeat_done\<close>: the renewal thread is not running any more.\<close>

definition shutdown_complete :: "bool \<Rightarrow> worker_state \<Rightarrow> bool" where
  "shutdown_complete heartbeat_done ws \<longleftrightarrow> stopping ws \<and> ws_active_lease ws = None \<and> heartbeat_done"

definition request_stop :: "int \<Rightarrow> instant \<Rightarrow> worker_state \<Rightarrow> worker_state" where
  "request_stop shutdown_grace requested ws =
     (if ws_stop_requested_at ws = None
      then ws\<lparr>ws_stop_requested_at := Some requested, ws_shutdown_deadline := Some (requested + shutdown_grace)\<rparr>
      else ws)"

definition worker_claim ::
  "string \<Rightarrow> int \<Rightarrow> worker_capabilities \<Rightarrow> instant \<Rightarrow> worker_state \<Rightarrow> db \<Rightarrow> (lease option \<times> worker_state \<times> db) result" where
  "worker_claim worker duration caps now ws d =
     (if stopping ws then Inr (None, ws, d)
      else bindE (claim_next worker now duration caps d) (\<lambda>(claimed, d').
        Inr (claimed, (case claimed of None \<Rightarrow> ws | Some l \<Rightarrow> ws\<lparr>ws_active_lease := Some l\<rparr>), d')))"

definition worker_heartbeat ::
  "lease \<Rightarrow> instant \<Rightarrow> instant option \<Rightarrow> worker_state \<Rightarrow> db \<Rightarrow> (lease_mutation_status \<times> worker_state \<times> db) result" where
  "worker_heartbeat l new_expiry now ws d =
     (if stopping ws then Inr (LM_STOP_REQUESTED, ws, d)
      else bindE (heartbeat l new_expiry now d) (\<lambda>(status, d').
        Inr (status, (if status \<in> {LM_STALE_FENCE, LM_LEASE_EXPIRED} then release_active_lease l ws else ws), d')))"

definition abandon_if_shutdown_due ::
  "instant \<Rightarrow> worker_state \<Rightarrow> db \<Rightarrow> (lease_mutation_status option \<times> worker_state \<times> db) result" where
  "abandon_if_shutdown_due current ws d =
     (case (ws_shutdown_deadline ws, ws_active_lease ws) of
        (Some deadline, Some l) \<Rightarrow>
          if \<not> stopping ws \<or> current < deadline then Inr (None, ws, d)
          else bindE (abandon_attempt l (Some current) ''worker_shutdown'' d) (\<lambda>(status, d').
            Inr (Some status, (if status \<in> {LM_APPLIED, LM_ALREADY_APPLIED, LM_STALE_FENCE}
              then release_active_lease l ws else ws), d'))
      | _ \<Rightarrow> Inr (None, ws, d))"

section \<open>The environment of one run\<close>

text \<open>What the adapter does: a result with its dependencies, a redacted failure, a timeout, another exception or value.\<close>

datatype execution =
    X_result validated_result "ident list"
  | X_failure structured_error attempt_state
  | X_timeout
  | X_raises
  | X_other

text \<open>
  One round of the renewal loop: what others did to the store before it, the clock and whether the
  monotonic deadline is ahead, and both again after the wait. The list of the rounds ends where the
  loop is told to stop.
\<close>

record beat =
  bt_others :: "db \<Rightarrow> db"
  bt_now :: instant
  bt_left :: bool
  bt_later :: instant
  bt_later_left :: bool

text \<open>
  A run: the clock readings in the order the code takes them, the monotonic clock against its
  deadline, the rounds of the renewal (none for a store in memory), and what others do to the store
  before the first, the second and the third call the worker makes itself.
\<close>

record worker_turn =
  wt_start :: instant
  wt_finish :: instant
  wt_error_at :: instant
  wt_record_at :: instant
  wt_commit_at :: instant
  wt_stop_at :: instant
  wt_overdue :: bool
  wt_beats :: "beat list"
  wt_stuck :: bool
  wt_execute :: "lease \<Rightarrow> execution"
  wt_others :: "nat \<Rightarrow> db \<Rightarrow> db"

record worker_limits =
  wl_lease_duration :: int
  wl_shutdown_grace :: int
  wl_heartbeat_interval :: int

text \<open>
  The checks of the constructor. A third of the lease duration is rounded to the nearest microsecond,
  as the division of a \<open>timedelta\<close> does.
\<close>

definition MAX_SHUTDOWN_GRACE :: int where "MAX_SHUTDOWN_GRACE = 86400 * micros_per_second"

definition default_heartbeat_interval :: "int \<Rightarrow> int" where
  "default_heartbeat_interval duration = min ((2 * duration + 3) div 6) (30 * micros_per_second)"

definition worker_init :: "string \<Rightarrow> int \<Rightarrow> int \<Rightarrow> int option \<Rightarrow> (worker_limits \<times> worker_state) result" where
  "worker_init worker duration grace interval =
     bindE (require_worker_id worker) (\<lambda>_.
     bindE (require_lease_duration duration) (\<lambda>duration.
     if grace < 0 \<or> grace > MAX_SHUTDOWN_GRACE then Inl ValueError
     else let chosen = (case interval of None \<Rightarrow> default_heartbeat_interval duration | Some i \<Rightarrow> i)
          in if chosen \<le> 0 \<or> chosen \<ge> duration then Inl ValueError
             else Inr (\<lparr>wl_lease_duration = duration, wl_shutdown_grace = grace, wl_heartbeat_interval = chosen\<rparr>,
                       \<lparr>ws_stop_requested_at = None, ws_shutdown_deadline = None, ws_active_lease = None\<rparr>)))"

record worker_outcome =
  wo_status :: worker_status
  wo_lease :: "lease option"
  wo_commit :: "commit_outcome option"
  wo_failure :: "failure_outcome option"

section \<open>The renewal of the lease\<close>

text \<open>\<open>renew\<close>: was the lease lost, and the store.\<close>

fun renew :: "lease \<Rightarrow> instant \<Rightarrow> int \<Rightarrow> instant \<Rightarrow> beat list \<Rightarrow> db \<Rightarrow> bool \<times> db" where
  "renew l deadline duration persisted [] d = (False, d)"
| "renew l deadline duration persisted (b # bs) d =
     (let d1 = bt_others b d;
          new_expiry = min (bt_now b + duration) deadline;
          next = (\<lambda>expiry e. if bt_later b \<ge> deadline \<or> \<not> bt_later_left b then (False, e)
                            else renew l deadline duration expiry bs e)
      in if deadline - bt_now b \<le> 0 \<or> \<not> bt_left b then (False, d1)
         else if new_expiry > persisted then
           (case heartbeat l new_expiry (Some (bt_now b)) d1 of
              Inl _ \<Rightarrow> (True, d1)
            | Inr (status, d2) \<Rightarrow> if status \<noteq> LM_APPLIED then (True, d2) else next new_expiry d2)
         else next persisted d1)"

section \<open>The end of an attempt\<close>

definition ended :: "lease \<Rightarrow> worker_status \<Rightarrow> commit_outcome option \<Rightarrow> failure_outcome option \<Rightarrow> worker_outcome" where
  "ended l status commit failure = \<lparr>wo_status = status, wo_lease = Some l, wo_commit = commit, wo_failure = failure\<rparr>"

definition record_failure ::
  "(string \<Rightarrow> nat) \<Rightarrow> lease \<Rightarrow> structured_error \<Rightarrow> attempt_state \<Rightarrow> instant \<Rightarrow> worker_state \<Rightarrow> db
     \<Rightarrow> worker_outcome result \<times> worker_state \<times> db" where
  "record_failure sha8 l error attempt_state now ws d =
     (case bindE (decide_retry (l_effect_profile l) (l_retry_policy l) (l_attempt_number l) (se_error_class error)
                   (l_manual_retry l)) (\<lambda>decision.
           fail_attempt sha8 l error decision attempt_state (Some now) d) of
        Inl e \<Rightarrow> (Inl e, ws, d)
      | Inr (failure, d') \<Rightarrow>
          (Inr (ended l (if fst failure \<in> {FS_STALE_FENCE, FS_LEASE_EXPIRED, FS_INVALID_STATE} then R_LOST_LEASE else R_FAILED)
             None (Some failure)), release_active_lease l ws, d'))"

text \<open>An error the worker makes itself.\<close>

definition fail_with ::
  "(string \<Rightarrow> nat) \<Rightarrow> lease \<Rightarrow> structured_error result \<Rightarrow> attempt_state \<Rightarrow> instant \<Rightarrow> worker_state \<Rightarrow> db
     \<Rightarrow> worker_outcome result \<times> worker_state \<times> db" where
  "fail_with sha8 l error attempt_state now ws d =
     (case error of Inl e \<Rightarrow> (Inl e, ws, d) | Inr err \<Rightarrow> record_failure sha8 l err attempt_state now ws d)"

definition timeout_error :: "lease \<Rightarrow> instant \<Rightarrow> bool \<Rightarrow> structured_error result" where
  "timeout_error l occurred_at result_discarded =
     structured_error_create ''executor_transient'' ''execution.timeout'' ''ERR_DURABLE_EXECUTION_FAILED'' ''automatic'' occurred_at
       [(''timeout_s'', JInt (l_timeout_s l)), (''result_discarded'', JBool result_discarded)]"

definition record_timeout ::
  "(string \<Rightarrow> nat) \<Rightarrow> lease \<Rightarrow> instant \<Rightarrow> bool \<Rightarrow> worker_state \<Rightarrow> db \<Rightarrow> worker_outcome result \<times> worker_state \<times> db" where
  "record_timeout sha8 l occurred_at result_discarded ws d =
     fail_with sha8 l (timeout_error l occurred_at result_discarded) A_TIMED_OUT occurred_at ws d"

definition transport_timeout :: "instant \<Rightarrow> structured_error result" where
  "transport_timeout t =
     structured_error_create ''executor_transient'' ''execution.timeout'' ''ERR_DURABLE_EXECUTION_FAILED'' ''automatic'' t
       [(''transport_timeout'', JBool True)]"

definition unhandled_exception :: "instant \<Rightarrow> structured_error result" where
  "unhandled_exception t =
     structured_error_create ''executor_unknown'' ''execution.unhandled_exception'' ''ERR_DURABLE_EXECUTION_FAILED'' ''manual'' t
       [(''exception_redacted'', JBool True)]"

definition invalid_adapter_type :: "instant \<Rightarrow> structured_error result" where
  "invalid_adapter_type t =
     structured_error_create ''contract_violation'' ''result.invalid_adapter_type'' ''ERR_DURABLE_RESULT_CONTRACT_VIOLATION''
       ''never'' t [(''result_type_valid'', JBool False)]"

definition schema_mismatch :: "lease \<Rightarrow> validated_result \<Rightarrow> instant \<Rightarrow> structured_error result" where
  "schema_mismatch l v t =
     structured_error_create ''contract_violation'' ''result.schema_mismatch'' ''ERR_DURABLE_RESULT_CONTRACT_VIOLATION'' ''never'' t
       [(''expected_schema'', JStr (l_output_schema_version l)), (''received_schema'', JStr (vr_schema_version v))]"

definition budget_exhausted :: "jobj \<Rightarrow> instant \<Rightarrow> structured_error result" where
  "budget_exhausted reason t =
     structured_error_create ''budget_exhausted'' ''result.output_budget_exhausted'' ''ERR_DURABLE_BUDGET_EXHAUSTED'' ''manual'' t
       reason"

definition commit_status_of :: "commit_status \<Rightarrow> worker_status" where
  "commit_status_of status =
     (case status of CS_COMMITTED \<Rightarrow> R_COMMITTED | CS_IDEMPOTENT_REPLAY \<Rightarrow> R_IDEMPOTENT_REPLAY | _ \<Rightarrow> R_LOST_LEASE)"

text \<open>The commit; a budget that is exhausted, or a deadline that passed, becomes a failure of the attempt.\<close>

definition commit_run ::
  "(string \<Rightarrow> string) \<Rightarrow> (string \<Rightarrow> nat) \<Rightarrow> worker_turn \<Rightarrow> lease \<Rightarrow> validated_result \<Rightarrow> ident list \<Rightarrow> worker_state \<Rightarrow> db
     \<Rightarrow> worker_outcome result \<times> worker_state \<times> db" where
  "commit_run sha sha8 w l v deps ws d =
     (case commit_result sha l v deps (Some (wt_commit_at w)) d of
        Inl (BudgetExceededError reason) \<Rightarrow>
          fail_with sha8 l (budget_exhausted reason (wt_error_at w)) A_FAILED (wt_record_at w) ws (wt_others w 2 d)
      | Inl e \<Rightarrow> (Inl e, ws, d)
      | Inr (commit, d') \<Rightarrow>
          if co_status commit = CS_DEADLINE_EXPIRED then record_timeout sha8 l (wt_record_at w) True ws (wt_others w 2 d')
          else (Inr (ended l (commit_status_of (co_status commit)) (Some commit) None), release_active_lease l ws, d'))"

definition deadline_of :: "worker_turn \<Rightarrow> lease \<Rightarrow> instant" where
  "deadline_of w l = wt_start w + l_timeout_s l * micros_per_second"

text \<open>What follows the execution.\<close>

definition finish_run ::
  "(string \<Rightarrow> string) \<Rightarrow> (string \<Rightarrow> nat) \<Rightarrow> worker_turn \<Rightarrow> lease \<Rightarrow> worker_state \<Rightarrow> db
     \<Rightarrow> worker_outcome result \<times> worker_state \<times> db" where
  "finish_run sha sha8 w l ws d =
     (let deadline = deadline_of w l; outcome = wt_execute w l; failed = (\<lambda>error state. fail_with sha8 l error state (wt_record_at w) ws d)
      in if wt_finish w \<ge> deadline \<or> wt_overdue w
         then record_timeout sha8 l (max (wt_finish w) deadline) (case outcome of X_result _ _ \<Rightarrow> True | X_other \<Rightarrow> True | _ \<Rightarrow> False) ws d
         else case outcome of
           X_failure error state \<Rightarrow> failed (Inr error) state
         | X_timeout \<Rightarrow> failed (transport_timeout (wt_error_at w)) A_TIMED_OUT
         | X_raises \<Rightarrow> failed (unhandled_exception (wt_error_at w)) A_FAILED
         | X_other \<Rightarrow> failed (invalid_adapter_type (wt_error_at w)) A_FAILED
         | X_result v deps \<Rightarrow>
             if vr_schema_version v \<noteq> l_output_schema_version l
             then failed (schema_mismatch l v (wt_error_at w)) A_FAILED
             else commit_run sha sha8 w l v deps ws d)"

definition run_claimed ::
  "(string \<Rightarrow> string) \<Rightarrow> (string \<Rightarrow> nat) \<Rightarrow> worker_limits \<Rightarrow> worker_turn \<Rightarrow> lease \<Rightarrow> worker_state \<Rightarrow> db
     \<Rightarrow> worker_outcome result \<times> worker_state \<times> db" where
  "run_claimed sha sha8 wl w l ws d =
     (let d0 = wt_others w 0 d; lost = ended l R_LOST_LEASE None None in
      if stopping ws then
        (case abandon_attempt l (Some (wt_start w)) ''execution_not_started'' d0 of
           Inl e \<Rightarrow> (Inl e, ws, d0)
         | Inr (status, d1) \<Rightarrow>
             (Inr (if status \<in> {LM_APPLIED, LM_ALREADY_APPLIED} then ended l R_ABANDONED None None else lost),
              release_active_lease l ws, d1))
      else
        (case mark_running l (Some (wt_start w)) d0 of
           Inl e \<Rightarrow> (Inl e, ws, d0)
         | Inr (status, d1) \<Rightarrow>
             if status \<noteq> LM_APPLIED then (Inr lost, release_active_lease l ws, d1)
             else
               let deadline = deadline_of w l;
                   (lease_lost, d2) = renew l deadline (wl_lease_duration wl) (min (l_lease_expires_at l) deadline) (wt_beats w) d1;
                   ws1 = (if wt_stuck w then request_stop (wl_shutdown_grace wl) (wt_stop_at w) ws else ws);
                   d3 = wt_others w 1 d2
               in if lease_lost \<or> wt_stuck w then (Inr lost, release_active_lease l ws1, d3)
                  else finish_run sha sha8 w l ws1 d3))"

definition run_once ::
  "(string \<Rightarrow> string) \<Rightarrow> (string \<Rightarrow> nat) \<Rightarrow> string \<Rightarrow> worker_capabilities \<Rightarrow> worker_limits \<Rightarrow> instant \<Rightarrow> worker_turn \<Rightarrow> worker_state \<Rightarrow> db
     \<Rightarrow> worker_outcome result \<times> worker_state \<times> db" where
  "run_once sha sha8 worker caps wl now w ws d =
     (let none = (\<lambda>status. \<lparr>wo_status = status, wo_lease = None, wo_commit = None, wo_failure = None\<rparr>) in
      if stopping ws then (Inr (none R_STOPPED), ws, d)
      else case worker_claim worker (wl_lease_duration wl) caps now ws d of
        Inl e \<Rightarrow> (Inl e, ws, d)
      | Inr (None, ws1, d1) \<Rightarrow> (Inr (none R_IDLE), ws1, d1)
      | Inr (Some l, ws1, d1) \<Rightarrow> run_claimed sha sha8 wl w l ws1 d1)"

end
