(* ===== verification/Worker_Properties.thy ===== *)
theory Worker_Properties
  imports Worker Runs
begin

text \<open>
  What a worker guarantees, whatever it executes and whatever others do to the store meanwhile: it
  commits nothing but the result it was given in time, and it ends every attempt it reports as ended.
\<close>

section \<open>Runs\<close>

definition others_run :: "(string \<Rightarrow> string) \<Rightarrow> (string \<Rightarrow> nat) \<Rightarrow> worker_turn \<Rightarrow> bool" where
  "others_run sha sha8 w \<longleftrightarrow> (\<forall>i d. store_run sha sha8 d (wt_others w i d)) \<and>
     (\<forall>b \<in> set (wt_beats w). \<forall>d. store_run sha sha8 d (bt_others b d))"

lemma run_then: "store_run sha sha8 d e \<Longrightarrow> store_step sha sha8 e f \<Longrightarrow> store_run sha sha8 d f"
  by (rule rtranclp.rtrancl_into_rtrancl)

text \<open>The renewal is a run.\<close>

lemma renew_run:
  assumes "\<forall>b \<in> set bs. \<forall>d. store_run sha sha8 d (bt_others b d)"
  shows "store_run sha sha8 d (snd (renew l deadline duration persisted bs d))"
  using assms
proof (induction bs arbitrary: persisted d)
  case (Cons b bs)
  have IH: "store_run sha sha8 e (snd (renew l deadline duration p bs e))" for p e using Cons by simp
  have others: "store_run sha sha8 d (bt_others b d)" using Cons.prems by simp
  have beat: "store_run sha sha8 d e" if "heartbeat l x (Some t) (bt_others b d) = Inr (st, e)" for x t st e
    using others step_heartbeat [OF that] by (rule run_then)
  show ?case
    using others beat IH
    by (auto simp: Let_def split: sum.split prod.split intro: rtranclp_trans) (meson beat IH rtranclp_trans)+
qed simp

section \<open>Ended attempts\<close>

definition attempt_ended :: "db \<Rightarrow> lease \<Rightarrow> bool" where
  "attempt_ended d l \<longleftrightarrow> (\<exists>a \<in> set (attempts d). attempt_pk a = (l_owner_user_id l, l_attempt_id l) \<and> a_ended_at a \<noteq> None)"

lemma attempt_ended_for_good:
  assumes "attempt_ended d l" and "store_ok d" and "store_run sha sha8 d e"
  shows "\<not> lease_matches e l"
proof -
  note kept = run_keeps [OF assms(3,2)]
  obtain a where a: "a \<in> set (attempts d)" "attempt_pk a = (l_owner_user_id l, l_attempt_id l)" "a_ended_at a \<noteq> None"
    using assms(1) unfolding attempt_ended_def by blast
  show ?thesis
    using ended_lease_lost [OF kept(1) ended_attempt_kept [OF core_evolvesD(5) [OF kept(2)] a(1,3)] a(2,3)] .
qed

section \<open>Stored results\<close>

lemma update_pair_results: "update_pair P f Q g msg d = Inr d' \<Longrightarrow> results d' = results d"
  by (auto simp: update_pair_def split: if_split_asm)

lemma advance_clock_results: "advance_revision_clock_in_transaction owner rid t d = Inr d' \<Longrightarrow> results d' = results d"
  by (auto simp: advance_revision_clock_in_transaction_def split: if_split_asm)

lemma finish_lease_results: "finish_lease l t d = Inr d' \<Longrightarrow> results d' = results d"
  by (auto simp: finish_lease_def tx_simps outcomes_kept_def dest!: advance_clock_results settle_outcomes)

lemma mark_unaccounted_results: "mark_unaccounted_model_usage_unknown_in_transaction u a t d = Inr (b, d') \<Longrightarrow> results d' = results d"
  by (auto simp: mark_unaccounted_model_usage_unknown_in_transaction_def tx_simps outcomes_kept_def split: if_split_asm
      dest!: add_usage_outcomes)

lemma fail_attempt_results: "fail_attempt sha8 l err decision st now d = Inr (f, d') \<Longrightarrow> results d' = results d"
  unfolding fail_attempt_def fail_running_def close_failed_def Let_def
  by (auto simp: tx_simps split: if_split_asm option.split_asm prod.split_asm
      dest!: update_pair_results finish_lease_results mark_unaccounted_results)

lemma abandon_attempt_results: "abandon_attempt l now reason d = Inr (st, d') \<Longrightarrow> results d' = results d"
  unfolding abandon_attempt_def abandon_live_def close_abandoned_def Let_def
  by (auto simp: tx_simps split: if_split_asm option.split_asm
      dest!: update_pair_results finish_lease_results mark_unaccounted_results)

lemma mark_running_results: "mark_running l now d = Inr (st, d') \<Longrightarrow> results d' = results d"
  unfolding mark_running_def start_execution_def Let_def
  by (auto simp: tx_simps split: if_split_asm option.split_asm dest!: update_pair_results advance_clock_results)

lemma heartbeat_results: "heartbeat l expiry now d = Inr (st, d') \<Longrightarrow> results d' = results d"
  unfolding heartbeat_def extend_lease_def Let_def
  by (auto simp: tx_simps split: if_split_asm option.split_asm dest!: advance_clock_results)

lemma commit_refused: "commit_result sha l v deps now d = Inr (out, d') \<Longrightarrow> co_status out \<noteq> CS_COMMITTED \<Longrightarrow> d' = d"
  unfolding commit_result_def commit_running_def Let_def
  by (auto simp: tx_simps split: if_split_asm option.split_asm)

lemma renew_results:
  assumes "\<forall>b \<in> set bs. \<forall>d. results (bt_others b d) = results d"
  shows "results (snd (renew l deadline duration persisted bs d)) = results d"
  using assms
proof (induction bs arbitrary: persisted d)
  case (Cons b bs)
  have "results e = results d" if "heartbeat l x (Some t) (bt_others b d) = Inr (st, e)" for x t st e
    using heartbeat_results [OF that] Cons.prems by simp
  then show ?case using Cons by (auto simp: Let_def split: sum.split prod.split)
qed simp

section \<open>The end of a run\<close>

definition commits_given :: "worker_turn \<Rightarrow> lease \<Rightarrow> db \<Rightarrow> bool" where
  "commits_given w l d \<longleftrightarrow> (\<exists>v deps x. wt_execute w l = X_result v deps \<and> vr_schema_version v = l_output_schema_version l \<and>
     wt_finish w < deadline_of w l \<and> \<not> wt_overdue w \<and>
     find (\<lambda>y. x_owner y = l_owner_user_id l \<and> x_unit y = l_unit_id l) (results d) = Some x \<and>
     x_attempt x = l_attempt_id l \<and> x_fence x = l_fence l \<and> x_digest x = vr_digest v \<and> x_payload x = vr_payload v)"

definition others_keep_results :: "worker_turn \<Rightarrow> bool" where
  "others_keep_results w \<longleftrightarrow> (\<forall>i e. results (wt_others w i e) = results e) \<and>
     (\<forall>b \<in> set (wt_beats w). \<forall>e. results (bt_others b e) = results e)"

text \<open>What a part of a run does from a store: the store it leaves, and what its outcome says of it.\<close>

definition turn_ok ::
  "(string \<Rightarrow> string) \<Rightarrow> (string \<Rightarrow> nat) \<Rightarrow> worker_turn \<Rightarrow> lease \<Rightarrow> db \<Rightarrow> worker_outcome result \<times> worker_state \<times> db \<Rightarrow> bool" where
  "turn_ok sha sha8 w l d turn \<longleftrightarrow> (case turn of (r, ws, d') \<Rightarrow>
     store_run sha sha8 d d' \<and>
     (\<forall>out. r = Inr out \<longrightarrow> wo_lease out = Some l \<and> ws_active_lease ws \<noteq> Some l \<and>
        (wo_status out \<in> {R_COMMITTED, R_FAILED, R_ABANDONED} \<longrightarrow> attempt_ended d' l) \<and>
        (wo_status out = R_COMMITTED \<longrightarrow> commits_given w l d')) \<and>
     (others_keep_results w \<longrightarrow> (\<forall>out. r = Inr out \<longrightarrow> wo_status out \<noteq> R_COMMITTED) \<longrightarrow>
        results d' = results d))"

lemma turn_okI:
  assumes "store_run sha sha8 d d'"
    and "\<And>out. r = Inr out \<Longrightarrow> wo_lease out = Some l \<and> ws_active_lease ws \<noteq> Some l"
    and "\<And>out. r = Inr out \<Longrightarrow> wo_status out \<in> {R_COMMITTED, R_FAILED, R_ABANDONED} \<Longrightarrow> attempt_ended d' l"
    and "\<And>out. r = Inr out \<Longrightarrow> wo_status out = R_COMMITTED \<Longrightarrow> commits_given w l d'"
    and "(\<forall>out. r = Inr out \<longrightarrow> wo_status out \<noteq> R_COMMITTED) \<Longrightarrow> results d' = results d"
  shows "turn_ok sha sha8 w l d (r, ws, d')"
  using assms by (auto simp: turn_ok_def)

lemma turn_ok_after:
  assumes "turn_ok sha sha8 w l e turn" and "store_run sha sha8 d e"
    and "others_keep_results w \<Longrightarrow> results e = results d"
  shows "turn_ok sha sha8 w l d turn"
  using assms by (auto simp: turn_ok_def split: prod.splits intro: rtranclp_trans)

lemma released_lease [simp]: "ws_active_lease (release_active_lease l ws) \<noteq> Some l"
  by (simp add: release_active_lease_def)

lemma record_failure_ok:
  assumes ok: "store_ok d"
  shows "turn_ok sha sha8 w l d (record_failure sha8 l err st now ws d)"
proof (cases "decide_retry (l_effect_profile l) (l_retry_policy l) (l_attempt_number l) (se_error_class err) (l_manual_retry l)")
  case (Inl e)
  then show ?thesis by (auto simp: record_failure_def intro!: turn_okI)
next
  case (Inr decision)
  show ?thesis
  proof (cases "fail_attempt sha8 l err decision st (Some now) d")
    case (Inl e)
    then show ?thesis using \<open>_ = Inr decision\<close> by (auto simp: record_failure_def intro!: turn_okI)
  next
    case fail: (Inr v)
    obtain status "next" d' where run: "fail_attempt sha8 l err decision st (Some now) d = Inr ((status, next), d')"
      using fail by (cases v) auto
    have ended: "attempt_ended d' l" if "status \<notin> {FS_STALE_FENCE, FS_LEASE_EXPIRED, FS_INVALID_STATE}"
    proof -
      have "status \<in> {FS_RETRY_SCHEDULED, FS_NEEDS_ATTENTION, FS_FAILED_PERMANENT}" using that by (cases status) auto
      from fail_attempt_ends [OF run ok this] show ?thesis
        unfolding attempt_ended_def by (metis matched_rowD(6,7) option.distinct(1) prod.inject)
    qed
    show ?thesis
      using run Inr ended step_fail [OF run] fail_attempt_results [OF run]
      by (auto simp: record_failure_def ended_def intro!: turn_okI split: if_split_asm)
  qed
qed

lemma fail_with_ok: "store_ok d \<Longrightarrow> turn_ok sha sha8 w l d (fail_with sha8 l error st now ws d)"
  by (cases error) (auto simp: fail_with_def record_failure_ok intro!: turn_okI)

lemma commit_run_ok:
  assumes ok: "store_ok d" and others: "others_run sha sha8 w"
    and given: "wt_execute w l = X_result v deps" "vr_schema_version v = l_output_schema_version l"
    and intime: "wt_finish w < deadline_of w l" "\<not> wt_overdue w"
  shows "turn_ok sha sha8 w l d (commit_run sha sha8 w l v deps ws d)"
proof -
  have fails: "turn_ok sha sha8 w l d (fail_with sha8 l err st now ws' (wt_others w 2 e))"
    if "store_run sha sha8 d e" "results e = results d" for err st now ws' e
  proof -
    have "store_run sha sha8 e (wt_others w 2 e)" using others by (simp add: others_run_def)
    with that(1) have run: "store_run sha sha8 d (wt_others w 2 e)" by (rule rtranclp_trans)
    show ?thesis using fail_with_ok [OF run_keeps(1) [OF run ok]] run by (rule turn_ok_after) (simp add: that others_keep_results_def)
  qed
  show ?thesis
  proof (cases "commit_result sha l v deps (Some (wt_commit_at w)) d")
    case (Inl e)
    show ?thesis
    proof (cases "\<exists>reason. e = BudgetExceededError reason")
      case True
      then show ?thesis using Inl fails by (auto simp: commit_run_def)
    next
      case False
      then have "commit_run sha sha8 w l v deps ws d = (Inl e, ws, d)"
        using Inl by (cases e) (auto simp: commit_run_def)
      then show ?thesis by (auto intro: turn_okI)
    qed
  next
    case (Inr r)
    obtain commit d' where run: "commit_result sha l v deps (Some (wt_commit_at w)) d = Inr (commit, d')"
      using Inr by (cases r) auto
    show ?thesis
    proof (cases "co_status commit = CS_COMMITTED")
      case True
      have "attempt_ended d' l" using commit_attempt_ends [OF run True ok] unfolding attempt_ended_def by blast
      moreover have "commits_given w l d'"
        by (rule commit_stores_result [OF run True ok]) (simp add: commits_given_def given intime)
      ultimately show ?thesis
        using run True step_commit [OF run]
        by (auto simp: commit_run_def ended_def commit_status_of_def intro!: turn_okI)
    next
      case False
      note same = commit_refused [OF run False]
      show ?thesis
      proof (cases "co_status commit = CS_DEADLINE_EXPIRED")
        case True
        then have "commit_run sha sha8 w l v deps ws d =
            fail_with sha8 l (timeout_error l (wt_record_at w) True) A_TIMED_OUT (wt_record_at w) ws (wt_others w 2 d)"
          using run unfolding same by (simp add: commit_run_def record_timeout_def)
        then show ?thesis using fails [OF rtranclp.rtrancl_refl refl] by (simp only:)
      next
        case other: False
        have "commit_status_of (co_status commit) \<notin> {R_COMMITTED, R_FAILED, R_ABANDONED}"
          using False by (cases "co_status commit") (simp_all add: commit_status_of_def)
        moreover have "commit_run sha sha8 w l v deps ws d =
            (Inr (ended l (commit_status_of (co_status commit)) (Some commit) None), release_active_lease l ws, d)"
          using run same other by (simp add: commit_run_def)
        ultimately show ?thesis by (auto simp: ended_def intro!: turn_okI)
      qed
    qed
  qed
qed

lemma finish_run_ok:
  assumes ok: "store_ok d" and others: "others_run sha sha8 w"
  shows "turn_ok sha sha8 w l d (finish_run sha sha8 w l ws d)"
  using fail_with_ok [OF ok] commit_run_ok [OF ok others]
  by (auto simp: finish_run_def Let_def record_timeout_def split: execution.split)

text \<open>The whole run: before the execution only the start of the attempt and the renewals change the store.\<close>

lemma run_claimed_ok:
  assumes ok: "store_ok d" and others: "others_run sha sha8 w"
  shows "turn_ok sha sha8 w l d (run_claimed sha sha8 wl w l ws d)"
proof -
  let ?d0 = "wt_others w 0 d" and ?t = "Some (wt_start w)"
  have run0: "store_run sha sha8 d ?d0" using others by (simp add: others_run_def)
  have keep0: "others_keep_results w \<Longrightarrow> results ?d0 = results d" by (simp add: others_keep_results_def)
  note ok0 = run_keeps(1) [OF run0 ok]
  have "turn_ok sha sha8 w l ?d0 (run_claimed sha sha8 wl w l ws d)"
  proof (cases "stopping ws")
    case True
    have "attempt_ended d1 l" if "abandon_attempt l ?t ''execution_not_started'' ?d0 = Inr (status, d1)"
      "status \<in> {LM_APPLIED, LM_ALREADY_APPLIED}" for status d1
      using abandon_attempt_ends [OF that(1) ok0 that(2)] unfolding attempt_ended_def by blast
    then show ?thesis
      using True
      by (cases "abandon_attempt l ?t ''execution_not_started'' ?d0")
        (auto simp: run_claimed_def Let_def ended_def intro!: turn_okI dest: step_abandon abandon_attempt_results split: if_split_asm)
  next
    case False
    show ?thesis
    proof (cases "mark_running l ?t ?d0")
      case (Inl e)
      then show ?thesis using False by (auto simp: run_claimed_def Let_def intro!: turn_okI)
    next
      case (Inr x)
      obtain status d1 where start: "mark_running l ?t ?d0 = Inr (status, d1)" using Inr by (cases x) auto
      note run1 = r_into_rtranclp [of "store_step sha sha8", OF step_mark_running [OF start]]
      note keep1 = mark_running_results [OF start]
      obtain lost d2 where renewal: "renew l (deadline_of w l) (wl_lease_duration wl) (min (l_lease_expires_at l) (deadline_of w l))
          (wt_beats w) d1 = (lost, d2)" by fastforce
      have run2: "store_run sha sha8 d1 d2"
        using renew_run [of "wt_beats w" sha sha8 d1 l "deadline_of w l"] renewal others unfolding others_run_def by (metis snd_conv)
      have keep2: "others_keep_results w \<Longrightarrow> results d2 = results d1"
        using renew_results [of "wt_beats w"] renewal unfolding others_keep_results_def by (metis snd_conv)
      let ?d3 = "wt_others w 1 d2"
      have "store_run sha sha8 d2 ?d3" using others by (simp add: others_run_def)
      with run1 run2 have run3: "store_run sha sha8 ?d0 ?d3" by (meson rtranclp_trans)
      have keep3: "others_keep_results w \<Longrightarrow> results ?d3 = results ?d0"
        using keep1 keep2 by (simp add: others_keep_results_def)
      let ?ws = "if wt_stuck w then request_stop (wl_shutdown_grace wl) (wt_stop_at w) ws else ws"
      let ?lost = "Inr (ended l R_LOST_LEASE None None) :: worker_outcome result"
      have turn: "run_claimed sha sha8 wl w l ws d =
          (if status \<noteq> LM_APPLIED then (?lost, release_active_lease l ws, d1)
           else if lost \<or> wt_stuck w then (?lost, release_active_lease l ?ws, ?d3) else finish_run sha sha8 w l ?ws ?d3)"
        using False start renewal by (simp add: run_claimed_def Let_def)
      have "turn_ok sha sha8 w l ?d0 (?lost, release_active_lease l ws, d1)"
        using run1 keep1 by (auto simp: ended_def intro!: turn_okI)
      moreover have "turn_ok sha sha8 w l ?d0 (?lost, release_active_lease l ?ws, ?d3)"
        using run3 keep3 by (auto simp: turn_ok_def ended_def)
      moreover have "turn_ok sha sha8 w l ?d0 (finish_run sha sha8 w l ?ws ?d3)"
        using finish_run_ok [OF run_keeps(1) [OF run3 ok0] others] run3 keep3 by (rule turn_ok_after)
      ultimately show ?thesis unfolding turn by (cases "wt_stuck w") simp_all
    qed
  qed
  then show ?thesis using run0 keep0 by (rule turn_ok_after)
qed


section \<open>Properties\<close>

text \<open>
  C0. Whatever a worker executes, however long it takes and whatever other callers do to the store
  meanwhile, one run of a claimed unit is a sequence of store operations that keeps the store
  well formed and leaves the worker free for the next unit. It reports a commit only of the value the
  execution returned before the deadline with the schema of the stage, and that value is then the
  stored result of the unit under this lease's attempt and fence. When it reports a commit, a failure
  or an abandonment the attempt is over: no later operation of anyone makes the lease current again.
  Without a commit, and unless someone else stores a result, the results are as they were.
\<close>

theorem worker_commits_what_it_ran:
  assumes run: "run_claimed sha sha8 wl w l ws d = (r, ws', d')" and ok: "store_ok d" and others: "others_run sha sha8 w"
  shows "store_run sha sha8 d d' \<and> store_ok d' \<and>
    (\<forall>out. r = Inr out \<longrightarrow> wo_lease out = Some l \<and> ws_active_lease ws' \<noteq> Some l \<and>
       (wo_status out = R_COMMITTED \<longrightarrow> commits_given w l d') \<and>
       (wo_status out \<in> {R_COMMITTED, R_FAILED, R_ABANDONED} \<longrightarrow> (\<forall>e. store_run sha sha8 d' e \<longrightarrow> \<not> lease_matches e l))) \<and>
    (others_keep_results w \<longrightarrow> (\<forall>out. r = Inr out \<longrightarrow> wo_status out \<noteq> R_COMMITTED) \<longrightarrow> results d' = results d)"
proof -
  have turn: "turn_ok sha sha8 w l d (r, ws', d')" using run_claimed_ok [OF ok others] run by metis
  then have run: "store_run sha sha8 d d'" by (simp add: turn_ok_def)
  note ok' = run_keeps(1) [OF run ok]
  show ?thesis using turn ok' attempt_ended_for_good [OF _ ok'] unfolding turn_ok_def by auto
qed

definition example_turn :: worker_turn where
  "example_turn = \<lparr>wt_start = 3000, wt_finish = 3600, wt_error_at = 3700, wt_record_at = 3800, wt_commit_at = 4000,
     wt_stop_at = 4100, wt_overdue = False,
     wt_beats = [\<lparr>bt_others = id, bt_now = 3200, bt_left = True, bt_later = 3300, bt_later_left = True\<rparr>],
     wt_stuck = False, wt_execute = (\<lambda>_. X_result example_result []), wt_others = (\<lambda>_. id)\<rparr>"

definition example_limits :: worker_limits where
  "example_limits = \<lparr>wl_lease_duration = 1000000, wl_shutdown_grace = 1000000, wl_heartbeat_interval = 333333\<rparr>"

definition idle_worker :: worker_state where
  "idle_worker = \<lparr>ws_stop_requested_at = None, ws_shutdown_deadline = None, ws_active_lease = None\<rparr>"

definition example_turn_run :: "(lease \<times> db \<times> worker_outcome \<times> worker_state \<times> db) result" where
  "example_turn_run =
     bindE (example_claim W_QUEUED) (\<lambda>(l, d).
     bindE (optE l ValueError) (\<lambda>l.
     let turn = run_claimed example_sha (\<lambda>_. 0) example_limits example_turn l idle_worker d
     in bindE (fst turn) (\<lambda>out. Inr (l, d, out, snd turn))))"

theorem worker_commits_what_it_ran_witness:
  "\<exists>l d out ws d'. example_turn_run = Inr (l, d, out, ws, d') \<and> wo_status out = R_COMMITTED \<and>
     map u_state (units d') = [U_COMMITTED, U_PENDING] \<and> commits_given example_turn l d' \<and> \<not> lease_matches d' l"
proof -
  have "succeeds_with example_turn_run (\<lambda>(l, d, out, ws, d'). store_ok d \<and> wo_status out = R_COMMITTED \<and>
      map u_state (units d') = [U_COMMITTED, U_PENDING])"
    by code_simp
  then obtain l d out ws d' where run: "example_turn_run = Inr (l, d, out, ws, d')" and ok: "store_ok d"
    and seen: "wo_status out = R_COMMITTED" "map u_state (units d') = [U_COMMITTED, U_PENDING]"
    by (auto elim!: succeeds_withE)
  have "run_claimed example_sha (\<lambda>_. 0) example_limits example_turn l idle_worker d = (Inr out, ws, d')"
    using run unfolding example_turn_run_def by (auto simp: tx_simps Let_def prod_eq_iff)
  moreover have "others_run example_sha (\<lambda>_. 0) example_turn" by (simp add: others_run_def example_turn_def)
  ultimately have "commits_given example_turn l d' \<and> \<not> lease_matches d' l"
    using worker_commits_what_it_ran [OF _ ok] seen(1) by blast
  with run seen show ?thesis by (intro exI [of _ l] exI [of _ d] exI [of _ out] exI [of _ ws] exI [of _ d'] conjI) simp_all
qed

end
