(* ===== verification/Spec2Isabelle.thy ===== *)
theory Spec2Isabelle
  imports Attempt_Properties Unit_Ledger Coordinator Workload_Properties Lanes_Properties Purge Reading
    Delivery_Properties Worker_Properties
begin

text \<open>
  Verification of the durable-workload kernel of metnos, \<open>src/runtime/durable_workloads/\<close>.

  \<^bold>\<open>The program.\<close> The kernel keeps long-running work in one SQLite database. An owner submits
  a draft (\<open>create_draft\<close>); admission (\<open>admit_revision\<close>) checks a plan against a sealed inventory
  of sources and inserts a revision with its stages and its first units; materialization
  (\<open>materialize_ready_units\<close>) adds the units of later stages from the results of earlier ones;
  workers claim units under fenced leases (\<open>claim_next\<close>), record what they run, and commit, fail or
  abandon their attempts; the coordinator reconciles expired leases, settles control states and
  budgets, and completes workloads whose checks hold. Every change is one transaction that also
  appends events and enqueues deliveries in an outbox with leases of its own.

  \<^bold>\<open>The model.\<close> \<open>Store_State\<close> has the database: a record per table with the columns the operations
  use, a clock reading and a counter of generated identifiers. An operation is a function from its
  arguments and the database to \<open>error + (result \<times> db)\<close>; a raised exception is \<open>Inl\<close> and, as in
  the code, leaves the database as it was. \<open>SELECT\<close>s are filters, sorts and prefixes of the table's
  rows, \<open>UPDATE ... WHERE\<close> is \<open>update_where\<close>, and a primary key or unique index that an operation can
  hit is an explicit \<open>IntegrityError\<close>. SHA-256 is a parameter of the functions that use it.

  \<^item> \<open>Prelude\<close>: tables as lists, error sequencing, the locales of row preorders, fenced leases and
    invariant systems that the components interpret.
  \<^item> \<open>Schema\<close>, \<open>Models\<close>, \<open>Coordinator\<close>: canonical JSON and digests (\<open>schema.py\<close>), enumerations and
    transition graphs (\<open>models.py\<close>), retry policy, capabilities and retry decision (\<open>coordinator.py\<close>).
  \<^item> \<open>Plan\<close>, \<open>Plan_Properties\<close>, \<open>Inventory\<close>: validation of plans and sealed inventories
    (\<open>schema.py\<close>): a plan that passes is well formed, the graph check is exactly acyclicity, and the
    streaming validation of an inventory agrees with reading it whole.
  \<^item> \<open>Evolution\<close>, \<open>Store_Invariant\<close>, \<open>Lease_Invariant\<close>: what every operation keeps of the rows, and the
    invariant of the store; \<open>txn\<close> is the contract each operation is shown to meet.
  \<^item> \<open>Outbox\<close>: events and deliveries. A delivery is handed to one worker at a time, stale workers are
    inert, pruning is safe.
  \<^item> \<open>Workloads\<close>, \<open>Workload_Properties\<close>: drafts, transitions, usage and settlement; transitions are
    compare-and-set, submissions idempotent, the queries of the periodic jobs exact.
  \<^item> \<open>Commands\<close>: owner commands with idempotency records.
  \<^item> \<open>Leasing\<close>, \<open>Lease_Properties\<close>, \<open>Attempts\<close>, \<open>Attempt_Properties\<close>: claims, attempts and their
    outcomes; claims respect budgets and reservations, stale leases are inert, commits meet the frozen
    contract.
  \<^item> \<open>Completion\<close>: the completion checks and the terminal transition.
  \<^item> \<open>Json_Decoder\<close>, \<open>Entries\<close>: the JSON decoder of the standard library on the values the kernel
    stores, and the scan of a payload entry by entry; reading gives back what was stored.
  \<^item> \<open>Materialization\<close>, \<open>Materialization_Properties\<close>: the units of a stage, the durable cursor and
    hierarchical reduction; caps, counts and keys are kept and every step moves the cursor.
  \<^item> \<open>Admission\<close>, \<open>Admission_Properties\<close>: \<open>admit_revision\<close> as a whole, with the exact units and
    counts every stage starts with.
  \<^item> \<open>Materialization_Pass\<close>: the periodic pass over the ready stages of all workloads; while one is ready
    it progresses.
  \<^item> \<open>Adoption\<close>, \<open>Adoption_Properties\<close>: \<open>adopt_reusable_results\<close>, which commits a result of an earlier
    revision to an untouched unit with the same key and contract; it invents no result.
  \<^item> \<open>Execution_Inputs\<close>, \<open>Execution_Inputs_Properties\<close>: what an attempt reads (\<open>execution_inputs\<close>) and the
    selected results of earlier revisions (\<open>read_committed_entries\<close>); a shard reads its own entry, a
    reduction the group it was planned with, and the bytes are accounted once.
  \<^item> \<open>Lanes\<close>, \<open>Lanes_Properties\<close>: \<open>service_lane_demand\<close>, an upper bound on the units that could run
    together, and the memory of an idle database.
  \<^item> \<open>Reading\<close>, \<open>Purge\<close>: the readers of events, revisions and units, and the deletion of an owner.
  \<^item> \<open>Delivery\<close>, \<open>Delivery_Properties\<close>: the delivery of notices (\<open>TelegramOutboxAdapter\<close> of \<open>events.py\<close>), one
    call at a time; however the calls of several adapters are interleaved with each other and with the
    rest of the kernel, and wherever one stops, no notice is sent again unless the provider said that
    nothing was sent. The provider, the resolvers of recipients and the message catalog are parameters.
  \<^item> \<open>Worker\<close>, \<open>Worker_Properties\<close>: the worker (\<open>DurableWorker\<close> of \<open>worker.py\<close>) around one unit: start, renewal of
    the lease while the unit is executed, and the end by commit, failure or abandonment. What is
    executed, the clock readings and what others do to the store meanwhile are parameters.
  \<^item> \<open>Runs\<close>, \<open>Unit_Ledger\<close> and this theory: the operations as a transition system in any order and
    with any clock readings, the invariant of all runs, the refinement of an abstract ledger of
    fenced claims, and the properties that span components: exactly-once commits, idempotent
    commands for ever, lost leases that stay lost, append-only history.

  \<^bold>\<open>Bounds and termination.\<close> Loops over rows are structural. \<open>materialize_steps\<close> recurses on the
  batch limit of the caller, as the loop does. The scanners of \<open>Json_Decoder\<close> and \<open>Entries\<close> and the graph
  search of \<open>Plan\<close> are total functions with their termination proofs. Integers are Python's, with the
  64-bit limits of SQLite written out where the code meets them. JSON numbers are integers and
  characters have code points below 256: the kernel stores no floating-point numbers of its own, and
  the byte counts use the UTF-8 length of each character.

  \<^bold>\<open>Not modelled.\<close> \<open>purge_owner\<close> is modelled but is not a step of the runs, whose properties say that
  history is kept. Left out are migrations of old databases; the columns no modelled operation reads;
  the progress and activity summaries; artifacts on disk; the service loop, control and HTTP surface
  around the store; the pairing records behind the resolver of recipients; the compiler of requests into plans; the agent runtime and the programs in other
  languages. Except for the summaries and the compiler these are input and output, threads, or calls
  to services.
\<close>

section \<open>Idempotence and exactly-once behaviour along runs\<close>

text \<open>
  C8. Owner commands are idempotent for ever: once a command succeeded under an
  idempotency key, repeating it on any store a later run of operations
  leads to returns the recorded result and changes
  nothing, and using the key for a command with another name or another payload digest
  raises an idempotency conflict.
\<close>

theorem control_replay:
  assumes "control sha owner wid command key expected now d = Inr (r, d1)" and "store_run h h8 d1 d2" and "store_ok d1"
  shows "control sha owner wid command key expected now' d2 = Inr (r, d2) \<and>
    (\<forall>command' expected' digest'. 1 \<le> expected' \<longrightarrow> command_digest sha command' expected' = Inr digest' \<longrightarrow>
       command' \<noteq> command \<or> command_digest sha command expected \<noteq> Inr digest' \<longrightarrow>
       control sha owner wid command' key expected' now' d2 = Inl IdempotencyConflictError)"
proof -
  obtain digest row where digest: "command_digest sha command expected = Inr digest"
    and stored: "find (command_at owner wid key) (commands d1) = Some row"
    and row: "k_command row = command" "k_payload_digest row = digest" "k_result row = r"
    using control_recorded [OF assms(1)] by blast
  have found: "find (command_at owner wid key) (commands d2) = Some row"
    by (rule find_frozen [OF core_evolvesD(8) [OF run_keeps(2) [OF assms(2,3)]] stored])
  have args: "require_owner owner = Inr owner" "require_key key 256 = Inr key"
    using control_args [OF assms(1)] by auto
  have "require_version expected = Inr expected"
    using assms(1) unfolding control_def tx_simps by (auto simp: require_version_def split: if_splits)
  then show ?thesis
    using args digest found row
    by (auto simp: control_def existing_command_def require_version_def)
qed

theorem control_replay_witness:
  "\<exists>r d1. control example_sha ''owner'' ''wkl_00000001'' ''pause'' ''key-1'' 3 None (example_store W_QUEUED) = Inr (r, d1) \<and>
     wr_state r = W_PAUSED \<and>
     control example_sha ''owner'' ''wkl_00000001'' ''pause'' ''key-1'' 3 None d1 = Inr (r, d1)"
proof -
  have "succeeds_with (control example_sha ''owner'' ''wkl_00000001'' ''pause'' ''key-1'' 3 None (example_store W_QUEUED))
      (\<lambda>(r, d1). wr_state r = W_PAUSED \<and> store_ok d1)"
    by code_simp
  then obtain r d1 where
    run: "control example_sha ''owner'' ''wkl_00000001'' ''pause'' ''key-1'' 3 None (example_store W_QUEUED) = Inr (r, d1)"
    and "wr_state r = W_PAUSED" and ok: "store_ok d1"
    by (auto elim!: succeeds_withE)
  then show ?thesis
    using control_replay [OF run rtranclp.rtrancl_refl ok, of None]
    by (intro exI [of _ r] exI [of _ d1] conjI) auto
qed

text \<open>
  C12. A result is committed at most once and for good. After a commit that reports success
  the unit has exactly one result, the one committed, on the store it left and on every store a run of
  operations leads to. Committing again under the same lease returns that result, as a replay when the digest
  is the same and as a conflict otherwise; any other lease of the unit is told it is stale;
  and none of these calls changes the store.
\<close>

theorem commit_exactly_once:
  assumes run: "commit_result sha l v deps now d = Inr (out, d1)" and status: "co_status out = CS_COMMITTED"
    and ok: "store_ok d" and later: "store_run h h8 d1 d2"
    and ids: "list_all id_re deps'" "distinct deps'"
    and same: "l_owner_user_id l' = l_owner_user_id l" "l_unit_id l' = l_unit_id l"
  shows "\<exists>x. [y \<leftarrow> results d2. x_owner y = l_owner_user_id l \<and> x_unit y = l_unit_id l] = [x] \<and>
    co_result_id out = Some (x_id x) \<and> x_digest x = vr_digest v \<and> x_payload x = vr_payload v \<and>
    (\<exists>replay. commit_result sha' l' v' deps' now' d2 = Inr (replay, d2) \<and> co_result_id replay = Some (x_id x) \<and>
       co_winning_digest replay = Some (vr_digest v) \<and>
       co_status replay =
         (if l_attempt_id l' \<noteq> l_attempt_id l \<or> l_fence l' \<noteq> l_fence l then CS_STALE_FENCE
          else if vr_digest v' = vr_digest v then CS_IDEMPOTENT_REPLAY else CS_DIGEST_CONFLICT))"
proof -
  let ?P = "\<lambda>x. x_owner x = l_owner_user_id l \<and> x_unit x = l_unit_id l"
  obtain x where stored: "find ?P (results d1) = Some x"
    and x: "x_attempt x = l_attempt_id l" "x_fence x = l_fence l" "x_digest x = vr_digest v"
      "x_payload x = vr_payload v" "co_result_id out = Some (x_id x)"
    by (rule commit_stores_result [OF run status ok])
  note kept = run_keeps [OF later txn_keeps [OF commit_result_txn [OF run ok] ok]]
  have found: "find ?P (results d2) = Some x"
    by (rule find_frozen [OF core_evolvesD(6) [OF kept(2)] stored])
  have "distinct (map (\<lambda>y. (x_owner y, x_unit y)) (results d2))"
    using kept(1) by (simp add: store_ok_def keys_ok_def)
  then have "[y \<leftarrow> results d2. ?P y] = [x]"
    using find_SomeD [OF found] by (intro filter_by_key [where key = "\<lambda>y. (x_owner y, x_unit y)"]) auto
  moreover have "commit_result sha' l' v' deps' now' d2 = Inr (existing_commit l' v' x, d2)"
    using found ids same by (simp add: commit_result_def Let_def)
  ultimately show ?thesis
    using x by (intro exI [of _ x]) (auto simp: existing_commit_def)
qed

theorem commit_exactly_once_witness:
  "\<exists>l d out d'. example_commit = Inr (l, d, out, d') \<and> map u_state (units d') = [U_COMMITTED, U_PENDING] \<and>
     (\<exists>replay. commit_result example_sha l example_result [] (Some 5000) d' = Inr (replay, d') \<and>
        co_status replay = CS_IDEMPOTENT_REPLAY)"
proof -
  obtain l d out d' where run: "example_commit = Inr (l, d, out, d')" and ok: "store_ok d" "store_ok d'"
    and commit: "commit_result example_sha l example_result [] (Some 4000) d = Inr (out, d')"
    and out: "co_status out = CS_COMMITTED" "map u_state (units d') = [U_COMMITTED, U_PENDING]"
    by (rule example_commit_run)
  show ?thesis
    using run out(2) commit_exactly_once [OF commit out(1) ok(1) rtranclp.rtrancl_refl,
        of "[]" l example_sha example_result "Some 5000"]
    by (intro exI [of _ l] exI [of _ d] exI [of _ out] exI [of _ d']) auto
qed




section \<open>Whole runs\<close>

text \<open>A run of the examples: a claim, the start of execution and a commit.\<close>

lemma example_run:
  obtains l d out d' where "example_commit = Inr (l, d, out, d')" and "store_ok (example_store W_QUEUED)"
    and "store_run example_sha (\<lambda>_. 0) (example_store W_QUEUED) d" and "store_run example_sha (\<lambda>_. 0) d d'"
    and "co_status out = CS_COMMITTED" and "map u_state (units d') = [U_COMMITTED, U_PENDING]" and "store_ok d'"
proof -
  obtain l d out d' where run: "example_commit = Inr (l, d, out, d')" and ok: "store_ok d" "store_ok d'"
    and commit: "commit_result example_sha l example_result [] (Some 4000) d = Inr (out, d')"
    and out: "co_status out = CS_COMMITTED" "map u_state (units d') = [U_COMMITTED, U_PENDING]"
    by (rule example_commit_run)
  have ok0: "store_ok (example_store W_QUEUED)" by code_simp
  from run have "example_running = Inr (l, d)"
    by (auto simp: example_commit_def tx_simps split: prod.splits)
  then obtain d1 st where "example_claim W_QUEUED = Inr (Some l, d1)" and "mark_running l (Some 3000) d1 = Inr (st, d)"
    unfolding example_running_def by (auto simp: tx_simps)
  then have r1: "store_run example_sha (\<lambda>_. 0) (example_store W_QUEUED) d"
    unfolding example_claim_def
    by (blast intro: converse_rtranclp_into_rtranclp step_claim step_mark_running)
  have r2: "store_run example_sha (\<lambda>_. 0) d d'"
    using step_commit [OF commit] by blast
  show ?thesis by (rule that [OF run ok0 r1 r2 out ok(2)])
qed

text \<open>The invariant read off the rows.\<close>

lemma unit_live_iff:
  assumes ok: "store_ok d" and u: "u \<in> set (units d)"
  shows "u_state u \<in> {U_LEASED, U_RUNNING} \<longleftrightarrow>
    (\<exists>a \<in> set (attempts d). live_attempt a \<and> attempt_of u a \<and> a_ended_at a = None)" (is "?live \<longleftrightarrow> ?held")
proof
  have ended: "live_attempt a \<Longrightarrow> a \<in> set (attempts d) \<Longrightarrow> a_ended_at a = None" for a
    using ok by (auto simp: store_ok_def attempts_ok_def)
  note leases = leases_okD(1) [of "units d" "attempts d" u]
  assume ?live
  then show ?held
    using ok u leases ended leased_alike_live by (auto simp: store_ok_def idle_unit_def live_unit_def)
next
  assume ?held
  then show ?live
    using ok u leases_ok_live [of "units d" "attempts d" u]
    by (auto simp: store_ok_def idle_unit_def live_unit_def attempt_of_def)
qed

lemma unit_committed_iff:
  assumes "store_ok d" and "u \<in> set (units d)"
  shows "u_state u = U_COMMITTED \<longleftrightarrow>
    (\<exists>x \<in> set (results d). x_owner x = u_owner u \<and> x_unit x = u_id u \<and> u_committed_result u = Some (x_id x))"
  using assms unfolding store_ok_def results_ok_def by fastforce

lemma lease_matches_unit:
  assumes "lease_matches d l" and ok: "store_ok d"
  obtains v where "v \<in> set (units d)" and "leased_unit_at l v" and "live_unit v"
proof -
  obtain row a where row: "matched_row d l = Some (row, a)"
    using assms(1) unfolding lease_matches_def by (cases "matched_row d l") auto
  note r = matched_rowD [OF row]
  have "live_unit (lr_unit row)"
    using leases_ok_live [of "units d" "attempts d" "lr_unit row"] ok r(1,4)
    by (auto simp: store_ok_def idle_unit_def leased_unit_at_def)
  with r that show ?thesis by blast
qed

lemma one_holder:
  assumes ok: "store_ok d" and "lease_matches d k" "lease_matches d m"
    and "l_owner_user_id k = l_owner_user_id m" "l_unit_id k = l_unit_id m"
  shows "l_worker_id k = l_worker_id m \<and> l_attempt_id k = l_attempt_id m \<and> l_fence k = l_fence m"
proof -
  obtain v where v: "v \<in> set (units d)" "leased_unit_at k v" by (rule lease_matches_unit [OF assms(2) ok])
  obtain w where w: "w \<in> set (units d)" "leased_unit_at m w" by (rule lease_matches_unit [OF assms(3) ok])
  have "w = v"
    using pk_unique(1) [OF store_keys(1) [OF ok] v(1) w(1)] v(2) w(2) assms(4,5)
    by (simp add: leased_unit_at_def unit_at_def)
  with v(2) w(2) show ?thesis by (simp add: leased_unit_at_def)
qed

text \<open>
  C16. The consistency of the store is an invariant of the kernel: it holds of an empty store
  and after any run of operations, whoever calls them and in whatever order. Keys stay unique,
  every workload's events are numbered without gaps, a unit is leased or running exactly while
  one live attempt carries its worker and fence, and a unit is committed exactly when it owns
  its one result.
\<close>

theorem store_invariant:
  assumes "store_ok d \<or> d = empty_store t" and "store_run sha sha8 d e"
  shows "distinct (map workload_pk (workloads e)) \<and> distinct (map unit_pk (units e)) \<and>
    distinct (map (\<lambda>x. (x_owner x, x_unit x)) (results e)) \<and>
    (\<forall>w \<in> set (workloads e). map e_id (filter (event_of w) (events e)) = [1..w_next_event_id w - 1]) \<and>
    (\<forall>u \<in> set (units e). (u_state u \<in> {U_LEASED, U_RUNNING}) =
       (\<exists>a \<in> set (attempts e). live_attempt a \<and> attempt_of u a \<and> a_ended_at a = None)) \<and>
    (\<forall>u \<in> set (units e). (u_state u = U_COMMITTED) =
       (\<exists>x \<in> set (results e). x_owner x = u_owner u \<and> x_unit x = u_id u \<and> u_committed_result u = Some (x_id x)))"
proof -
  have ok: "store_ok e" using assms run_keeps(1) empty_store_ok by blast
  moreover from ok have "keys_ok e" "events_ok (workloads e) (events e)" by (simp_all add: store_ok_def)
  ultimately show ?thesis
    using unit_live_iff [OF ok] unit_committed_iff [OF ok] by (simp add: keys_ok_def events_ok_def event_ids_ok_def)
qed

theorem store_invariant_witness:
  "\<exists>l d out d'. example_commit = Inr (l, d, out, d') \<and> map u_state (units d') = [U_COMMITTED, U_PENDING] \<and>
     (\<exists>x \<in> set (results d'). u_committed_result (units d' ! 0) = Some (x_id x)) \<and>
     distinct (map (\<lambda>x. (x_owner x, x_unit x)) (results d'))"
proof -
  obtain l d out d' where run: "example_commit = Inr (l, d, out, d')" and ok: "store_ok (example_store W_QUEUED)"
    and steps: "store_run example_sha (\<lambda>_. 0) (example_store W_QUEUED) d" "store_run example_sha (\<lambda>_. 0) d d'"
    and seen: "map u_state (units d') = [U_COMMITTED, U_PENDING]"
    by (rule example_run)
  have first: "units d' ! 0 \<in> set (units d')" "u_state (units d' ! 0) = U_COMMITTED"
    using seen by (cases "units d'"; simp)+
  note inv = store_invariant [OF disjI1 [OF ok] rtranclp_trans [OF steps]]
  from inv first have "\<exists>x \<in> set (results d'). u_committed_result (units d' ! 0) = Some (x_id x)" by blast
  with inv run seen show ?thesis by (intro exI [of _ l] exI [of _ d] exI [of _ out] exI [of _ d']) simp
qed

text \<open>
  C17. The kernel implements the ledger of units. Along every run the row of a unit keeps its
  identity, and the lease state the abstract machine sees of it moves only along the machine's
  steps: a claim under a larger fence, a release, a commit or a closing. So a fence is never
  used by two holders, and a committed or closed unit stays so, with the same result.
\<close>

theorem run_refines_ledger:
  assumes run: "store_run sha sha8 d e" and ok: "store_ok d" and i: "i < length (units d)"
  shows "i < length (units e) \<and> unit_pk (units e ! i) = unit_pk (units d ! i) \<and>
    ledger_path (ledger_of (units d ! i)) (ledger_of (units e ! i)) \<and>
    (\<forall>r. ledger_of (units d ! i) = Committed r \<longrightarrow> ledger_of (units e ! i) = Committed r) \<and>
    (\<forall>h k f. ledger_of (units d ! i) = Held h f \<and> ledger_of (units e ! i) = Held k f \<longrightarrow> k = h)"
proof -
  note r = run_units [OF run ok i]
  have "u_state (units d ! i) = U_COMMITTED \<Longrightarrow> u_committed_result (units d ! i) \<noteq> None"
    using unit_committed_iff [OF ok, of "units d ! i"] i by fastforce
  from unit_path [OF r(2) this] have path: "ledger_path (ledger_of (units d ! i)) (ledger_of (units e ! i))" .
  moreover have "\<forall>r. ledger_of (units d ! i) = Committed r \<longrightarrow> ledger_of (units e ! i) = Committed r"
    using path by (auto dest: committed_path)
  moreover have "\<forall>h k f. ledger_of (units d ! i) = Held h f \<and> ledger_of (units e ! i) = Held k f \<longrightarrow> k = h"
  proof (intro allI impI, elim conjE)
    fix h k f
    assume "ledger_of (units d ! i) = Held h f" and "ledger_of (units e ! i) = Held k f"
    with path show "k = h" by (intro held_path_holder) simp
  qed
  moreover have "unit_pk (units e ! i) = unit_pk (units d ! i)" using r(2) by (simp add: unit_evolves_def)
  ultimately show ?thesis using r(1) by (intro conjI)
qed

theorem run_refines_ledger_witness:
  "\<exists>l d out d'. example_commit = Inr (l, d, out, d') \<and>
     ledger_of (units (example_store W_QUEUED) ! 0) = Open 0 \<and> ledger_path (Open 0) (ledger_of (units d' ! 0)) \<and>
     ledger_of (units d' ! 0) = Committed (u_committed_result (units d' ! 0))"
proof -
  obtain l d out d' where run: "example_commit = Inr (l, d, out, d')" and ok: "store_ok (example_store W_QUEUED)"
    and steps: "store_run example_sha (\<lambda>_. 0) (example_store W_QUEUED) d" "store_run example_sha (\<lambda>_. 0) d d'"
    and seen: "map u_state (units d') = [U_COMMITTED, U_PENDING]"
    by (rule example_run)
  have start: "0 < length (units (example_store W_QUEUED))" "ledger_of (units (example_store W_QUEUED) ! 0) = Open 0"
    by code_simp+
  have "u_state (units d' ! 0) = U_COMMITTED" using seen by (cases "units d'") simp_all
  then show ?thesis
    using run start(2) run_refines_ledger [OF rtranclp_trans [OF steps] ok start(1)]
    by (intro exI [of _ l] exI [of _ d] exI [of _ out] exI [of _ d']) (simp add: ledger_of_def)
qed

text \<open>
  C18. A lease that was lost is never regained, and a unit has one holder at a time. When the
  row of a unit has reached the fence of a lease without being held under it, no later store
  recognises the lease; and two leases of a unit that a store recognises are those of the same
  worker, attempt and fence.
\<close>

theorem lost_lease_stays_lost:
  assumes run: "store_run sha sha8 d e" and ok: "store_ok d"
    and u: "u \<in> set (units d)" "unit_at (l_owner_user_id l) (l_unit_id l) u"
    and lost: "l_fence l \<le> u_fence u" "\<not> (live_unit u \<and> leased_unit_at l u)"
  shows "\<not> lease_matches e l \<and>
    (\<forall>k m. lease_matches e k \<and> lease_matches e m \<and> l_owner_user_id k = l_owner_user_id m \<and> l_unit_id k = l_unit_id m \<longrightarrow>
       l_worker_id k = l_worker_id m \<and> l_attempt_id k = l_attempt_id m \<and> l_fence k = l_fence m)"
proof -
  note ok' = run_keeps(1) [OF run ok]
  have "\<not> lease_matches e l"
  proof
    assume "lease_matches e l"
    then obtain v where v: "v \<in> set (units e)" "leased_unit_at l v" "live_unit v"
      by (rule lease_matches_unit [OF _ ok'])
    have "unit_evolves u v"
      using unit_index [OF run ok u(1) v(1)] u(2) v(2) by (simp add: leased_unit_at_def unit_at_def)
    then have "live_unit u \<and> leased_unit_at l u"
      using lost(1) v(2,3) u(2) by (auto simp: unit_evolves_def fence_evolves_def leased_unit_at_def)
    with lost(2) show False by simp
  qed
  moreover note one_holder [OF ok']
  ultimately show ?thesis by blast
qed

theorem lost_lease_stays_lost_witness:
  "\<exists>l d out d'. example_commit = Inr (l, d, out, d') \<and> lease_matches d l \<and> \<not> lease_matches d' l"
proof -
  have "succeeds_with example_commit (\<lambda>(l, d, out, d'). store_ok d' \<and> lease_matches d l \<and> units d' \<noteq> [] \<and>
      unit_at (l_owner_user_id l) (l_unit_id l) (units d' ! 0) \<and> l_fence l \<le> u_fence (units d' ! 0) \<and>
      \<not> (live_unit (units d' ! 0) \<and> leased_unit_at l (units d' ! 0)))"
    by code_simp
  then obtain l d out d' where run: "example_commit = Inr (l, d, out, d')" and ok: "store_ok d'" and m: "lease_matches d l"
    and u: "units d' \<noteq> []" "unit_at (l_owner_user_id l) (l_unit_id l) (units d' ! 0)"
    and lost: "l_fence l \<le> u_fence (units d' ! 0)" "\<not> (live_unit (units d' ! 0) \<and> leased_unit_at l (units d' ! 0))"
    by (auto elim!: succeeds_withE)
  have "units d' ! 0 \<in> set (units d')" using u(1) by simp
  from lost_lease_stays_lost [OF rtranclp.rtrancl_refl ok this u(2) lost] run m show ?thesis by blast
qed

text \<open>
  C19. The history of a workload is append-only and its end is final. Along every run the event
  log, the results and the recorded commands only grow at their ends; a workload keeps its
  identity and its request, moves only along the graph of its states, raises its version with
  every change of state, and never leaves a terminal state; an ended attempt is never rewritten.
\<close>

theorem history_is_append_only:
  assumes run: "store_run sha sha8 d e" and ok: "store_ok d"
  shows "(\<exists>es. events e = events d @ es) \<and> (\<exists>xs. results e = results d @ xs) \<and> (\<exists>ks. commands e = commands d @ ks) \<and>
    (\<forall>i < length (workloads d). i < length (workloads e) \<and>
       workload_pk (workloads e ! i) = workload_pk (workloads d ! i) \<and>
       w_request_digest (workloads e ! i) = w_request_digest (workloads d ! i) \<and>
       workload_path (w_state (workloads d ! i)) (w_state (workloads e ! i)) \<and>
       (terminal_workload (w_state (workloads d ! i)) \<longrightarrow> w_state (workloads e ! i) = w_state (workloads d ! i)) \<and>
       (w_state (workloads e ! i) \<noteq> w_state (workloads d ! i) \<longrightarrow>
          w_version (workloads d ! i) < w_version (workloads e ! i))) \<and>
    (\<forall>a \<in> set (attempts d). a_ended_at a \<noteq> None \<longrightarrow> a \<in> set (attempts e))"
proof -
  note ev = core_evolvesD [OF run_keeps(2) [OF run ok]]
  have rows: "i < length (workloads e) \<and> workload_evolves (workloads d ! i) (workloads e ! i)"
    if "i < length (workloads d)" for i
    using ev(1) that by (auto simp: rows_evolve_def)
  have "\<forall>i < length (workloads d). i < length (workloads e) \<and>
       workload_pk (workloads e ! i) = workload_pk (workloads d ! i) \<and>
       w_request_digest (workloads e ! i) = w_request_digest (workloads d ! i) \<and>
       workload_path (w_state (workloads d ! i)) (w_state (workloads e ! i)) \<and>
       (terminal_workload (w_state (workloads d ! i)) \<longrightarrow> w_state (workloads e ! i) = w_state (workloads d ! i)) \<and>
       (w_state (workloads e ! i) \<noteq> w_state (workloads d ! i) \<longrightarrow>
          w_version (workloads d ! i) < w_version (workloads e ! i))"
    using rows terminal_path by (simp add: workload_evolves_def)
  then show ?thesis
    using frozen_prefix [OF ev(7)] frozen_prefix [OF ev(6)] frozen_prefix [OF ev(8)] ended_attempt_kept [OF ev(5)]
    by blast
qed

theorem history_is_append_only_witness:
  "\<exists>l d out d'. example_commit = Inr (l, d, out, d') \<and> (\<exists>es. events d' = events (example_store W_QUEUED) @ es) \<and>
     workload_path W_QUEUED (w_state (workloads d' ! 0))"
proof -
  obtain l d out d' where run: "example_commit = Inr (l, d, out, d')" and ok: "store_ok (example_store W_QUEUED)"
    and steps: "store_run example_sha (\<lambda>_. 0) (example_store W_QUEUED) d" "store_run example_sha (\<lambda>_. 0) d d'"
    by (rule example_run)
  have start: "0 < length (workloads (example_store W_QUEUED))" "w_state (workloads (example_store W_QUEUED) ! 0) = W_QUEUED"
    by (simp_all add: example_store_def)
  show ?thesis
    using run start history_is_append_only [OF rtranclp_trans [OF steps] ok]
    by (intro exI [of _ l] exI [of _ d] exI [of _ out] exI [of _ d']) metis
qed

end
